(* ===== verification/Js_Prelude.thy ===== *)
theory Js_Prelude
  imports Main "HOL-Library.Sublist"
begin

text \<open>
  The JavaScript values, objects and string operations that every component of the client
  uses, with the generic lemmas about them.  A number is an integer or NaN; a string is a
  list of bytes (UTF-8), an object is an association list in insertion order, which is the
  order in which a for-in loop visits the names the client uses.  An exception is an
  \<open>Inl\<close> of \<open>jserr\<close>.
\<close>

section \<open>Values\<close>

datatype jsval =
    JUndef
  | JNull
  | JBool bool
  | JNum int
  | JNaN
  | JStr string
  | JArr "jsval list"
  | JObj "(string \<times> jsval) list"

type_synonym jsobj = "(string \<times> jsval) list"

datatype jserr = TypeError | ReferenceError | Thrown string

type_synonym 'a res = "jserr + 'a"

named_theorems js_defs \<open>definitions of the JavaScript primitives\<close>
named_theorems js_laws \<open>algebraic laws of the JavaScript primitives\<close>

fun typeof :: "jsval \<Rightarrow> string" where
  "typeof JUndef = ''undefined''"
| "typeof JNull = ''object''"
| "typeof (JBool _) = ''boolean''"
| "typeof (JNum _) = ''number''"
| "typeof JNaN = ''number''"
| "typeof (JStr _) = ''string''"
| "typeof (JArr _) = ''object''"
| "typeof (JObj _) = ''object''"

fun truthy :: "jsval \<Rightarrow> bool" where
  "truthy JUndef = False"
| "truthy JNull = False"
| "truthy (JBool b) = b"
| "truthy (JNum n) = (n \<noteq> 0)"
| "truthy JNaN = False"
| "truthy (JStr s) = (s \<noteq> [])"
| "truthy (JArr _) = True"
| "truthy (JObj _) = True"

fun nullish :: "jsval \<Rightarrow> bool" where
  "nullish JUndef = True"
| "nullish JNull = True"
| "nullish _ = False"

lemma truthy_not_nullish [simp]: "truthy v \<Longrightarrow> \<not> nullish v"
  by (cases v) auto

lemma nullish_iff: "nullish v \<longleftrightarrow> v = JUndef \<or> v = JNull"
  by (cases v) auto

lemma typeof_undefined_iff [simp]: "typeof v = ''undefined'' \<longleftrightarrow> v = JUndef"
  by (cases v) auto

section \<open>Numbers and strings\<close>

definition digit_char :: "nat \<Rightarrow> char" where
  "digit_char d = char_of (48 + d)"

definition is_digit :: "char \<Rightarrow> bool" where
  "is_digit c \<longleftrightarrow> 48 \<le> (of_char c :: nat) \<and> (of_char c :: nat) \<le> 57"

definition digit_val :: "char \<Rightarrow> nat" where
  "digit_val c = of_char c - 48"

lemma digit_roundtrip [simp]: "d < 10 \<Longrightarrow> digit_val (digit_char d) = d"
  by (simp add: digit_val_def digit_char_def of_char_of)

lemma digit_char_is_digit [simp]: "d < 10 \<Longrightarrow> is_digit (digit_char d)"
  by (simp add: is_digit_def digit_char_def of_char_of)

fun show_nat :: "nat \<Rightarrow> string" where
  "show_nat n = (if n < 10 then [digit_char n] else show_nat (n div 10) @ [digit_char (n mod 10)])"

declare show_nat.simps [simp del]

lemma show_nat_digits: "list_all is_digit (show_nat n)"
proof (induction n rule: show_nat.induct)
  case (1 n)
  then show ?case
    by (subst show_nat.simps) (auto simp: list_all_append)
qed

lemma show_nat_nonempty [simp]: "show_nat n \<noteq> []"
  by (subst show_nat.simps) auto

definition digits_val :: "string \<Rightarrow> nat" where
  "digits_val ds = foldl (\<lambda>a c. a * 10 + digit_val c) 0 ds"

lemma digits_val_show_nat [simp]: "digits_val (show_nat n) = n"
proof (induction n rule: show_nat.induct)
  case (1 n)
  show ?case
  proof (cases "n < 10")
    case True
    then show ?thesis by (subst show_nat.simps) (simp add: digits_val_def)
  next
    case False
    with "1" have "digits_val (show_nat (n div 10)) = n div 10" by simp
    with False show ?thesis
      by (subst show_nat.simps) (simp add: digits_val_def)
  qed
qed

definition show_int :: "int \<Rightarrow> string" where
  "show_int i = (if i < 0 then CHR ''-'' # show_nat (nat (- i)) else show_nat (nat i))"

text \<open>
  The global function \<open>parseInt(s, 10)\<close>: leading blanks and a sign are skipped, the longest
  run of digits is read, and no digit at all is NaN, here \<open>None\<close>.
\<close>

definition is_blank :: "char \<Rightarrow> bool" where
  "is_blank c \<longleftrightarrow> c = CHR '' '' \<or> c = CHR 0x09 \<or> c = CHR 0x0A \<or> c = CHR 0x0D"

definition parse_digits :: "string \<Rightarrow> int option" where
  "parse_digits s =
     (let ds = takeWhile is_digit s in if ds = [] then None else Some (int (digits_val ds)))"

definition parse_int :: "string \<Rightarrow> int option" where
  "parse_int s =
     (case dropWhile is_blank s of
        [] \<Rightarrow> None
      | c # cs \<Rightarrow>
          if c = CHR ''-'' then map_option uminus (parse_digits cs)
          else if c = CHR ''+'' then parse_digits cs
          else parse_digits (c # cs))"

lemma takeWhile_show_nat [simp]: "takeWhile is_digit (show_nat n) = show_nat n"
  using show_nat_digits [of n] by (simp add: takeWhile_eq_all_conv list_all_iff)

lemma parse_digits_show_nat [simp]: "parse_digits (show_nat n) = Some (int n)"
  by (simp add: parse_digits_def Let_def)

lemma show_nat_hd_digit: "is_digit (hd (show_nat n))"
  using show_nat_digits [of n] show_nat_nonempty [of n]
  by (cases "show_nat n") auto

lemma digit_not_special:
  "is_digit c \<Longrightarrow> \<not> is_blank c \<and> c \<noteq> CHR ''-'' \<and> c \<noteq> CHR ''+''"
  by (auto simp: is_digit_def is_blank_def)

lemma parse_int_show_nat [simp]: "parse_int (show_nat n) = Some (int n)"
proof -
  obtain c cs where s: "show_nat n = c # cs"
    using show_nat_nonempty [of n] by (cases "show_nat n") auto
  then have "is_digit c" using show_nat_hd_digit [of n] by simp
  then have "\<not> is_blank c \<and> c \<noteq> CHR ''-'' \<and> c \<noteq> CHR ''+''" by (rule digit_not_special)
  moreover have "parse_digits (c # cs) = Some (int n)"
    using parse_digits_show_nat [of n] s by simp
  ultimately show ?thesis by (simp add: parse_int_def s)
qed

lemma parse_int_show_int [simp, js_laws]: "parse_int (show_int i) = Some i"
proof (cases "i < 0")
  case True
  then show ?thesis by (simp add: show_int_def parse_int_def is_blank_def)
next
  case False
  then show ?thesis by (simp add: show_int_def)
qed

lemma show_int_inj [simp]: "show_int i = show_int j \<longleftrightarrow> i = j"
  by (metis option.inject parse_int_show_int)

section \<open>Strings\<close>

fun index_of :: "string \<Rightarrow> string \<Rightarrow> nat option" where
  "index_of p [] = (if p = [] then Some 0 else None)"
| "index_of p (c # s) =
     (if prefix p (c # s) then Some 0 else map_option Suc (index_of p s))"

definition contains :: "string \<Rightarrow> string \<Rightarrow> bool" where
  "contains p s \<longleftrightarrow> index_of p s \<noteq> None"

lemma contains_iff: "contains p s \<longleftrightarrow> sublist p s"
proof (induction s)
  case Nil
  then show ?case by (simp add: contains_def)
next
  case (Cons c s)
  then show ?case by (simp add: contains_def sublist_Cons_right)
qed

lemma index_of_0_iff [simp]: "index_of p s = Some 0 \<longleftrightarrow> prefix p s"
  by (cases s) auto

lemma index_of_prefix: "index_of p s = Some n \<Longrightarrow> prefix p (drop n s)"
proof (induction s arbitrary: n)
  case Nil
  then show ?case by (auto split: if_splits)
next
  case (Cons c s)
  then show ?case by (auto split: if_splits)
qed

fun join :: "string \<Rightarrow> string list \<Rightarrow> string" where
  "join sep [] = []"
| "join sep [x] = x"
| "join sep (x # y # ys) = x @ sep @ join sep (y # ys)"

fun split_on :: "char \<Rightarrow> string \<Rightarrow> string list" where
  "split_on c [] = [[]]"
| "split_on c (x # xs) =
     (if x = c then [] # split_on c xs
      else (case split_on c xs of [] \<Rightarrow> [[x]] | w # ws \<Rightarrow> (x # w) # ws))"

lemma split_on_nonempty [simp]: "split_on c s \<noteq> []"
  by (induction s) (auto split: list.splits)

lemma join_split_on [simp]: "join [c] (split_on c s) = s"
proof (induction s)
  case Nil
  then show ?case by simp
next
  case (Cons x s)
  obtain w ws where w: "split_on c s = w # ws"
    using split_on_nonempty [of c s] by (cases "split_on c s") auto
  with Cons.IH show ?case by (cases ws) auto
qed

lemma split_on_plain: "c \<notin> set s \<Longrightarrow> split_on c s = [s]"
  by (induction s) auto

lemma split_on_append: "c \<notin> set s \<Longrightarrow> split_on c (s @ c # t) = s # split_on c t"
  by (induction s) (auto split: list.splits)

text \<open>
  \<open>s.replace(/p/g, r)\<close> for a literal pattern: non-overlapping occurrences, left to right.
\<close>

function replace_all :: "string \<Rightarrow> string \<Rightarrow> string \<Rightarrow> string" where
  "replace_all p r s =
     (if p = [] \<or> s = [] then s
      else if prefix p s then r @ replace_all p r (drop (length p) s)
      else hd s # replace_all p r (tl s))"
  by pat_completeness auto
termination
  by (relation "measure (\<lambda>(p, r, s). length s)") (auto simp: neq_Nil_conv)

declare replace_all.simps [simp del]

lemma replace_all_Nil [simp]: "replace_all p r [] = []"
  by (simp add: replace_all.simps)

lemma replace_all_Cons:
  "p \<noteq> [] \<Longrightarrow> replace_all p r (c # s) =
     (if prefix p (c # s) then r @ replace_all p r (drop (length p) (c # s))
      else c # replace_all p r s)"
  by (subst replace_all.simps) simp

lemma replace_all_single:
  "replace_all [x] r s = concat (map (\<lambda>c. if c = x then r else [c]) s)"
  by (induction s) (auto simp: replace_all_Cons)

lemma replace_all_absent: "\<not> contains p s \<Longrightarrow> replace_all p r s = s"
proof (induction s)
  case Nil
  then show ?case by simp
next
  case (Cons c s)
  have "\<not> prefix p (c # s)" "\<not> contains p s"
    using Cons.prems by (auto simp: contains_def split: if_splits)
  moreover from this have "p \<noteq> []" by auto
  ultimately show ?case using Cons.IH by (simp add: replace_all_Cons)
qed

lemma set_replace_all: "set (replace_all p r s) \<subseteq> set r \<union> set s"
proof (induction p r s rule: replace_all.induct)
  case (1 p r s)
  show ?case
  proof (cases "p = [] \<or> s = []")
    case True
    then show ?thesis by (auto simp: replace_all.simps)
  next
    case False
    then obtain c cs where s: "s = c # cs" by (cases s) auto
    show ?thesis
      using "1" False s
      by (auto simp: replace_all_Cons dest: in_set_dropD)
        (metis (no_types, lifting) UnE in_mono in_set_dropD set_ConsD)+
  qed
qed

definition to_upper_char :: "char \<Rightarrow> char" where
  "to_upper_char c =
     (let n = (of_char c :: nat) in if 97 \<le> n \<and> n \<le> 122 then char_of (n - 32) else c)"

definition to_lower_char :: "char \<Rightarrow> char" where
  "to_lower_char c =
     (let n = (of_char c :: nat) in if 65 \<le> n \<and> n \<le> 90 then char_of (n + 32) else c)"

definition to_upper :: "string \<Rightarrow> string" where
  "to_upper = map to_upper_char"

definition to_lower :: "string \<Rightarrow> string" where
  "to_lower = map to_lower_char"

text \<open>\<open>String(v)\<close>, which the \<open>+\<close> of strings and the form encoding apply.\<close>

fun to_str :: "jsval \<Rightarrow> string" where
  "to_str JUndef = ''undefined''"
| "to_str JNull = ''null''"
| "to_str (JBool b) = (if b then ''true'' else ''false'')"
| "to_str (JNum n) = show_int n"
| "to_str JNaN = ''NaN''"
| "to_str (JStr s) = s"
| "to_str (JArr vs) = join '','' (map (\<lambda>v. if nullish v then [] else to_str v) vs)"
| "to_str (JObj _) = ''[object Object]''"

definition num_val :: "int option \<Rightarrow> jsval" where
  "num_val x = (case x of None \<Rightarrow> JNaN | Some n \<Rightarrow> JNum n)"

text \<open>\<open>parseInt(v, 10)\<close> of a value converts it to a string first.\<close>

definition js_parseInt :: "jsval \<Rightarrow> int option" where
  "js_parseInt v = parse_int (to_str v)"

text \<open>\<open>Number(s)\<close> on a string, then loose equality on primitive values.\<close>

definition str_to_num :: "string \<Rightarrow> int option" where
  "str_to_num s =
     (if list_all is_blank s then Some 0
      else case parse_int s of
             None \<Rightarrow> None
           | Some n \<Rightarrow> if show_int n = s then Some n else None)"

fun to_num :: "jsval \<Rightarrow> int option" where
  "to_num (JNum n) = Some n"
| "to_num (JBool b) = Some (if b then 1 else 0)"
| "to_num (JStr s) = str_to_num s"
| "to_num JNull = Some 0"
| "to_num _ = None"

definition num_eq :: "int option \<Rightarrow> int option \<Rightarrow> bool" where
  "num_eq a b \<longleftrightarrow> a \<noteq> None \<and> a = b"

text \<open>
  The operator \<open>==\<close>.  Arrays and objects compare by reference in the source; a value carries
  no reference here, and the two sides are equal when they have the same contents, which
  agrees with the source where both sides come from the same place.
\<close>

fun loose_eq :: "jsval \<Rightarrow> jsval \<Rightarrow> bool" where
  "loose_eq (JStr a) (JStr b) \<longleftrightarrow> a = b"
| "loose_eq (JArr a) (JArr b) \<longleftrightarrow> a = b"
| "loose_eq (JObj a) (JObj b) \<longleftrightarrow> a = b"
| "loose_eq a b \<longleftrightarrow>
     (if nullish a \<or> nullish b then nullish a \<and> nullish b
      else num_eq (to_num a) (to_num b))"

section \<open>Objects\<close>

fun oget :: "jsobj \<Rightarrow> string \<Rightarrow> jsval" where
  "oget [] k = JUndef"
| "oget ((k', v) # o') k = (if k' = k then v else oget o' k)"

fun oset :: "jsobj \<Rightarrow> string \<Rightarrow> jsval \<Rightarrow> jsobj" where
  "oset [] k v = [(k, v)]"
| "oset ((k', v') # o') k v = (if k' = k then (k, v) # o' else (k', v') # oset o' k v)"

definition onames :: "jsobj \<Rightarrow> string list" where
  "onames o' = map fst o'"

lemma onames_simps [simp]: "onames [] = []" "onames ((k, v) # o') = k # onames o'"
  by (simp_all add: onames_def)

definition wf_obj :: "jsobj \<Rightarrow> bool" where
  "wf_obj o' \<longleftrightarrow> distinct (onames o')"

lemma oget_oset [simp, js_laws]: "oget (oset o' k v) k' = (if k' = k then v else oget o' k')"
  by (induction o' k v rule: oset.induct) auto

lemma onames_oset: "onames (oset o' k v) = (if k \<in> set (onames o') then onames o' else onames o' @ [k])"
  by (induction o' k v rule: oset.induct) (auto simp: onames_def)

lemma wf_obj_oset [simp]: "wf_obj o' \<Longrightarrow> wf_obj (oset o' k v)"
  by (simp add: wf_obj_def onames_oset)

lemma wf_obj_Nil [simp]: "wf_obj []"
  by (simp add: wf_obj_def onames_def)

lemma set_onames_oset [simp]: "set (onames (oset o' k v)) = insert k (set (onames o'))"
  by (auto simp: onames_oset)

lemma oget_absent: "k \<notin> set (onames o') \<Longrightarrow> oget o' k = JUndef"
  by (induction o' k rule: oget.induct) (auto simp: onames_def)

lemma oget_mem: "wf_obj o' \<Longrightarrow> (k, v) \<in> set o' \<Longrightarrow> oget o' k = v"
  by (induction o' k rule: oget.induct) (auto simp: wf_obj_def onames_def image_iff)

lemma oget_filter:
  "oget (filter (\<lambda>(k, v). P k) o') k = (if P k then oget o' k else JUndef)"
  by (induction o') auto

text \<open>
  A for-in loop that assigns to another object: \<open>f\<close> says for each name and value what is
  assigned under that name, or nothing.
\<close>

fun for_in :: "(string \<Rightarrow> jsval \<Rightarrow> jsval option) \<Rightarrow> jsobj \<Rightarrow> jsobj \<Rightarrow> jsobj" where
  "for_in f [] acc = acc"
| "for_in f ((k, v) # o') acc =
     for_in f o' (case f k v of None \<Rightarrow> acc | Some w \<Rightarrow> oset acc k w)"

lemma for_in_wf [simp]: "wf_obj acc \<Longrightarrow> wf_obj (for_in f o' acc)"
  by (induction f o' acc rule: for_in.induct) (auto split: option.splits)

lemma for_in_other: "k \<notin> set (onames o') \<Longrightarrow> oget (for_in f o' acc) k = oget acc k"
  by (induction f o' acc rule: for_in.induct) (auto simp: onames_def split: option.splits)

lemma for_in_get:
  "wf_obj o' \<Longrightarrow> k \<in> set (onames o') \<Longrightarrow>
   oget (for_in f o' acc) k = (case f k (oget o' k) of None \<Rightarrow> oget acc k | Some w \<Rightarrow> w)"
proof (induction f o' acc rule: for_in.induct)
  case (1 f acc)
  then show ?case by (simp add: onames_def)
next
  case (2 f k' v o' acc)
  then show ?case
    by (cases "k = k'")
      (auto simp: wf_obj_def onames_def for_in_other split: option.splits)
qed

lemma for_in_names:
  "set (onames (for_in f o' acc)) =
     set (onames acc) \<union> {k. \<exists>v. (k, v) \<in> set o' \<and> f k v \<noteq> None}"
  by (induction f o' acc rule: for_in.induct) (auto split: option.splits)

text \<open>Reading \<open>v.k\<close> of an arbitrary value, and \<open>v[i]\<close> of an array.\<close>

fun vget :: "jsval \<Rightarrow> string \<Rightarrow> jsval res" where
  "vget JUndef k = Inl TypeError"
| "vget JNull k = Inl TypeError"
| "vget (JObj o') k = Inr (oget o' k)"
| "vget _ k = Inr JUndef"

definition arr_at :: "jsval list \<Rightarrow> nat \<Rightarrow> jsval" where
  "arr_at vs i = (if i < length vs then vs ! i else JUndef)"

fun vidx :: "jsval \<Rightarrow> nat \<Rightarrow> jsval res" where
  "vidx JUndef i = Inl TypeError"
| "vidx JNull i = Inl TypeError"
| "vidx (JArr vs) i = Inr (arr_at vs i)"
| "vidx _ i = Inr JUndef"

section \<open>Results\<close>

definition rbind :: "'a res \<Rightarrow> ('a \<Rightarrow> 'b res) \<Rightarrow> 'b res" where
  "rbind r f = (case r of Inl e \<Rightarrow> Inl e | Inr x \<Rightarrow> f x)"

lemma rbind_simps [simp, js_laws]:
  "rbind (Inl e) f = Inl e"
  "rbind (Inr x) f = f x"
  by (simp_all add: rbind_def)

fun rmap :: "('a \<Rightarrow> 'b res) \<Rightarrow> 'a list \<Rightarrow> 'b list res" where
  "rmap f [] = Inr []"
| "rmap f (x # xs) = rbind (f x) (\<lambda>y. rbind (rmap f xs) (\<lambda>ys. Inr (y # ys)))"

lemma rmap_Inr: "(\<And>x. x \<in> set xs \<Longrightarrow> f x = Inr (g x)) \<Longrightarrow> rmap f xs = Inr (map g xs)"
  by (induction xs) auto

lemma find_SomeD: "find P xs = Some x \<Longrightarrow> x \<in> set xs \<and> P x"
  by (induction xs) (auto split: if_splits)

section \<open>Items\<close>

text \<open>
  An item of the model is an object whose property \<open>itemInfo\<close> is the pair of its class name
  and its id.  \<open>itemInfo[0]+sep+itemInfo[1]\<close> is its key, with \<open>''@''\<close> in the lists and
  \<open>'':''\<close> in the caches and requests; reading it from an object without \<open>itemInfo\<close> throws.
\<close>

definition item_info :: "jsobj \<Rightarrow> nat \<Rightarrow> jsval res" where
  "item_info it i = vidx (oget it ''itemInfo'') i"

definition item_key :: "string \<Rightarrow> jsobj \<Rightarrow> string res" where
  "item_key sep it =
     rbind (item_info it 0) (\<lambda>c. rbind (item_info it 1) (\<lambda>i. Inr (to_str c @ sep @ to_str i)))"

definition has_info :: "jsobj \<Rightarrow> bool" where
  "has_info it \<longleftrightarrow> \<not> nullish (oget it ''itemInfo'')"

lemma item_info_ok: "has_info it \<Longrightarrow> \<exists>v. item_info it i = Inr v"
  by (cases "oget it ''itemInfo''") (auto simp: has_info_def item_info_def)

lemma item_key_ok: "has_info it \<Longrightarrow> \<exists>k. item_key sep it = Inr k"
  using item_info_ok [of it 0] item_info_ok [of it 1]
  by (auto simp: item_key_def)

lemma item_key_fails: "\<not> has_info it \<Longrightarrow> item_key sep it = Inl TypeError"
  by (auto simp: item_key_def item_info_def has_info_def nullish_iff)

text \<open>The id part as the requests build it: \<open>itemInfo[1] ? itemInfo[1] : ""\<close>.\<close>

definition item_key_or_empty :: "jsobj \<Rightarrow> string res" where
  "item_key_or_empty it =
     rbind (item_info it 0) (\<lambda>c. rbind (item_info it 1) (\<lambda>i.
       Inr (to_str c @ '':'' @ (if truthy i then to_str i else []))))"

definition mk_item :: "string \<Rightarrow> string \<Rightarrow> jsobj \<Rightarrow> jsobj" where
  "mk_item c i fs = (''itemInfo'', JArr [JStr c, JStr i]) # fs"

lemma item_key_mk_item [simp]: "item_key sep (mk_item c i fs) = Inr (c @ sep @ i)"
  by (simp add: item_key_def item_info_def mk_item_def arr_at_def)

end
