(* ===== verification/Store_Interface.thy ===== *)
theory Store_Interface
  imports Js_Prelude
begin

text \<open>
  The contract of the client's caches.  A cache is used through \<open>put\<close>, \<open>get\<close> and \<open>del\<close>; what
  the clients rely on is that a \<open>get\<close> sees the last \<open>put\<close> under its key.  The items cache
  derives the key from the value it stores (\<open>self_keyed_store\<close>); the others are given the key
  (\<open>keyed_store\<close>, which is a special case).
\<close>

locale self_keyed_store =
  fixes put :: "'s \<Rightarrow> 'v \<Rightarrow> 's"
    and get :: "'s \<Rightarrow> 'k \<Rightarrow> 'w option"
    and key :: "'v \<Rightarrow> 'k option"
    and val :: "'v \<Rightarrow> 'w"
  assumes get_put: "get (put s v) k = (if key v = Some k then Some (val v) else get s k)"
begin

lemma get_put_list:
  "get (foldl put s vs) k =
     (case find (\<lambda>v. key v = Some k) (rev vs) of Some v \<Rightarrow> Some (val v) | None \<Rightarrow> get s k)"
proof (induction vs rule: rev_induct)
  case Nil
  then show ?case by simp
next
  case (snoc v vs)
  then show ?case by (simp add: get_put)
qed

lemma get_put_list_unkeyed:
  "(\<forall>v \<in> set vs. key v \<noteq> Some k) \<Longrightarrow> get (foldl put s vs) k = get s k"
  by (auto simp: get_put_list split: option.split dest: find_SomeD)

lemma get_put_list_mem:
  assumes "v \<in> set vs" "key v = Some k"
    and same: "\<And>v'. v' \<in> set vs \<Longrightarrow> key v' = Some k \<Longrightarrow> val v' = val v"
  shows "get (foldl put s vs) k = Some (val v)"
proof (cases "find (\<lambda>v. key v = Some k) (rev vs)")
  case None
  then show ?thesis using assms by (auto simp: find_None_iff)
next
  case (Some w)
  then have "w \<in> set vs" "key w = Some k" by (auto dest: find_SomeD)
  then show ?thesis using Some same by (simp add: get_put_list)
qed

lemma get_put_twice: "key v = Some k \<Longrightarrow> key w = Some k \<Longrightarrow> get (put (put s v) w) k' = get (put s w) k'"
  by (simp add: get_put)

end

locale keyed_store =
  fixes put :: "'s \<Rightarrow> 'k \<Rightarrow> 'v \<Rightarrow> 's"
    and get :: "'s \<Rightarrow> 'k \<Rightarrow> 'v option"
    and del :: "'s \<Rightarrow> 'k \<Rightarrow> 's"
  assumes lookup_put: "get (put s k v) k' = (if k = k' then Some v else get s k')"
    and lookup_del: "get (del s k) k' = (if k = k' then None else get s k')"
begin

sublocale pairs: self_keyed_store "\<lambda>s p. put s (fst p) (snd p)" get "\<lambda>p. Some (fst p)" snd
  by unfold_locales (simp add: lookup_put)

lemma del_put_other: "k \<noteq> k' \<Longrightarrow> get (del (put s k v) k') k = Some v"
  by (simp add: lookup_put lookup_del)

lemma del_forgets: "get (del (put s k v) k) k = None"
  by (simp add: lookup_del)

end

end
