(* ===== verification/Mtpl_Info.thy ===== *)
theory Mtpl_Info
  imports Js_Prelude
begin

text \<open>
  The object \<open>mtplInfo\<close> of \<open>ion-ng-mtpl.js\<close>, the state that the page frame shares with every
  other part of the client: the node shown, the message panel, the menus, the side bar's
  flags (kept as the strings "true" and "false", as in their cookies) and the classes an
  object can be created of.  A message is a byte string; the texts in Russian that the
  client shows are named by the constructors of \<open>ru_text\<close>.
\<close>

datatype ru_text =
    No_Creation_Rights
  | Access_Denied
  | Action_Signed

datatype message = Text jsval | Ru ru_text

record mtpl_info =
  mi_node :: string
  mi_showSlave :: bool
  mi_showMessage :: bool
  mi_messageType :: string
  mi_messageContent :: message
  mi_navigation :: jsval
  mi_sidebarNavigation :: jsval
  mi_sidebarCollapsed :: string
  mi_sidebarFloat :: string
  mi_maincolSize :: int
  mi_creationClasses :: jsval

text \<open>\<open>mtplInfoFactory\<close>: the cookies and the window's sizes are its inputs.\<close>

definition mtplInfoFactory ::
  "string option \<Rightarrow> string option \<Rightarrow> int \<Rightarrow> int \<Rightarrow> int \<Rightarrow> mtpl_info" where
  "mtplInfoFactory collapsedCookie floatCookie windowHeight headerHeight footerHeight =
     \<lparr>mi_node = [], mi_showSlave = False, mi_showMessage = False,
      mi_messageType = ''error'', mi_messageContent = Text (JStr []),
      mi_navigation = JObj [(''nodes'', JArr []), (''writePermissions'', JArr [])],
      mi_sidebarNavigation = JObj [],
      mi_sidebarCollapsed =
        (case collapsedCookie of Some c \<Rightarrow> if c \<noteq> [] then c else ''true'' | None \<Rightarrow> ''true''),
      mi_sidebarFloat =
        (case floatCookie of Some c \<Rightarrow> if c \<noteq> [] then c else ''false'' | None \<Rightarrow> ''false''),
      mi_maincolSize = windowHeight - headerHeight - footerHeight,
      mi_creationClasses = JObj []\<rparr>"

definition Alert :: "string \<Rightarrow> message \<Rightarrow> mtpl_info \<Rightarrow> mtpl_info" where
  "Alert type msg mi = mi\<lparr>mi_messageType := type, mi_messageContent := msg, mi_showMessage := True\<rparr>"

lemma Alert_frame [simp]:
  "mi_node (Alert t m mi) = mi_node mi"
  "mi_showSlave (Alert t m mi) = mi_showSlave mi"
  "mi_navigation (Alert t m mi) = mi_navigation mi"
  "mi_sidebarNavigation (Alert t m mi) = mi_sidebarNavigation mi"
  "mi_creationClasses (Alert t m mi) = mi_creationClasses mi"
  "mi_showMessage (Alert t m mi)"
  "mi_messageType (Alert t m mi) = t"
  "mi_messageContent (Alert t m mi) = m"
  by (simp_all add: Alert_def)

end
