(* ===== verification/Data_Cache.thy ===== *)
theory Data_Cache
  imports Store_Interface Mtpl_Info
begin

text \<open>
  \<open>ion-ng-data.js\<close>: the request cache, the items cache, the view-model cache and the
  factories over them.  A request is asynchronous, so each operation is split where the
  source waits: the first half says whether the promise resolves at once or a request is
  sent, the second half is the callback.  \<open>$cacheFactory\<close> is a map from keys to values; a
  promise settles once, and an exception in a callback leaves it unsettled.
\<close>

datatype 'a promise = Resolved 'a | Rejected | Unsettled

datatype 'a fetch = Now 'a | Fetch string jsobj

record cached =
  c_data :: jsval
  c_expires :: "int option"

record data_state =
  requestCache :: "string \<Rightarrow> cached option"
  itemsCache :: "string \<Rightarrow> jsobj option"
  vmCache :: "string \<Rightarrow> jsval option"
  mtpl :: mtpl_info

section \<open>Request parameters\<close>

definition cleanParams :: "jsobj \<Rightarrow> jsobj" where
  "cleanParams requestParams = for_in (\<lambda>name v. if v = JUndef then None else Some v) requestParams []"

text \<open>\<open>requestConfig\<close>: the entries of the \<open>FormData\<close>, each value as a string.\<close>

fun form_entries :: "jsobj \<Rightarrow> (string \<times> string) list" where
  "form_entries [] = []"
| "form_entries ((name, v) # data) =
     (if nullish v then []
      else case v of JArr vs \<Rightarrow> map (\<lambda>x. (name, to_str x)) vs | _ \<Rightarrow> [(name, to_str v)])
     @ form_entries data"

record http_request =
  rq_method :: string
  rq_url :: string
  rq_headers :: "(string \<times> string option) list"
  rq_data :: "(string \<times> string) list"

definition requestConfigFactory :: "string \<Rightarrow> jsobj \<Rightarrow> http_request" where
  "requestConfigFactory url data =
     \<lparr>rq_method = ''POST'', rq_url = url,
      rq_headers = [(''Content-Type'', None), (''x-requested-with'', Some ''XMLHttpRequest'')],
      rq_data = form_entries data\<rparr>"

section \<open>The request cache\<close>

definition createCacheId :: "string \<Rightarrow> jsobj \<Rightarrow> string" where
  "createCacheId url data =
     url @ ''***'' @ concat (map (\<lambda>(name, v). name @ ''*'' @ to_str v) data)"

definition getCachedData :: "int \<Rightarrow> string \<Rightarrow> data_state \<Rightarrow> jsval \<times> data_state" where
  "getCachedData now cachedId s =
     (case requestCache s cachedId of
        None \<Rightarrow> (JNull, s)
      | Some c \<Rightarrow>
          (case c_expires c of
             Some e \<Rightarrow>
               if e - now > 0 then (c_data c, s)
               else (JNull, s\<lparr>requestCache := (requestCache s)(cachedId := None)\<rparr>)
           | None \<Rightarrow> (JNull, s\<lparr>requestCache := (requestCache s)(cachedId := None)\<rparr>)))"

text \<open>\<open>checkForMessages\<close>, with the one argument it is called with.\<close>

fun last_message :: "jsval list \<Rightarrow> jsval \<Rightarrow> jsval res" where
  "last_message [] found = Inr found"
| "last_message (v # vs) found =
     rbind (vget v ''message'') (\<lambda>m. last_message vs (if nullish m then found else m))"

definition checkForMessages :: "jsval \<Rightarrow> mtpl_info \<Rightarrow> mtpl_info res" where
  "checkForMessages data mi =
     rbind (case data of JArr vs \<Rightarrow> last_message vs (JBool False)
                       | _ \<Rightarrow> last_message [data] (JBool False)) (\<lambda>message.
     if truthy message then
       rbind (vget message ''type'') (\<lambda>t.
         (case t of
            JStr ts \<Rightarrow>
              rbind (vget message ''message'') (\<lambda>m. Inr (Alert (to_lower ts) (Text m) mi))
          | _ \<Rightarrow> Inl TypeError))
     else Inr mi)"

text \<open>
  \<open>doRequest\<close>.  The pending request remembers what its callbacks need: whether messages are
  checked and, with \<open>keepInCache === true\<close>, the cache id.
\<close>

record pending =
  p_request :: http_request
  p_check :: bool
  p_cacheId :: "string option"

definition doRequest ::
  "int \<Rightarrow> string \<Rightarrow> jsobj \<Rightarrow> bool \<Rightarrow> bool \<Rightarrow> data_state \<Rightarrow> (jsval + pending) \<times> data_state" where
  "doRequest now url data checkMessages keepInCache s =
     (if keepInCache then
        (let cachedId = createCacheId url data;
             (cachedData, s') = getCachedData now cachedId s
         in if truthy cachedData then (Inl cachedData, s')
            else (Inr \<lparr>p_request = requestConfigFactory url data, p_check = checkMessages,
                       p_cacheId = Some cachedId\<rparr>, s'))
      else (Inr \<lparr>p_request = requestConfigFactory url data, p_check = checkMessages,
                 p_cacheId = None\<rparr>, s))"

text \<open>
  The success callback: \<open>expires\<close> is the response header of that name, already read by
  \<open>Date.parse\<close> (\<open>Some None\<close> for a header that is no date).
\<close>

definition request_success ::
  "pending \<Rightarrow> jsval \<Rightarrow> int option option \<Rightarrow> data_state \<Rightarrow> jsval promise \<times> data_state" where
  "request_success p data expires s =
     (let s1 = (case (p_cacheId p, expires) of
                  (Some cid, Some e) \<Rightarrow>
                    s\<lparr>requestCache := (requestCache s)(cid \<mapsto> \<lparr>c_data = data, c_expires = e\<rparr>)\<rparr>
                | _ \<Rightarrow> s)
      in if p_check p then
           (case checkForMessages data (mtpl s1) of
              Inl e \<Rightarrow> (Unsettled, s1)
            | Inr mi \<Rightarrow> (Resolved data, s1\<lparr>mtpl := mi\<rparr>))
         else (Resolved data, s1))"

definition request_error :: "jsval \<Rightarrow> data_state \<Rightarrow> jsval promise \<times> data_state" where
  "request_error data s = (Rejected, s\<lparr>mtpl := Alert ''error'' (Text data) (mtpl s)\<rparr>)"

section \<open>The items cache\<close>

definition itemsCache_key :: "jsobj \<Rightarrow> string option" where
  "itemsCache_key item =
     (if truthy (oget item ''itemInfo'') then
        (case item_key '':'' item of Inl _ \<Rightarrow> None | Inr k \<Rightarrow> Some k)
      else None)"

definition itemsCache_put :: "(string \<Rightarrow> jsobj option) \<Rightarrow> jsobj \<Rightarrow> (string \<Rightarrow> jsobj option)" where
  "itemsCache_put m item =
     (case itemsCache_key item of None \<Rightarrow> m | Some k \<Rightarrow> m(k \<mapsto> item))"

definition itemsCache_del :: "(string \<Rightarrow> jsobj option) \<Rightarrow> string \<Rightarrow> (string \<Rightarrow> jsobj option)" where
  "itemsCache_del m itemId = m(itemId := None)"

definition itemsCache_get :: "(string \<Rightarrow> jsobj option) \<Rightarrow> string \<Rightarrow> jsobj option" where
  "itemsCache_get m itemId = m itemId"

text \<open>The argument is any value in the source: \<open>item.itemInfo\<close> throws on undefined and null.\<close>

definition put_value :: "jsval \<Rightarrow> (string \<Rightarrow> jsobj option) \<Rightarrow> (string \<Rightarrow> jsobj option) res" where
  "put_value v m =
     (case v of JObj item \<Rightarrow> Inr (itemsCache_put m item)
              | _ \<Rightarrow> if nullish v then Inl TypeError else Inr m)"

interpretation items_store: self_keyed_store itemsCache_put itemsCache_get itemsCache_key "\<lambda>v. v"
  by unfold_locales (auto simp: itemsCache_put_def itemsCache_get_def split: option.splits)

interpretation items_by_key:
  keyed_store "\<lambda>m k v. m(k \<mapsto> v)" itemsCache_get itemsCache_del
  by unfold_locales (auto simp: itemsCache_get_def itemsCache_del_def)

lemma itemsCache_key_mk_item [simp]: "itemsCache_key (mk_item c i fs) = Some (c @ '':'' @ i)"
  by (simp add: itemsCache_key_def) (simp add: mk_item_def)

section \<open>Items and lists\<close>

text \<open>\<open>ionItemFactory.getItem\<close> and its callback.\<close>

definition getItem :: "string \<Rightarrow> jsobj \<Rightarrow> data_state \<Rightarrow> jsobj fetch" where
  "getItem itemUrl requestParams s =
     (case itemsCache_get (itemsCache s) (to_str (oget requestParams ''__id'')) of
        Some item \<Rightarrow> Now item
      | None \<Rightarrow> Fetch itemUrl (cleanParams requestParams))"

definition selections_request :: "jsobj \<Rightarrow> (string \<times> jsobj) res" where
  "selections_request item =
     rbind (item_key_or_empty item) (\<lambda>k. Inr (''spa/selections'', [(''__id'', JStr k)]))"

text \<open>
  The callback of the request: the item is cached, and with \<open>checkSelections\<close> the request for
  its selections is sent.  The source passes \<open>resolve(item)\<close>, already called, to \<open>then\<close>: the
  promise resolves in the same step, before any answer.
\<close>

definition getItem_reply ::
  "bool \<Rightarrow> jsval \<Rightarrow> data_state \<Rightarrow> jsval promise \<times> (string \<times> jsobj) option \<times> data_state" where
  "getItem_reply checkSelections data s =
     (if data = JUndef then (Unsettled, None, s)
      else case vget data ''data'' of
             Inl _ \<Rightarrow> (Unsettled, None, s)
           | Inr item \<Rightarrow>
               (case put_value item (itemsCache s) of
                  Inl _ \<Rightarrow> (Unsettled, None, s)
                | Inr ic \<Rightarrow>
                    (let s' = s\<lparr>itemsCache := ic\<rparr>
                     in if checkSelections then
                          (case (case item of JObj it \<Rightarrow> selections_request it
                                            | _ \<Rightarrow> Inl TypeError) of
                             Inl _ \<Rightarrow> (Unsettled, None, s')
                           | Inr rq \<Rightarrow> (Resolved item, Some rq, s'))
                        else (Resolved item, None, s'))))"

text \<open>The answer to the selections request, written into the item name by name.\<close>

fun apply_selections :: "string list \<Rightarrow> jsobj \<Rightarrow> jsobj \<Rightarrow> jsobj" where
  "apply_selections [] sel item = item"
| "apply_selections (nm # nms) sel item =
     apply_selections nms sel
       (if oget sel nm = JUndef then
          (if index_of ''__'' nm = None \<and> oget item (nm @ ''__ref'') = JUndef
           then oset item (nm @ ''__sel'') (JBool False) else item)
        else oset item (nm @ ''__sel'') (oget sel nm))"

definition checkSelections :: "jsobj \<Rightarrow> jsobj \<Rightarrow> jsobj" where
  "checkSelections sel item = apply_selections (onames item) sel item"

text \<open>
  Its callback.  The item it writes into is the object the items cache holds, so the cache's
  entry changes with it.
\<close>

definition selections_reply :: "jsobj \<Rightarrow> jsval \<Rightarrow> data_state \<Rightarrow> jsobj promise \<times> data_state" where
  "selections_reply item data s =
     (case vget data ''data'' of
        Inr v \<Rightarrow>
          if nullish v then (Unsettled, s) else
          (let item' = checkSelections (case v of JObj sel \<Rightarrow> sel | _ \<Rightarrow> []) item
           in (Resolved item',
               case itemsCache_key item of
                 None \<Rightarrow> s
               | Some k \<Rightarrow>
                   if itemsCache s k = Some item
                   then s\<lparr>itemsCache := (itemsCache s)(k \<mapsto> item')\<rparr> else s))
      | _ \<Rightarrow> (Unsettled, s))"

text \<open>\<open>ionListFactory.getList\<close>: the request always goes out; its answer fills the items cache.\<close>

definition getList :: "string \<Rightarrow> jsobj \<Rightarrow> string \<times> jsobj" where
  "getList listUrl requestParams = (listUrl, cleanParams requestParams)"

text \<open>A failing \<open>put\<close> stops the loop; the items before it stay in the cache.\<close>

fun put_values ::
  "jsval list \<Rightarrow> (string \<Rightarrow> jsobj option) \<Rightarrow> bool \<times> (string \<Rightarrow> jsobj option)" where
  "put_values [] m = (True, m)"
| "put_values (v # vs) m =
     (case put_value v m of Inl _ \<Rightarrow> (False, m) | Inr m' \<Rightarrow> put_values vs m')"

definition getList_reply :: "jsval \<Rightarrow> data_state \<Rightarrow> jsval promise \<times> data_state" where
  "getList_reply data s =
     (if data = JUndef then (Rejected, s)
      else case vget data ''data'' of
             Inl _ \<Rightarrow> (Unsettled, s)
           | Inr list \<Rightarrow>
               if nullish list then (Unsettled, s)
               else
                 (let (ok, ic) = put_values (case list of JArr vs \<Rightarrow> vs | _ \<Rightarrow> []) (itemsCache s);
                      s' = s\<lparr>itemsCache := ic\<rparr>
                  in (if ok then Resolved list else Unsettled, s')))"

section \<open>View models\<close>

definition createVmId :: "jsobj \<Rightarrow> string" where
  "createVmId params = concat (map (\<lambda>(nm, v). ''@'' @ to_str v) params)"

definition vmCache_put :: "jsval \<Rightarrow> jsobj \<Rightarrow> (string \<Rightarrow> jsval option) \<Rightarrow> (string \<Rightarrow> jsval option)" where
  "vmCache_put vm params m = (if vm = JUndef then m else m(createVmId params \<mapsto> vm))"

definition vmCache_get :: "jsobj \<Rightarrow> (string \<Rightarrow> jsval option) \<Rightarrow> jsval" where
  "vmCache_get params m = (case m (createVmId params) of None \<Rightarrow> JUndef | Some vm \<Rightarrow> vm)"

text \<open>\<open>getVm\<close>: the read of the cache is commented out in the source, so a request always goes out.\<close>

definition getVm :: "string \<Rightarrow> jsobj \<Rightarrow> data_state \<Rightarrow> jsval fetch" where
  "getVm vmUrl requestParams s =
     (let params = cleanParams requestParams; vm = JUndef
      in if vm = JUndef then Fetch vmUrl params else Now vm)"

definition getVm_reply :: "jsobj \<Rightarrow> jsval \<Rightarrow> data_state \<Rightarrow> jsval promise \<times> data_state" where
  "getVm_reply params data s =
     (case vget data ''data'' of
        Inl _ \<Rightarrow> (Unsettled, s)
      | Inr vm \<Rightarrow>
          if vm = JUndef then (Unsettled, s)
          else (Resolved vm, s\<lparr>vmCache := vmCache_put vm params (vmCache s)\<rparr>))"

definition getFromCache :: "jsobj \<Rightarrow> data_state \<Rightarrow> jsval" where
  "getFromCache requestParams s = vmCache_get (cleanParams requestParams) (vmCache s)"

definition putInCache :: "jsval \<Rightarrow> jsobj \<Rightarrow> data_state \<Rightarrow> data_state" where
  "putInCache vm requestParams s =
     s\<lparr>vmCache := vmCache_put vm (cleanParams requestParams) (vmCache s)\<rparr>"

text \<open>\<open>ionCurrent\<close>: the item and the list shown.\<close>

record ion_current =
  cur_item :: "jsobj option"
  cur_list :: "jsobj list option"

definition ionCurrentFactory :: ion_current where
  "ionCurrentFactory = \<lparr>cur_item = None, cur_list = None\<rparr>"

section \<open>Properties\<close>

lemma cleanParams_get: "wf_obj o' \<Longrightarrow> oget (cleanParams o') k = oget o' k"
  by (cases "k \<in> set (onames o')")
    (auto simp: cleanParams_def for_in_get for_in_other oget_absent split: option.splits)

lemma cleanParams_defined:
  assumes "wf_obj o'" "k \<in> set (onames (cleanParams o'))"
  shows "oget (cleanParams o') k \<noteq> JUndef"
proof -
  from assms(2) obtain v where "(k, v) \<in> set o'" "v \<noteq> JUndef"
    unfolding cleanParams_def for_in_names by (auto simp: onames_def split: if_splits)
  with assms(1) show ?thesis by (simp add: cleanParams_get oget_mem)
qed

lemma createVmId_values: "createVmId ps = concat (map (\<lambda>v. ''@'' @ to_str v) (map snd ps))"
  by (induction ps) (auto simp: createVmId_def)

lemma put_values_objects:
  "put_values (map JObj its) m = (True, foldl itemsCache_put m its)"
  by (induction its arbitrary: m) (auto simp: put_value_def)

lemma getCachedData_hit:
  "requestCache s cid = Some \<lparr>c_data = d, c_expires = Some e\<rparr> \<Longrightarrow> now < e \<Longrightarrow>
   getCachedData now cid s = (d, s)"
  by (simp add: getCachedData_def)

lemma getCachedData_expired:
  "requestCache s cid = Some \<lparr>c_data = d, c_expires = Some e\<rparr> \<Longrightarrow> e \<le> now \<Longrightarrow>
   getCachedData now cid s = (JNull, s\<lparr>requestCache := (requestCache s)(cid := None)\<rparr>)"
  by (simp add: getCachedData_def)

lemma request_success_stores:
  "p_cacheId p = Some cid \<Longrightarrow> request_success p d (Some e) s = (r, s') \<Longrightarrow>
   requestCache s' cid = Some \<lparr>c_data = d, c_expires = e\<rparr>"
  by (auto simp: request_success_def Let_def split: if_splits sum.splits)

lemma doRequest_cacheId:
  "doRequest now url data chk True s = (Inr p, s') \<Longrightarrow> p_cacheId p = Some (createCacheId url data)"
  by (auto simp: doRequest_def Let_def split: prod.splits if_splits)

lemma apply_selections_other:
  "(\<And>nm. nm \<in> set nms \<Longrightarrow> k \<noteq> nm @ ''__sel'') \<Longrightarrow>
   oget (apply_selections nms sel item) k = oget item k"
  by (induction nms arbitrary: item) auto

lemma apply_selections_get:
  assumes "distinct nms" "nm \<in> set nms"
  shows "oget (apply_selections nms sel item) (nm @ ''__sel'') =
    (if oget sel nm \<noteq> JUndef then oget sel nm
     else if index_of ''__'' nm = None \<and> oget item (nm @ ''__ref'') = JUndef then JBool False
     else oget item (nm @ ''__sel''))"
  using assms
proof (induction nms arbitrary: item)
  case Nil
  then show ?case by simp
next
  case (Cons x nms)
  show ?case
  proof (cases "nm = x")
    case True
    with Cons.prems have "nm \<notin> set nms" by simp
    then have "\<And>y. y \<in> set nms \<Longrightarrow> nm @ ''__sel'' \<noteq> y @ ''__sel''" by auto
    with True show ?thesis by (auto simp: apply_selections_other)
  next
    case False
    with Cons show ?thesis by simp
  qed
qed

text \<open>
  after a response that carries an expiry time, the same request with caching on is
  answered from the cache without a new request until that time, and from that time on it is
  sent again and the stale entry is gone.
\<close>

theorem request_cache_roundtrip:
  assumes sent: "doRequest now url data chk True s = (Inr p, s1)"
    and got: "request_success p body (Some (Some e)) s2 = (r, s3)"
    and body: "truthy body"
  shows "(now' < e \<longrightarrow> doRequest now' url data chk' True s3 = (Inl body, s3)) \<and>
    (e \<le> now' \<longrightarrow>
       (\<exists>p' s4. doRequest now' url data chk' True s3 = (Inr p', s4) \<and>
          p_request p' = requestConfigFactory url data \<and>
          requestCache s4 (createCacheId url data) = None))"
proof -
  have "requestCache s3 (createCacheId url data) = Some \<lparr>c_data = body, c_expires = Some e\<rparr>"
    using request_success_stores [OF doRequest_cacheId [OF sent] got] .
  note hit = getCachedData_hit [OF this] and miss = getCachedData_expired [OF this]
  show ?thesis using hit miss body by (auto simp: doRequest_def Let_def)
qed

theorem request_cache_roundtrip_witness:
  "\<exists>s3 p'. doRequest 5 ''spa/listinfo'' [(''__node'', JStr ''n'')] True True s3 = (Inl (JObj []), s3) \<and>
     fst (doRequest 10 ''spa/listinfo'' [(''__node'', JStr ''n'')] True True s3) = Inr p'"
proof -
  let ?s = "\<lparr>requestCache = (\<lambda>_. None), itemsCache = (\<lambda>_. None), vmCache = (\<lambda>_. None),
             mtpl = mtplInfoFactory None None 0 0 0\<rparr>"
  let ?d = "[(''__node'', JStr ''n'')]"
  obtain p s1 where sent: "doRequest 0 ''spa/listinfo'' ?d False True ?s = (Inr p, s1)"
    by (simp add: doRequest_def getCachedData_def Let_def)
  obtain r s3 where got: "request_success p (JObj []) (Some (Some 10)) ?s = (r, s3)"
    by (cases "request_success p (JObj []) (Some (Some 10)) ?s") auto
  from request_cache_roundtrip [OF sent got, of 5 True]
  have a: "doRequest 5 ''spa/listinfo'' ?d True True s3 = (Inl (JObj []), s3)" by simp
  from request_cache_roundtrip [OF sent got, of 10 True]
  obtain p' s4 where "doRequest 10 ''spa/listinfo'' ?d True True s3 = (Inr p', s4)" by auto
  then have "fst (doRequest 10 ''spa/listinfo'' ?d True True s3) = Inr p'" by simp
  with a show ?thesis by blast
qed

text \<open>
  the cache id joins names and values without a separator that they cannot contain, so two
  requests with different parameters share an entry: the answer to a request for two
  parameters is served to the request for one parameter whose value spells out both.
\<close>

theorem cacheId_collision:
  fixes url n1 v1 n2 v2 body e now chk s
  defines "two \<equiv> [(n1, JStr v1), (n2, JStr v2)]"
    and "one \<equiv> [(n1, JStr (v1 @ n2 @ ''*'' @ v2))]"
  defines "s' \<equiv> s\<lparr>requestCache :=
     (requestCache s)(createCacheId url two \<mapsto> \<lparr>c_data = JObj body, c_expires = Some (now + 1)\<rparr>)\<rparr>"
  shows "form_entries one \<noteq> form_entries two \<and>
    doRequest now url one chk True s' = (Inl (JObj body), s')"
  by (auto simp: two_def one_def s'_def createCacheId_def doRequest_def getCachedData_def Let_def)

text \<open>
  the answer to a list request puts every listed item in the items cache, so a later
  request for one of them by its class and id resolves at once with that item.
\<close>

theorem getList_serves_items:
  assumes ans: "vget data ''data'' = Inr (JArr (map JObj its))"
    and it: "it \<in> set its" "itemsCache_key it = Some k"
    and uniq: "\<And>x. x \<in> set its \<Longrightarrow> itemsCache_key x = Some k \<Longrightarrow> x = it"
  shows "fst (getList_reply data s) = Resolved (JArr (map JObj its)) \<and>
    getItem url [(''__id'', JStr k)] (snd (getList_reply data s)) = Now it"
proof -
  have "data \<noteq> JUndef" using ans by auto
  then have r: "getList_reply data s =
      (Resolved (JArr (map JObj its)), s\<lparr>itemsCache := foldl itemsCache_put (itemsCache s) its\<rparr>)"
    using ans by (simp add: getList_reply_def put_values_objects)
  have "itemsCache_get (foldl itemsCache_put (itemsCache s) its) k = Some it"
    using items_store.get_put_list_mem [OF it] uniq by blast
  with r show ?thesis by (simp add: getItem_def)
qed

theorem getList_serves_items_witness:
  "getItem ''spa/item'' [(''__id'', JStr ''A:1'')]
     (snd (getList_reply (JObj [(''data'', JArr [JObj (mk_item ''A'' ''1'' []), JObj (mk_item ''A'' ''2'' [])])])
        \<lparr>requestCache = (\<lambda>_. None), itemsCache = (\<lambda>_. None), vmCache = (\<lambda>_. None),
          mtpl = mtplInfoFactory None None 0 0 0\<rparr>)) = Now (mk_item ''A'' ''1'' [])"
  by (rule conjunct2 [OF getList_serves_items [of _ "[mk_item ''A'' ''1'' [], mk_item ''A'' ''2'' []]"]]) auto

text \<open>
  an item asked for with its selections resolves before the selections are known: the
  promise settles with the item as received in the step that sends the selections request.
\<close>

theorem getItem_resolves_before_selections:
  assumes "vget data ''data'' = Inr (JObj it)" "has_info it"
  shows "\<exists>rq s'. getItem_reply True data s = (Resolved (JObj it), Some (''spa/selections'', rq), s')"
proof -
  have "data \<noteq> JUndef" using assms(1) by auto
  moreover obtain k where "item_key_or_empty it = Inr k"
    using item_info_ok [OF assms(2), of 0] item_info_ok [OF assms(2), of 1]
    by (auto simp: item_key_or_empty_def)
  ultimately show ?thesis
    using assms by (simp add: getItem_reply_def put_value_def selections_request_def)
qed

theorem getItem_resolves_before_selections_witness:
  "\<exists>rq s'. getItem_reply True (JObj [(''data'', JObj (mk_item ''A'' ''1'' []))])
     \<lparr>requestCache = (\<lambda>_. None), itemsCache = (\<lambda>_. None), vmCache = (\<lambda>_. None),
      mtpl = mtplInfoFactory None None 0 0 0\<rparr>
   = (Resolved (JObj (mk_item ''A'' ''1'' [])), Some (''spa/selections'', rq), s')"
  by (rule getItem_resolves_before_selections) (auto simp: mk_item_def has_info_def)

text \<open>
  the selections answer gives each property of the item its list of choices; a plain
  property with no list and no reference is marked as having none, and nothing else of the
  item changes.
\<close>

theorem checkSelections_spec:
  assumes "wf_obj item"
  shows "(\<forall>nm \<in> set (onames item).
      oget (checkSelections sel item) (nm @ ''__sel'') =
        (if oget sel nm \<noteq> JUndef then oget sel nm
         else if index_of ''__'' nm = None \<and> oget item (nm @ ''__ref'') = JUndef then JBool False
         else oget item (nm @ ''__sel''))) \<and>
    (\<forall>k. (\<forall>nm \<in> set (onames item). k \<noteq> nm @ ''__sel'') \<longrightarrow>
      oget (checkSelections sel item) k = oget item k)"
  using assms
  by (auto simp: checkSelections_def wf_obj_def apply_selections_get apply_selections_other
      simp del: apply_selections.simps)

theorem checkSelections_spec_witness:
  "oget (checkSelections [(''city'', JObj [])] [(''city'', JStr ''1''), (''name'', JStr ''x'')]) ''name__sel'' = JBool False"
  using checkSelections_spec [of "[(''city'', JStr ''1''), (''name'', JStr ''x'')]" "[(''city'', JObj [])]"]
  by (simp add: wf_obj_def onames_def)

text \<open>
  a failed request rejects its promise, shows the response in the message panel as an
  error, and leaves every cache as it was.
\<close>

theorem request_error_reported:
  "fst (request_error d s) = Rejected \<and>
   mi_showMessage (mtpl (snd (request_error d s))) \<and>
   mi_messageType (mtpl (snd (request_error d s))) = ''error'' \<and>
   mi_messageContent (mtpl (snd (request_error d s))) = Text d \<and>
   requestCache (snd (request_error d s)) = requestCache s \<and>
   itemsCache (snd (request_error d s)) = itemsCache s \<and>
   vmCache (snd (request_error d s)) = vmCache s"
  by (simp add: request_error_def)

text \<open>
  the view-model cache forgets the parameters' names: a view model stored for one set of
  parameters is returned for any other with the same values in the same order.
\<close>

theorem vmCache_ignores_names:
  assumes "vm \<noteq> JUndef" and "map snd (cleanParams ps) = map snd (cleanParams qs)"
  shows "getFromCache qs (putInCache vm ps s) = vm"
proof -
  have "createVmId (cleanParams ps) = createVmId (cleanParams qs)"
    using assms(2) by (simp add: createVmId_values)
  with assms(1) show ?thesis
    by (simp add: getFromCache_def putInCache_def vmCache_get_def vmCache_put_def)
qed

theorem vmCache_ignores_names_witness:
  "getFromCache [(''__node'', JStr ''n''), (''__class'', JStr ''c'')]
     (putInCache (JObj []) [(''__type'', JStr ''n''), (''__node'', JStr ''c'')]
       \<lparr>requestCache = (\<lambda>_. None), itemsCache = (\<lambda>_. None), vmCache = (\<lambda>_. None),
        mtpl = mtplInfoFactory None None 0 0 0\<rparr>) = JObj []"
  by (rule vmCache_ignores_names) (auto simp: cleanParams_def)

end
