(* ===== verification/View_Model.thy ===== *)
theory View_Model
  imports Js_Prelude
begin

text \<open>
  The fields of a view model and the rules that show, enable and require them, as the form
  controller (\<open>ion-ng-form.js\<close>), the details controller (\<open>ion-ng-list.js\<close>) and the form
  dialog (\<open>ion-ng-modals.js\<close>) have them.  A field's \<open>parent\<close> is the field it lies in, so the
  rules take the chain of a field and its ancestors, innermost first.  Groups and references
  in mode INFO have a list of fields.  An expression is run by the browser's \<open>eval\<close>: the
  evaluator is a parameter, the rewriting of the expression before it is modelled.
\<close>

section \<open>Fields\<close>

datatype vmfield = VmField
  (f_property: "string option")
  (f_type: string)
  (f_mode: "string option")
  (f_readonly: bool)
  (f_required: bool)
  (f_visibility: "string option")
  (f_enablement: "string option")
  (f_obligation: "string option")
  (f_fields: "vmfield list")

definition set_text :: "string option \<Rightarrow> bool" where
  "set_text x \<longleftrightarrow> (case x of None \<Rightarrow> False | Some s \<Rightarrow> s \<noteq> [])"

definition is_container :: "string \<Rightarrow> string option \<Rightarrow> bool" where
  "is_container type mode \<longleftrightarrow>
     type = ''GROUP'' \<or> (type = ''REFERENCE'' \<and> mode = Some ''INFO'')"

fun processVmField :: "string \<Rightarrow> vmfield \<Rightarrow> vmfield" where
  "processVmField pref (VmField p t m ro rq vis en ob fs) =
     (let p' = (if set_text p then Some (pref @ the p) else p)
      in VmField p' t m ro rq vis en ob
           (if is_container t m
            then map (processVmField (if set_text p' then the p' @ ''.'' else pref)) fs
            else fs))"

record vm_tab =
  tab_shortViewFields :: "vmfield list"
  tab_fullViewFields :: "vmfield list"

text \<open>The loops over the tabs: the details use the short fields, the form the full ones.\<close>

definition process_short_tabs :: "vm_tab list \<Rightarrow> vm_tab list" where
  "process_short_tabs =
     map (\<lambda>t. t\<lparr>tab_shortViewFields := map (processVmField []) (tab_shortViewFields t)\<rparr>)"

definition process_full_tabs :: "vm_tab list \<Rightarrow> vm_tab list" where
  "process_full_tabs =
     map (\<lambda>t. t\<lparr>tab_fullViewFields := map (processVmField []) (tab_fullViewFields t)\<rparr>)"

text \<open>The field at a path of positions, and the names met on the way.\<close>

fun field_at :: "vmfield \<Rightarrow> nat list \<Rightarrow> vmfield option" where
  "field_at f [] = Some f"
| "field_at f (i # is) =
     (if is_container (f_type f) (f_mode f) \<and> i < length (f_fields f)
      then field_at (f_fields f ! i) is else None)"

definition own_name :: "vmfield \<Rightarrow> string list" where
  "own_name f = (if set_text (f_property f) then [the (f_property f)] else [])"

fun path_names :: "vmfield \<Rightarrow> nat list \<Rightarrow> string list" where
  "path_names f [] = own_name f"
| "path_names f (i # is) = own_name f @ (if i < length (f_fields f) then path_names (f_fields f ! i) is else [])"

text \<open>The chain of ancestors that the assignments to \<open>parent\<close> build, innermost first.\<close>

fun chain_at :: "vmfield list \<Rightarrow> vmfield \<Rightarrow> nat list \<Rightarrow> vmfield list" where
  "chain_at anc f [] = f # anc"
| "chain_at anc f (i # is) =
     (if i < length (f_fields f) then chain_at (f # anc) (f_fields f ! i) is else f # anc)"

section \<open>Expressions\<close>

definition is_word :: "char \<Rightarrow> bool" where
  "is_word c \<longleftrightarrow>
     (let n = (of_char c :: nat)
      in (97 \<le> n \<and> n \<le> 122) \<or> (65 \<le> n \<and> n \<le> 90) \<or> (48 \<le> n \<and> n \<le> 57) \<or> n = 95)"

text \<open>The replacement of a non-word character and a dot by the same and \<open>this.item.\<close>.\<close>

fun rewrite_dots :: "string \<Rightarrow> string" where
  "rewrite_dots (c # d # s) =
     (if \<not> is_word c \<and> d = CHR ''.'' then c # ''this.item.'' @ rewrite_dots s
      else c # rewrite_dots (d # s))"
| "rewrite_dots s = s"

definition prepare_expr :: "string \<Rightarrow> string" where
  "prepare_expr expr = rewrite_dots ('' '' @ expr)"

record exec_env =
  env_dirty :: bool
  env_valid :: bool

text \<open>
  \<open>ionActions.execExpression\<close> and the details controller's own version; \<open>main\<close> is the form
  of the calling scope, if it has one, and \<open>ev\<close> is \<open>eval\<close> in the scope of the item.
\<close>

definition env_of :: "exec_env option \<Rightarrow> exec_env" where
  "env_of main = (case main of None \<Rightarrow> \<lparr>env_dirty = False, env_valid = False\<rparr> | Some m \<Rightarrow> m)"

definition actions_execExpression ::
  "(jsobj \<Rightarrow> exec_env \<Rightarrow> string \<Rightarrow> jsval res) \<Rightarrow> jsobj option \<Rightarrow> exec_env option \<Rightarrow> string option \<Rightarrow> jsval res" where
  "actions_execExpression ev item main expr =
     (case item of
        None \<Rightarrow> Inr (JBool False)
      | Some it \<Rightarrow>
          if set_text expr then ev it (env_of main) (prepare_expr (the expr))
          else Inr (JBool False))"

definition details_execExpression ::
  "(jsobj option \<Rightarrow> exec_env \<Rightarrow> string \<Rightarrow> jsval res) \<Rightarrow> jsobj option \<Rightarrow> exec_env option \<Rightarrow> string option \<Rightarrow> jsval res" where
  "details_execExpression ev item main expr =
     (if set_text expr then ev item (env_of main) (prepare_expr (the expr))
      else Inr (JBool False))"

section \<open>Showing, enabling and requiring a field\<close>

text \<open>\<open>ex\<close> is the controller's \<open>execExpression\<close>; the first field of the chain is the one asked about.\<close>

fun isVisible :: "(string option \<Rightarrow> jsval res) \<Rightarrow> vmfield list \<Rightarrow> jsval res" where
  "isVisible ex [] = Inr (JBool True)"
| "isVisible ex (f # anc) =
     rbind (isVisible ex anc) (\<lambda>result.
       if truthy result \<and> set_text (f_visibility f) then ex (f_visibility f) else Inr result)"

fun isDisabled :: "(string option \<Rightarrow> jsval res) \<Rightarrow> vmfield list \<Rightarrow> bool res" where
  "isDisabled ex [] = Inr False"
| "isDisabled ex (f # anc) =
     (if set_text (f_enablement f)
      then rbind (ex (f_enablement f)) (\<lambda>v. Inr (\<not> truthy v))
      else if f_readonly f then Inr True else isDisabled ex anc)"

definition isRequired_with ::
  "(vmfield list \<Rightarrow> jsval res) \<Rightarrow> (vmfield list \<Rightarrow> bool res) \<Rightarrow> (string option \<Rightarrow> jsval res) \<Rightarrow>
   vmfield list \<Rightarrow> jsval res" where
  "isRequired_with vis dis ex chain =
     (case chain of
        [] \<Rightarrow> Inl TypeError
      | f # anc \<Rightarrow>
          if f_readonly f then Inr (JBool False)
          else rbind (dis chain) (\<lambda>d. if d then Inr (JBool False)
          else rbind (vis chain) (\<lambda>v. if \<not> truthy v then Inr (JBool False)
          else if f_required f then Inr (JBool True) else ex (f_obligation f))))"

definition isRequired :: "(string option \<Rightarrow> jsval res) \<Rightarrow> vmfield list \<Rightarrow> jsval res" where
  "isRequired ex = isRequired_with (isVisible ex) (isDisabled ex) ex"

text \<open>
  The form dialog's \<open>isVisible\<close> asks the parent through the undeclared name \<open>$cope\<close>, which
  throws a \<open>ReferenceError\<close> as soon as a field has a parent.
\<close>

definition modal_isVisible :: "(string option \<Rightarrow> jsval res) \<Rightarrow> vmfield list \<Rightarrow> jsval res" where
  "modal_isVisible ex chain =
     (case chain of
        [] \<Rightarrow> Inr (JBool True)
      | [f] \<Rightarrow> if set_text (f_visibility f) then ex (f_visibility f) else Inr (JBool True)
      | f # p # anc \<Rightarrow> Inl ReferenceError)"

definition modal_isRequired :: "(string option \<Rightarrow> jsval res) \<Rightarrow> vmfield list \<Rightarrow> jsval res" where
  "modal_isRequired ex = isRequired_with (modal_isVisible ex) (isDisabled ex) ex"

section \<open>Links\<close>

definition getRefUrl :: "string \<Rightarrow> jsval \<Rightarrow> jsval \<Rightarrow> string" where
  "getRefUrl node refClass refId =
     (if truthy refClass \<and> truthy refId
      then ''#/item?__node='' @ node @ ''&__id='' @ to_str refClass @ '':'' @ to_str refId
      else [])"

definition getColUrl :: "string \<Rightarrow> jsval \<Rightarrow> jsval \<Rightarrow> jsval \<Rightarrow> string" where
  "getColUrl node cclass cid collection =
     (if truthy cclass \<and> truthy cid \<and> truthy collection
      then ''#/collection?__node='' @ node @ ''&__container='' @ to_str cclass @ '':'' @ to_str cid
             @ ''&__collection='' @ to_str collection
      else [])"

section \<open>The contract of the field rules\<close>

text \<open>
  The templates of the fields bind \<open>ng-required\<close>, \<open>ng-disabled\<close> and \<open>ng-show\<close> to the three
  functions of whatever controller encloses them.  What they rely on: a required field is
  shown and enabled, and a shown field lies in shown groups.
\<close>

locale field_rules =
  fixes visible :: "vmfield list \<Rightarrow> bool"
    and disabled :: "vmfield list \<Rightarrow> bool"
    and required :: "vmfield list \<Rightarrow> bool"
  assumes required_visible: "required chain \<Longrightarrow> visible chain"
    and required_enabled: "required chain \<Longrightarrow> \<not> disabled chain"
    and required_writable: "required (f # anc) \<Longrightarrow> \<not> f_readonly f"
    and visible_parent: "visible (f # anc) \<Longrightarrow> visible anc"
begin

lemma visible_ancestors: "visible (pre @ anc) \<Longrightarrow> visible anc"
  by (induction pre) (auto dest: visible_parent)

lemma required_ancestors_visible: "required (pre @ anc) \<Longrightarrow> visible anc"
  by (blast dest: required_visible intro: visible_ancestors)

lemma hidden_not_required: "\<not> visible anc \<Longrightarrow> \<not> required (pre @ anc)"
  by (blast dest: required_ancestors_visible)

end

definition holds :: "jsval res \<Rightarrow> bool" where
  "holds r \<longleftrightarrow> (case r of Inl _ \<Rightarrow> False | Inr v \<Rightarrow> truthy v)"

lemma holds_simps [simp]: "holds (Inl e) = False" "holds (Inr v) = truthy v"
  by (simp_all add: holds_def)

lemma holds_required_with:
  "holds (isRequired_with vis dis ex chain) \<Longrightarrow>
   holds (vis chain) \<and> dis chain = Inr False \<and> \<not> f_readonly (hd chain)"
  by (cases "dis chain"; cases "vis chain")
    (auto simp: isRequired_with_def split: list.splits if_splits)

lemma holds_isVisible_Cons: "holds (isVisible ex (f # anc)) \<Longrightarrow> holds (isVisible ex anc)"
  by (cases "isVisible ex anc") (auto split: if_splits)

text \<open>The form controller's rules, with its \<open>execExpression\<close>.\<close>

definition form_visible where
  "form_visible ev item main chain = holds (isVisible (actions_execExpression ev item main) chain)"

definition form_disabled where
  "form_disabled ev item main chain \<longleftrightarrow> isDisabled (actions_execExpression ev item main) chain \<noteq> Inr False"

definition form_required where
  "form_required ev item main chain = holds (isRequired (actions_execExpression ev item main) chain)"

interpretation form_fields: field_rules
  "form_visible ev item main" "form_disabled ev item main" "form_required ev item main"
  by unfold_locales
    (auto simp: form_visible_def form_disabled_def form_required_def isRequired_def
      simp del: isVisible.simps dest: holds_required_with holds_isVisible_Cons)

definition details_visible where
  "details_visible ev item main chain = holds (isVisible (details_execExpression ev item main) chain)"

definition details_disabled where
  "details_disabled ev item main chain \<longleftrightarrow> isDisabled (details_execExpression ev item main) chain \<noteq> Inr False"

definition details_required where
  "details_required ev item main chain = holds (isRequired (details_execExpression ev item main) chain)"

interpretation details_fields: field_rules
  "details_visible ev item main" "details_disabled ev item main" "details_required ev item main"
  by unfold_locales
    (auto simp: details_visible_def details_disabled_def details_required_def isRequired_def
      simp del: isVisible.simps dest: holds_required_with holds_isVisible_Cons)

section \<open>Properties\<close>

lemma f_type_process [simp]:
  "f_type (processVmField pref f) = f_type f" "f_mode (processVmField pref f) = f_mode f"
  "length (f_fields (processVmField pref f)) = length (f_fields f)"
  by (cases f; simp add: Let_def)+

lemma f_property_process:
  "f_property (processVmField pref f) =
     (if set_text (f_property f) then Some (pref @ the (f_property f)) else f_property f)"
  by (cases f) (simp add: Let_def)

lemma set_text_append [simp]: "set_text (Some (pref @ s)) \<longleftrightarrow> pref \<noteq> [] \<or> s \<noteq> []"
  by (simp add: set_text_def)

lemma f_fields_process:
  "is_container (f_type f) (f_mode f) \<Longrightarrow> i < length (f_fields f) \<Longrightarrow>
   f_fields (processVmField pref f) ! i =
     processVmField (if set_text (f_property f) then pref @ the (f_property f) @ ''.'' else pref)
       (f_fields f ! i)"
  by (cases f) (auto simp: Let_def set_text_def split: option.splits)

lemma join_dots: "ys \<noteq> [] \<Longrightarrow> concat (map (\<lambda>x. x @ sep) xs) @ join sep ys = join sep (xs @ ys)"
proof (induction xs)
  case Nil
  then show ?case by simp
next
  case (Cons x xs)
  then show ?case by (cases "xs @ ys") auto
qed

lemma path_names_nonempty: "field_at f ix = Some g \<Longrightarrow> set_text (f_property g) \<Longrightarrow> path_names f ix \<noteq> []"
  by (induction f ix rule: field_at.induct) (auto simp: own_name_def split: if_splits)

lemma process_path:
  assumes "field_at f ix = Some g" "set_text (f_property g)"
  shows "\<exists>g'. field_at (processVmField (concat (map (\<lambda>x. x @ ''.'') ns)) f) ix = Some g' \<and>
     f_property g' = Some (join ''.'' (ns @ path_names f ix))"
  using assms
proof (induction f ix arbitrary: ns rule: field_at.induct)
  case (1 f)
  then have "f_property (processVmField (concat (map (\<lambda>x. x @ ''.'') ns)) f)
    = Some (concat (map (\<lambda>x. x @ ''.'') ns) @ join ''.'' [the (f_property f)])"
    by (simp add: f_property_process)
  also have "\<dots> = Some (join ''.'' (ns @ [the (f_property f)]))"
    by (subst join_dots) auto
  finally show ?case using "1" by (simp add: own_name_def)
next
  case (2 f i ix)
  then have c: "is_container (f_type f) (f_mode f)" "i < length (f_fields f)"
    and at: "field_at (f_fields f ! i) ix = Some g" by (auto split: if_splits)
  have pre: "(if set_text (f_property f)
       then concat (map (\<lambda>x. x @ ''.'') ns) @ the (f_property f) @ ''.''
       else concat (map (\<lambda>x. x @ ''.'') ns)) = concat (map (\<lambda>x. x @ ''.'') (ns @ own_name f))"
    by (simp add: own_name_def)
  from "2.IH" [OF conjI [OF c] at "2.prems"(2), of "ns @ own_name f"]
  show ?case using c by (simp add: f_fields_process pre del: map_append)
qed

text \<open>
  after the view model of a form is processed, the property of a field nested in groups
  and INFO references is the path of names from the outermost named container down to the
  field, joined by dots; containers without a property add nothing to it.
\<close>

theorem processed_property_is_path:
  assumes "field_at f ix = Some g" "set_text (f_property g)"
  shows "\<exists>g'. field_at (processVmField [] f) ix = Some g' \<and>
     f_property g' = Some (join ''.'' (path_names f ix))"
  using process_path [OF assms, of "[]"] by simp

theorem processed_property_is_path_witness:
  "\<exists>g'. field_at (processVmField []
      (VmField (Some ''owner'') ''REFERENCE'' (Some ''INFO'') False False None None None
        [VmField None ''GROUP'' None False False None None None
          [VmField (Some ''city'') ''TEXT'' None False False None None None []]])) [0, 0] = Some g' \<and>
     f_property g' = Some ''owner.city''"
proof -
  let ?f = "VmField (Some ''owner'') ''REFERENCE'' (Some ''INFO'') False False None None None
        [VmField None ''GROUP'' None False False None None None
          [VmField (Some ''city'') ''TEXT'' None False False None None None []]]"
  have "field_at ?f [0, 0] = Some (VmField (Some ''city'') ''TEXT'' None False False None None None [])"
    by (simp add: is_container_def)
  from processed_property_is_path [OF this]
  show ?thesis by (simp add: set_text_def own_name_def)
qed

text \<open>
  processing is not idempotent, and the processed view model is the very object that is
  cached: processing it a second time repeats the container's name in the property of every
  named field inside it.
\<close>

theorem processVmField_repeats_prefix:
  assumes "is_container (f_type f) (f_mode f)" "f_property f = Some p" "p \<noteq> []"
    and "i < length (f_fields f)" "f_property (f_fields f ! i) = Some q" "q \<noteq> []"
  shows "f_property (f_fields (processVmField [] f) ! i) = Some (p @ ''.'' @ q) \<and>
    f_property (f_fields (processVmField [] (processVmField [] f)) ! i) =
      Some (p @ ''.'' @ p @ ''.'' @ q)"
  using assms by (simp add: f_fields_process f_property_process set_text_def)

theorem processVmField_repeats_prefix_witness:
  "\<exists>f. f_property (f_fields (processVmField [] (processVmField [] f)) ! 0) = Some ''a.a.b''"
proof -
  let ?f = "VmField (Some ''a'') ''GROUP'' None False False None None None
              [VmField (Some ''b'') ''TEXT'' None False False None None None []]"
  have "f_property (f_fields (processVmField [] (processVmField [] ?f)) ! 0) = Some ''a.a.b''"
    using processVmField_repeats_prefix [of ?f "''a''" 0 "''b''"] by (simp add: is_container_def)
  then show ?thesis by blast
qed

text \<open>
  a field that a form requires is not read-only, is enabled, and is shown together with
  all the groups around it, for whatever the expressions evaluate to.
\<close>

theorem form_required_sound:
  assumes "form_required ev item main (f # pre @ anc)"
  shows "\<not> f_readonly f \<and> \<not> form_disabled ev item main (f # pre @ anc) \<and>
    form_visible ev item main (f # pre @ anc) \<and> form_visible ev item main anc"
  using assms form_fields.required_writable form_fields.required_enabled
    form_fields.required_visible form_fields.required_ancestors_visible [of _ _ _ "f # pre" anc]
  by (metis append_Cons)

theorem form_required_sound_witness:
  "form_visible (\<lambda>_ _ _. Inr (JBool True)) (Some []) None
     [VmField None ''GROUP'' None False False (Some ''.a'') None None []]"
proof -
  let ?f = "VmField (Some ''x'') ''TEXT'' None False True None None None []"
  let ?g = "VmField None ''GROUP'' None False False (Some ''.a'') None None []"
  have "form_required (\<lambda>_ _ _. Inr (JBool True)) (Some []) None (?f # [] @ [?g])"
    by (simp add: form_required_def isRequired_def isRequired_with_def actions_execExpression_def
        set_text_def)
  from form_required_sound [OF this] show ?thesis by blast
qed

text \<open>
  the form dialog agrees with the form controller on a field without a parent, and fails
  with a reference error on every other: a field inside a group of the dialog can neither be
  shown nor, once enabled and writable, be checked for being required.
\<close>

theorem modal_visibility_broken_for_nested:
  "modal_isVisible ex [f] = isVisible ex [f] \<and>
   modal_isVisible ex (f # p # anc) = Inl ReferenceError \<and>
   modal_isRequired ex (f # p # anc) =
     (if f_readonly f then Inr (JBool False)
      else case isDisabled ex (f # p # anc) of
             Inl e \<Rightarrow> Inl e
           | Inr d \<Rightarrow> if d then Inr (JBool False) else Inl ReferenceError)"
  by (cases "isDisabled ex (f # p # anc)")
    (auto simp: modal_isVisible_def modal_isRequired_def isRequired_with_def)

lemma rewrite_dots_plain:
  "(\<And>i. Suc i < length s \<Longrightarrow> s ! Suc i = CHR ''.'' \<Longrightarrow> is_word (s ! i)) \<Longrightarrow> rewrite_dots s = s"
proof (induction s rule: rewrite_dots.induct)
  case (1 c d s)
  have "\<not> (\<not> is_word c \<and> d = CHR ''.'')" using "1.prems" [of 0] by auto
  moreover have "rewrite_dots (d # s) = d # s"
  proof (rule "1.IH"(2))
    show "\<not> (\<not> is_word c \<and> d = CHR ''.'')" by fact
    fix i assume "Suc i < length (d # s)" "(d # s) ! Suc i = CHR ''.''"
    then show "is_word ((d # s) ! i)" using "1.prems" [of "Suc i"] by simp
  qed
  ultimately show ?case by simp
qed auto

lemma rewrite_dots_word: "list_all is_word w \<Longrightarrow> rewrite_dots (w @ c # s) = w @ rewrite_dots (c # s)"
proof (induction w)
  case Nil
  then show ?case by simp
next
  case (Cons x w)
  then show ?case by (cases "w @ c # s") auto
qed

text \<open>
  in an expression of a view model a leading dot names a property of the current item: it
  becomes \<open>this.item.\<close>, while a dot after a word character (member access) stays as it is.
\<close>

theorem prepare_expr_item_access:
  assumes "list_all is_word w" "\<not> is_word c" "c \<noteq> CHR ''.''"
  shows "prepare_expr (CHR ''.'' # w @ c # rest) = '' this.item.'' @ w @ rewrite_dots (c # rest) \<and>
    prepare_expr (w @ c # CHR ''.'' # rest) =
      CHR '' '' # w @ [c] @ ''this.item.'' @ rewrite_dots rest"
proof -
  have sp: "\<not> is_word (CHR '' '')" by (simp add: is_word_def)
  have "rewrite_dots (w @ c # rest) = w @ rewrite_dots (c # rest)"
    by (rule rewrite_dots_word [OF assms(1)])
  moreover have "rewrite_dots (CHR '' '' # w @ c # CHR ''.'' # rest) =
      CHR '' '' # rewrite_dots (w @ c # CHR ''.'' # rest)"
  proof (cases w)
    case Nil
    with assms(3) show ?thesis by simp
  next
    case (Cons x xs)
    with assms(1) have "x \<noteq> CHR ''.''" by (auto simp: is_word_def)
    with Cons show ?thesis by simp
  qed
  moreover have "rewrite_dots (w @ c # CHR ''.'' # rest) = w @ c # ''this.item.'' @ rewrite_dots rest"
    using rewrite_dots_word [OF assms(1), of c "CHR ''.'' # rest"] assms(2) by simp
  ultimately show ?thesis using sp by (simp add: prepare_expr_def)
qed

theorem prepare_expr_item_access_witness:
  "prepare_expr ''.a == 1'' = '' this.item.a == 1''"
  using prepare_expr_item_access [of "''a''" "CHR '' ''" "''== 1''"]
  by (simp add: is_word_def)

end
