(* ===== verification/Crypto_Common.thy ===== *)
theory Crypto_Common
  imports Js_Prelude
begin

text \<open>
  What the two versions of the digital signature module (\<open>cryptopro.js\<close> of the themes
  \<open>ionweb-spa\<close> and \<open>ionweb-jt\<close>) share: the objects of the browser plug-in, the certificate
  store, the two signing functions and the text of a certificate.  The plug-in is not part of
  the repository: the record \<open>plugin\<close> is what the code calls of it.
\<close>

section \<open>Dates and certificates\<close>

text \<open>A \<open>Date\<close> in the browser's time zone: its UTC and its local components.\<close>

record js_date =
  d_time :: int
  d_utcDate :: nat
  d_utcMonth :: nat
  d_utcFullYear :: nat
  d_utcHours :: nat
  d_utcMinutes :: nat
  d_utcSeconds :: nat
  d_localMonth :: nat
  d_localFullYear :: nat

record cert =
  Thumbprint :: string
  SubjectName :: string
  IssuerName :: string
  ValidFromDate :: js_date
  ValidToDate :: js_date
  HasPrivateKey :: bool
  IsValid :: bool
  FriendlyName :: string

definition check :: "nat \<Rightarrow> string" where
  "check digit = (if digit < 10 then ''0'' @ show_nat digit else show_nat digit)"

definition index_from :: "string \<Rightarrow> string \<Rightarrow> nat \<Rightarrow> nat option" where
  "index_from p s n = map_option (\<lambda>i. i + n) (index_of p (drop n s))"

definition extract_attr :: "string \<Rightarrow> string \<Rightarrow> string" where
  "extract_attr src what =
     (case index_of what src of
        None \<Rightarrow> []
      | Some b \<Rightarrow>
          (let begin' = b + length what
           in case index_from '', '' src begin' of
                None \<Rightarrow>
                  (case index_from '' '' src begin' of
                     None \<Rightarrow> drop begin' src
                   | Some end' \<Rightarrow> take (end' - begin') (drop begin' src))
              | Some end' \<Rightarrow> take (end' - begin') (drop begin' src)))"

definition DateTimePutTogether :: "js_date \<Rightarrow> string" where
  "DateTimePutTogether d =
     check (d_utcDate d) @ ''.'' @ check (d_localMonth d + 1) @ ''.'' @ show_nat (d_localFullYear d)
     @ '' '' @ check (d_utcHours d) @ '':'' @ check (d_utcMinutes d) @ '':'' @ check (d_utcSeconds d)"

definition GetCertFromDate :: "cert \<Rightarrow> string" where
  "GetCertFromDate c = DateTimePutTogether (ValidFromDate c)"

definition GetCertTillDate :: "cert \<Rightarrow> string" where
  "GetCertTillDate c = DateTimePutTogether (ValidToDate c)"

text \<open>The text between name and date, "; \<open>issued\<close>: " in Russian, as its UTF-8 bytes.\<close>

definition issued_text :: string where
  "issued_text = ''; '' @ map char_of
     [208::nat, 146, 209, 139, 208, 180, 208, 176, 208, 189] @ '': ''"

definition GetCertString :: "cert \<Rightarrow> string" where
  "GetCertString c = extract_attr (SubjectName c) ''CN='' @ issued_text @ GetCertFromDate c"

definition GetCertName :: "cert \<Rightarrow> string" where
  "GetCertName c = extract_attr (SubjectName c) ''CN=''"

definition GetIssuer :: "cert \<Rightarrow> string" where
  "GetIssuer c = extract_attr (IssuerName c) ''CN=''"

section \<open>The plug-in\<close>

datatype route = ActiveX | NativeBridge | CadesPlugin

record browser =
  appName :: string
  userAgent :: string

fun match_trident :: "string \<Rightarrow> bool" where
  "match_trident [] = False"
| "match_trident (c # s) =
     ((prefix ''trident/'' (c # s) \<and> drop 8 (c # s) \<noteq> [] \<and> hd (drop 8 (c # s)) \<noteq> CHR 0x0A)
      \<or> match_trident s)"

definition creation_route :: "browser \<Rightarrow> route" where
  "creation_route b =
     (if appName b = ''Microsoft Internet Explorer'' then ActiveX
      else
        (let ua = to_lower (userAgent b)
         in if match_trident ua then ActiveX
            else if contains ''ipod'' ua \<or> contains ''ipad'' ua \<or> contains ''iphone'' ua
            then NativeBridge else CadesPlugin))"

record store =
  Certificates :: "cert list"
  count_error :: "(int \<times> jserr) option"

record plugin =
  pl_browser :: browser
  pl_create :: "route \<Rightarrow> string \<Rightarrow> bool res"
  pl_open :: "unit res"
  pl_store :: store
  pl_signCades :: "cert \<Rightarrow> string \<Rightarrow> string res"
  pl_signXML :: "cert \<Rightarrow> string \<Rightarrow> string res"

text \<open>
  The thrown texts "could not get access to the object" and "there are no certificates", in
  Russian, as their UTF-8 bytes.
\<close>

definition no_access :: "string \<Rightarrow> jserr" where
  "no_access name = Thrown (
     map char_of [208::nat, 157, 208, 181, 32, 209, 131, 208, 180, 208, 176, 208, 187, 208,
     190, 209, 129, 209, 140, 32, 208, 191, 208, 190, 208, 187, 209, 131, 209, 135, 208, 184,
     209, 130, 209, 140, 32, 208, 180, 208, 190, 209, 129, 209, 130, 209, 131, 208, 191, 32,
     208, 186, 32, 208, 190, 208, 177, 209, 138, 208, 181, 208, 186, 209, 130, 209, 131, 32] @ name)"

definition no_certificates :: jserr where
  "no_certificates = Thrown (
     map char_of [208::nat, 158, 209, 130, 209, 129, 209, 131, 209, 130, 209, 129, 209, 130,
     208, 178, 209, 131, 209, 142, 209, 130, 32, 209, 129, 208, 181, 209, 128, 209, 130, 208,
     184, 209, 132, 208, 184, 208, 186, 208, 176, 209, 130, 209, 139])"

definition ObjCreator :: "plugin \<Rightarrow> string \<Rightarrow> unit res" where
  "ObjCreator pl name =
     rbind (pl_create pl (creation_route (pl_browser pl)) name) (\<lambda>result.
       if result then Inr () else Inl (no_access name))"

definition getStore :: "plugin \<Rightarrow> store res" where
  "getStore pl =
     rbind (ObjCreator pl ''CAPICOM.store'') (\<lambda>_. rbind (pl_open pl) (\<lambda>_. Inr (pl_store pl)))"

definition getCertificate :: "store \<Rightarrow> string \<Rightarrow> cert option" where
  "getCertificate s thumbprint = find (\<lambda>c. Thumbprint c = thumbprint) (Certificates s)"

definition strip_newlines :: "string \<Rightarrow> string" where
  "strip_newlines s = replace_all [CHR 0x0A] [] (replace_all [CHR 0x0D] [] s)"

text \<open>
  The two signing functions.  \<open>makeCadesBesSign\<close> returns null for empty data; the version of
  the theme \<open>ionweb-jt\<close> does not strip line ends (\<open>strip\<close> is \<open>False\<close> there).
\<close>

definition makeCadesBesSign :: "bool \<Rightarrow> plugin \<Rightarrow> string \<Rightarrow> cert \<Rightarrow> jsval res" where
  "makeCadesBesSign strip pl dataToSign certObject =
     rbind (ObjCreator pl ''CAdESCOM.CPSigner'') (\<lambda>_.
     rbind (ObjCreator pl ''CAdESCOM.CadesSignedData'') (\<lambda>_.
       if dataToSign \<noteq> [] then
         rbind (pl_signCades pl certObject dataToSign) (\<lambda>sig.
           Inr (JStr (if strip then strip_newlines sig else sig)))
       else Inr JNull))"

definition makeXMLSign :: "bool \<Rightarrow> plugin \<Rightarrow> string \<Rightarrow> cert \<Rightarrow> jsval res" where
  "makeXMLSign strip pl dataToSign certObject =
     rbind (ObjCreator pl ''CAdESCOM.CPSigner'') (\<lambda>_.
     rbind (ObjCreator pl ''CAdESCOM.SignedXML'') (\<lambda>_.
     rbind (pl_signXML pl certObject dataToSign) (\<lambda>sig.
       Inr (JStr (if strip then strip_newlines sig else sig)))))"

text \<open>
  \<open>getCerts\<close>: the certificates that are not expired, have a private key and are valid, by
  thumbprint.  \<open>MS_CANT_FIND_OBJ_OR_PROP\<close> while counting means that there are none at all.
\<close>

definition MS_CANT_FIND_OBJ_OR_PROP :: int where
  "MS_CANT_FIND_OBJ_OR_PROP = 0x80092004"

definition usable_cert :: "int \<Rightarrow> cert \<Rightarrow> bool" where
  "usable_cert now c \<longleftrightarrow> now < d_time (ValidToDate c) \<and> HasPrivateKey c \<and> IsValid c"

fun collect_certs :: "int \<Rightarrow> cert list \<Rightarrow> jsobj \<Rightarrow> jsobj" where
  "collect_certs now [] result = result"
| "collect_certs now (c # cs) result =
     collect_certs now cs
       (if usable_cert now c then oset result (Thumbprint c) (JStr (GetCertString c)) else result)"

definition getCerts :: "plugin \<Rightarrow> int \<Rightarrow> jsobj res" where
  "getCerts pl now =
     rbind (getStore pl) (\<lambda>s.
     rbind (pl_open pl) (\<lambda>_.
       (case count_error s of
          Some (n, ex) \<Rightarrow>
            if n = MS_CANT_FIND_OBJ_OR_PROP then Inl no_certificates else Inl ex
        | None \<Rightarrow> Inr (collect_certs now (Certificates s) []))))"

text \<open>A concrete certificate and a concrete plug-in, which signs by marking the text.\<close>

definition sample_cert :: cert where
  "sample_cert =
     (let d = \<lparr>d_time = 9, d_utcDate = 1, d_utcMonth = 0, d_utcFullYear = 2014, d_utcHours = 0,
                d_utcMinutes = 0, d_utcSeconds = 0, d_localMonth = 0, d_localFullYear = 2014\<rparr>
      in \<lparr>Thumbprint = ''AB'', SubjectName = ''CN=Ivan'', IssuerName = ''CN=CA'', ValidFromDate = d,
          ValidToDate = d, HasPrivateKey = True, IsValid = True, FriendlyName = []\<rparr>)"

definition sample_plugin :: plugin where
  "sample_plugin =
     \<lparr>pl_browser = \<lparr>appName = ''Netscape'', userAgent = ''Mozilla''\<rparr>, pl_create = (\<lambda>_ _. Inr True),
      pl_open = Inr (), pl_store = \<lparr>Certificates = [sample_cert], count_error = None\<rparr>,
      pl_signCades = (\<lambda>_ s. Inr (''C:'' @ s)), pl_signXML = (\<lambda>_ s. Inr (''X:'' @ s))\<rparr>"

lemma sample_plugin_simps [simp]:
  "Thumbprint sample_cert = ''AB''"
  "ObjCreator sample_plugin name = Inr ()"
  "getStore sample_plugin = Inr \<lparr>Certificates = [sample_cert], count_error = None\<rparr>"
  "pl_open sample_plugin = Inr ()"
  "pl_store sample_plugin = \<lparr>Certificates = [sample_cert], count_error = None\<rparr>"
  "pl_signCades sample_plugin c s = Inr (''C:'' @ s)"
  "pl_signXML sample_plugin c s = Inr (''X:'' @ s)"
  by (simp_all add: sample_plugin_def sample_cert_def ObjCreator_def getStore_def Let_def)

section \<open>Properties\<close>

lemma strip_newlines_clean:
  "CHR 0x0A \<notin> set (strip_newlines s) \<and> CHR 0x0D \<notin> set (strip_newlines s)"
  by (auto simp: strip_newlines_def replace_all_single split: if_splits)

lemma strip_newlines_filter:
  "strip_newlines s = filter (\<lambda>c. c \<noteq> CHR 0x0A \<and> c \<noteq> CHR 0x0D) s"
  by (induction s) (auto simp: strip_newlines_def replace_all_single)

lemma collect_certs_names:
  "set (onames (collect_certs now cs r)) =
     set (onames r) \<union> {Thumbprint c | c. c \<in> set cs \<and> usable_cert now c}"
  by (induction now cs r rule: collect_certs.induct) auto

lemma index_of_append: "\<not> contains p s \<Longrightarrow> p \<noteq> [] \<Longrightarrow>
  (\<And>i. 0 < i \<Longrightarrow> i \<le> length s \<Longrightarrow> \<not> prefix p (drop (length s - i) s @ p @ t)) \<Longrightarrow>
  index_of p (s @ p @ t) = Some (length s)"
proof (induction s)
  case Nil
  then show ?case by simp
next
  case (Cons c s)
  have "\<not> prefix p ((c # s) @ p @ t)" using Cons.prems(3) [of "length (c # s)"] by simp
  moreover have "index_of p (s @ p @ t) = Some (length s)"
  proof (rule Cons.IH)
    show "\<not> contains p s" using Cons.prems(1) by (auto simp: contains_def split: if_splits)
    show "p \<noteq> []" by (rule Cons.prems(2))
    fix i assume i: "0 < i" "i \<le> length s"
    then have "drop (length (c # s) - i) (c # s) = drop (length s - i) s"
      by (simp add: Suc_diff_le)
    with Cons.prems(3) [of i] i show "\<not> prefix p (drop (length s - i) s @ p @ t)" by simp
  qed
  ultimately show ?case by simp
qed

lemma prefix_comma_blank: "prefix '', '' (CHR '','' # s) \<longleftrightarrow> (\<exists>t. s = CHR '' '' # t)"
  by (cases s) auto

text \<open>
  the common name of a certificate's subject is read correctly when another attribute
  follows it, and when it comes last it is cut at its first blank: of a last common name of
  two words only the first is shown.
\<close>

theorem extract_common_name:
  assumes "\<not> contains '', '' nm" "nm = [] \<or> last nm \<noteq> CHR '',''"
    and "\<not> contains '' '' w" "\<not> contains '', '' rest"
    and "w = [] \<or> last w \<noteq> CHR '',''"
  shows "extract_attr (''CN='' @ nm @ '', '' @ t) ''CN='' = nm \<and>
    extract_attr (''CN='' @ w @ '' '' @ rest) ''CN='' = w"
proof
  have "index_of '', '' (nm @ '', '' @ t) = Some (length nm)"
  proof (rule index_of_append [OF assms(1)])
    fix i assume i: "0 < i" "i \<le> length nm"
    define u where "u = drop (length nm - i) nm"
    have u: "u \<noteq> []" "suffix u nm" using i by (auto simp: u_def suffix_drop)
    show "\<not> prefix '', '' (drop (length nm - i) nm @ '', '' @ t)"
    proof
      assume p: "prefix '', '' (drop (length nm - i) nm @ '', '' @ t)"
      show False
      proof (cases u)
        case Nil
        with u show False by simp
      next
        case (Cons a v)
        show False
        proof (cases v)
          case Nil
          then have "last nm = a" using Cons u(2) by (auto simp: suffix_def)
          moreover have "a = CHR '',''" using p Cons unfolding u_def [symmetric] by simp
          ultimately show False using assms(2) u by (auto simp: suffix_def)
        next
          case (Cons b v')
          then have "prefix '', '' u" using p \<open>u = a # v\<close> unfolding u_def [symmetric] by simp
          then have "sublist '', '' nm"
            using u(2) by (meson prefix_imp_sublist sublist_order.order_trans suffix_imp_sublist)
          with assms(1) show False by (simp add: contains_iff)
        qed
      qed
    qed
  qed simp
  then show "extract_attr (''CN='' @ nm @ '', '' @ t) ''CN='' = nm"
    by (simp add: extract_attr_def index_from_def Let_def)
next
  have sp: "index_of '' '' (w @ '' '' @ rest) = Some (length w)"
    using assms(3) by (induction w) (auto simp: contains_def split: if_splits)
  have "index_of '', '' (w @ '' '' @ rest) = None"
    using assms(3,4,5)
  proof (induction w)
    case Nil
    then show ?case by (simp add: contains_def)
  next
    case (Cons a w)
    then have "\<not> contains '' '' w" "w = [] \<or> last w \<noteq> CHR '',''"
      by (auto simp: contains_def split: if_splits)
    with Cons have "index_of '', '' (w @ '' '' @ rest) = None" by simp
    moreover have "\<not> prefix '', '' (a # w @ '' '' @ rest)"
    proof
      assume p: "prefix '', '' (a # w @ '' '' @ rest)"
      show False
      proof (cases w)
        case Nil
        with p Cons.prems show False by simp
      next
        case (Cons b v)
        with p have "b = CHR '' ''" by simp
        with \<open>\<not> contains '' '' w\<close> Cons show False by (simp add: contains_def)
      qed
    qed
    ultimately show ?case by simp
  qed
  with sp show "extract_attr (''CN='' @ w @ '' '' @ rest) ''CN='' = w"
    by (simp add: extract_attr_def index_from_def Let_def)
qed

theorem extract_common_name_witness:
  "extract_attr ''CN=Ivan Petrov, O=Org'' ''CN='' = ''Ivan Petrov'' \<and> extract_attr ''CN=Ivan Petrov'' ''CN='' = ''Ivan''"
  using extract_common_name [of "''Ivan Petrov''" "''Ivan''" "''Petrov''" "''O=Org''"]
  by (simp add: contains_def)

lemma collect_certs_inv:
  assumes "\<And>c. c \<in> set cs \<Longrightarrow> usable_cert now c \<Longrightarrow> P (Thumbprint c) (JStr (GetCertString c))"
    and "\<And>k. k \<in> set (onames r) \<Longrightarrow> P k (oget r k)"
    and "k \<in> set (onames (collect_certs now cs r))"
  shows "P k (oget (collect_certs now cs r) k)"
  using assms
proof (induction now cs r rule: collect_certs.induct)
  case (1 now result)
  then show ?case by simp
next
  case (2 now c cs result)
  from "2.prems"(3) show ?case unfolding collect_certs.simps
    by (rule "2.IH" [rotated 2]) (use "2.prems"(1,2) in \<open>auto split: if_splits\<close>)
qed

text \<open>
  when the list of certificates for signing is returned, the store could be opened and
  counted, the list has exactly the thumbprints of the certificates that are unexpired, valid
  and have a private key, and each text shown is that of such a certificate.
\<close>

theorem getCerts_offers_usable:
  assumes "getCerts pl now = Inr r"
  shows "set (onames r) =
      {Thumbprint c | c. c \<in> set (Certificates (pl_store pl)) \<and> usable_cert now c} \<and>
    getStore pl = Inr (pl_store pl) \<and> count_error (pl_store pl) = None \<and>
    (\<forall>k \<in> set (onames r). \<exists>c \<in> set (Certificates (pl_store pl)).
       Thumbprint c = k \<and> usable_cert now c \<and> oget r k = JStr (GetCertString c))"
proof -
  have *: "getStore pl = Inr (pl_store pl)" "count_error (pl_store pl) = None"
    and r: "r = collect_certs now (Certificates (pl_store pl)) []"
    using assms
    by (cases "ObjCreator pl ''CAPICOM.store''"; cases "pl_open pl";
        auto simp: getCerts_def getStore_def split: option.splits if_splits)+
  have names: "set (onames r) =
      {Thumbprint c | c. c \<in> set (Certificates (pl_store pl)) \<and> usable_cert now c}"
    unfolding r collect_certs_names by (simp add: onames_def)
  have "\<exists>c \<in> set (Certificates (pl_store pl)).
      Thumbprint c = k \<and> usable_cert now c \<and> oget r k = JStr (GetCertString c)"
    if "k \<in> set (onames r)" for k
    using that unfolding r by (rule collect_certs_inv [rotated 2]) (auto simp: onames_def)
  with * names show ?thesis by blast
qed

theorem getCerts_offers_usable_witness:
  "\<exists>pl. (\<exists>r. getCerts pl 5 = Inr r) \<and> getStore pl = Inr (pl_store pl) \<and> Certificates (pl_store pl) \<noteq> []"
proof -
  obtain r where r: "getCerts sample_plugin 5 = Inr r"
    by (simp add: getCerts_def)
  from getCerts_offers_usable [OF this] have "getStore sample_plugin = Inr (pl_store sample_plugin)" by blast
  moreover have "Certificates (pl_store sample_plugin) \<noteq> []" by simp
  ultimately show ?thesis using r by blast
qed

text \<open>
  the date of a certificate mixes the UTC day and time with the local month and year: for
  a moment whose local month differs from the UTC one, the printed month is not that of the
  printed day.
\<close>

theorem cert_date_mixes_zones:
  "DateTimePutTogether d = check (d_utcDate d) @ ''.'' @ check (d_utcMonth d + 1) @ ''.''
      @ show_nat (d_utcFullYear d) @ '' '' @ check (d_utcHours d) @ '':'' @ check (d_utcMinutes d)
      @ '':'' @ check (d_utcSeconds d) \<longleftrightarrow>
    check (d_localMonth d + 1) @ ''.'' @ show_nat (d_localFullYear d) =
      check (d_utcMonth d + 1) @ ''.'' @ show_nat (d_utcFullYear d)"
  by (auto simp: DateTimePutTogether_def)

end
