(* ===== verification/Task_Interface.thy ===== *)
theory Task_Interface
  imports Js_Prelude
begin

text \<open>
  The contract of the client's exclusive tasks: a signing module and the page loader each run
  one task at a time.  \<open>start\<close> is what a caller uses; while a task runs it changes nothing, and
  from a free state it makes the module busy.  What the callers rely on is that of a burst of
  starts exactly the first takes effect.
\<close>

locale exclusive_task =
  fixes busy :: "'s \<Rightarrow> bool"
    and start :: "'a \<Rightarrow> 's \<Rightarrow> 's"
  assumes start_busy: "busy s \<Longrightarrow> start a s = s"
    and start_free: "\<not> busy s \<Longrightarrow> busy (start a s)"
begin

lemma busy_after_start: "busy (start a s)"
  by (cases "busy s") (simp_all add: start_busy start_free)

lemma burst_busy: "busy s \<Longrightarrow> fold start as s = s"
  by (induction as) (simp_all add: start_busy)

lemma burst_free: "\<not> busy s \<Longrightarrow> fold start (a # as) s = start a s"
  by (simp add: burst_busy start_free)

lemma start_idem: "start b (start a s) = start a s"
  by (rule start_busy) (rule busy_after_start)

end

end
