(* ===== verification/Crypto_Spa.thy ===== *)
theory Crypto_Spa
  imports Crypto_Common Task_Interface
begin

text \<open>
  The signing module of the theme \<open>ionweb-spa\<close> (\<open>CryptoPro\<close> in its \<open>cryptopro.js\<close>): the
  operations that run one signing task, from the request of the data to the answer of the
  server.  A task that waits for an answer is an element of \<open>cp_waits\<close>; what an operation does
  to the outside is the list of events it returns.  Texts in Russian are the constructors of
  \<open>fail_text\<close>; the function \<open>doSign\<close> handed to the caller is the pair of job and data that
the event \<open>Ask_Certificate\<close> carries.
\<close>

section \<open>State\<close>

datatype phase = Ready | Receiving | Signing | Sending

primrec phase_rank :: "phase \<Rightarrow> nat" where
  "phase_rank Ready = 0"
| "phase_rank Receiving = 1"
| "phase_rank Signing = 2"
| "phase_rank Sending = 3"

lemma phase_rank_inj: "phase_rank p = phase_rank q \<Longrightarrow> p = q"
  by (cases p; cases q) auto

instantiation phase :: linorder
begin

definition less_eq_phase :: "phase \<Rightarrow> phase \<Rightarrow> bool" where
  "less_eq_phase p q \<longleftrightarrow> phase_rank p \<le> phase_rank q"

definition less_phase :: "phase \<Rightarrow> phase \<Rightarrow> bool" where
  "less_phase p q \<longleftrightarrow> phase_rank p < phase_rank q"

instance
  by standard (auto simp: less_eq_phase_def less_phase_def intro: phase_rank_inj)

end

record job =
  j_obj :: jsval
  j_action :: jsval
  j_select :: bool
  j_notify :: bool

datatype fail_text =
    Module_Busy
  | Status string
  | Certificate_Not_Found
  | Nothing_Signed
  | No_Certificates
  | Unsupported_Type string
  | Send_Failed string
  | Send_Bad_Type string
  | Server_Error jsval

datatype event =
    Get_Data jsval jsval
  | Ask_Certificate job jsobj
  | Alert_Box jserr
  | Call_Fail fail_text
  | Call_Success
  | Post_Sign jsobj
  | Uncaught jserr

datatype wait = Wait_Data job | Wait_Sent job

record cp_state =
  cp_phase :: phase
  cp_waits :: "wait list"

definition CryptoPro :: cp_state where
  "CryptoPro = \<lparr>cp_phase = Ready, cp_waits = []\<rparr>"

section \<open>Choosing and applying the signing function\<close>

datatype sign_func = SignXML | SignCades

definition set_signature_type :: "jsobj \<Rightarrow> string \<Rightarrow> jsobj res" where
  "set_signature_type data t =
     (case oget data ''attributes'' of
        JObj attrs \<Rightarrow>
          Inr (oset data ''attributes'' (JObj (oset attrs ''actualSignatureType'' (JStr t))))
      | v \<Rightarrow> if nullish v then Inl TypeError else Inr data)"

text \<open>\<open>getSignFunc\<close>: for any other type it only calls \<open>onFail\<close> and returns null.\<close>

definition getSignFunc :: "string \<Rightarrow> jsobj \<Rightarrow> (sign_func option \<times> jsobj \<times> event list) res" where
  "getSignFunc contentType data =
     (if prefix ''application/xml'' contentType then
        rbind (set_signature_type data ''CAdESCOM.SignedXML'') (\<lambda>d. Inr (Some SignXML, d, []))
      else if prefix ''application/json'' contentType \<or> prefix ''text/plain'' contentType then
        rbind (set_signature_type data ''CAdESCOM.CadesSignedData'') (\<lambda>d. Inr (Some SignCades, d, []))
      else Inr (None, data, [Call_Fail (Unsupported_Type contentType)]))"

definition apply_sign_func :: "plugin \<Rightarrow> sign_func option \<Rightarrow> jsval \<Rightarrow> cert \<Rightarrow> jsval res" where
  "apply_sign_func pl f contents c =
     (let text = if truthy contents then to_str contents else []
      in case f of
           None \<Rightarrow> Inl TypeError
         | Some SignXML \<Rightarrow> makeXMLSign True pl text c
         | Some SignCades \<Rightarrow> makeCadesBesSign True pl text c)"

text \<open>
  The loop over the parts: the events and the written attributes stay when an exception leaves
  the loop.
\<close>

fun sign_parts ::
  "plugin \<Rightarrow> cert \<Rightarrow> jsval list \<Rightarrow> jsobj \<Rightarrow> jsval list \<Rightarrow> event list \<Rightarrow>
   event list \<times> (jsval list \<times> jsobj) res" where
  "sign_parts pl c [] data sigs evs = (evs, Inr (sigs, data))"
| "sign_parts pl c (p # ps) data sigs evs =
     (case vget p ''mimeType'' of
        Inl e \<Rightarrow> (evs, Inl e)
      | Inr (JStr contentType) \<Rightarrow>
          (case getSignFunc contentType data of
             Inl e \<Rightarrow> (evs, Inl e)
           | Inr (f, data', evs') \<Rightarrow>
               (case rbind (vget p ''contents'') (\<lambda>contents. apply_sign_func pl f contents c) of
                  Inl e \<Rightarrow> (evs @ evs', Inl e)
                | Inr sig \<Rightarrow> sign_parts pl c ps data' (sigs @ [sig]) (evs @ evs')))
      | Inr _ \<Rightarrow> (evs, Inl TypeError))"

text \<open>\<open>data.parts\<close> as the loop reads it: its length decides whether there is anything to sign.\<close>

definition data_parts :: "jsval \<Rightarrow> jsval list res" where
  "data_parts data =
     rbind (vget data ''parts'') (\<lambda>parts.
       case parts of
         JArr ps \<Rightarrow> Inr ps
       | JStr s \<Rightarrow> Inr (map (\<lambda>c. JStr [c]) s)
       | _ \<Rightarrow> if nullish parts then Inl TypeError else Inr [])"

section \<open>The task\<close>

text \<open>\<open>makeSign\<close> up to the request, and its refusal while a task runs.\<close>

definition makeSign :: "job \<Rightarrow> cp_state \<Rightarrow> cp_state \<times> event list" where
  "makeSign j s =
     (if cp_phase s = Ready
      then (s\<lparr>cp_phase := Receiving, cp_waits := Wait_Data j # cp_waits s\<rparr>,
            [Get_Data (j_obj j) (j_action j)])
      else (s, [Call_Fail Module_Busy]))"

definition sendSign :: "job \<Rightarrow> jsobj \<Rightarrow> jsval list \<Rightarrow> cp_state \<Rightarrow> cp_state \<times> event list" where
  "sendSign j data signatures s =
     (s\<lparr>cp_phase := Sending, cp_waits := Wait_Sent j # cp_waits s\<rparr>,
      [Post_Sign [(''id'', j_obj j), (''action'', j_action j), (''parts'', oget data ''parts''),
                  (''attributes'', oget data ''attributes''), (''signatures'', JArr signatures)]])"

text \<open>
  \<open>doSign\<close>: whatever is thrown inside it, by the store, the plug-in or the missing signing
  function, is shown in an alert box, and the phase stays as it was.
\<close>

definition doSign :: "plugin \<Rightarrow> job \<Rightarrow> jsobj \<Rightarrow> string \<Rightarrow> cp_state \<Rightarrow> cp_state \<times> event list" where
  "doSign pl j data certKey s =
     (case getStore pl of
        Inl e \<Rightarrow> (s, [Alert_Box e])
      | Inr store \<Rightarrow>
          (case getCertificate store certKey of
             None \<Rightarrow> (s\<lparr>cp_phase := Ready\<rparr>, [Call_Fail Certificate_Not_Found])
           | Some c \<Rightarrow>
               (case data_parts (JObj data) of
                  Inl e \<Rightarrow> (s, [Alert_Box e])
                | Inr parts \<Rightarrow>
                    (case sign_parts pl c parts data [] [] of
                       (evs, Inl e) \<Rightarrow> (s, evs @ [Alert_Box e])
                     | (evs, Inr (signatures, data')) \<Rightarrow>
                         if signatures = []
                         then (s\<lparr>cp_phase := Ready\<rparr>, evs @ [Call_Fail Nothing_Signed])
                         else (let (s', evs') = sendSign j data' signatures s
                               in (s', evs @ evs'))))))"

text \<open>
  The answer to the request of the data.  The caller either chooses the certificate
  (\<open>onNeedCertSelect\<close>) or the first certificate found is taken.
\<close>

definition success_status :: "string \<Rightarrow> bool" where
  "success_status textStatus \<longleftrightarrow> textStatus = ''success'' \<or> textStatus = ''notmodified''"

definition received ::
  "plugin \<Rightarrow> int \<Rightarrow> job \<Rightarrow> jsval \<Rightarrow> string \<Rightarrow> cp_state \<Rightarrow> cp_state \<times> event list" where
  "received pl now j data textStatus s0 =
     (let s = s0\<lparr>cp_waits := remove1 (Wait_Data j) (cp_waits s0)\<rparr>
      in if success_status textStatus then
           (let s1 = s\<lparr>cp_phase := Signing\<rparr>
            in case data_parts data of
                 Inl e \<Rightarrow> (s1, [Uncaught e])
               | Inr [] \<Rightarrow> (s1\<lparr>cp_phase := Ready\<rparr>, [])
               | Inr (p # ps) \<Rightarrow>
                   (case data of
                      JObj d \<Rightarrow>
                        if j_select j
                        then (s1, [Ask_Certificate j d])
                        else
                          (case getCerts pl now of
                             Inl e \<Rightarrow> (s1, [Uncaught e])
                           | Inr [] \<Rightarrow> (s1\<lparr>cp_phase := Ready\<rparr>, [Call_Fail No_Certificates])
                           | Inr ((certKey, _) # _) \<Rightarrow> doSign pl j d certKey s1)
                    | _ \<Rightarrow> (s1, [Uncaught TypeError])))
         else (s\<lparr>cp_phase := Ready\<rparr>, [Call_Fail (Status textStatus)]))"

text \<open>The answer of the server to the signatures.\<close>

definition server_answer :: "jsval \<Rightarrow> event list" where
  "server_answer data =
     (if typeof data \<noteq> ''object'' then [Call_Fail (Send_Bad_Type (typeof data))]
      else case vget data ''message'' of
             Inl e \<Rightarrow> [Uncaught e]
           | Inr m \<Rightarrow>
               if truthy m \<and> vget m ''type'' = Inr (JStr ''ERROR'')
               then (case vget m ''message'' of Inl e \<Rightarrow> [Uncaught e] | Inr t \<Rightarrow> [Call_Fail (Server_Error t)])
               else [Call_Success])"

definition sent :: "job \<Rightarrow> jsval \<Rightarrow> string \<Rightarrow> cp_state \<Rightarrow> cp_state \<times> event list" where
  "sent j data textStatus s =
     (s\<lparr>cp_phase := Ready, cp_waits := remove1 (Wait_Sent j) (cp_waits s)\<rparr>,
      if textStatus \<noteq> ''success'' then [Call_Fail (Send_Failed textStatus)]
      else filter (\<lambda>e. e \<noteq> Call_Success \<or> j_notify j) (server_answer data))"

section \<open>Lemmas\<close>

interpretation crypto_task:
  exclusive_task "\<lambda>s. cp_phase s \<noteq> Ready" "\<lambda>j s. fst (makeSign j s)"
  by unfold_locales (simp_all add: makeSign_def)

definition supported :: "string \<Rightarrow> sign_func option" where
  "supported t =
     (if prefix ''application/xml'' t then Some SignXML
      else if prefix ''application/json'' t \<or> prefix ''text/plain'' t then Some SignCades else None)"

primrec type_name :: "sign_func \<Rightarrow> string" where
  "type_name SignXML = ''CAdESCOM.SignedXML''"
| "type_name SignCades = ''CAdESCOM.CadesSignedData''"

lemma getSignFunc_cases:
  "getSignFunc t data =
     (case supported t of
        None \<Rightarrow> Inr (None, data, [Call_Fail (Unsupported_Type t)])
      | Some f \<Rightarrow> rbind (set_signature_type data (type_name f)) (\<lambda>d. Inr (Some f, d, [])))"
  by (simp add: getSignFunc_def supported_def)

lemma set_signature_type_other:
  "set_signature_type data t = Inr d \<Longrightarrow> k \<noteq> ''attributes'' \<Longrightarrow> oget d k = oget data k"
  by (auto simp: set_signature_type_def split: jsval.splits if_splits)

lemma set_signature_type_ok:
  "\<not> nullish (oget data ''attributes'') \<Longrightarrow>
   \<exists>d. set_signature_type data t = Inr d \<and> \<not> nullish (oget d ''attributes'')"
  by (auto simp: set_signature_type_def split: jsval.splits)

text \<open>A part that can be signed, and its signature.\<close>

definition part_signs :: "plugin \<Rightarrow> cert \<Rightarrow> jsval \<Rightarrow> jsval \<Rightarrow> bool" where
  "part_signs pl c p sig \<longleftrightarrow>
     (\<exists>t f v. vget p ''mimeType'' = Inr (JStr t) \<and> supported t = Some f \<and>
        vget p ''contents'' = Inr v \<and> apply_sign_func pl (Some f) v c = Inr sig)"

lemma sign_parts_all:
  assumes "list_all2 (part_signs pl c) ps new" "\<not> nullish (oget data ''attributes'')"
  shows "\<exists>d. sign_parts pl c ps data sigs evs = (evs, Inr (sigs @ new, d)) \<and>
           (\<forall>k. k \<noteq> ''attributes'' \<longrightarrow> oget d k = oget data k)"
  using assms
proof (induction ps new arbitrary: data sigs rule: list_all2_induct)
  case Nil
  then show ?case by auto
next
  case (Cons p ps sig new)
  from Cons.hyps(1) obtain t f v where p: "vget p ''mimeType'' = Inr (JStr t)" "supported t = Some f"
      "vget p ''contents'' = Inr v" "apply_sign_func pl (Some f) v c = Inr sig"
    by (auto simp: part_signs_def)
  from set_signature_type_ok [OF Cons.prems] obtain d1
    where d1: "set_signature_type data (type_name f) = Inr d1" "\<not> nullish (oget d1 ''attributes'')"
    by blast
  from Cons.IH [OF d1(2), of "sigs @ [sig]"] obtain d
    where "sign_parts pl c ps d1 (sigs @ [sig]) evs = (evs, Inr ((sigs @ [sig]) @ new, d))"
      and "\<And>k. k \<noteq> ''attributes'' \<Longrightarrow> oget d k = oget d1 k" by blast
  with p d1 set_signature_type_other [OF d1(1)] show ?case
    by (auto simp: getSignFunc_cases)
qed

lemma sign_parts_unsupported:
  assumes "list_all2 (part_signs pl c) ps sigs0" "\<not> nullish (oget data ''attributes'')"
    and "vget p ''mimeType'' = Inr (JStr t)" "supported t = None" "vget p ''contents'' = Inr v"
  shows "sign_parts pl c (ps @ p # qs) data sigs evs =
    (evs @ [Call_Fail (Unsupported_Type t)], Inl TypeError)"
  using assms(1,2)
proof (induction ps sigs0 arbitrary: data sigs rule: list_all2_induct)
  case Nil
  with assms(3-5) show ?case by (simp add: getSignFunc_cases apply_sign_func_def)
next
  case (Cons q ps sig new)
  from Cons.hyps(1) obtain t' f w where q: "vget q ''mimeType'' = Inr (JStr t')" "supported t' = Some f"
      "vget q ''contents'' = Inr w" "apply_sign_func pl (Some f) w c = Inr sig"
    by (auto simp: part_signs_def)
  from set_signature_type_ok [OF Cons.prems] obtain d1
    where "set_signature_type data (type_name f) = Inr d1" "\<not> nullish (oget d1 ''attributes'')"
    by blast
  with q Cons.IH [of d1 "sigs @ [sig]"] show ?case by (simp add: getSignFunc_cases)
qed

lemma doSign_waits:
  "cp_waits (fst (doSign pl j d k s)) = cp_waits s \<and>
     (cp_phase (fst (doSign pl j d k s)) = cp_phase s \<or> cp_phase (fst (doSign pl j d k s)) = Ready)
   \<or> cp_waits (fst (doSign pl j d k s)) = Wait_Sent j # cp_waits s \<and>
     cp_phase (fst (doSign pl j d k s)) = Sending"
  by (auto simp: doSign_def sendSign_def split: sum.splits option.splits prod.splits)

lemma getSignFunc_events:
  "getSignFunc t data = Inr (f, d, evs) \<Longrightarrow> Ask_Certificate j' d' \<notin> set evs"
  by (cases "supported t"; cases "set_signature_type data (type_name (the (supported t)))")
    (auto simp: getSignFunc_cases)

lemma sign_parts_events:
  "Ask_Certificate j' d' \<notin> set evs \<Longrightarrow>
   Ask_Certificate j' d' \<notin> set (fst (sign_parts pl c ps data sigs evs))"
proof (induction ps arbitrary: data sigs evs)
  case Nil
  then show ?case by simp
next
  case (Cons p ps)
  show ?case
  proof (cases "vget p ''mimeType''")
    case (Inl e)
    with Cons.prems show ?thesis by simp
  next
    case (Inr v)
    show ?thesis
    proof (cases v)
      case (JStr t)
      show ?thesis
      proof (cases "getSignFunc t data")
        case (Inl e)
        with Inr JStr Cons.prems show ?thesis by simp
      next
        case (Inr r)
        obtain f d evs' where r: "r = (f, d, evs')" by (cases r)
        with Inr have e: "Ask_Certificate j' d' \<notin> set evs'" by (simp add: getSignFunc_events)
        with Cons.IH [of "evs @ evs'" d] Cons.prems \<open>vget p ''mimeType'' = Inr v\<close> JStr Inr r
        show ?thesis
          by (cases "rbind (vget p ''contents'') (\<lambda>contents. apply_sign_func pl f contents c)") auto
      qed
    qed (use Inr Cons.prems in auto)
  qed
qed

lemma doSign_asks_nothing: "Ask_Certificate j' d' \<notin> set (snd (doSign pl j d k s))"
proof -
  have *: "sign_parts pl c ps d [] [] = (evs, r) \<Longrightarrow> Ask_Certificate j' d' \<notin> set evs" for c ps evs r
    using sign_parts_events [of j' d' "[]" pl c ps d "[]"] by simp
  show ?thesis
    by (auto simp: doSign_def sendSign_def split: sum.splits option.splits prod.splits dest!: *)
qed

lemma received_cases:
  fixes s0 :: cp_state and j :: job
  defines "c \<equiv> s0\<lparr>cp_waits := remove1 (Wait_Data j) (cp_waits s0), cp_phase := Signing\<rparr>"
  obtains (failed) evs where "received pl now j d st s0 = (c\<lparr>cp_phase := Ready\<rparr>, evs)"
      "\<And>j' d'. Ask_Certificate j' d' \<notin> set evs"
    | (uncaught) e where "received pl now j d st s0 = (c, [Uncaught e])"
    | (asked) d' where "received pl now j d st s0 = (c, [Ask_Certificate j d'])"
    | (signed) d' k where "received pl now j d st s0 = doSign pl j d' k c"
proof (cases "success_status st")
  case False
  then show thesis by (intro failed [of "[Call_Fail (Status st)]"]) (simp_all add: received_def c_def)
next
  case ok: True
  show thesis
  proof (cases "data_parts d")
    case (Inl e)
    with ok show thesis by (intro uncaught [of e]) (simp add: received_def c_def)
  next
    case (Inr parts)
    show thesis
    proof (cases parts)
      case Nil
      with ok Inr show thesis by (intro failed [of "[]"]) (simp_all add: received_def c_def)
    next
      case (Cons p ps)
      show thesis
      proof (cases d)
        case (JObj d')
        show thesis
        proof (cases "j_select j")
          case True
          with ok Inr Cons JObj show thesis by (intro asked [of d']) (simp add: received_def c_def)
        next
          case auto: False
          show thesis
          proof (cases "getCerts pl now")
            case (Inl e)
            with auto ok \<open>data_parts d = Inr parts\<close> Cons JObj show thesis
              by (intro uncaught [of e]) (simp add: received_def c_def)
          next
            case (Inr cs)
            show thesis
            proof (cases cs)
              case Nil
              with Inr auto ok \<open>data_parts d = Inr parts\<close> Cons JObj show thesis
                by (intro failed [of "[Call_Fail No_Certificates]"]) (simp_all add: received_def c_def)
            next
              case (Cons kv cs')
              with Inr auto ok \<open>data_parts d = Inr parts\<close> \<open>parts = p # ps\<close> JObj show thesis
                by (cases kv) (intro signed [of d' "fst kv"], simp add: received_def c_def)
            qed
          qed
        qed
      qed (use ok Inr Cons in \<open>auto intro!: uncaught [of TypeError] simp: received_def c_def\<close>)
    qed
  qed
qed

section \<open>Properties\<close>

text \<open>
  while a signing task runs, every further call to sign is refused with the message that
  the module is busy and changes nothing: of any burst of calls from the ready state exactly
  the first one is carried out.
\<close>

theorem makeSign_exclusive:
  assumes "cp_phase s = Ready"
  shows "fold (\<lambda>j s. fst (makeSign j s)) (j # js) s = fst (makeSign j s) \<and>
    makeSign j' (fst (makeSign j s)) = (fst (makeSign j s), [Call_Fail Module_Busy]) \<and>
    snd (makeSign j s) = [Get_Data (j_obj j) (j_action j)]"
  using crypto_task.burst_free [of s j js] assms by (simp add: makeSign_def)

theorem makeSign_exclusive_witness:
  "\<exists>j. fold (\<lambda>j s. fst (makeSign j s)) [j, j, j] CryptoPro = fst (makeSign j CryptoPro)"
proof -
  let ?j = "\<lparr>j_obj = JStr ''A.1'', j_action = JStr ''SAVE'', j_select = True, j_notify = True\<rparr>"
  from makeSign_exclusive [of CryptoPro ?j "[?j, ?j]" ?j] show ?thesis
    by (auto simp: CryptoPro_def)
qed

text \<open>
  C8: when every part is of a supported type and the plug-in signs it, one request is sent
  with the object, the action, the unchanged parts and exactly one signature for each part, in
  their order, and nothing else happens.
\<close>

theorem doSign_posts_one_signature_per_part:
  assumes "getStore pl = Inr st" "getCertificate st key = Some c"
    and "oget data ''parts'' = JArr parts" "parts \<noteq> []"
    and "\<not> nullish (oget data ''attributes'')" "list_all2 (part_signs pl c) parts sigs"
  shows "\<exists>body. doSign pl j data key s =
      (s\<lparr>cp_phase := Sending, cp_waits := Wait_Sent j # cp_waits s\<rparr>, [Post_Sign body]) \<and>
    oget body ''signatures'' = JArr sigs \<and> oget body ''parts'' = JArr parts \<and>
    oget body ''id'' = j_obj j \<and> oget body ''action'' = j_action j"
proof -
  have "data_parts (JObj data) = Inr parts" using assms(3) by (simp add: data_parts_def)
  moreover obtain d where "sign_parts pl c parts data [] [] = ([], Inr (sigs, d))"
    "oget d ''parts'' = JArr parts"
    using sign_parts_all [OF assms(6,5), of "[]" "[]"] assms(3) by auto
  moreover have "sigs \<noteq> []" using assms(4,6) by auto
  ultimately show ?thesis using assms(1,2) by (simp add: doSign_def sendSign_def)
qed

theorem doSign_posts_one_signature_per_part_witness:
  "\<exists>body. snd (doSign sample_plugin \<lparr>j_obj = JStr ''A.1'', j_action = JStr ''SAVE'', j_select = True, j_notify = True\<rparr>
      [(''parts'', JArr [JObj [(''mimeType'', JStr ''text/plain''), (''contents'', JStr ''t'')]]),
       (''attributes'', JObj [])] ''AB'' CryptoPro) = [Post_Sign body] \<and>
    oget body ''signatures'' = JArr [JStr ''C:t'']"
proof -
  let ?p = "JObj [(''mimeType'', JStr ''text/plain''), (''contents'', JStr ''t'')]"
  have "part_signs sample_plugin sample_cert ?p (JStr ''C:t'')"
    by (auto simp: part_signs_def supported_def apply_sign_func_def makeCadesBesSign_def
        strip_newlines_filter)
  then have "list_all2 (part_signs sample_plugin sample_cert) [?p] [JStr ''C:t'']" by simp
  from doSign_posts_one_signature_per_part [OF _ _ _ _ _ this, of _ "''AB''"
      "[(''parts'', JArr [?p]), (''attributes'', JObj [])]"
      "\<lparr>j_obj = JStr ''A.1'', j_action = JStr ''SAVE'', j_select = True, j_notify = True\<rparr>" CryptoPro]
  show ?thesis by (auto simp: getCertificate_def)
qed

end
