(* ===== verification/Digital_Sign.thy ===== *)
theory Digital_Sign
  imports Crypto_Spa
begin

text \<open>
  \<open>ionDigitalSign\<close> and its certificate dialog (\<open>ion-ng.js\<close>): the only caller of the signing
  module.  The user, the server and the plug-in act in any order, so the whole is a step
  relation; the invariant, and the states from which signing never becomes possible again,
  are proved for every reachable state.
\<close>

section \<open>State and operations\<close>

record sign_action =
  sa_id :: jsval
  sa_signBefore :: bool
  sa_signAfter :: bool

record digital_sign =
  ds_signedId :: jsval
  ds_action :: "sign_action option"
  ds_crypto :: cp_state
  ds_doSign :: "(job \<times> jsobj) option"
  ds_dialog :: bool

definition ionDigitalSignFactory :: digital_sign where
  "ionDigitalSignFactory =
     \<lparr>ds_signedId = JNull, ds_action = None, ds_crypto = CryptoPro, ds_doSign = None, ds_dialog = False\<rparr>"

definition setSignedId :: "jsval \<Rightarrow> digital_sign \<Rightarrow> digital_sign" where
  "setSignedId i s = s\<lparr>ds_signedId := i\<rparr>"

text \<open>\<open>StartSign\<close> always passes both callbacks and the function that opens the dialog.\<close>

definition sign_job :: "sign_action \<Rightarrow> digital_sign \<Rightarrow> job" where
  "sign_job a s = \<lparr>j_obj = ds_signedId s, j_action = sa_id a, j_select = True, j_notify = True\<rparr>"

definition StartSign :: "sign_action \<Rightarrow> digital_sign \<Rightarrow> digital_sign \<times> event list" where
  "StartSign a s =
     (let (cp, evs) = makeSign (sign_job a s) (ds_crypto s)
      in (s\<lparr>ds_action := Some a, ds_crypto := cp\<rparr>, evs))"

text \<open>The function passed as \<open>onNeedCertSelect\<close>: it keeps \<open>doSign\<close> and opens the dialog.\<close>

fun on_event :: "event \<Rightarrow> digital_sign \<Rightarrow> digital_sign" where
  "on_event (Ask_Certificate j d) s = s\<lparr>ds_doSign := Some (j, d), ds_dialog := True\<rparr>"
| "on_event _ s = s"

definition data_arrives ::
  "plugin \<Rightarrow> int \<Rightarrow> job \<Rightarrow> jsval \<Rightarrow> string \<Rightarrow> digital_sign \<Rightarrow> digital_sign \<times> event list" where
  "data_arrives pl now j data textStatus s =
     (let (cp, evs) = received pl now j data textStatus (ds_crypto s)
      in (fold on_event evs (s\<lparr>ds_crypto := cp\<rparr>), evs))"

definition signByCert :: "plugin \<Rightarrow> jsval \<Rightarrow> digital_sign \<Rightarrow> digital_sign \<times> event list" where
  "signByCert pl certKey s0 =
     (let s = s0\<lparr>ds_dialog := False\<rparr>
      in case ds_doSign s of
           None \<Rightarrow> (s, [Uncaught TypeError])
         | Some (j, d) \<Rightarrow>
             (let (cp, evs) = doSign pl j d (to_str certKey) (ds_crypto s)
              in (s\<lparr>ds_crypto := cp\<rparr>, evs)))"

definition answer_arrives ::
  "job \<Rightarrow> jsval \<Rightarrow> string \<Rightarrow> digital_sign \<Rightarrow> digital_sign \<times> event list" where
  "answer_arrives j data textStatus s =
     (let (cp, evs) = sent j data textStatus (ds_crypto s) in (s\<lparr>ds_crypto := cp\<rparr>, evs))"

text \<open>
  The dialog: its certificates are read once, when it is linked, and an exception there leaves
  it empty.  The cross of the jQuery dialog only hides it.
\<close>

record cert_dialog =
  cd_certificates :: jsobj
  cd_certKey :: jsval

definition ionCertDialogDirective :: "plugin \<Rightarrow> int \<Rightarrow> cert_dialog" where
  "ionCertDialogDirective pl now =
     \<lparr>cd_certificates = (case getCerts pl now of Inl _ \<Rightarrow> [] | Inr cs \<Rightarrow> cs), cd_certKey = JNull\<rparr>"

definition certSelect :: "plugin \<Rightarrow> cert_dialog \<Rightarrow> digital_sign \<Rightarrow> digital_sign \<times> event list" where
  "certSelect pl dlg s = signByCert pl (cd_certKey dlg) s"

definition dismiss_dialog :: "digital_sign \<Rightarrow> digital_sign" where
  "dismiss_dialog s = s\<lparr>ds_dialog := False\<rparr>"

section \<open>Steps\<close>

inductive ds_step :: "plugin \<Rightarrow> digital_sign \<Rightarrow> digital_sign \<Rightarrow> bool" for pl where
  set_id: "ds_step pl s (setSignedId i s)"
| start: "ds_step pl s (fst (StartSign a s))"
| data: "Wait_Data j \<in> set (cp_waits (ds_crypto s)) \<Longrightarrow>
    ds_step pl s (fst (data_arrives pl now j d status s))"
| choose: "ds_dialog s \<Longrightarrow> ds_step pl s (fst (certSelect pl dlg s))"
| dismiss: "ds_dialog s \<Longrightarrow> ds_step pl s (dismiss_dialog s)"
| answer: "Wait_Sent j \<in> set (cp_waits (ds_crypto s)) \<Longrightarrow>
    ds_step pl s (fst (answer_arrives j d status s))"

inductive_cases ds_stepE: "ds_step pl s s'"

inductive ds_reach :: "plugin \<Rightarrow> digital_sign \<Rightarrow> digital_sign \<Rightarrow> bool" for pl s where
  here: "ds_reach pl s s"
| later: "ds_reach pl s s' \<Longrightarrow> ds_step pl s' s'' \<Longrightarrow> ds_reach pl s s''"

section \<open>The invariant\<close>

text \<open>At most one answer is awaited, and which one follows from the phase.\<close>

definition ds_inv :: "digital_sign \<Rightarrow> bool" where
  "ds_inv s \<longleftrightarrow>
     (case cp_phase (ds_crypto s) of
        Ready \<Rightarrow> cp_waits (ds_crypto s) = [] \<and> \<not> ds_dialog s
      | Receiving \<Rightarrow> (\<exists>j. cp_waits (ds_crypto s) = [Wait_Data j]) \<and> \<not> ds_dialog s
      | Signing \<Rightarrow> cp_waits (ds_crypto s) = [] \<and> (ds_dialog s \<longrightarrow> ds_doSign s \<noteq> None)
      | Sending \<Rightarrow> (\<exists>j. cp_waits (ds_crypto s) = [Wait_Sent j]) \<and> \<not> ds_dialog s)"

lemma on_event_crypto [simp]: "ds_crypto (fold on_event evs s) = ds_crypto s"
proof (induction evs arbitrary: s)
  case Nil
  then show ?case by simp
next
  case (Cons e evs)
  then show ?case by (cases e) auto
qed

lemma on_event_quiet:
  "(\<And>j d. Ask_Certificate j d \<notin> set evs) \<Longrightarrow> fold on_event evs s = s"
proof (induction evs arbitrary: s)
  case Nil
  then show ?case by simp
next
  case (Cons e evs)
  then show ?case by (cases e) auto
qed

lemma signByCert_phase:
  assumes "ds_inv s" "ds_dialog s"
  shows "ds_inv (fst (signByCert pl k s)) \<and>
    cp_phase (ds_crypto (fst (signByCert pl k s))) \<in> {Ready, Signing, Sending}"
proof -
  from assms have ph: "cp_phase (ds_crypto s) = Signing" and w: "cp_waits (ds_crypto s) = []"
    and d: "ds_doSign s \<noteq> None"
    by (auto simp: ds_inv_def split: phase.splits)
  then obtain j d where jd: "ds_doSign s = Some (j, d)" by auto
  have r: "fst (signByCert pl k s) =
      s\<lparr>ds_dialog := False, ds_crypto := fst (doSign pl j d (to_str k) (ds_crypto s))\<rparr>"
    by (simp add: signByCert_def jd Let_def split: prod.splits)
  show ?thesis
    using doSign_waits [of pl j d "to_str k" "ds_crypto s"] ph w
    unfolding r by (auto simp: ds_inv_def split: phase.splits)
qed

lemma data_arrives_inv:
  assumes "ds_inv s" "Wait_Data j \<in> set (cp_waits (ds_crypto s))"
  shows "ds_inv (fst (data_arrives pl now j d st s)) \<and>
    cp_phase (ds_crypto (fst (data_arrives pl now j d st s))) \<in> {Ready, Signing, Sending}"
proof -
  define c0 where "c0 = (ds_crypto s)\<lparr>cp_waits := [], cp_phase := Signing\<rparr>"
  from assms have ph: "cp_phase (ds_crypto s) = Receiving" and w: "cp_waits (ds_crypto s) = [Wait_Data j]"
    and nd: "\<not> ds_dialog s" by (auto simp: ds_inv_def split: phase.splits)
  have sp: "\<And>j d k. (cp_waits (fst (doSign pl j d k c0)) = [] \<and> cp_phase (fst (doSign pl j d k c0)) \<in> {Ready, Signing})
      \<or> (cp_waits (fst (doSign pl j d k c0)) = [Wait_Sent j] \<and> cp_phase (fst (doSign pl j d k c0)) = Sending)"
    using doSign_waits [of pl _ _ _ c0] by (auto simp: c0_def)
  have quiet: "\<And>j d k. fold on_event (snd (doSign pl j d k c0)) = (\<lambda>s. s)"
    using on_event_quiet doSign_asks_nothing by blast
  have inv_of: "ds_inv (s\<lparr>ds_crypto := cp\<rparr>)"
    if "cp_waits cp = [] \<and> cp_phase cp \<in> {Ready, Signing} \<or>
        (\<exists>j. cp_waits cp = [Wait_Sent j]) \<and> cp_phase cp = Sending" for cp
    using that nd by (auto simp: ds_inv_def)
  define r where "r = received pl now j d st (ds_crypto s)"
  have e: "fst (data_arrives pl now j d st s) = fold on_event (snd r) (s\<lparr>ds_crypto := fst r\<rparr>)"
    by (simp add: data_arrives_def r_def split: prod.splits)
  show ?thesis
  proof (cases rule: received_cases [of pl now j d st "ds_crypto s"])
    case (failed evs)
    then have "fold on_event (snd r) = (\<lambda>s. s)" using on_event_quiet by (auto simp: r_def)
    with failed e w show ?thesis by (simp add: inv_of r_def)
  next
    case (uncaught ex)
    with e w show ?thesis by (simp add: inv_of r_def)
  next
    case (asked d')
    with e w show ?thesis by (simp add: ds_inv_def r_def)
  next
    case (signed d' k)
    then have "r = doSign pl j d' k c0" by (simp add: r_def w c0_def)
    with e quiet have "fst (data_arrives pl now j d st s) = s\<lparr>ds_crypto := fst (doSign pl j d' k c0)\<rparr>"
      by simp
    with sp [of j d' k] show ?thesis by (auto intro!: inv_of)
  qed
qed

lemma ds_step_inv: "ds_step pl s s' \<Longrightarrow> ds_inv s \<Longrightarrow> ds_inv s'"
proof (induction rule: ds_step.induct)
  case (set_id s i)
  then show ?case by (cases "cp_phase (ds_crypto s)") (simp_all add: setSignedId_def ds_inv_def)
next
  case (start s a)
  then show ?case
    by (auto simp: StartSign_def makeSign_def ds_inv_def split: phase.splits)
next
  case (data j s now d st)
  then show ?case by (simp add: data_arrives_inv)
next
  case (choose s dlg)
  then show ?case by (simp add: certSelect_def signByCert_phase)
next
  case (dismiss s)
  then show ?case by (auto simp: dismiss_dialog_def ds_inv_def split: phase.splits)
next
  case (answer j s d st)
  then show ?case
    by (auto simp: answer_arrives_def sent_def ds_inv_def split: phase.splits)
qed

section \<open>Properties\<close>

text \<open>
  C6: in every reachable state of the digital signature at most one answer of the server is
  awaited, and it is the one the phase says: the data while receiving, the receipt while
  sending, none while ready or signing; the certificate dialog is only open while signing,
  with a task to go on with.
\<close>

theorem digital_sign_invariant:
  assumes "ds_reach pl ionDigitalSignFactory s"
  shows "ds_inv s \<and> length (cp_waits (ds_crypto s)) \<le> 1"
proof -
  from assms have "ds_inv s"
  proof (induction rule: ds_reach.induct)
    case here
    show ?case by (simp add: ionDigitalSignFactory_def CryptoPro_def ds_inv_def)
  next
    case (later s' s'')
    then show ?case by (blast intro: ds_step_inv)
  qed
  then show ?thesis by (auto simp: ds_inv_def split: phase.splits)
qed

theorem digital_sign_invariant_witness:
  "ds_inv (fst (StartSign \<lparr>sa_id = JStr ''SAVE'', sa_signBefore = True, sa_signAfter = False\<rparr> ionDigitalSignFactory))"
  by (rule conjunct1 [OF digital_sign_invariant [of sample_plugin]]) (rule later [OF here start])

text \<open>
  a signing task only moves forward, from ready over receiving and signing to sending, or
  falls back to ready: no step of the user, the server or the plug-in leads to an earlier
  phase other than ready.
\<close>

theorem phase_moves_forward:
  assumes "ds_inv s" "ds_step pl s s'"
  shows "cp_phase (ds_crypto s) \<le> cp_phase (ds_crypto s') \<or> cp_phase (ds_crypto s') = Ready"
  using assms(2,1)
proof (induction rule: ds_step.induct)
  case (start s a)
  then show ?case by (auto simp: StartSign_def makeSign_def less_eq_phase_def)
next
  case (data j s now d st)
  then have "cp_phase (ds_crypto s) = Receiving" by (auto simp: ds_inv_def split: phase.splits)
  with data data_arrives_inv [of s j pl now d st] show ?case by (auto simp: less_eq_phase_def)
next
  case (choose s dlg)
  then have "cp_phase (ds_crypto s) = Signing" by (auto simp: ds_inv_def split: phase.splits)
  with choose signByCert_phase [of s pl "cd_certKey dlg"] show ?case
    by (auto simp: less_eq_phase_def certSelect_def)
qed (auto simp: setSignedId_def dismiss_dialog_def answer_arrives_def sent_def)

theorem phase_moves_forward_witness:
  "cp_phase (ds_crypto ionDigitalSignFactory) \<le>
     cp_phase (ds_crypto (fst (StartSign \<lparr>sa_id = JStr ''SAVE'', sa_signBefore = True, sa_signAfter = False\<rparr>
       ionDigitalSignFactory)))"
  using phase_moves_forward [OF _ ds_step.start [of sample_plugin ionDigitalSignFactory
      "\<lparr>sa_id = JStr ''SAVE'', sa_signBefore = True, sa_signAfter = False\<rparr>"]]
  by (auto simp: ionDigitalSignFactory_def CryptoPro_def ds_inv_def StartSign_def makeSign_def)

text \<open>A state in which nothing is awaited and nobody can choose a certificate any more.\<close>

definition stuck :: "digital_sign \<Rightarrow> bool" where
  "stuck s \<longleftrightarrow> cp_phase (ds_crypto s) = Signing \<and> cp_waits (ds_crypto s) = [] \<and> \<not> ds_dialog s"

lemma stuck_step: "ds_step pl s s' \<Longrightarrow> stuck s \<Longrightarrow> stuck s'"
  by (induction rule: ds_step.induct) (auto simp: stuck_def setSignedId_def StartSign_def makeSign_def)

lemma stuck_reach: "ds_reach pl s s' \<Longrightarrow> stuck s \<Longrightarrow> stuck s'"
  by (induction rule: ds_reach.induct) (auto intro: stuck_step)

lemma stuck_refuses: "stuck s \<Longrightarrow> snd (StartSign a s) = [Call_Fail Module_Busy]"
  by (auto simp: stuck_def StartSign_def makeSign_def)

text \<open>A task whose data have arrived: the dialog is open.\<close>

definition sample_action :: sign_action where
  "sample_action = \<lparr>sa_id = JStr ''SAVE'', sa_signBefore = True, sa_signAfter = False\<rparr>"

definition sample_data :: "string \<Rightarrow> jsobj" where
  "sample_data t =
     [(''parts'', JArr [JObj [(''mimeType'', JStr t), (''contents'', JStr ''x'')]]),
      (''attributes'', JObj [])]"

definition sample_task :: "string \<Rightarrow> digital_sign" where
  "sample_task t =
     (let s = fst (StartSign sample_action ionDigitalSignFactory)
      in fst (data_arrives sample_plugin 0 (sign_job sample_action ionDigitalSignFactory)
           (JObj (sample_data t)) ''success'' s))"

lemma sample_task_reach: "ds_reach sample_plugin ionDigitalSignFactory (sample_task t)"
  unfolding sample_task_def Let_def
  by (rule later [OF later [OF here start] ds_step.data])
    (simp add: StartSign_def makeSign_def ionDigitalSignFactory_def CryptoPro_def)

lemma sample_task_simps:
  "ds_dialog (sample_task t)"
  "ds_doSign (sample_task t) = Some (sign_job sample_action ionDigitalSignFactory, sample_data t)"
  by (simp_all add: sample_task_def data_arrives_def received_def success_status_def data_parts_def
      sample_data_def StartSign_def makeSign_def sign_job_def ionDigitalSignFactory_def CryptoPro_def)

text \<open>
  dismissing the certificate dialog ends signing for good: from then on, whatever the
  user, the server and the plug-in do, the module stays in the signing phase and every attempt
  to sign is refused as busy.
\<close>

theorem dismissed_dialog_blocks_signing:
  assumes "ds_reach pl ionDigitalSignFactory s" "ds_dialog s"
    and "ds_reach pl (dismiss_dialog s) s'"
  shows "cp_phase (ds_crypto s') = Signing \<and> snd (StartSign a s') = [Call_Fail Module_Busy]"
proof -
  have "ds_inv s" using assms(1)
  proof (induction rule: ds_reach.induct)
    case here
    show ?case by (simp add: ionDigitalSignFactory_def CryptoPro_def ds_inv_def)
  qed (blast intro: ds_step_inv)
  with assms(2) have "stuck (dismiss_dialog s)"
    by (auto simp: stuck_def dismiss_dialog_def ds_inv_def split: phase.splits)
  with assms(3) have "stuck s'" by (blast intro: stuck_reach)
  then show ?thesis by (auto simp: stuck_def stuck_refuses)
qed

theorem dismissed_dialog_blocks_signing_witness:
  "cp_phase (ds_crypto (dismiss_dialog (sample_task ''text/plain''))) = Signing"
  using dismissed_dialog_blocks_signing [OF sample_task_reach sample_task_simps(1) ds_reach.here] by blast

text \<open>
  a part of an unsupported type does not only fail the task, it blocks the module: the
  caller is told of the type, the exception that follows is shown in an alert, and from then
  on the module stays in the signing phase and refuses every task.
\<close>

theorem unsupported_type_blocks_signing:
  assumes "ds_inv s" "ds_dialog s" "ds_doSign s = Some (j, data)"
    and "getStore pl = Inr st" "getCertificate st (to_str k) = Some c"
    and "oget data ''parts'' = JArr (ps @ p # qs)" "\<not> nullish (oget data ''attributes'')"
    and "list_all2 (part_signs pl c) ps sigs"
    and "vget p ''mimeType'' = Inr (JStr t)" "supported t = None" "vget p ''contents'' = Inr v"
    and "ds_reach pl (fst (signByCert pl k s)) s'"
  shows "snd (signByCert pl k s) = [Call_Fail (Unsupported_Type t), Alert_Box TypeError] \<and>
    snd (StartSign a s') = [Call_Fail Module_Busy]"
proof -
  have "data_parts (JObj data) = Inr (ps @ p # qs)" using assms(6) by (simp add: data_parts_def)
  with sign_parts_unsupported [OF assms(8,7,9,10,11), of qs "[]" "[]"] assms(4,5)
  have d: "doSign pl j data (to_str k) (ds_crypto s) =
      (ds_crypto s, [Call_Fail (Unsupported_Type t), Alert_Box TypeError])"
    by (simp add: doSign_def)
  then have r: "signByCert pl k s =
      (s\<lparr>ds_dialog := False\<rparr>, [Call_Fail (Unsupported_Type t), Alert_Box TypeError])"
    by (simp add: signByCert_def assms(3))
  with assms(1,2) have "stuck (fst (signByCert pl k s))"
    by (auto simp: stuck_def ds_inv_def split: phase.splits)
  with assms(12) have "stuck s'" by (blast intro: stuck_reach)
  with r show ?thesis by (simp add: stuck_refuses)
qed

theorem unsupported_type_blocks_signing_witness:
  "snd (signByCert sample_plugin (JStr ''AB'') (sample_task ''image/png'')) =
     [Call_Fail (Unsupported_Type ''image/png''), Alert_Box TypeError]"
proof -
  have "ds_inv (sample_task ''image/png'')"
    using sample_task_reach [of "''image/png''"]
    by (induction rule: ds_reach.induct)
      (simp_all add: ds_inv_def ionDigitalSignFactory_def CryptoPro_def ds_step_inv [unfolded ds_inv_def])
  from unsupported_type_blocks_signing [OF this sample_task_simps, where ps = "[]" and sigs = "[]"
      and k = "JStr ''AB''" and pl = sample_plugin and c = sample_cert, OF _ _ _ _ _ _ _ _ ds_reach.here]
  show ?thesis by (simp add: getCertificate_def sample_data_def supported_def)
qed

end
