(* ===== verification/Actions.thy ===== *)
theory Actions
  imports Data_Cache View_Model Digital_Sign
begin

text \<open>
  \<open>ionActions\<close> (\<open>ion-ng-form.js\<close>) and \<open>utils\<close> (\<open>ion-ng.js\<close>): how an item becomes the
  parameters of a request, and how an action on it runs with the digital signature before or
  after.  An action is split where it waits: for the signature, then for the server.
\<close>

section \<open>The parameters of an item\<close>

text \<open>
  What the loop over the item's properties assigns for one of them; \<open>None\<close> assigns nothing.
  A property with \<open>__\<close> inside its name belongs to another one and is left out.
\<close>

definition request_value :: "jsobj \<Rightarrow> string \<Rightarrow> jsval \<Rightarrow> jsval option res" where
  "request_value item nm v =
     (let plain =
        (if oget item (nm @ ''__url'') \<noteq> JUndef
         then (if typeof v = ''object'' then Inr (Some v) else Inr None)
         else Inr (Some v))
      in case index_of ''__'' nm of
           Some (Suc _) \<Rightarrow> Inr None
         | _ \<Rightarrow>
             if nullish v then plain
             else rbind (vget v ''itemInfo'') (\<lambda>info.
                    if info \<noteq> JUndef then rbind (vidx info 1) (\<lambda>i. Inr (Some i)) else plain))"

fun request_loop :: "jsobj \<Rightarrow> jsobj \<Rightarrow> jsobj \<Rightarrow> jsobj res" where
  "request_loop item [] acc = Inr acc"
| "request_loop item ((nm, v) # rest) acc =
     rbind (request_value item nm v) (\<lambda>w.
       request_loop item rest (case w of None \<Rightarrow> acc | Some x \<Rightarrow> oset acc nm x))"

definition prepareReqItem :: "jsobj \<Rightarrow> jsobj res" where
  "prepareReqItem item = request_loop item item []"

text \<open>\<open>execAction\<close> has the same loop, then the id, the action and the route's parameters.\<close>

definition default_param :: "jsobj \<Rightarrow> string \<Rightarrow> jsobj \<Rightarrow> jsobj" where
  "default_param routeParams nm rq =
     (if oget rq nm = JUndef \<and> oget routeParams nm \<noteq> JUndef
      then oset rq nm (oget routeParams nm) else rq)"

definition action_params :: "jsval \<Rightarrow> jsobj \<Rightarrow> jsobj \<Rightarrow> jsobj res" where
  "action_params actionId item routeParams =
     rbind (prepareReqItem item) (\<lambda>rq.
     rbind (if oget rq ''itemInfo'' \<noteq> JUndef
            then rbind (item_key '':'' rq) (\<lambda>k. Inr (oset rq ''__id'' (JStr k)))
            else Inr rq) (\<lambda>rq1.
       Inr (default_param routeParams ''__cc''
             (default_param routeParams ''__container''
               (default_param routeParams ''__collection''
                 (oset (oset rq1 ''__action'' actionId) ''__node'' (oget routeParams ''__node'')))))))"

section \<open>Availability\<close>

record ion_action = sign_action +
  act_visibility :: "string option"
  act_enablement :: "string option"

definition isActionAvailable :: "(string option \<Rightarrow> jsval res) \<Rightarrow> ion_action \<Rightarrow> jsval res" where
  "isActionAvailable ex a =
     (if set_text (act_visibility a) then ex (act_visibility a) else Inr (JBool True))"

definition isActionEnabled :: "(string option \<Rightarrow> jsval res) \<Rightarrow> ion_action \<Rightarrow> jsval res" where
  "isActionEnabled ex a =
     (if set_text (act_enablement a) then ex (act_enablement a) else Inr (JBool True))"

section \<open>Running an action\<close>

datatype act_event =
    Send_Action string jsobj
  | Sign_Event event
  | Settled "jsval promise"
  | Act_Exception jserr

datatype act_wait =
    Wait_Signature ion_action jsobj string
  | Wait_Reply ion_action jsobj
  | Wait_Signed_After

record act_state =
  as_sign :: digital_sign
  as_mtpl :: mtpl_info
  as_pristine :: bool
  as_wait :: "act_wait option"

definition is_save_action :: "jsval \<Rightarrow> bool" where
  "is_save_action i \<longleftrightarrow>
     i \<in> {JStr ''SAVE'', JStr ''UPDATE'', JStr ''EDIT'', JStr ''CREATE''}"

definition base_action :: "ion_action \<Rightarrow> sign_action" where
  "base_action a = \<lparr>sa_id = sa_id a, sa_signBefore = sa_signBefore a, sa_signAfter = sa_signAfter a\<rparr>"

definition execAction ::
  "ion_action \<Rightarrow> jsobj \<Rightarrow> string \<Rightarrow> jsobj \<Rightarrow> act_state \<Rightarrow> act_state \<times> act_event list" where
  "execAction a item requestUrl routeParams s =
     (case action_params (sa_id a) item routeParams of
        Inl e \<Rightarrow> (s\<lparr>as_wait := None\<rparr>, [Act_Exception e])
      | Inr rq \<Rightarrow> (s\<lparr>as_wait := Some (Wait_Reply a item)\<rparr>, [Send_Action requestUrl rq]))"

text \<open>The callback \<open>fail\<close>; the text of the alert is the signing module's.\<close>

definition sign_failed :: "jsval \<Rightarrow> act_state \<Rightarrow> act_state" where
  "sign_failed err s = s\<lparr>as_mtpl := Alert ''error'' (Text err) (as_mtpl s), as_wait := None\<rparr>"

text \<open>
  Starting the signature: the module may refuse at once.  \<open>text\<close> gives the text of a refusal.
\<close>

definition start_signing ::
  "(fail_text \<Rightarrow> jsval) \<Rightarrow> ion_action \<Rightarrow> act_wait \<Rightarrow> act_state \<Rightarrow> act_state \<times> act_event list" where
  "start_signing text a w s =
     (let (ds, evs) = StartSign (base_action a) (as_sign s);
          s1 = s\<lparr>as_sign := ds, as_wait := Some w\<rparr>;
          s2 = (case evs of [Call_Fail t] \<Rightarrow> sign_failed (text t) s1 | _ \<Rightarrow> s1)
      in (s2, map Sign_Event evs))"

definition performSignedAction ::
  "(fail_text \<Rightarrow> jsval) \<Rightarrow> bool \<Rightarrow> ion_action \<Rightarrow> jsobj \<Rightarrow> string \<Rightarrow> jsobj \<Rightarrow> act_state \<Rightarrow>
   act_state \<times> act_event list" where
  "performSignedAction text digiSignEnabled a item actionUrl routeParams s =
     (case item_key ''.'' item of
        Inl e \<Rightarrow> (s, [Act_Exception e])
      | Inr i \<Rightarrow>
          (let s1 = s\<lparr>as_sign := setSignedId (JStr i) (as_sign s)\<rparr>
           in if sa_signBefore a \<and> digiSignEnabled
              then start_signing text a (Wait_Signature a item actionUrl) s1
              else execAction a item actionUrl routeParams s1))"

text \<open>The success callback of the signature made before the action.\<close>

definition signed_before ::
  "ion_action \<Rightarrow> jsobj \<Rightarrow> string \<Rightarrow> jsobj \<Rightarrow> act_state \<Rightarrow> act_state \<times> act_event list" where
  "signed_before a item actionUrl routeParams s =
     execAction a item actionUrl routeParams
       (s\<lparr>as_mtpl := Alert ''info'' (Ru Action_Signed) (as_mtpl s)\<rparr>)"

definition signed_after :: "act_state \<Rightarrow> act_state" where
  "signed_after s = s\<lparr>as_mtpl := Alert ''info'' (Ru Action_Signed) (as_mtpl s), as_wait := None\<rparr>"

text \<open>
  The function \<open>f\<close> of the saving actions: the form becomes pristine.  It then assigns the
  cached item to its own parameter, which nothing reads afterwards.
\<close>

definition after_save :: "bool \<Rightarrow> ion_action \<Rightarrow> act_state \<Rightarrow> act_state res" where
  "after_save hasForm a s =
     (if is_save_action (sa_id a)
      then (if hasForm then Inr (s\<lparr>as_pristine := True\<rparr>) else Inl TypeError)
      else Inr s)"

definition handleResolve ::
  "(fail_text \<Rightarrow> jsval) \<Rightarrow> bool \<Rightarrow> bool \<Rightarrow> ion_action \<Rightarrow> jsval \<Rightarrow> act_state \<Rightarrow>
   act_state \<times> act_event list" where
  "handleResolve text digiSignEnabled hasForm a response s0 =
     (let s = s0\<lparr>as_wait := None\<rparr>
      in case rbind (vget response ''item'') (\<lambda>it.
                if truthy it
                then rbind (vget it ''itemInfo'') (\<lambda>info.
                     rbind (vidx info 0) (\<lambda>c. rbind (vidx info 1) (\<lambda>i.
                       Inr (s\<lparr>as_sign := setSignedId (JStr (to_str c @ ''.'' @ to_str i)) (as_sign s)\<rparr>))))
                else Inr s) of
           Inl e \<Rightarrow> (s, [Act_Exception e])
         | Inr s1 \<Rightarrow>
             (case after_save hasForm a s1 of
                Inl e \<Rightarrow> (s1, [Act_Exception e])
              | Inr s2 \<Rightarrow>
                  if sa_signAfter a \<and> digiSignEnabled
                  then (let (s3, evs) = start_signing text a Wait_Signed_After s2
                        in (s3, evs @ [Settled (Resolved response)]))
                  else (s2, [Settled (Resolved response)])))"

definition handleReject :: "act_state \<Rightarrow> act_state \<times> act_event list" where
  "handleReject s = (s\<lparr>as_wait := None\<rparr>, [Settled Rejected])"

section \<open>Lemmas\<close>

definition inner_name :: "string \<Rightarrow> bool" where
  "inner_name nm \<longleftrightarrow> (case index_of ''__'' nm of Some (Suc _) \<Rightarrow> True | _ \<Rightarrow> False)"

lemma request_value_inner: "inner_name nm \<Longrightarrow> request_value item nm v = Inr None"
  by (auto simp: request_value_def inner_name_def split: option.splits nat.splits)

lemma request_value_plain:
  "\<not> inner_name nm \<Longrightarrow> request_value item nm v =
     (let plain =
        (if oget item (nm @ ''__url'') \<noteq> JUndef
         then (if typeof v = ''object'' then Inr (Some v) else Inr None)
         else Inr (Some v))
      in if nullish v then plain
         else rbind (vget v ''itemInfo'') (\<lambda>info.
                if info \<noteq> JUndef then rbind (vidx info 1) (\<lambda>i. Inr (Some i)) else plain))"
  by (auto simp: request_value_def inner_name_def Let_def split: option.splits nat.splits)

text \<open>
  What the request has under a property: the id of a referenced item; the value itself; and for a
  property that shows a file or image (it has a \<open>__url\<close>) the value only when it is an object, a
  file that was chosen.
\<close>

definition sent_value :: "jsobj \<Rightarrow> string \<Rightarrow> jsval" where
  "sent_value item k =
     (let v = oget item k;
          plain = (if oget item (k @ ''__url'') \<noteq> JUndef \<and> typeof v \<noteq> ''object'' then JUndef else v)
      in case vget v ''itemInfo'' of
           Inl _ \<Rightarrow> plain
         | Inr info \<Rightarrow>
             if info = JUndef then plain else (case vidx info 1 of Inl _ \<Rightarrow> JUndef | Inr x \<Rightarrow> x))"

lemma request_value_case:
  "\<not> inner_name nm \<Longrightarrow> request_value item nm (oget item nm) = Inr w \<Longrightarrow>
   (case w of None \<Rightarrow> JUndef | Some x \<Rightarrow> x) = sent_value item nm"
  by (cases "vget (oget item nm) ''itemInfo''"; cases "vidx (projr (vget (oget item nm) ''itemInfo'')) 1";
      cases "nullish (oget item nm)")
    (auto simp: request_value_plain sent_value_def nullish_iff Let_def split: if_splits)

lemma request_value_sent:
  "\<not> inner_name nm \<Longrightarrow> oget item (nm @ ''__url'') = JUndef \<Longrightarrow> request_value item nm v = Inr w \<Longrightarrow>
   w = Some (case vget v ''itemInfo'' of
       Inl _ \<Rightarrow> v
     | Inr info \<Rightarrow>
         if info = JUndef then v else (case vidx info 1 of Inl _ \<Rightarrow> JUndef | Inr x \<Rightarrow> x))"
  by (cases "vget v ''itemInfo''"; cases "vidx (projr (vget v ''itemInfo'')) 1"; cases "nullish v")
    (auto simp: request_value_plain nullish_iff Let_def split: if_splits)

lemma request_loop_names:
  "request_loop item rest acc = Inr rq \<Longrightarrow>
   set (onames rq) \<subseteq> set (onames acc) \<union> {nm \<in> set (onames rest). \<not> inner_name nm}"
proof (induction item rest acc rule: request_loop.induct)
  case (1 item acc)
  then show ?case by simp
next
  case (2 item nm v rest acc)
  then obtain w where w: "request_value item nm v = Inr w"
    and r: "request_loop item rest (case w of None \<Rightarrow> acc | Some x \<Rightarrow> oset acc nm x) = Inr rq"
    by (cases "request_value item nm v") auto
  from w request_value_inner [of nm item v] have "w = None" if "inner_name nm" using that by auto
  with "2.IH" [OF r] show ?case
    by (cases "inner_name nm") (auto split: option.splits)
qed

lemma request_loop_other:
  "k \<notin> set (onames rest) \<Longrightarrow> request_loop item rest acc = Inr rq \<Longrightarrow> oget rq k = oget acc k"
proof (induction item rest acc rule: request_loop.induct)
  case (2 item nm v rest acc)
  then obtain w where w: "request_value item nm v = Inr w"
    and r: "request_loop item rest (case w of None \<Rightarrow> acc | Some x \<Rightarrow> oset acc nm x) = Inr rq"
    by (cases "request_value item nm v") auto
  from "2.IH" [OF _ r] "2.prems"(1) show ?case by (auto simp: onames_def split: option.splits)
qed simp

lemma request_loop_get:
  assumes "wf_obj rest" "k \<in> set (onames rest)" "request_loop item rest acc = Inr rq"
  shows "\<exists>w. request_value item k (oget rest k) = Inr w \<and>
    oget rq k = (case w of None \<Rightarrow> oget acc k | Some x \<Rightarrow> x)"
  using assms
proof (induction item rest acc rule: request_loop.induct)
  case (1 item acc)
  then show ?case by (simp add: onames_def)
next
  case (2 item nm v rest acc)
  then obtain w where w: "request_value item nm v = Inr w"
    and r: "request_loop item rest (case w of None \<Rightarrow> acc | Some x \<Rightarrow> oset acc nm x) = Inr rq"
    by (cases "request_value item nm v") auto
  have wf: "nm \<notin> set (onames rest)" "wf_obj rest"
    using "2.prems"(1) by (auto simp: wf_obj_def onames_def)
  show ?case
  proof (cases "k = nm")
    case True
    with request_loop_other [OF wf(1) r] w show ?thesis by (auto split: option.splits)
  next
    case False
    with "2.prems"(2) have "k \<in> set (onames rest)" by (simp add: onames_def)
    from "2.IH" [OF wf(2) this r] False show ?thesis by (auto split: option.splits)
  qed
qed

lemma default_param_get:
  "oget (default_param rp nm rq) k =
     (if k = nm \<and> oget rq nm = JUndef then oget rp nm else oget rq k)"
  by (simp add: default_param_def)

lemma default_param_names:
  "set (onames (default_param rp nm rq)) \<subseteq> insert nm (set (onames rq))"
  by (auto simp: default_param_def)

definition added_names :: "string set" where
  "added_names = {''__id'', ''__action'', ''__node'', ''__collection'', ''__container'', ''__cc''}"

lemma action_params_cases:
  assumes "action_params i item rp = Inr rq"
  obtains rq0 rq1 where "prepareReqItem item = Inr rq0"
    and "\<And>k. k \<noteq> ''__id'' \<Longrightarrow> oget rq1 k = oget rq0 k"
    and "set (onames rq1) \<subseteq> insert ''__id'' (set (onames rq0))"
    and "rq = default_param rp ''__cc'' (default_param rp ''__container'' (default_param rp ''__collection''
             (oset (oset rq1 ''__action'' i) ''__node'' (oget rp ''__node''))))"
proof -
  from assms obtain rq0 where p: "prepareReqItem item = Inr rq0"
    by (cases "prepareReqItem item") (auto simp: action_params_def)
  show thesis
  proof (cases "oget rq0 ''itemInfo'' = JUndef")
    case True
    with assms p show thesis by (intro that [of rq0 rq0]) (auto simp: action_params_def)
  next
    case False
    with assms p obtain k where k: "item_key '':'' rq0 = Inr k"
      by (cases "item_key '':'' rq0") (auto simp: action_params_def)
    with assms p False show thesis
      by (intro that [of rq0 "oset rq0 ''__id'' (JStr k)"]) (auto simp: action_params_def)
  qed
qed

section \<open>Properties\<close>



text \<open>
  with a signature before the action nothing is sent until the signature is there; when the
  signing module is busy the user sees an error, and nothing is ever sent nor is the caller
  told: its promise stays unsettled.
\<close>

theorem sign_before_gates_request:
  assumes "item_key ''.'' item = Inr k" "sa_signBefore a" "as_wait s = None"
  shows "let (s', evs) = performSignedAction text True a item url rp s
    in (\<forall>u rq. Send_Action u rq \<notin> set evs) \<and> (\<forall>p. Settled p \<notin> set evs) \<and>
       (if cp_phase (ds_crypto (as_sign s)) = Ready
        then as_wait s' = Some (Wait_Signature a item url) \<and>
             evs = [Sign_Event (Get_Data (JStr k) (sa_id a))]
        else as_wait s' = None \<and> mi_messageType (as_mtpl s') = ''error'')"
  using assms
  by (auto simp: performSignedAction_def start_signing_def StartSign_def makeSign_def sign_job_def
      setSignedId_def sign_failed_def base_action_def Let_def)

theorem sign_before_gates_request_witness:
  "let (s', evs) = performSignedAction (\<lambda>_. JUndef) True
         \<lparr>sa_id = JStr ''SAVE'', sa_signBefore = True, sa_signAfter = False, act_visibility = None, act_enablement = None\<rparr>
         (mk_item ''A'' ''1'' []) ''spa/edit'' []
         \<lparr>as_sign = ionDigitalSignFactory, as_mtpl = mtplInfoFactory None None 0 0 0, as_pristine = False, as_wait = None\<rparr>
     in evs = [Sign_Event (Get_Data (JStr ''A.1'') (JStr ''SAVE''))]"
  using sign_before_gates_request [of "mk_item ''A'' ''1'' []" "''A.1''"
      "\<lparr>sa_id = JStr ''SAVE'', sa_signBefore = True, sa_signAfter = False, act_visibility = None, act_enablement = None\<rparr>"
      "\<lparr>as_sign = ionDigitalSignFactory, as_mtpl = mtplInfoFactory None None 0 0 0, as_pristine = False, as_wait = None\<rparr>"
      "\<lambda>_. JUndef" "''spa/edit''" "[]"]
  by (simp add: ionDigitalSignFactory_def CryptoPro_def split: prod.splits)

text \<open>
  C31: a signature after the action is started in one place only.  Running an action that demands no
  signature before it starts none, it sends the action's request and waits for the answer; nor does the
  callback of an accepted signature start one, nor an answer that refuses the request.  It is the answer that starts
  the signature, when digital signatures are enabled, for the item of the answer and the action; a busy
  module refuses it, and with signatures disabled none is started.  In the same step the caller's promise
  is resolved with the answer, before it is known what becomes of the signature.
\<close>

theorem sign_after_follows_reply:
  assumes "item_key ''.'' item = Inr i" "action_params (sa_id a) item rp = Inr rq"
    and "vget response ''item'' = Inr (JObj it)" "has_info it" "item_key ''.'' it = Inr k"
    and "sa_signAfter a" "is_save_action (sa_id a) \<longrightarrow> hasForm"
  shows "(\<not> (sa_signBefore a \<and> dig) \<longrightarrow>
      (\<exists>s1. performSignedAction text dig a item url rp s = (s1, [Send_Action url rq]) \<and>
         as_wait s1 = Some (Wait_Reply a item) \<and> ds_crypto (as_sign s1) = ds_crypto (as_sign s)))
    \<and> (\<exists>s1. signed_before a item url rp s = (s1, [Send_Action url rq]) \<and>
       as_wait s1 = Some (Wait_Reply a item) \<and> as_sign s1 = as_sign s)
    \<and> (\<exists>s1. handleReject s = (s1, [Settled Rejected]) \<and> as_sign s1 = as_sign s)
    \<and> (\<exists>s' evs. handleResolve text dig hasForm a response s = (s', evs @ [Settled (Resolved response)]) \<and>
      (if \<not> dig then evs = [] \<and> ds_crypto (as_sign s') = ds_crypto (as_sign s)
       else if cp_phase (ds_crypto (as_sign s)) = Ready
       then evs = [Sign_Event (Get_Data (JStr k) (sa_id a))] \<and> as_wait s' = Some Wait_Signed_After
       else evs = [Sign_Event (Call_Fail Module_Busy)] \<and> as_wait s' = None))"
proof (intro conjI)
  show "\<not> (sa_signBefore a \<and> dig) \<longrightarrow>
      (\<exists>s1. performSignedAction text dig a item url rp s = (s1, [Send_Action url rq]) \<and>
         as_wait s1 = Some (Wait_Reply a item) \<and> ds_crypto (as_sign s1) = ds_crypto (as_sign s))"
    using assms(1,2) by (auto simp: performSignedAction_def execAction_def setSignedId_def)
  show "\<exists>s1. signed_before a item url rp s = (s1, [Send_Action url rq]) \<and>
       as_wait s1 = Some (Wait_Reply a item) \<and> as_sign s1 = as_sign s"
    using assms(2) by (simp add: signed_before_def execAction_def)
  show "\<exists>s1. handleReject s = (s1, [Settled Rejected]) \<and> as_sign s1 = as_sign s"
    by (simp add: handleReject_def)
  obtain c n where ci: "item_info it 0 = Inr c" "item_info it 1 = Inr n"
    using item_info_ok [OF assms(4)] by blast
  with assms(5) have k: "k = to_str c @ ''.'' @ to_str n" by (simp add: item_key_def)
  show "\<exists>s' evs. handleResolve text dig hasForm a response s = (s', evs @ [Settled (Resolved response)]) \<and>
      (if \<not> dig then evs = [] \<and> ds_crypto (as_sign s') = ds_crypto (as_sign s)
       else if cp_phase (ds_crypto (as_sign s)) = Ready
       then evs = [Sign_Event (Get_Data (JStr k) (sa_id a))] \<and> as_wait s' = Some Wait_Signed_After
       else evs = [Sign_Event (Call_Fail Module_Busy)] \<and> as_wait s' = None)"
    using assms(3,6,7) ci k
    by (auto simp: handleResolve_def item_info_def after_save_def start_signing_def StartSign_def
        makeSign_def sign_job_def setSignedId_def sign_failed_def base_action_def Let_def)
qed

theorem sign_after_follows_reply_witness:
  "\<exists>s' evs. handleResolve (\<lambda>_. JUndef) True True
         \<lparr>sa_id = JStr ''SAVE'', sa_signBefore = False, sa_signAfter = True, act_visibility = None, act_enablement = None\<rparr>
         (JObj [(''item'', JObj (mk_item ''A'' ''1'' []))])
         \<lparr>as_sign = ionDigitalSignFactory, as_mtpl = mtplInfoFactory None None 0 0 0, as_pristine = False, as_wait = None\<rparr>
       = (s', evs @ [Settled (Resolved (JObj [(''item'', JObj (mk_item ''A'' ''1'' []))]))])"
proof -
  obtain rq where "action_params (JStr ''SAVE'') (mk_item ''A'' ''1'' []) [] = Inr rq"
    by (simp add: action_params_def prepareReqItem_def mk_item_def request_value_def item_key_def
        item_info_def arr_at_def)
  with sign_after_follows_reply [of "mk_item ''A'' ''1'' []" "''A.1''"
      "\<lparr>sa_id = JStr ''SAVE'', sa_signBefore = False, sa_signAfter = True, act_visibility = None, act_enablement = None\<rparr>"
      "[]" rq "JObj [(''item'', JObj (mk_item ''A'' ''1'' []))]" "mk_item ''A'' ''1'' []" "''A.1''"
      True True "\<lambda>_. JUndef" "''spa/edit''"
      "\<lparr>as_sign = ionDigitalSignFactory, as_mtpl = mtplInfoFactory None None 0 0 0, as_pristine = False, as_wait = None\<rparr>"]
  show ?thesis
    by (fastforce simp: has_info_def mk_item_def item_key_def item_info_def arr_at_def)
qed

end
