(* ===== verification/Form.thy ===== *)
theory Form
  imports Actions
begin

text \<open>
  The form controllers (\<open>formController\<close> of \<open>ion-ng-form.js\<close>, for creating, creating in a
  collection and editing).  The view model a form shows is the very object the view-model
  cache holds, and processing it writes into it, so view models live in a store and the cache
  and the scope hold their addresses.
\<close>

section \<open>The three controllers\<close>

datatype form_kind = Create_Form | Colcreate_Form | Edit_Form

primrec form_type :: "form_kind \<Rightarrow> string" where
  "form_type Create_Form = ''create''"
| "form_type Colcreate_Form = ''colcreate''"
| "form_type Edit_Form = ''edit''"

primrec formUrl :: "form_kind \<Rightarrow> string" where
  "formUrl Create_Form = ''spa/createForm''"
| "formUrl Colcreate_Form = ''spa/createForm''"
| "formUrl Edit_Form = ''spa/editForm''"

primrec form_actionUrl :: "form_kind \<Rightarrow> string" where
  "form_actionUrl Create_Form = ''spa/create''"
| "form_actionUrl Colcreate_Form = ''spa/create''"
| "form_actionUrl Edit_Form = ''spa/edit''"

primrec form_vmUrl :: "form_kind \<Rightarrow> string" where
  "form_vmUrl Create_Form = ''spa/create/vm''"
| "form_vmUrl Colcreate_Form = ''spa/create/vm''"
| "form_vmUrl Edit_Form = ''spa/edit/vm''"

primrec form_path :: "form_kind \<Rightarrow> string" where
  "form_path Create_Form = ''/create''"
| "form_path Colcreate_Form = ''/collection/create''"
| "form_path Edit_Form = ''/item''"

section \<open>State\<close>

record form_scope =
  fs_node :: jsval
  fs_title :: jsval
  fs_item :: "jsobj option"
  fs_vm :: "nat option"
  fs_breadcrumbs :: jsval
  fs_validators :: jsval
  fs_currentTab :: nat
  fs_notCollapsedTab :: "nat option"

text \<open>
  Objects of JavaScript are shared: \<open>fw_cached\<close> says that the item of the scope is the very object in
  the items cache, \<open>fw_acted\<close> that it is the very object the actions refer to.
\<close>

record form_world =
  fw_scope :: form_scope
  fw_items :: "string \<Rightarrow> jsobj option"
  fw_vmCache :: "string \<Rightarrow> nat option"
  fw_vms :: "nat \<Rightarrow> vm_tab list"
  fw_next :: nat
  fw_actions_item :: "jsobj option"
  fw_cached :: bool
  fw_acted :: bool
  fw_signedId :: jsval
  fw_url :: string

definition init_form_scope :: form_scope where
  "init_form_scope =
     \<lparr>fs_node = JStr [], fs_title = JStr [], fs_item = None, fs_vm = None, fs_breadcrumbs = JArr [],
      fs_validators = JArr [], fs_currentTab = 0, fs_notCollapsedTab = None\<rparr>"

definition showTab :: "nat \<Rightarrow> form_scope \<Rightarrow> form_scope" where
  "showTab index s = s\<lparr>fs_currentTab := index\<rparr>"

definition uncollapseTab :: "nat \<Rightarrow> form_scope \<Rightarrow> form_scope" where
  "uncollapseTab index s =
     s\<lparr>fs_notCollapsedTab := (if fs_notCollapsedTab s = Some index then None else Some index)\<rparr>"

definition isExist :: "jsval \<Rightarrow> bool" where
  "isExist attr \<longleftrightarrow> attr \<noteq> JUndef \<and> attr \<noteq> JNull"

section \<open>Following the location\<close>

definition copy_truthy :: "string list \<Rightarrow> jsobj \<Rightarrow> jsobj" where
  "copy_truthy names params =
     foldl (\<lambda>acc n. if truthy (oget params n) then oset acc n (oget params n) else acc) [] names"

definition getRequestObject :: "jsobj \<Rightarrow> jsobj" where
  "getRequestObject =
     copy_truthy [''__node'', ''__id'', ''__container'', ''__collection'', ''__cc'', ''__class'']"

record request_params =
  rp_item :: bool
  rp_vm :: bool
  rp_breadcrumbs :: bool
  rp_validators :: bool

definition RequestParams :: request_params where
  "RequestParams = \<lparr>rp_item = True, rp_vm = True, rp_breadcrumbs = True, rp_validators = True\<rparr>"

definition concatParams :: "request_params \<Rightarrow> string" where
  "concatParams p =
     (if rp_item p then ''item '' else []) @ (if rp_vm p then ''vm '' else [])
     @ (if rp_breadcrumbs p then ''breadcrumbs '' else [])
     @ (if rp_validators p then ''validators '' else [])"

text \<open>The class of the view model and the id under which the item may be cached.\<close>

definition form_target :: "jsobj \<Rightarrow> (string \<times> string) res" where
  "form_target rq =
     (case oget rq ''__id'' of
        JStr i \<Rightarrow> Inr (hd (split_on CHR '':'' i), i)
      | v \<Rightarrow>
          if v \<noteq> JUndef then Inl TypeError
          else if oget rq ''__class'' \<noteq> JUndef
          then Inr (to_str (oget rq ''__class''), to_str (oget rq ''__class'') @ '':null'')
          else if oget rq ''__cc'' \<noteq> JUndef then Inr (to_str (oget rq ''__cc''), [])
          else Inr ([], []))"

definition vm_key :: "form_kind \<Rightarrow> jsval \<Rightarrow> string \<Rightarrow> string" where
  "vm_key kind node vmc =
     createVmId (cleanParams [(''__type'', JStr (form_type kind)), (''__node'', node), (''__class'', JStr vmc)])"

record form_request =
  fq_url :: string
  fq_object :: jsobj
  fq_params :: request_params
  fq_vmc :: string

definition location_changed ::
  "form_kind \<Rightarrow> string \<Rightarrow> jsobj \<Rightarrow> form_world \<Rightarrow> form_request option res \<times> form_world" where
  "location_changed kind path search w =
     (if contains (form_path kind) path \<and> oget search ''__node'' \<noteq> JUndef then
        (let rq = getRequestObject search;
             w1 = w\<lparr>fw_scope := (fw_scope w)\<lparr>fs_node := oget search ''__node''\<rparr>\<rparr>
         in case form_target rq of
              Inl e \<Rightarrow> (Inl e, w1)
            | Inr (vmc, itemId) \<Rightarrow>
                (let item = fw_items w itemId;
                     vm = fw_vmCache w (vm_key kind (oget search ''__node'') vmc);
                     params = RequestParams\<lparr>rp_item := (item = None), rp_vm := (vm = None)\<rparr>;
                     w2 = w1\<lparr>fw_scope := (fw_scope w1)\<lparr>fs_item := item, fs_vm := vm\<rparr>,
                             fw_actions_item := (if item = None then fw_actions_item w else item),
                             fw_cached := (item \<noteq> None), fw_acted := (item \<noteq> None)\<rparr>
                 in (Inr (Some \<lparr>fq_url = formUrl kind,
                                fq_object = oset rq ''__params'' (JStr (concatParams params)),
                                fq_params = params, fq_vmc = vmc\<rparr>), w2)))
      else (Inr None, w))"

section \<open>The answer with the form\<close>

record form_response =
  fr_item :: "jsobj option"
  fr_vm :: "vm_tab list option"
  fr_breadcrumbs :: jsval
  fr_validators :: jsval

text \<open>The loop over the requested attributes; a new view model is stored and cached.\<close>

definition take_item :: "request_params \<Rightarrow> form_response \<Rightarrow> form_world \<Rightarrow> form_world" where
  "take_item p r w =
     (case fr_item r of
        Some it \<Rightarrow>
          if rp_item p
          then w\<lparr>fw_scope := (fw_scope w)\<lparr>fs_item := Some it\<rparr>, fw_items := itemsCache_put (fw_items w) it,
                 fw_cached := True, fw_acted := False\<rparr>
          else w
      | None \<Rightarrow> w)"

definition take_vm :: "form_kind \<Rightarrow> string \<Rightarrow> request_params \<Rightarrow> form_response \<Rightarrow> form_world \<Rightarrow> form_world" where
  "take_vm kind vmc p r w =
     (case fr_vm r of
        Some vm \<Rightarrow>
          if rp_vm p
          then w\<lparr>fw_scope := (fw_scope w)\<lparr>fs_vm := Some (fw_next w)\<rparr>,
                 fw_vms := (fw_vms w)(fw_next w := vm), fw_next := fw_next w + 1,
                 fw_vmCache := (fw_vmCache w)(vm_key kind (fs_node (fw_scope w)) vmc \<mapsto> fw_next w)\<rparr>
          else w
      | None \<Rightarrow> w)"

definition take_texts :: "request_params \<Rightarrow> form_response \<Rightarrow> form_world \<Rightarrow> form_world" where
  "take_texts p r w =
     w\<lparr>fw_scope := (fw_scope w)
        \<lparr>fs_breadcrumbs := (if rp_breadcrumbs p \<and> truthy (fr_breadcrumbs r) then fr_breadcrumbs r
                            else fs_breadcrumbs (fw_scope w)),
         fs_validators := (if rp_validators p \<and> truthy (fr_validators r) then fr_validators r
                           else fs_validators (fw_scope w))\<rparr>\<rparr>"

text \<open>
  What follows the loop: the item is announced to the signature and the actions and the view
  model shown is processed in place.
\<close>

definition show_item :: "form_world \<Rightarrow> form_world \<times> jserr option" where
  "show_item w =
     (case fs_item (fw_scope w) of
        None \<Rightarrow> (w, None)
      | Some it \<Rightarrow>
          (case rbind (item_info it 0) (\<lambda>c. rbind (item_info it 1) (\<lambda>i.
                  Inr (to_str c @ ''.'' @ (if truthy i then to_str i else [])))) of
             Inl e \<Rightarrow> (w, Some e)
           | Inr k \<Rightarrow>
               (let w1 = w\<lparr>fw_signedId := JStr k\<rparr>
                in case fs_vm (fw_scope w1) of
                     None \<Rightarrow> (w1, Some TypeError)
                   | Some a \<Rightarrow>
                       (w1\<lparr>fw_vms := (fw_vms w1)(a := process_full_tabs (fw_vms w1 a)),
                           fw_actions_item := Some it, fw_acted := True,
                           fw_scope := (fw_scope w1)\<lparr>fs_title := oget it ''class''\<rparr>\<rparr>, None))))"

definition form_reply ::
  "form_kind \<Rightarrow> form_request \<Rightarrow> form_response option \<Rightarrow> form_world \<Rightarrow> form_world \<times> jserr option" where
  "form_reply kind q response w =
     (case response of
        None \<Rightarrow> (w, None)
      | Some r \<Rightarrow>
          show_item (take_texts (fq_params q) r (take_vm kind (fq_vmc q) (fq_params q) r
            (take_item (fq_params q) r w))))"

section \<open>After an action\<close>

text \<open>
  The answer to an action: a redirect, or the item with the request of a view model for it.
  The view model of the answer is shown as it comes.
\<close>

record action_response =
  ar_redirect :: jsval
  ar_item :: "jsobj option"

definition form_action_reply ::
  "form_kind \<Rightarrow> action_response \<Rightarrow> form_world \<Rightarrow> (string \<times> jsobj) option res \<times> form_world" where
  "form_action_reply kind r w =
     (if truthy (ar_redirect r) then (Inr None, w\<lparr>fw_url := to_str (ar_redirect r)\<rparr>)
      else case ar_item r of
             None \<Rightarrow> (Inr None, w)
           | Some it \<Rightarrow>
               (let w1 = w\<lparr>fw_scope := (fw_scope w)\<lparr>fs_item := Some it\<rparr>, fw_actions_item := Some it,
                           fw_cached := False, fw_acted := True\<rparr>
                in (rbind (item_info it 0) (\<lambda>c. rbind (item_info it 1) (\<lambda>i.
                      Inr (Some (form_vmUrl kind,
                        cleanParams [(''__node'', fs_node (fw_scope w)), (''__class'', c), (''__id'', i)])))), w1)))"

definition form_vm_reply :: "jsobj \<Rightarrow> vm_tab list option \<Rightarrow> form_world \<Rightarrow> form_world" where
  "form_vm_reply params vm w =
     (case vm of
        None \<Rightarrow> w\<lparr>fw_scope := (fw_scope w)\<lparr>fs_vm := None\<rparr>\<rparr>
      | Some v \<Rightarrow>
          w\<lparr>fw_vms := (fw_vms w)(fw_next w := v), fw_next := fw_next w + 1,
            fw_vmCache := (fw_vmCache w)(createVmId params \<mapsto> fw_next w),
            fw_scope := (fw_scope w)\<lparr>fs_vm := Some (fw_next w)\<rparr>\<rparr>)"

section \<open>Reloading selections\<close>

text \<open>
  The watcher of the item's properties.  The test meant for undefined compares the value with
  the string "undefined".
\<close>

fun add_targets :: "bool \<Rightarrow> jsval list \<Rightarrow> jsval list \<Rightarrow> jsval list" where
  "add_targets changed [] reload = reload"
| "add_targets changed (t # ts) reload =
     add_targets changed ts (if t \<notin> set reload \<and> changed then reload @ [t] else reload)"

fun trigger_loop :: "(string \<times> jsval list) list \<Rightarrow> jsobj \<Rightarrow> jsobj \<Rightarrow> jsobj \<Rightarrow> jsval list \<Rightarrow> jsobj \<times> jsval list" where
  "trigger_loop [] newVals oldVals nv reload = (nv, reload)"
| "trigger_loop ((nm, ts) # rest) newVals oldVals nv reload =
     (if loose_eq (JStr ''undefined'') (oget newVals nm)
      then trigger_loop rest newVals oldVals nv reload
      else trigger_loop rest newVals oldVals (oset nv nm (oget newVals nm))
             (add_targets (\<not> loose_eq (oget newVals nm) (oget oldVals nm)) ts reload))"

definition item_watch ::
  "(string \<times> jsval list) list \<Rightarrow> jsobj option \<Rightarrow> jsobj option \<Rightarrow> (string \<times> jsobj) option res" where
  "item_watch triggers item oldVals =
     (case (item, oldVals) of
        (Some it, Some old) \<Rightarrow>
          (let (nv, reload) = trigger_loop triggers it old [] []
           in if reload \<noteq> []
              then rbind (item_key_or_empty it) (\<lambda>k.
                     Inr (Some (''spa/selections'', oset (oset nv ''__id'' (JStr k)) ''__reload'' (JArr reload))))
              else Inr None)
      | _ \<Rightarrow> Inr None)"

text \<open>A change of the item reaches the cache and the actions where they have the same object.\<close>

definition item_becomes :: "jsobj \<Rightarrow> jsobj \<Rightarrow> form_world \<Rightarrow> form_world" where
  "item_becomes it it' w =
     w\<lparr>fw_scope := (fw_scope w)\<lparr>fs_item := Some it'\<rparr>,
       fw_items := (\<lambda>k. if fw_cached w \<and> fw_items w k = Some it then Some it' else fw_items w k),
       fw_actions_item := (if fw_acted w then Some it' else fw_actions_item w)\<rparr>"

definition selections_arrive :: "jsobj \<Rightarrow> form_world \<Rightarrow> form_world" where
  "selections_arrive response w =
     (case fs_item (fw_scope w) of
        None \<Rightarrow> w
      | Some it \<Rightarrow> item_becomes it (fold (\<lambda>(nm, v) i. oset i (nm @ ''__sel'') v) response it) w)"

section \<open>Lemmas\<close>

definition empty_form_world :: form_world where
  "empty_form_world =
     \<lparr>fw_scope = init_form_scope, fw_items = (\<lambda>_. None), fw_vmCache = (\<lambda>_. None),
      fw_vms = (\<lambda>_. []), fw_next = 0, fw_actions_item = None, fw_cached = False, fw_acted = False, fw_signedId = JNull, fw_url = []\<rparr>"

definition shown_vm :: "form_world \<Rightarrow> vm_tab list option" where
  "shown_vm w = map_option (fw_vms w) (fs_vm (fw_scope w))"

lemma add_targets_spec:
  "distinct reload \<Longrightarrow> distinct (add_targets ch ts reload) \<and>
     set (add_targets ch ts reload) = set reload \<union> (if ch then set ts else {})"
proof (induction ch ts reload rule: add_targets.induct)
  case (2 ch t ts reload)
  have "distinct (if t \<notin> set reload \<and> ch then reload @ [t] else reload)" using "2.prems" by auto
  from "2.IH" [OF this] show ?case by auto
qed simp

definition trigger_seen :: "jsobj \<Rightarrow> string \<Rightarrow> bool" where
  "trigger_seen newVals nm \<longleftrightarrow> \<not> loose_eq (JStr ''undefined'') (oget newVals nm)"

definition trigger_fires :: "jsobj \<Rightarrow> jsobj \<Rightarrow> string \<Rightarrow> bool" where
  "trigger_fires newVals oldVals nm \<longleftrightarrow>
     trigger_seen newVals nm \<and> \<not> loose_eq (oget newVals nm) (oget oldVals nm)"

lemma trigger_seen_iff: "trigger_seen it nm \<longleftrightarrow> oget it nm \<noteq> JStr ''undefined''"
proof -
  have "str_to_num ''undefined'' = None" by code_simp
  then show ?thesis by (cases "oget it nm") (auto simp: trigger_seen_def num_eq_def)
qed

lemma trigger_loop_reload:
  "distinct reload \<Longrightarrow> trigger_loop trs new old nv reload = (nv', reload') \<Longrightarrow>
   distinct reload' \<and>
   set reload' = set reload \<union> (\<Union>(nm, ts) \<in> {(nm, ts) \<in> set trs. trigger_fires new old nm}. set ts)"
proof (induction trs new old nv reload rule: trigger_loop.induct)
  case (1 new old nv reload)
  then show ?case by simp
next
  case (2 nm ts rest new old nv reload)
  show ?case
  proof (cases "trigger_seen new nm")
    case False
    then have "\<not> trigger_fires new old nm" by (simp add: trigger_fires_def)
    with 2 False show ?thesis by (auto simp: trigger_seen_def)
  next
    case True
    define r where "r = add_targets (\<not> loose_eq (oget new nm) (oget old nm)) ts reload"
    have r: "distinct r" "set r = set reload \<union> (if trigger_fires new old nm then set ts else {})"
      using add_targets_spec [OF "2.prems"(1)] True by (simp_all add: r_def trigger_fires_def)
    have "trigger_loop rest new old (oset nv nm (oget new nm)) r = (nv', reload')"
      using "2.prems"(2) True by (simp add: trigger_seen_def r_def)
    with "2.IH"(2) True r(1) have "distinct reload' \<and> set reload' = set r \<union>
        (\<Union>(nm, ts) \<in> {(nm, ts) \<in> set rest. trigger_fires new old nm}. set ts)"
      by (simp add: trigger_seen_def r_def)
    with r(2) show ?thesis by auto
  qed
qed

lemma trigger_loop_keeps:
  "trigger_loop trs new old nv reload = (nv', reload') \<Longrightarrow>
   oget nv' k = (if k \<in> fst ` set trs \<and> trigger_seen new k then oget new k else oget nv k)"
proof (induction trs new old nv reload rule: trigger_loop.induct)
  case (2 nm ts rest new old nv reload)
  show ?case
  proof (cases "trigger_seen new nm")
    case False
    with 2 show ?thesis by (auto simp: trigger_seen_def)
  next
    case True
    then have "trigger_loop rest new old (oset nv nm (oget new nm))
        (add_targets (\<not> loose_eq (oget new nm) (oget old nm)) ts reload) = (nv', reload')"
      using "2.prems" by (simp add: trigger_seen_def)
    with "2.IH"(2) True show ?thesis by (auto simp: trigger_seen_def)
  qed
qed simp

section \<open>Properties\<close>

text \<open>
  C20: When properties of the shown item change, a request for selections is sent exactly if a trigger
  that names some property has changed (by JavaScript's loose comparison).  The properties it asks for
  are exactly those the changed triggers name, each once, and it carries the item's key and the current value of every
  trigger.  A trigger whose value is the text ``undefined'' is passed over, as the code compares with that text; no
  trigger is called \<open>__id\<close> or \<open>__reload\<close>, and the item has its information.
\<close>

theorem item_watch_reloads_triggered:
  assumes "item_key_or_empty it = Inr k"
    and "\<And>nm. nm \<in> fst ` set triggers \<Longrightarrow> nm \<noteq> ''__id'' \<and> nm \<noteq> ''__reload''"
  shows "if \<exists>(nm, ts) \<in> set triggers. ts \<noteq> [] \<and> oget it nm \<noteq> JStr ''undefined'' \<and> \<not> loose_eq (oget it nm) (oget old nm)
    then \<exists>rq reload. item_watch triggers (Some it) (Some old) = Inr (Some (''spa/selections'', rq)) \<and>
      oget rq ''__id'' = JStr k \<and> oget rq ''__reload'' = JArr reload \<and> distinct reload \<and>
      (\<forall>t. t \<in> set reload \<longleftrightarrow>
        (\<exists>(nm, ts) \<in> set triggers.
           t \<in> set ts \<and> oget it nm \<noteq> JStr ''undefined'' \<and> \<not> loose_eq (oget it nm) (oget old nm))) \<and>
      (\<forall>nm \<in> fst ` set triggers. oget it nm \<noteq> JStr ''undefined'' \<longrightarrow> oget rq nm = oget it nm)
    else item_watch triggers (Some it) (Some old) = Inr None"
proof -
  obtain nv reload where l: "trigger_loop triggers it old [] [] = (nv, reload)" by force
  have r: "distinct reload" "t \<in> set reload \<longleftrightarrow> (\<exists>(nm, ts) \<in> set triggers.
      t \<in> set ts \<and> oget it nm \<noteq> JStr ''undefined'' \<and> \<not> loose_eq (oget it nm) (oget old nm))" for t
    using trigger_loop_reload [OF _ l] by (auto simp: trigger_fires_def trigger_seen_iff)
  have ne: "reload \<noteq> [] \<longleftrightarrow>
      (\<exists>(nm, ts) \<in> set triggers. ts \<noteq> [] \<and> oget it nm \<noteq> JStr ''undefined'' \<and> \<not> loose_eq (oget it nm) (oget old nm))"
  proof -
    have "reload \<noteq> [] \<longleftrightarrow> (\<exists>t. t \<in> set reload)" by (cases reload) auto
    also have "\<dots> \<longleftrightarrow> (\<exists>(nm, ts) \<in> set triggers.
        (\<exists>t. t \<in> set ts) \<and> oget it nm \<noteq> JStr ''undefined'' \<and> \<not> loose_eq (oget it nm) (oget old nm))"
      unfolding r(2) by blast
    also have "(\<lambda>ts. \<exists>t. t \<in> set ts) = (\<lambda>ts. ts \<noteq> [])" by (metis (full_types) ex_in_conv set_empty)
    finally show ?thesis .
  qed
  have w: "item_watch triggers (Some it) (Some old) =
      (if reload \<noteq> [] then Inr (Some (''spa/selections'', oset (oset nv ''__id'' (JStr k)) ''__reload'' (JArr reload))) else Inr None)"
    using assms(1) by (simp add: item_watch_def l)
  have "\<forall>nm \<in> fst ` set triggers. oget it nm \<noteq> JStr ''undefined'' \<longrightarrow>
      oget (oset (oset nv ''__id'' (JStr k)) ''__reload'' (JArr reload)) nm = oget it nm"
    using trigger_loop_keeps [OF l] assms(2) by (auto simp: trigger_seen_iff)
  with r w show ?thesis unfolding ne [symmetric] by auto
qed

theorem item_watch_reloads_triggered_witness:
  "\<exists>rq reload. item_watch [(''region'', [JStr ''city'']), (''owner'', [JStr ''city'', JStr ''bank''])]
      (Some (mk_item ''A'' ''1'' [(''region'', JNum 2), (''owner'', JNum 7)]))
      (Some (mk_item ''A'' ''1'' [(''region'', JNum 1), (''owner'', JNum 7)])) = Inr (Some (''spa/selections'', rq)) \<and>
    oget rq ''__reload'' = JArr reload \<and> set reload = {JStr ''city''}"
proof -
  let ?tr = "[(''region'', [JStr ''city'']), (''owner'', [JStr ''city'', JStr ''bank''])]"
  let ?new = "mk_item ''A'' ''1'' [(''region'', JNum 2), (''owner'', JNum 7)]"
  let ?old = "mk_item ''A'' ''1'' [(''region'', JNum 1), (''owner'', JNum 7)]"
  have "item_key_or_empty ?new = Inr ''A:1''" by (simp add: mk_item_def item_key_or_empty_def item_info_def arr_at_def)
  from item_watch_reloads_triggered [OF this, of ?tr ?old]
  obtain rq reload where "item_watch ?tr (Some ?new) (Some ?old) = Inr (Some (''spa/selections'', rq))"
    "oget rq ''__reload'' = JArr reload" "\<And>t. t \<in> set reload \<longleftrightarrow> t = JStr ''city''"
    by (auto simp: mk_item_def num_eq_def)
  then show ?thesis by blast
qed

text \<open>
  an item and a view model that are both cached are shown at once when the location names
  them, and only the breadcrumbs and the validators are requested.
\<close>

theorem cached_form_shown_at_once:
  assumes "contains (form_path kind) path" "oget search ''__node'' \<noteq> JUndef"
    and "form_target (getRequestObject search) = Inr (vmc, i)"
    and "fw_items w i = Some it" "fw_vmCache w (vm_key kind (oget search ''__node'') vmc) = Some a"
  shows "\<exists>q w'. location_changed kind path search w = (Inr (Some q), w') \<and>
    fs_item (fw_scope w') = Some it \<and> shown_vm w' = Some (fw_vms w a) \<and>
    oget (fq_object q) ''__params'' = JStr ''breadcrumbs validators ''"
  using assms
  by (auto simp: location_changed_def Let_def shown_vm_def concatParams_def RequestParams_def)

theorem cached_form_shown_at_once_witness:
  "\<exists>w' q. location_changed Edit_Form ''/item'' [(''__node'', JStr ''n''), (''__id'', JStr ''A:1'')]
      (empty_form_world\<lparr>fw_items := [''A:1'' \<mapsto> mk_item ''A'' ''1'' []], fw_vmCache := (\<lambda>_. Some 0)\<rparr>) = (Inr (Some q), w') \<and>
    oget (fq_object q) ''__params'' = JStr ''breadcrumbs validators ''"
  using cached_form_shown_at_once [of Edit_Form "''/item''" "[(''__node'', JStr ''n''), (''__id'', JStr ''A:1'')]"
      "''A''" "''A:1''" "empty_form_world\<lparr>fw_items := [''A:1'' \<mapsto> mk_item ''A'' ''1'' []], fw_vmCache := (\<lambda>_. Some 0)\<rparr>" "mk_item ''A'' ''1'' []" 0]
  by (auto simp: contains_def getRequestObject_def copy_truthy_def form_target_def)

lemma show_item_ok:
  assumes "fs_item (fw_scope w) = Some it" "has_info it" "fs_vm (fw_scope w) = Some a"
  shows "\<exists>k. show_item w =
    (w\<lparr>fw_signedId := k, fw_vms := (fw_vms w)(a := process_full_tabs (fw_vms w a)),
       fw_actions_item := Some it, fw_acted := True, fw_scope := (fw_scope w)\<lparr>fs_title := oget it ''class''\<rparr>\<rparr>, None)"
proof -
  obtain c i where "item_info it 0 = Inr c" "item_info it 1 = Inr i"
    using item_info_ok [OF assms(2)] by blast
  with assms(1,3) show ?thesis by (cases "truthy i") (auto simp: show_item_def)
qed

lemma has_info_of_key: "itemsCache_key it = Some i \<Longrightarrow> has_info it"
  by (auto simp: itemsCache_key_def has_info_def nullish_iff split: if_splits)

lemma form_reply_fresh:
  assumes "fr_item r = Some it" "fr_vm r = Some v" "itemsCache_key it = Some i"
    and "rp_item (fq_params q)" "rp_vm (fq_params q)" "form_reply kind q (Some r) w = (w', e)"
  shows "fs_item (fw_scope w') = Some it \<and> fw_items w' i = Some it \<and>
    fs_node (fw_scope w') = fs_node (fw_scope w) \<and>
    (\<exists>a. fw_vmCache w' (vm_key kind (fs_node (fw_scope w)) (fq_vmc q)) = Some a \<and>
       fs_vm (fw_scope w') = Some a \<and> fw_vms w' a = process_full_tabs v)"
proof -
  let ?w = "take_texts (fq_params q) r (take_vm kind (fq_vmc q) (fq_params q) r (take_item (fq_params q) r w))"
  have w: "fs_item (fw_scope ?w) = Some it" "fw_items ?w i = Some it"
      "fs_node (fw_scope ?w) = fs_node (fw_scope w)" "fs_vm (fw_scope ?w) = Some (fw_next w)"
      "fw_vmCache ?w (vm_key kind (fs_node (fw_scope w)) (fq_vmc q)) = Some (fw_next w)"
      "fw_vms ?w (fw_next w) = v"
    using assms(1-5)
    by (simp_all add: take_texts_def take_vm_def take_item_def itemsCache_put_def)
  from show_item_ok [OF w(1) has_info_of_key [OF assms(3)] w(4)] assms(6) w show ?thesis
    by (auto simp: form_reply_def)
qed

lemma form_reply_cached:
  assumes "\<not> rp_item (fq_params q)" "\<not> rp_vm (fq_params q)" "form_reply kind q (Some r) w = (w', e)"
    and "fs_item (fw_scope w) = Some it" "has_info it" "fs_vm (fw_scope w) = Some a"
  shows "shown_vm w' = Some (process_full_tabs (fw_vms w a))"
proof -
  let ?w = "take_texts (fq_params q) r w"
  have eq: "take_texts (fq_params q) r (take_vm kind (fq_vmc q) (fq_params q) r (take_item (fq_params q) r w)) = ?w"
    using assms(1,2) by (simp add: take_vm_def take_item_def split: option.splits)
  have "fs_item (fw_scope ?w) = Some it" "fs_vm (fw_scope ?w) = Some a" "fw_vms ?w = fw_vms w"
    using assms(4,6) by (simp_all add: take_texts_def)
  with show_item_ok [of ?w it a] assms(3,5) eq show ?thesis
    by (auto simp: form_reply_def shown_vm_def)
qed

text \<open>
  opening a form shows the processed view model, but opening the same form again processes
  the cached view model once more: the second time the form shows the view model processed
  twice, in which every named field in a named group has its group's name twice.
\<close>

theorem reopened_form_processed_twice:
  assumes "location_changed kind path search w = (Inr (Some q), w1)"
    and "form_target (getRequestObject search) = Inr (vmc, i)"
    and "fw_items w i = None" "fw_vmCache w (vm_key kind (oget search ''__node'') vmc) = None"
    and "fr_item r = Some it" "itemsCache_key it = Some i" "fr_vm r = Some v"
    and "form_reply kind q (Some r) w1 = (w2, e)"
    and "location_changed kind path search w2 = (Inr (Some q'), w3)"
    and "form_reply kind q' (Some r') w3 = (w4, e')"
  shows "shown_vm w2 = Some (process_full_tabs v) \<and>
    shown_vm w4 = Some (process_full_tabs (process_full_tabs v))"
proof -
  have q: "rp_item (fq_params q)" "rp_vm (fq_params q)" "fq_vmc q = vmc"
    and n: "fs_node (fw_scope w1) = oget search ''__node''"
    using assms(1-4) by (auto simp: location_changed_def Let_def RequestParams_def split: if_splits)
  from form_reply_fresh [OF assms(5,7,6) q(1,2) assms(8)] n q(3) obtain a
    where a: "fs_item (fw_scope w2) = Some it" "fw_items w2 i = Some it"
      "fw_vmCache w2 (vm_key kind (oget search ''__node'') vmc) = Some a"
      "fs_vm (fw_scope w2) = Some a" "fw_vms w2 a = process_full_tabs v" by auto
  from assms(9,2) a have q': "\<not> rp_item (fq_params q')" "\<not> rp_vm (fq_params q')"
      "fs_item (fw_scope w3) = Some it" "fs_vm (fw_scope w3) = Some a" "fw_vms w3 = fw_vms w2"
    by (auto simp: location_changed_def Let_def RequestParams_def split: if_splits)
  from form_reply_cached [OF q'(1,2) assms(10) q'(3) has_info_of_key [OF assms(6)] q'(4)] q'(5) a
  show ?thesis by (simp add: shown_vm_def)
qed

theorem reopened_form_processed_twice_witness:
  "\<exists>w' v. shown_vm w' = Some (process_full_tabs (process_full_tabs v)) \<and> v \<noteq> []"
proof -
  let ?s = "[(''__node'', JStr ''n''), (''__id'', JStr ''A:1'')]"
  let ?v = "[\<lparr>tab_shortViewFields = [], tab_fullViewFields = []\<rparr>]"
  let ?r = "\<lparr>fr_item = Some (mk_item ''A'' ''1'' []), fr_vm = Some ?v, fr_breadcrumbs = JUndef, fr_validators = JUndef\<rparr>"
  have t: "form_target (getRequestObject ?s) = Inr (''A'', ''A:1'')"
    by (simp add: form_target_def getRequestObject_def copy_truthy_def)
  have loc: "\<exists>q w'. location_changed Edit_Form ''/item'' ?s w = (Inr (Some q), w')" for w
    using t by (simp add: location_changed_def contains_def Let_def)
  obtain q w1 where 1: "location_changed Edit_Form ''/item'' ?s empty_form_world = (Inr (Some q), w1)" using loc by blast
  obtain w2 e where 2: "form_reply Edit_Form q (Some ?r) w1 = (w2, e)" by force
  obtain q' w3 where 3: "location_changed Edit_Form ''/item'' ?s w2 = (Inr (Some q'), w3)" using loc by blast
  obtain w4 e' where 4: "form_reply Edit_Form q' (Some ?r) w3 = (w4, e')" by force
  have "itemsCache_key (mk_item ''A'' ''1'' []) = Some ''A:1''" by simp
  from reopened_form_processed_twice [OF 1 t _ _ _ this _ 2 3 4] show ?thesis
    by (auto simp: empty_form_world_def)
qed

text \<open>
  the view model that comes with the answer to an action is shown unprocessed, unlike the
  one that comes with the form: the same view model shows nested fields under their bare names
  after an action and under their full path before it.
\<close>

theorem action_shows_raw_view_model:
  assumes "truthy (ar_redirect r) = False" "ar_item r = Some it" "has_info it"
  shows "\<exists>params w1. form_action_reply kind r w = (Inr (Some (form_vmUrl kind, params)), w1) \<and>
    fs_item (fw_scope w1) = Some it \<and> fw_actions_item w1 = Some it \<and>
    shown_vm (form_vm_reply params (Some v) w1) = Some v \<and>
    shown_vm (form_vm_reply params None w1) = None"
proof -
  obtain c i where "item_info it 0 = Inr c" "item_info it 1 = Inr i"
    using item_info_ok [OF assms(3)] by blast
  with assms show ?thesis
    by (simp add: form_action_reply_def form_vm_reply_def shown_vm_def)
qed

theorem action_shows_raw_view_model_witness:
  "\<exists>params w1. form_action_reply Edit_Form \<lparr>ar_redirect = JUndef, ar_item = Some (mk_item ''A'' ''1'' [])\<rparr>
      empty_form_world = (Inr (Some (''spa/edit/vm'', params)), w1)"
proof -
  have "has_info (mk_item ''A'' ''1'' [])" by (simp add: has_info_def mk_item_def)
  with action_shows_raw_view_model [of "\<lparr>ar_redirect = JUndef, ar_item = Some (mk_item ''A'' ''1'' [])\<rparr>"
      "mk_item ''A'' ''1'' []" Edit_Form empty_form_world "[]"] show ?thesis by auto
qed

end
