(* ===== verification/Form_Reload.thy ===== *)
theory Form_Reload
  imports Form
begin

text \<open>
  The chain of reloads of a form: a change of the item makes the watcher ask for selections, their
  answer changes the item, and the watcher runs again.  The server is the parameter \<open>srv\<close>, from the
  request to the selections in its answer.
\<close>

definition reload_names :: "(string \<times> jsval list) list \<Rightarrow> bool" where
  "reload_names triggers \<longleftrightarrow> (\<forall>nm\<in>fst ` set triggers. \<forall>p. nm \<noteq> p @ ''__sel'')"

text \<open>One change after the other; \<open>None\<close> when the fuel \<open>n\<close> is used up and the watcher still asks.\<close>

fun reload_chain ::
  "(jsobj \<Rightarrow> jsobj) \<Rightarrow> (string \<times> jsval list) list \<Rightarrow> nat \<Rightarrow> jsobj \<Rightarrow> form_world \<Rightarrow> form_world option" where
  "reload_chain srv triggers 0 old w = None"
| "reload_chain srv triggers (Suc n) old w =
     (case item_watch triggers (fs_item (fw_scope w)) (Some old) of
        Inr (Some (url, rq)) \<Rightarrow>
          (case fs_item (fw_scope w) of
             None \<Rightarrow> Some w
           | Some it \<Rightarrow> reload_chain srv triggers n it (selections_arrive (srv rq) w))
      | _ \<Rightarrow> Some w)"

lemma selections_other:
  "(\<And>p. k \<noteq> p @ ''__sel'') \<Longrightarrow>
    oget (fold (\<lambda>(nm, v) i. oset i (nm @ ''__sel'') v) response it) k = oget it k"
  by (induction response arbitrary: it) auto

lemma add_targets_unchanged: "add_targets False ts reload = reload"
  by (induction ts) simp_all

lemma trigger_loop_unchanged:
  "(\<And>nm. nm \<in> fst ` set trs \<Longrightarrow> loose_eq (oget new nm) (oget old nm)) \<Longrightarrow>
    snd (trigger_loop trs new old nv reload) = reload"
  by (induction trs new old nv reload rule: trigger_loop.induct) (simp_all add: add_targets_unchanged)

lemma watch_unchanged:
  assumes "\<And>nm. nm \<in> fst ` set trs \<Longrightarrow> loose_eq (oget it nm) (oget old nm)"
  shows "item_watch trs (Some it) (Some old) = Inr None"
proof -
  have "snd (trigger_loop trs it old [] []) = []"
    by (rule trigger_loop_unchanged) (rule assms)
  then show ?thesis
    by (cases "trigger_loop trs it old [] []") (simp add: item_watch_def)
qed

text \<open>
  C17: The reloading of selections ends: whatever the server answers, after a change of the item the
  watcher sends at most one request, because its answer changes only the lists of choices, as long as
  no trigger is named like such a list and no trigger's value is NaN.
\<close>

theorem reload_chain_ends:
  assumes "fs_item (fw_scope w) = Some it" and "reload_names triggers"
    and "\<And>nm. nm \<in> fst ` set triggers \<Longrightarrow> loose_eq (oget it nm) (oget it nm)"
  shows "\<exists>w'. reload_chain srv triggers (n + 2) old w = Some w' \<and>
    (w' = w \<or> (\<exists>rq. item_watch triggers (Some it) (Some old) = Inr (Some (''spa/selections'', rq)) \<and>
      w' = selections_arrive (srv rq) w))"
proof (cases "item_watch triggers (Some it) (Some old)")
  case (Inl e)
  with assms(1) show ?thesis by simp
next
  case (Inr r)
  show ?thesis
  proof (cases r)
    case None
    with Inr assms(1) show ?thesis by simp
  next
    case (Some q)
    from Inr Some obtain rq where q: "q = (''spa/selections'', rq)"
      by (cases "item_key_or_empty it") (auto simp: item_watch_def split: prod.splits if_splits)
    obtain it' where it': "fs_item (fw_scope (selections_arrive (srv rq) w)) = Some it'"
      "it' = fold (\<lambda>(nm, v) i. oset i (nm @ ''__sel'') v) (srv rq) it"
      using assms(1) by (simp add: selections_arrive_def item_becomes_def)
    have "item_watch triggers (Some it') (Some it) = Inr None"
    proof (rule watch_unchanged)
      fix nm assume nm: "nm \<in> fst ` set triggers"
      with assms(2) have "nm \<noteq> p @ ''__sel''" for p by (auto simp: reload_names_def)
      then have "oget it' nm = oget it nm" unfolding it'(2) by (rule selections_other)
      with assms(3) [OF nm] show "loose_eq (oget it' nm) (oget it nm)" by simp
    qed
    with Inr Some q it'(1) assms(1) show ?thesis by simp
  qed
qed

definition region_form :: "int \<Rightarrow> form_world" where
  "region_form r = empty_form_world\<lparr>fw_scope :=
     (fw_scope empty_form_world)\<lparr>fs_item := Some (mk_item ''A'' ''1'' [(''region'', JNum r)])\<rparr>\<rparr>"

lemma reload_chain_ends_witness:
  "\<exists>w'. reload_chain (\<lambda>_. [(''city'', JObj [])]) [(''region'', [JStr ''city''])] (0 + 2)
      (mk_item ''A'' ''1'' [(''region'', JNum 1)]) (region_form 2) = Some w' \<and>
    (w' = region_form 2 \<or>
      (\<exists>rq. item_watch [(''region'', [JStr ''city''])] (Some (mk_item ''A'' ''1'' [(''region'', JNum 2)]))
         (Some (mk_item ''A'' ''1'' [(''region'', JNum 1)])) = Inr (Some (''spa/selections'', rq)) \<and>
        w' = selections_arrive [(''city'', JObj [])] (region_form 2)))"
proof -
  have "''region'' \<noteq> p @ ''__sel''" for p
    using arg_cong [where f = "\<lambda>s. hd (rev s)", of "''region''" "p @ ''__sel''"] by auto
  then have "reload_names [(''region'', [JStr ''city''])]" by (simp add: reload_names_def)
  then show ?thesis
    by (intro reload_chain_ends) (simp_all add: region_form_def mk_item_def num_eq_def)
qed

text \<open>
  The condition on the names is needed: a trigger that is itself a list of choices, of which the
  server always answers another one, makes the watcher ask for ever.
\<close>

lemma num_undefined: "str_to_num ''undefined'' = None"
  by code_simp

lemma reload_chain_may_never_end:
  assumes "fs_item (fw_scope w) = Some (mk_item ''A'' ''1'' [(''city__sel'', JNum k)])" and "k \<noteq> j"
  shows "reload_chain (\<lambda>rq. [(''city'', case oget rq ''city__sel'' of JNum k \<Rightarrow> JNum (k + 1) | v \<Rightarrow> v)])
    [(''city__sel'', [JStr ''city''])] n (mk_item ''A'' ''1'' [(''city__sel'', JNum j)]) w = None"
  using assms
proof (induction n arbitrary: w j k)
  case (Suc n)
  let ?it = "\<lambda>k. mk_item ''A'' ''1'' [(''city__sel'', JNum k)]"
  let ?rq = "oset (oset [(''city__sel'', JNum k)] ''__id'' (JStr ''A:1'')) ''__reload'' (JArr [JStr ''city''])"
  have w: "item_watch [(''city__sel'', [JStr ''city''])] (Some (?it k)) (Some (?it j))
      = Inr (Some (''spa/selections'', ?rq))"
    using Suc.prems(2) num_undefined
    by (simp add: item_watch_def mk_item_def item_key_or_empty_def item_info_def arr_at_def num_eq_def)
  have "fs_item (fw_scope (selections_arrive [(''city'', JNum (k + 1))] w)) = Some (?it (k + 1))"
    using Suc.prems(1) by (simp add: selections_arrive_def item_becomes_def mk_item_def)
  from Suc.IH [OF this, of k] w Suc.prems(1) show ?case by simp
qed simp

end
