(* ===== verification/Run_Interface.thy ===== *)
theory Run_Interface
  imports Main
begin

text \<open>
  The contract of the components that are step functions over events: an invariant that every
  permitted event keeps holds after any list of them, and so does whatever follows from it.
\<close>

locale event_run =
  fixes step :: "'e \<Rightarrow> 's \<Rightarrow> 's"
    and inv :: "'s \<Rightarrow> bool"
    and ok :: "'e \<Rightarrow> bool"
  assumes step_inv: "inv s \<Longrightarrow> ok e \<Longrightarrow> inv (step e s)"
begin

lemma run_inv: "inv s \<Longrightarrow> list_all ok es \<Longrightarrow> inv (fold step es s)"
  by (induction es arbitrary: s) (auto intro: step_inv)

lemma run_inv_after: "inv (fold step es s) \<Longrightarrow> list_all ok es' \<Longrightarrow> inv (fold step (es @ es') s)"
  by (simp add: run_inv)

lemma run_gives: "inv s \<Longrightarrow> list_all ok es \<Longrightarrow> (\<And>t. inv t \<Longrightarrow> P t) \<Longrightarrow> P (fold step es s)"
  using run_inv by blast

end

end
