(* ===== verification/Cache_Sessions.thy ===== *)
theory Cache_Sessions
  imports Data_Cache Run_Interface
begin

text \<open>
  The caches over a whole session: the answers that come in any order, what the items cache and the
  request cache serve after them, and what failures leave behind.
\<close>

datatype data_event =
    Item_Answer bool jsval
  | List_Answer jsval
  | Selections_Answer jsobj jsval
  | Item_Deleted string
  | Request_Sent int string jsobj bool bool
  | Request_Answer string jsobj bool bool jsval "int option option"
  | Request_Failed jsval
  | Vm_Answer jsobj jsval
  | Vm_Stored jsval jsobj

text \<open>The request that \<open>doRequest\<close> sends for an address and parameters.\<close>

definition sent_request :: "string \<Rightarrow> jsobj \<Rightarrow> bool \<Rightarrow> bool \<Rightarrow> pending" where
  "sent_request url params chk keep =
     \<lparr>p_request = requestConfigFactory url params, p_check = chk,
      p_cacheId = (if keep then Some (createCacheId url params) else None)\<rparr>"

lemma doRequest_sends: "doRequest now url params chk keep s = (Inr p, s') \<Longrightarrow> p = sent_request url params chk keep"
  by (auto simp: doRequest_def sent_request_def Let_def split: if_splits prod.splits)

definition data_step :: "data_event \<Rightarrow> data_state \<Rightarrow> data_state" where
  "data_step e s =
     (case e of
        Item_Answer chk d \<Rightarrow> snd (snd (getItem_reply chk d s))
      | List_Answer d \<Rightarrow> snd (getList_reply d s)
      | Selections_Answer it d \<Rightarrow> snd (selections_reply it d s)
      | Item_Deleted k \<Rightarrow> s\<lparr>itemsCache := itemsCache_del (itemsCache s) k\<rparr>
      | Request_Sent now url d chk keep \<Rightarrow> snd (doRequest now url d chk keep s)
      | Request_Answer url params chk keep d ex \<Rightarrow> snd (request_success (sent_request url params chk keep) d ex s)
      | Request_Failed d \<Rightarrow> snd (request_error d s)
      | Vm_Answer params d \<Rightarrow> snd (getVm_reply params d s)
      | Vm_Stored vm params \<Rightarrow> putInCache vm params s)"

definition new_data :: data_state where
  "new_data = \<lparr>requestCache = (\<lambda>_. None), itemsCache = (\<lambda>_. None), vmCache = (\<lambda>_. None),
     mtpl = mtplInfoFactory None None 0 0 0\<rparr>"

definition data_run :: "data_event list \<Rightarrow> data_state" where
  "data_run es = fold data_step es new_data"

text \<open>The type of the items cache: every item is stored under the key it has.\<close>

definition items_typed :: "(string \<Rightarrow> jsobj option) \<Rightarrow> bool" where
  "items_typed m \<longleftrightarrow> (\<forall>k it. m k = Some it \<longrightarrow> itemsCache_key it = Some k)"

lemma put_typed: "items_typed m \<Longrightarrow> items_typed (itemsCache_put m it)"
  by (auto simp: items_typed_def itemsCache_put_def split: option.splits)

lemma put_value_typed: "items_typed m \<Longrightarrow> put_value v m = Inr m' \<Longrightarrow> items_typed m'"
  by (cases v) (auto simp: put_value_def put_typed split: if_splits)

lemma put_values_typed: "items_typed m \<Longrightarrow> items_typed (snd (put_values vs m))"
  by (induction vs m rule: put_values.induct) (auto split: sum.splits dest: put_value_typed [rotated])

lemma selections_keep_key: "itemsCache_key (checkSelections sel it) = itemsCache_key it"
proof -
  have ne: "''itemInfo'' \<noteq> nm @ ''__sel''" for nm
    using arg_cong [where f = "\<lambda>s. hd (rev s)", of "''itemInfo''" "nm @ ''__sel''"] by auto
  have "oget (checkSelections sel it) ''itemInfo'' = oget it ''itemInfo''"
    by (simp add: checkSelections_def apply_selections_other ne)
  then show ?thesis by (simp add: itemsCache_key_def item_key_def item_info_def)
qed

lemma getItem_reply_typed:
  "items_typed (itemsCache s) \<Longrightarrow> items_typed (itemsCache (snd (snd (getItem_reply chk d s))))"
  by (auto simp: getItem_reply_def Let_def split: sum.splits dest: put_value_typed [rotated])

lemma getList_reply_typed:
  "items_typed (itemsCache s) \<Longrightarrow> items_typed (itemsCache (snd (getList_reply d s)))"
  by (simp add: getList_reply_def Let_def case_prod_beta put_values_typed split: sum.splits)

lemma selections_reply_typed:
  "items_typed (itemsCache s) \<Longrightarrow> items_typed (itemsCache (snd (selections_reply it d s)))"
  by (auto simp: selections_reply_def Let_def items_typed_def selections_keep_key
      split: sum.splits option.splits)

lemma deleted_typed: "items_typed m \<Longrightarrow> items_typed (m(k := None))"
  by (simp add: items_typed_def)

lemma data_step_typed: "items_typed (itemsCache s) \<Longrightarrow> items_typed (itemsCache (data_step e s))"
  by (cases e)
    (auto simp: data_step_def getItem_reply_typed getList_reply_typed selections_reply_typed
      itemsCache_del_def deleted_typed
      doRequest_def getCachedData_def request_success_def request_error_def getVm_reply_def putInCache_def Let_def
      split: sum.splits option.splits)

interpretation session: event_run data_step "\<lambda>s. items_typed (itemsCache s)" "\<lambda>_. True"
  by unfold_locales (rule data_step_typed)

lemma data_run_typed: "items_typed (itemsCache (data_run es))"
  unfolding data_run_def
  by (rule session.run_inv) (simp_all add: list_all_iff new_data_def items_typed_def)

text \<open>
  C18: The items cache is well typed throughout a session: after any answers of the server, deletions
  and failures, an item that is served without a request has the class and the id that were asked for.
  The two are asked for as one text with a colon between them, so which of the item's two it names is
  certain when neither class has a colon.
\<close>

theorem served_item_is_asked_one:
  assumes "getItem url params (data_run es) = Now it"
  shows "\<exists>c i. item_info it 0 = Inr c \<and> item_info it 1 = Inr i \<and>
    to_str (oget params ''__id'') = to_str c @ '':'' @ to_str i \<and>
    (\<forall>c' i'. to_str (oget params ''__id'') = c' @ '':'' @ i' \<and>
       CHR '':'' \<notin> set c' \<and> CHR '':'' \<notin> set (to_str c) \<longrightarrow> to_str c = c' \<and> to_str i = i')"
proof -
  from assms data_run_typed [of es]
  have "itemsCache_key it = Some (to_str (oget params ''__id''))"
    by (auto simp: getItem_def itemsCache_get_def items_typed_def split: option.splits)
  then obtain c i where "item_info it 0 = Inr c" "item_info it 1 = Inr i"
    "to_str (oget params ''__id'') = to_str c @ '':'' @ to_str i"
    by (auto simp: itemsCache_key_def item_key_def rbind_def split: if_splits sum.splits)
  then show ?thesis
    by (intro exI [of _ c] exI [of _ i])
      (auto simp: append_eq_append_conv2 append_eq_Cons_conv Cons_eq_append_conv)
qed

lemma served_item_is_asked_one_witness:
  "item_info (mk_item ''A'' ''1'' []) 0 = Inr (JStr ''A'') \<and>
   to_str (oget [(''__id'', JStr ''A:1'')] ''__id'') = ''A'' @ '':'' @ ''1''"
proof -
  have "getItem ''spa/item'' [(''__id'', JStr ''A:1'')] (data_run
      [Request_Failed JNull, List_Answer (JObj [(''data'', JArr [JObj (mk_item ''A'' ''1'' [])])])])
    = Now (mk_item ''A'' ''1'' [])"
    by (simp add: data_run_def data_step_def getList_reply_def put_value_def itemsCache_put_def request_error_def
        getItem_def itemsCache_get_def new_data_def)
  from served_item_is_asked_one [OF this] show ?thesis
    by (auto simp: mk_item_def item_info_def arr_at_def)
qed

section \<open>The request cache over a session\<close>

text \<open>
  The request cache's promise, without the cache: the last answer to a request for an address and
  parameters that came with a date of expiry, whatever was sent, refused or evicted in between.
\<close>

definition note_answer ::
  "string \<Rightarrow> jsobj \<Rightarrow> data_event \<Rightarrow> (jsval \<times> int option) option \<Rightarrow> (jsval \<times> int option) option" where
  "note_answer url params e kept =
     (case e of
        Request_Answer u ps chk keep d (Some ex) \<Rightarrow>
          if keep \<and> u = url \<and> ps = params then Some (d, ex) else kept
      | _ \<Rightarrow> kept)"

definition last_answer :: "string \<Rightarrow> jsobj \<Rightarrow> data_event list \<Rightarrow> (jsval \<times> int option) option" where
  "last_answer url params es = fold (note_answer url params) es None"

text \<open>
  The id under which an answer is kept joins the names and values of the parameters, so two requests
  can have the same one.  The promise is for requests whose id no other request of the session has.
\<close>

definition own_id :: "string \<Rightarrow> jsobj \<Rightarrow> data_event \<Rightarrow> bool" where
  "own_id url params e =
     (case e of
        Request_Answer u ps chk keep d ex \<Rightarrow>
          keep \<and> createCacheId u ps = createCacheId url params \<longrightarrow> u = url \<and> ps = params
      | _ \<Rightarrow> True)"

definition sent_until :: "int \<Rightarrow> data_event \<Rightarrow> bool" where
  "sent_until now e = (case e of Request_Sent t _ _ _ _ \<Rightarrow> t \<le> now | _ \<Rightarrow> True)"

definition cache_holds :: "int \<Rightarrow> (jsval \<times> int option) option \<Rightarrow> cached option \<Rightarrow> bool" where
  "cache_holds now kept c \<longleftrightarrow>
     (case c of
        Some x \<Rightarrow> kept = Some (c_data x, c_expires x)
      | None \<Rightarrow> (\<forall>d e. kept = Some (d, Some e) \<longrightarrow> e \<le> now))"

lemma cached_data_holds:
  assumes "cache_holds now (kept cid) (requestCache s cid)" and "t \<le> now"
  shows "cache_holds now (kept cid) (requestCache (snd (getCachedData t url s)) cid)"
  using assms by (auto simp: getCachedData_def cache_holds_def split: option.splits)

lemma step_holds:
  assumes "cache_holds now kept (requestCache s (createCacheId url params))" "sent_until now e" "own_id url params e"
  shows "cache_holds now (note_answer url params e kept) (requestCache (data_step e s) (createCacheId url params))"
proof (cases e)
  case (Request_Sent t u d chk keep)
  with assms cached_data_holds [of now "\<lambda>_. kept" "createCacheId url params" s t "createCacheId u d"] show ?thesis
    by (simp add: data_step_def doRequest_def note_answer_def sent_until_def Let_def case_prod_beta)
next
  case (Request_Answer u ps chk keep d ex)
  with assms(1,3) show ?thesis
    by (cases "keep \<and> u = url \<and> ps = params")
      (auto simp: data_step_def request_success_def sent_request_def note_answer_def own_id_def cache_holds_def Let_def
        split: option.splits sum.splits)
qed (use assms(1) in \<open>auto simp: data_step_def note_answer_def getItem_reply_def getList_reply_def
    selections_reply_def request_error_def getVm_reply_def putInCache_def Let_def case_prod_beta
    split: sum.splits option.splits\<close>)

lemma run_holds:
  "list_all (sent_until now) es \<Longrightarrow> list_all (own_id url params) es \<Longrightarrow>
   cache_holds now kept (requestCache s (createCacheId url params)) \<Longrightarrow>
     cache_holds now (fold (note_answer url params) es kept) (requestCache (fold data_step es s) (createCacheId url params))"
  by (induction es arbitrary: kept s) (simp_all add: step_holds)

text \<open>
  C12: The request cache keeps its promise over any session whose clock does not run backwards: a request
  that may be kept is answered without the server exactly when the last answer to a kept request for its
  address and parameters that came with a date of expiry has not expired and is no empty value, and then
  with that answer; otherwise it is sent.  Failures, answers without a date, evictions and requests with
  other addresses or parameters in between make no difference, as long as none of them is kept under the
  same id: the id joins names and values without separating them, and requests that share one
  share their answers.
\<close>

theorem cache_serves_last_answer:
  assumes "list_all (sent_until now) es" "list_all (own_id url params) es"
  shows "fst (doRequest now url params chk True (data_run es)) =
    (case last_answer url params es of
       Some (d, Some e) \<Rightarrow> if now < e \<and> truthy d then Inl d else Inr (sent_request url params chk True)
     | _ \<Rightarrow> Inr (sent_request url params chk True))"
proof -
  let ?c = "createCacheId url params"
  have "cache_holds now (last_answer url params es) (requestCache (data_run es) ?c)"
    unfolding last_answer_def data_run_def
    by (rule run_holds [OF assms]) (simp add: cache_holds_def new_data_def)
  then show ?thesis
    by (auto simp: cache_holds_def doRequest_def sent_request_def getCachedData_def Let_def split: option.splits)
qed

lemma cache_serves_last_answer_witness:
  "fst (doRequest 5 ''spa/menu'' [] True True (data_run
      [Request_Sent 1 ''spa/menu'' [] True True,
       Request_Answer ''spa/menu'' [] True True (JStr ''m'') (Some (Some 9)),
       Request_Answer ''spa/listinfo'' [] True True (JStr ''l'') (Some (Some 9)),
       Request_Failed JNull])) = Inl (JStr ''m'')"
  using cache_serves_last_answer [of 5 "[Request_Sent 1 ''spa/menu'' [] True True,
       Request_Answer ''spa/menu'' [] True True (JStr ''m'') (Some (Some 9)),
       Request_Answer ''spa/listinfo'' [] True True (JStr ''l'') (Some (Some 9)),
       Request_Failed JNull]" "''spa/menu''" "[]" True]
  by (simp add: sent_until_def own_id_def createCacheId_def last_answer_def note_answer_def)

section \<open>Failures\<close>

definition is_failure :: "data_event \<Rightarrow> bool" where
  "is_failure e = (case e of Request_Failed _ \<Rightarrow> True | _ \<Rightarrow> False)"

definition same_caches :: "data_state \<Rightarrow> data_state \<Rightarrow> bool" where
  "same_caches s t \<longleftrightarrow> requestCache s = requestCache t \<and> itemsCache s = itemsCache t \<and> vmCache s = vmCache t"

lemma failure_same: "is_failure e \<Longrightarrow> same_caches s t \<Longrightarrow> same_caches (data_step e s) t"
  by (cases e) (auto simp: is_failure_def data_step_def request_error_def same_caches_def)

lemma replies_same:
  assumes "same_caches s t"
  shows "same_caches (snd (snd (getItem_reply chk d s))) (snd (snd (getItem_reply chk d t)))"
    and "same_caches (snd (getList_reply d s)) (snd (getList_reply d t))"
    and "same_caches (snd (selections_reply it d s)) (snd (selections_reply it d t))"
    and "same_caches (snd (getVm_reply params d s)) (snd (getVm_reply params d t))"
proof -
  note c = assms [unfolded same_caches_def]
  show "same_caches (snd (snd (getItem_reply chk d s))) (snd (snd (getItem_reply chk d t)))"
    using c by (simp add: getItem_reply_def same_caches_def Let_def split: sum.split)
  show "same_caches (snd (getList_reply d s)) (snd (getList_reply d t))"
    using c by (simp add: getList_reply_def same_caches_def Let_def case_prod_beta split: sum.split)
  show "same_caches (snd (selections_reply it d s)) (snd (selections_reply it d t))"
    using c by (simp add: selections_reply_def same_caches_def Let_def split: sum.split option.split)
  show "same_caches (snd (getVm_reply params d s)) (snd (getVm_reply params d t))"
    using c by (simp add: getVm_reply_def same_caches_def split: sum.split)
qed

lemma requests_same:
  assumes "same_caches s t"
  shows "same_caches (snd (doRequest now url rq chk keep s)) (snd (doRequest now url rq chk keep t))"
    and "fst (doRequest now url rq chk keep s) = fst (doRequest now url rq chk keep t)"
    and "same_caches (snd (request_success p d ex s)) (snd (request_success p d ex t))"
proof -
  note c = assms [unfolded same_caches_def]
  have g: "fst (getCachedData now k s) = fst (getCachedData now k t)"
    "same_caches (snd (getCachedData now k s)) (snd (getCachedData now k t))" for k
    using c by (simp_all add: getCachedData_def same_caches_def split: option.split)
  show "same_caches (snd (doRequest now url rq chk keep s)) (snd (doRequest now url rq chk keep t))"
    "fst (doRequest now url rq chk keep s) = fst (doRequest now url rq chk keep t)"
    using assms g by (simp_all add: doRequest_def Let_def case_prod_beta)
  have m: "same_caches (s\<lparr>mtpl := mi\<rparr>) (t\<lparr>mtpl := mi'\<rparr>)" if "same_caches s t" for s t mi mi'
    using that by (simp add: same_caches_def)
  show "same_caches (snd (request_success p d ex s)) (snd (request_success p d ex t))"
  proof (cases "checkForMessages d (mtpl s)")
    case (Inl e)
    then have "checkForMessages d (mtpl t) = Inl e"
      by (auto simp: checkForMessages_def rbind_def split: sum.splits jsval.splits if_splits)
    with Inl c show ?thesis
      by (simp add: request_success_def same_caches_def Let_def split: option.split)
  next
    case (Inr mi)
    then obtain mi' where "checkForMessages d (mtpl t) = Inr mi'"
      by (fastforce simp: checkForMessages_def rbind_def split: sum.splits jsval.splits if_splits)
    with Inr c show ?thesis
      by (simp add: request_success_def same_caches_def Let_def split: option.split)
  qed
qed

lemma step_same:
  assumes "same_caches s t"
  shows "same_caches (data_step e s) (data_step e t)"
  using assms
  by (cases e) (simp_all add: data_step_def replies_same requests_same, simp_all add: same_caches_def
      itemsCache_del_def request_error_def putInCache_def)

lemma run_same:
  "same_caches s t \<Longrightarrow> same_caches (fold data_step es s) (fold data_step (filter (\<lambda>e. \<not> is_failure e) es) t)"
  by (induction es arbitrary: s t) (simp_all add: step_same failure_same)

text \<open>
  C13: Failures leave no trace but their message: whatever requests fail in a session, and whenever,
  the three caches are what they would be without the failures, so is what is served from them, and
  after a failure the message panel shows its text as an error.
\<close>

theorem failures_leave_no_trace:
  "(let s = data_run es; t = data_run (filter (\<lambda>e. \<not> is_failure e) es)
    in requestCache s = requestCache t \<and> itemsCache s = itemsCache t \<and> vmCache s = vmCache t
     \<and> fst (doRequest now url data chk keep s) = fst (doRequest now url data chk keep t)
     \<and> getItem url data s = getItem url data t)
   \<and> mi_showMessage (mtpl (data_run (es @ [Request_Failed d])))
   \<and> mi_messageType (mtpl (data_run (es @ [Request_Failed d]))) = ''error''
   \<and> mi_messageContent (mtpl (data_run (es @ [Request_Failed d]))) = Text d"
proof -
  have "same_caches (data_run es) (data_run (filter (\<lambda>e. \<not> is_failure e) es))"
    unfolding data_run_def by (rule run_same) (simp add: same_caches_def)
  moreover have "getItem url data s = getItem url data t" if "same_caches s t" for s t
    using that by (simp add: same_caches_def getItem_def)
  moreover have "mtpl (data_run (es @ [Request_Failed d])) = Alert ''error'' (Text d) (mtpl (data_run es))"
    by (simp add: data_run_def data_step_def request_error_def)
  ultimately show ?thesis by (simp add: Let_def requests_same(2)) (simp add: same_caches_def)
qed

end
