(* ===== verification/Crypto_Jt.thy ===== *)
theory Crypto_Jt
  imports Crypto_Spa
begin

text \<open>
  The signing module of the theme \<open>ionweb-jt\<close> (its own \<open>cryptopro.js\<close>): one document and one
  certificate per task, and two optional handlers that are told of every change of state and
  of the end of the task.  What the handlers are told is the list of events an operation
  returns; the handlers only observe.
\<close>

section \<open>State\<close>

datatype jt_event =
    State_Changed jsval string
  | Complete jsval string
  | Request_Data jsval
  | Send_Signature jsval jsval
  | Exception jserr

record jt_crypto =
  jt_phase :: phase
  jt_signedObjId :: jsval
  jt_certKey :: string
  jt_completeHandler :: bool
  jt_stateChangeHandler :: bool

type_synonym jt_op = "jt_crypto \<Rightarrow> jt_crypto \<times> jt_event list"

definition jt_CryptoPro :: "bool \<Rightarrow> bool \<Rightarrow> jt_crypto" where
  "jt_CryptoPro completeHandler stateChangeHandler =
     \<lparr>jt_phase = Ready, jt_signedObjId = JNull, jt_certKey = [],
      jt_completeHandler = completeHandler, jt_stateChangeHandler = stateChangeHandler\<rparr>"

primrec phase_text :: "phase \<Rightarrow> string" where
  "phase_text Ready = ''ready''"
| "phase_text Receiving = ''receiving''"
| "phase_text Signing = ''signing''"
| "phase_text Sending = ''sending''"

definition then_do :: "jt_op \<Rightarrow> jt_op \<Rightarrow> jt_op" where
  "then_do f g s = (let (s1, e1) = f s; (s2, e2) = g s1 in (s2, e1 @ e2))"

definition emit :: "jt_event \<Rightarrow> jt_op" where
  "emit e s = (s, [e])"

lemma then_do_simps [simp]:
  "fst (then_do f g s) = fst (g (fst (f s)))"
  "snd (then_do f g s) = snd (f s) @ snd (g (fst (f s)))"
  by (simp_all add: then_do_def split: prod.splits)

lemma emit_simps [simp]: "fst (emit e s) = s" "snd (emit e s) = [e]"
  by (simp_all add: emit_def)

section \<open>Notifications\<close>

definition notifyStateChanged :: "jsval \<Rightarrow> string \<Rightarrow> jt_op" where
  "notifyStateChanged objId text s =
     (s, if jt_stateChangeHandler s then [State_Changed objId text] else [])"

definition notifyComplete :: "jsval \<Rightarrow> string \<Rightarrow> jt_op" where
  "notifyComplete objId errorText s =
     (s, if jt_completeHandler s then [Complete objId errorText] else [])"

definition setState :: "phase \<Rightarrow> jt_op" where
  "setState newState s =
     (if jt_phase s \<noteq> newState
      then notifyStateChanged (jt_signedObjId s) (phase_text newState) (s\<lparr>jt_phase := newState\<rparr>)
      else (s, []))"

definition setReady :: jt_op where
  "setReady s = (s\<lparr>jt_signedObjId := JNull, jt_phase := Ready\<rparr>, [])"

definition jt_fail :: "string \<Rightarrow> jt_op" where
  "jt_fail errorMsg s =
     then_do (notifyStateChanged (jt_signedObjId s) ''fail'')
       (then_do (notifyComplete (jt_signedObjId s) errorMsg) setReady) s"

definition jt_done :: jt_op where
  "jt_done s =
     then_do (notifyStateChanged (jt_signedObjId s) ''success'')
       (then_do (notifyComplete (jt_signedObjId s) []) setReady) s"

section \<open>The task\<close>

definition quoted :: "string \<Rightarrow> string" where
  "quoted t = CHR 0x27 # t @ [CHR 0x27]"

definition jt_makeSign :: "jsval \<Rightarrow> string \<Rightarrow> jt_op" where
  "jt_makeSign objId certKey s =
     (if jt_phase s \<noteq> Ready
      then then_do (notifyStateChanged objId ''not ready'') (notifyComplete objId ''not ready'') s
      else then_do (setState Receiving) (emit (Request_Data objId))
             (s\<lparr>jt_signedObjId := objId, jt_certKey := certKey\<rparr>))"

definition jt_sendSign :: "jsval \<Rightarrow> jt_op" where
  "jt_sendSign sign s = then_do (setState Sending) (emit (Send_Signature (jt_signedObjId s) sign)) s"

definition jt_signFunc :: "string \<Rightarrow> sign_func option" where
  "jt_signFunc contentType =
     (if prefix ''text/plain'' contentType then Some SignCades
      else if prefix ''application/xml'' contentType then Some SignXML else None)"

primrec jt_apply :: "plugin \<Rightarrow> sign_func \<Rightarrow> string \<Rightarrow> cert \<Rightarrow> jsval res" where
  "jt_apply pl SignXML data c = makeXMLSign False pl data c"
| "jt_apply pl SignCades data c = makeCadesBesSign False pl data c"

text \<open>
  The answer with the data.  The store is opened before the \<open>try\<close>, so its exception, like one
  of the signing function, leaves the handler; \<open>None\<close> is a missing \<open>Content-Type\<close> header.
\<close>

definition onReceivingComplete :: "plugin \<Rightarrow> string \<Rightarrow> string \<Rightarrow> string option \<Rightarrow> jt_op" where
  "onReceivingComplete pl data textStatus contentType =
     (if success_status textStatus then
        then_do (setState Signing)
          (case contentType of
             None \<Rightarrow> emit (Exception TypeError)
           | Some ct \<Rightarrow>
               (case jt_signFunc ct of
                  None \<Rightarrow> jt_fail (''Receiving data failed: unknown content type '' @ quoted ct)
                | Some f \<Rightarrow>
                    (case getStore pl of
                       Inl e \<Rightarrow> emit (Exception e)
                     | Inr store \<Rightarrow> (\<lambda>s.
                         (case getCertificate store (jt_certKey s) of
                            None \<Rightarrow> jt_fail (''can'' @ [CHR 0x27] @ ''t get certificate'') s
                          | Some c \<Rightarrow>
                              (case jt_apply pl f data c of
                                 Inl e \<Rightarrow> emit (Exception e) s
                               | Inr sign \<Rightarrow>
                                   if \<not> truthy sign
                                   then jt_fail (''can'' @ [CHR 0x27] @ ''t sign data'') s
                                   else jt_sendSign sign s))))))
      else jt_fail textStatus)"

text \<open>
  The answer to the signature.  The source asks the string \<open>dt\<close>, the answer's type, for its
  property \<open>error\<close>, not the answer: a string has none.
\<close>

definition onSendingComplete :: "jsval \<Rightarrow> string \<Rightarrow> jt_op" where
  "onSendingComplete data textStatus =
     (if textStatus \<noteq> ''success''
      then jt_fail (''Sending signature data failed with status '' @ quoted textStatus)
      else
        (let dt = typeof data
         in if dt \<noteq> ''object''
            then jt_fail (''Sending signature data failed: unknown response data type '' @ quoted dt)
            else (case vget (JStr dt) ''error'' of
                    Inl e \<Rightarrow> emit (Exception e)
                  | Inr err \<Rightarrow>
                      if truthy err
                      then jt_fail (''Sending signature data failed: server returned '' @ quoted (to_str err))
                      else jt_done)))"

section \<open>Lemmas\<close>

definition completions :: "jt_event list \<Rightarrow> (jsval \<times> string) list" where
  "completions evs = concat (map (\<lambda>e. case e of Complete i t \<Rightarrow> [(i, t)] | _ \<Rightarrow> []) evs)"

definition exceptions :: "jt_event list \<Rightarrow> jserr list" where
  "exceptions evs = concat (map (\<lambda>e. case e of Exception x \<Rightarrow> [x] | _ \<Rightarrow> []) evs)"

lemma event_lists [simp]:
  "completions [] = []" "exceptions [] = []"
  "completions (e # es) = (case e of Complete i t \<Rightarrow> [(i, t)] | _ \<Rightarrow> []) @ completions es"
  "exceptions (e # es) = (case e of Exception x \<Rightarrow> [x] | _ \<Rightarrow> []) @ exceptions es"
  "completions (es @ fs) = completions es @ completions fs"
  "exceptions (es @ fs) = exceptions es @ exceptions fs"
  by (simp_all add: completions_def exceptions_def)

lemmas jt_notify_defs = notifyStateChanged_def notifyComplete_def setState_def setReady_def

lemma jt_fail_spec [simp]:
  "fst (jt_fail m s) = s\<lparr>jt_signedObjId := JNull, jt_phase := Ready\<rparr>"
  "completions (snd (jt_fail m s)) = (if jt_completeHandler s then [(jt_signedObjId s, m)] else [])"
  "exceptions (snd (jt_fail m s)) = []"
  by (simp_all add: jt_fail_def jt_notify_defs)

lemma jt_done_spec [simp]:
  "fst (jt_done s) = s\<lparr>jt_signedObjId := JNull, jt_phase := Ready\<rparr>"
  "completions (snd (jt_done s)) = (if jt_completeHandler s then [(jt_signedObjId s, [])] else [])"
  "exceptions (snd (jt_done s)) = []"
  by (simp_all add: jt_done_def jt_notify_defs)

lemma setState_spec [simp]:
  "fst (setState p s) = s\<lparr>jt_phase := p\<rparr>"
  "completions (snd (setState p s)) = []" "exceptions (snd (setState p s)) = []"
  by (simp_all add: jt_notify_defs)

lemma jt_sendSign_spec [simp]:
  "fst (jt_sendSign v s) = s\<lparr>jt_phase := Sending\<rparr>"
  "completions (snd (jt_sendSign v s)) = []" "exceptions (snd (jt_sendSign v s)) = []"
  by (simp_all add: jt_sendSign_def)

interpretation jt_task:
  exclusive_task "\<lambda>s. jt_phase s \<noteq> Ready" "\<lambda>a s. fst (jt_makeSign (fst a) (snd a) s)"
  by unfold_locales (simp_all add: jt_makeSign_def jt_notify_defs)

section \<open>Properties\<close>

text \<open>
  for every task the completion handler is told exactly once, with the task's object, and
  exactly when the module becomes ready again; the only other outcomes of an answer are that
  the signature is being sent, or an exception that leaves the module signing for good.
\<close>

theorem jt_completion_exactly_once:
  assumes "jt_phase s = Receiving" "jt_completeHandler s"
    and "onReceivingComplete pl data st ct s = (s', evs)"
  shows "(jt_phase s' = Ready \<and> jt_signedObjId s' = JNull \<and> exceptions evs = [] \<and>
      (\<exists>m. completions evs = [(jt_signedObjId s, m)])) \<or>
    (jt_phase s' = Sending \<and> jt_signedObjId s' = jt_signedObjId s \<and> completions evs = [] \<and> exceptions evs = [] \<and>
      (\<forall>answer st'. \<exists>m. jt_phase (fst (onSendingComplete answer st' s')) = Ready \<and>
         completions (snd (onSendingComplete answer st' s')) = [(jt_signedObjId s, m)])) \<or>
    (jt_phase s' = Signing \<and> completions evs = [] \<and> exceptions evs \<noteq> [])"
proof -
  have fin: "\<exists>m. jt_phase (fst (onSendingComplete answer st' s1)) = Ready \<and>
      completions (snd (onSendingComplete answer st' s1)) = [(jt_signedObjId s1, m)]"
    if "jt_completeHandler s1" for answer st' s1
    using that by (auto simp: onSendingComplete_def Let_def)
  have e: "s' = fst (onReceivingComplete pl data st ct s)" "evs = snd (onReceivingComplete pl data st ct s)"
    using assms(3) by simp_all
  show ?thesis
  proof (cases "success_status st")
    case False
    with e assms(2) show ?thesis by (simp add: onReceivingComplete_def)
  next
    case True
    with e assms(2) fin [of "s\<lparr>jt_phase := Sending\<rparr>"] show ?thesis
      by (simp add: onReceivingComplete_def split: option.splits sum.splits if_splits)
  qed
qed

theorem jt_completion_exactly_once_witness:
  "completions (snd (onReceivingComplete sample_plugin ''t'' ''error'' None
     (fst (jt_makeSign (JStr ''A.1'') ''AB'' (jt_CryptoPro True True))))) \<noteq> []"
proof -
  let ?s = "fst (jt_makeSign (JStr ''A.1'') ''AB'' (jt_CryptoPro True True))"
  let ?r = "onReceivingComplete sample_plugin ''t'' ''error'' None ?s"
  have h: "jt_phase ?s = Receiving" "jt_completeHandler ?s"
    by (simp_all add: jt_makeSign_def jt_CryptoPro_def)
  from jt_completion_exactly_once [OF h, of sample_plugin "''t''" "''error''" None "fst ?r" "snd ?r"]
  show ?thesis using h by (auto simp: onReceivingComplete_def success_status_def)
qed

text \<open>
  an error that the server reports in its answer to the signature is never noticed: every
  answer that is an object, whatever its property \<open>error\<close>, and even null, ends the task as a
  success.
\<close>

theorem jt_server_error_ignored:
  assumes "typeof answer = ''object''" "jt_completeHandler s"
  shows "completions (snd (onSendingComplete answer ''success'' s)) = [(jt_signedObjId s, [])]"
  using assms by (simp add: onSendingComplete_def)

theorem jt_server_error_ignored_witness:
  "completions (snd (onSendingComplete (JObj [(''error'', JStr ''no rights'')]) ''success''
     (jt_CryptoPro True False))) = [(JNull, [])]"
  using jt_server_error_ignored [of "JObj [(''error'', JStr ''no rights'')]" "jt_CryptoPro True False"]
  by (simp add: jt_CryptoPro_def)

end
