(* ===== verification/Navigation.thy ===== *)
theory Navigation
  imports Mtpl_Info
begin

text \<open>
  The side bar (\<open>ion-ng-sidebar.js\<close>), the top menu and the creation dialog's button
  (\<open>ion-ng-mtpl.js\<close>).  A node of a menu has an id, a caption, a type, a permission to write and
  its nodes; \<open>None\<close> is a node whose property \<open>nodes\<close> is missing, null or no array.
\<close>

section \<open>Menu nodes\<close>

datatype menu_node = MenuNode
  (mn_id: string)
  (mn_caption: string)
  (mn_type: string)
  (mn_writeAcces: bool)
  (mn_nodes: "menu_node list option")

definition checkNodes :: "menu_node list option \<Rightarrow> bool" where
  "checkNodes nodes \<longleftrightarrow> (case nodes of None \<Rightarrow> False | Some ns \<Rightarrow> ns \<noteq> [])"

definition children :: "menu_node \<Rightarrow> menu_node list" where
  "children m = (case mn_nodes m of None \<Rightarrow> [] | Some ns \<Rightarrow> ns)"

lemma checkNodes_children: "checkNodes (mn_nodes m) \<longleftrightarrow> children m \<noteq> []"
  by (simp add: checkNodes_def children_def split: option.splits)

lemma size_children: "x \<in> set (children m) \<Longrightarrow> size x < size m"
proof -
  assume x: "x \<in> set (children m)"
  obtain i c t w ns where m: "m = MenuNode i c t w ns" by (cases m)
  with x obtain xs where ns: "ns = Some xs" "x \<in> set xs" by (auto simp: children_def split: option.splits)
  then have "size x \<le> size_list size xs" by (simp add: size_list_estimation')
  with m ns show ?thesis by simp
qed

section \<open>The depth of a node\<close>

text \<open>
  \<open>calculateDepth\<close> with the variable \<open>result\<close> of the enclosing function: every call assigns it,
  and the calls for the nodes below assign it again, in the order of the menu.
\<close>

function depth_loop :: "nat \<Rightarrow> nat \<Rightarrow> menu_node list \<Rightarrow> nat" where
  "depth_loop counter result [] = result"
| "depth_loop counter result (m # menu) =
     depth_loop counter
       (if checkNodes (mn_nodes m) then depth_loop (counter + 1) (counter + 1) (children m) else result)
       menu"
  by pat_completeness auto
termination
proof (relation "measure (\<lambda>(c, r, ms). size_list size ms)", goal_cases)
  case 1
  show ?case by simp
next
  case (2 counter result m menu)
  obtain i c t w ns where m: "m = MenuNode i c t w ns" by (cases m)
  then have "size_list size (children m) < size m"
    by (cases ns) (auto simp: children_def)
  then show ?case by simp
next
  case (3 counter result m menu)
  show ?case by simp
qed

definition calculateDepth :: "nat \<Rightarrow> menu_node list \<Rightarrow> nat" where
  "calculateDepth counter menu = depth_loop (counter + 1) (counter + 1) menu"

definition getNodeDepth :: "menu_node \<Rightarrow> nat" where
  "getNodeDepth node = (if checkNodes (mn_nodes node) then calculateDepth 0 (children node) else 0)"

definition assignMenuNodeDepth :: "menu_node list \<Rightarrow> (menu_node \<times> nat) list" where
  "assignMenuNodeDepth menu = map (\<lambda>m. (m, getNodeDepth m)) menu"

text \<open>The selects of an entry of the side bar: one for each level.\<close>

definition idx :: "nat \<Rightarrow> string" where
  "idx i = ''['' @ show_nat i @ '']''"

definition first_select :: "string \<Rightarrow> nat \<Rightarrow> nat \<Rightarrow> string" where
  "first_select nid depth index =
     ''<select class=\"ionSelect\" ng-model=\"selection_'' @ nid @ ''[0]\" ng-options=\"node as node.caption for node in sidebar''
     @ idx index @ ''.nodes\" ng-change=\"update(selection_'' @ nid @ '',0,'' @ show_nat depth
     @ '')\"><option value=\"\"></option></select>''"

definition level_select :: "string \<Rightarrow> nat \<Rightarrow> nat \<Rightarrow> string" where
  "level_select nid depth i =
     ''<select class=\"ionSelect\" ng-show=\"selection_'' @ nid @ idx (i - 1) @ ''\" ng-model=\"selection_'' @ nid @ idx i
     @ ''\" ng-options=\"node as node.caption for node in selection_'' @ nid @ idx (i - 1)
     @ ''.nodes\" ng-change=\"update(selection_'' @ nid @ '','' @ show_nat i @ '','' @ show_nat depth @ '')\"></select>''"

definition selection_tags :: "menu_node \<Rightarrow> nat \<Rightarrow> nat \<Rightarrow> string list" where
  "selection_tags m depth index =
     (if depth > 0
      then first_select (mn_id m) depth index # map (level_select (mn_id m) depth) [1..<depth] else [])"

definition prepareSelections :: "menu_node \<Rightarrow> nat \<Rightarrow> nat \<Rightarrow> string" where
  "prepareSelections m depth index = concat (selection_tags m depth index)"

text \<open>The entries of the expanded and of the collapsed side bar, with their Russian captions as bytes.\<close>

definition create_caption :: string where
  "create_caption = map char_of [208::nat, 161, 208, 190, 208, 183, 208, 180, 208, 176, 209, 130, 209, 140]"

definition show_caption :: string where
  "show_caption =
     map char_of [208::nat, 159, 209, 128, 208, 190, 209, 129, 208, 188, 208, 190, 209, 130, 209, 128]"

definition entry_buttons :: "string \<Rightarrow> nat \<Rightarrow> string" where
  "entry_buttons nid depth =
     ''<button class=\"btn half fl create\" ng-disabled=\"createDisabled(selection_'' @ nid @ '','' @ show_nat depth
     @ '')\" ng-click=\"create(selection_'' @ nid @ '','' @ show_nat depth
     @ '')\"><i class='icon icon-small iconfont-add'></i><span class=\"btn-text\">'' @ create_caption
     @ ''</span></button><button class=\"btn half fr show\" ng-click=\"list(selection_'' @ nid @ '','' @ show_nat depth
     @ '')\"><i class='icon icon-small iconfont-watch'></i><span class=\"btn-text\">'' @ show_caption @ ''</span></button>''"

definition expanded_entry :: "nat \<Rightarrow> menu_node \<times> nat \<Rightarrow> string" where
  "expanded_entry i = (\<lambda>(m, depth).
     ''<li class=\"sidebar-node\" ng-model=\"selection_'' @ mn_id m @ ''.parentNode\"  ng-init=\"selection_'' @ mn_id m
     @ ''.parentNode=sidebar'' @ idx i @ ''\"><a class=\"btn nav-btn sub-trigger clearfix\" ng-class=\"{active:currentNode === sidebar''
     @ idx i @ ''.id}\" ng-click=\"chooseNode(sidebar'' @ idx i
     @ '')\"><span class=\"icon icon-small iconfont-info\"></span><span class=\"btn-text\">'' @ mn_caption m
     @ ''</span></a><div class=\"subnav unselectable clearfix\" ng-show=\"currentNode === sidebar'' @ idx i
     @ ''.id\"><div class=\"subnav-content clearfix\">'' @ prepareSelections m depth i @ entry_buttons (mn_id m) depth
     @ ''</div></div></li>'')"

definition collapsed_entry :: "nat \<Rightarrow> menu_node \<times> nat \<Rightarrow> string" where
  "collapsed_entry i = (\<lambda>(m, depth).
     ''<li ion-sidebar-popup><a class=\"icon-btn sub-trigger\" href=\"javascript:void(0)\"><span class=\"icon icon-large iconfont-default iconfont-''
     @ mn_id m
     @ ''\">x</span></a><div class=\"sidebar-submenu\" ng-class=\"{fixed:sidebarFloat === 'true'}\" style=\"z-index: 50;\"><h5 class=\"sidebar-submenu-header\">''
     @ mn_caption m
     @ ''</h5><div class=\"sidebar-submenu-content\"><div class=\"subnav unselectable clearfix\"><div class=\"subnav-content clearfix\">''
     @ prepareSelections m depth i @ entry_buttons (mn_id m) depth @ ''</div></div></div></div></li>'')"

text \<open>Both directives append the entries of a new menu to what they showed before.\<close>

definition sidebar_expanded :: "menu_node list option \<Rightarrow> string \<Rightarrow> string" where
  "sidebar_expanded menu shown =
     shown @ (case menu of None \<Rightarrow> []
       | Some ms \<Rightarrow> concat (map (\<lambda>(i, e). expanded_entry i e) (zip [0..<length ms] (assignMenuNodeDepth ms))))"

definition sidebar_collapsed :: "menu_node list option \<Rightarrow> string \<Rightarrow> string" where
  "sidebar_collapsed menu shown =
     shown @ (case menu of None \<Rightarrow> []
       | Some ms \<Rightarrow> concat (map (\<lambda>(i, e). collapsed_entry i e) (zip [0..<length ms] (assignMenuNodeDepth ms))))"

text \<open>The popup of a collapsed entry: where it is shown beside its icon; the others are hidden.\<close>

definition popup_enter :: "nat \<Rightarrow> (int \<times> int) list \<Rightarrow> (int \<times> int) option list" where
  "popup_enter i positions =
     map (\<lambda>(j, l, t). if j = i then Some (l + 50, t - 15) else None) (zip [0..<length positions] positions)"

section \<open>The side bar's state\<close>

definition toggle :: "string \<Rightarrow> string" where
  "toggle value = (if value = ''false'' then ''true'' else ''false'')"

text \<open>Both also write the cookie of that name, the second component.\<close>

definition changeCollapsed :: "mtpl_info \<Rightarrow> mtpl_info \<times> string" where
  "changeCollapsed mi =
     (let v = toggle (mi_sidebarCollapsed mi) in (mi\<lparr>mi_sidebarCollapsed := v\<rparr>, v))"

definition changeFloat :: "mtpl_info \<Rightarrow> mtpl_info \<times> string \<times> (int \<times> int) option" where
  "changeFloat mi =
     (let v = toggle (mi_sidebarFloat mi)
      in (mi\<lparr>mi_sidebarFloat := v\<rparr>, v,
          if v = ''true'' then Some (mi_maincolSize mi, mi_maincolSize mi - 40 - 64) else None))"

text \<open>The choice of an entry; \<open>selection[node.id]\<close> is an array of nodes by level.\<close>

record selection =
  sel_at :: "nat \<Rightarrow> menu_node option"
  sel_parentNode :: "menu_node option"

record sidebar_scope =
  sb_currentNode :: string
  sb_selection :: "string \<Rightarrow> selection option"

definition chooseNode :: "menu_node \<Rightarrow> sidebar_scope \<Rightarrow> sidebar_scope" where
  "chooseNode node s =
     (if sb_currentNode s = mn_id node then s\<lparr>sb_currentNode := []\<rparr>
      else
        (let sel = (case sb_selection s (mn_id node) of
                      None \<Rightarrow> \<lparr>sel_at = (\<lambda>_. None), sel_parentNode = None\<rparr> | Some x \<Rightarrow> x)
         in s\<lparr>sb_currentNode := mn_id node,
              sb_selection := (sb_selection s)(mn_id node \<mapsto> sel\<lparr>sel_at := (sel_at sel)(0 \<mapsto> node)\<rparr>)\<rparr>))"

fun last_chosen :: "(nat \<Rightarrow> menu_node option) \<Rightarrow> nat \<Rightarrow> menu_node option" where
  "last_chosen at 0 = None"
| "last_chosen at (Suc n) = (case at n of None \<Rightarrow> last_chosen at n | Some m \<Rightarrow> Some m)"

definition getNode :: "selection \<Rightarrow> nat \<Rightarrow> menu_node option" where
  "getNode sel depth =
     (case last_chosen (sel_at sel) depth of None \<Rightarrow> sel_parentNode sel | Some m \<Rightarrow> Some m)"

definition update_selection :: "nat \<Rightarrow> nat \<Rightarrow> selection \<Rightarrow> selection" where
  "update_selection index depth sel =
     sel\<lparr>sel_at := (\<lambda>i. if index < i \<and> i < depth then None else sel_at sel i)\<rparr>"

definition sidebar_list :: "selection \<Rightarrow> nat \<Rightarrow> string res" where
  "sidebar_list sel depth =
     (case getNode sel depth of
        None \<Rightarrow> Inl TypeError
      | Some m \<Rightarrow> Inr (''/list?__node='' @ mn_id m))"

definition createDisabled :: "selection \<Rightarrow> nat \<Rightarrow> bool res" where
  "createDisabled sel depth =
     (case getNode sel depth of
        None \<Rightarrow> Inr True
      | Some m \<Rightarrow>
          if mn_type m = ''CLASS'' then Inr (\<not> mn_writeAcces m)
          else if mn_type m = ''GROUP'' then
            (case mn_nodes m of
               None \<Rightarrow> Inl TypeError
             | Some ns \<Rightarrow> Inr (\<not> list_ex mn_writeAcces ns))
          else Inr True)"

definition sidebar_create :: "selection \<Rightarrow> nat \<Rightarrow> (string \<times> jsobj) option" where
  "sidebar_create sel depth =
     map_option (\<lambda>m. (''spa/creationclasses'', [(''__node'', JStr (mn_id m))])) (getNode sel depth)"

datatype creation = Open_Class_Dialog | Go_To string | Refuse

definition sidebar_create_reply :: "menu_node \<Rightarrow> jsval list \<Rightarrow> mtpl_info \<Rightarrow> creation res \<times> mtpl_info" where
  "sidebar_create_reply node classes mi =
     (let mi1 = mi\<lparr>mi_creationClasses := JArr classes\<rparr>
      in case classes of
           [] \<Rightarrow> (Inr Refuse, Alert ''error'' (Ru No_Creation_Rights) mi1)
         | [c] \<Rightarrow>
             (rbind (vget c ''name'') (\<lambda>n.
                Inr (Go_To (''/create?__node='' @ mn_id node @ ''&__class='' @ to_str n))), mi1)
         | _ \<Rightarrow> (Inr Open_Class_Dialog, mi1))"

section \<open>The top menu\<close>

definition has_submenu :: "menu_node \<Rightarrow> bool" where
  "has_submenu m \<longleftrightarrow> children m \<noteq> []"

definition showNavNodes :: "menu_node \<Rightarrow> string" where
  "showNavNodes m = (if has_submenu m then ''class=\"dropdown-wrapper\"'' else [])"

definition nav_link :: "string \<Rightarrow> menu_node \<Rightarrow> string" where
  "nav_link cls m =
     ''<a class=\"'' @ cls @ ''\" href=\"#/list?__node='' @ mn_id m @ ''\">'' @ mn_caption m @ ''</a>''"

function prepareNavNodes :: "menu_node \<Rightarrow> string" where
  "prepareNavNodes m =
     (if has_submenu m
      then ''<ul>'' @ concat (map (\<lambda>n. ''<li '' @ showNavNodes n @ ''>'' @ nav_link ''overflowed-text'' n
             @ prepareNavNodes n @ ''</li>'') (children m)) @ ''</ul>''
      else [])"
  by pat_completeness auto
termination
  by (relation "measure size") (auto intro: size_children)

declare prepareNavNodes.simps [simp del]

definition nav_entry :: "menu_node \<Rightarrow> string" where
  "nav_entry m =
     ''<li '' @ showNavNodes m @ ''>''
     @ (if has_submenu m
        then ''<a class=\"topnav-link toplink-btn\" ng-class=\"{'' @ [CHR 0x27] @ ''down-arrow'' @ [CHR 0x27]
             @ '': (node.nodes.length > 0)}\">'' @ mn_caption m @ ''</a>''
             @ ''<div class=\"dropdown2 style-default dropdown2-in-header\">'' @ prepareNavNodes m @ ''</div>''
        else nav_link ''topnav-link toplink-btn'' m)
     @ ''</li>''"

definition nav_menu :: "menu_node list \<Rightarrow> string" where
  "nav_menu menu = concat (map nav_entry menu)"

section \<open>The frame of the page\<close>

definition hideMessage :: "mtpl_info \<Rightarrow> mtpl_info" where
  "hideMessage mi = mi\<lparr>mi_showMessage := False\<rparr>"

definition getCollectionParams :: "jsobj \<Rightarrow> string" where
  "getCollectionParams params =
     (if truthy (oget params ''__container'') then ''&__container='' @ to_str (oget params ''__container'') else [])
     @ (if truthy (oget params ''__collection'') then ''&__collection='' @ to_str (oget params ''__collection'') else [])"

definition modalClick :: "string \<Rightarrow> jsobj \<Rightarrow> jsobj \<Rightarrow> jsval \<Rightarrow> string option" where
  "modalClick path search routeParams dialogId =
     (let col = contains ''collection'' path;
          prefix' = (if col then ''/collection'' else []);
          postfix = (if col then getCollectionParams search else [])
      in if dialogId \<noteq> JUndef \<and> oget routeParams ''__node'' \<noteq> JUndef
         then Some (prefix' @ ''/create?__node='' @ to_str (oget routeParams ''__node'')
                    @ ''&__class='' @ to_str dialogId @ postfix)
         else None)"

definition menu_arrives :: "jsval option \<Rightarrow> mtpl_info \<Rightarrow> mtpl_info" where
  "menu_arrives data mi = mi\<lparr>mi_navigation := (case data of None \<Rightarrow> JNull | Some d \<Rightarrow> d)\<rparr>"

definition sidebar_arrives :: "jsval option \<Rightarrow> mtpl_info \<Rightarrow> mtpl_info" where
  "sidebar_arrives data mi = mi\<lparr>mi_sidebarNavigation := (case data of None \<Rightarrow> JNull | Some d \<Rightarrow> d)\<rparr>"

section \<open>Lemmas\<close>

text \<open>The depth along the last branch, and the depth of the tree.\<close>

function last_branch :: "menu_node \<Rightarrow> nat" where
  "last_branch m =
     (if children m = [] then 0
      else case filter (\<lambda>c. children c \<noteq> []) (children m) of
             [] \<Rightarrow> 1
           | cs \<Rightarrow> 1 + last_branch (last cs))"
  by pat_completeness auto
termination
proof (relation "measure size", goal_cases)
  case (2 m c cs)
  then have "last (c # cs) \<in> set (filter (\<lambda>c. children c \<noteq> []) (children m))"
    by (metis last_in_set list.discI)
  then show ?case by (simp add: size_children)
qed simp

declare last_branch.simps [simp del]

function tree_depth :: "menu_node \<Rightarrow> nat" where
  "tree_depth m = (if children m = [] then 0 else 1 + Max (set (map tree_depth (children m))))"
  by pat_completeness auto
termination
  by (relation "measure size") (auto intro: size_children)

declare tree_depth.simps [simp del]

lemma depth_loop_last:
  "depth_loop c r menu =
     (case filter (\<lambda>m. children m \<noteq> []) menu of
        [] \<Rightarrow> r | ms \<Rightarrow> depth_loop (c + 1) (c + 1) (children (last ms)))"
proof (induction menu arbitrary: r)
  case Nil
  then show ?case by simp
next
  case (Cons m menu)
  show ?case
  proof (cases "filter (\<lambda>m. children m \<noteq> []) menu")
    case Nil
    with Cons.IH show ?thesis by (simp add: checkNodes_children)
  next
    case (Cons x xs)
    with Cons.IH show ?thesis by (simp add: checkNodes_children)
  qed
qed

lemma depth_loop_branch:
  "children m \<noteq> [] \<Longrightarrow> depth_loop (c + 1) (c + 1) (children m) = c + last_branch m"
proof (induction m arbitrary: c rule: last_branch.induct)
  case (1 m)
  show ?case
  proof (cases "filter (\<lambda>m. children m \<noteq> []) (children m)")
    case Nil
    with 1 show ?thesis by (subst depth_loop_last, subst last_branch.simps) simp
  next
    case (Cons x xs)
    then have "children (last (x # xs)) \<noteq> []"
      using last_in_set [of "x # xs"] by (metis (mono_tags) list.discI mem_Collect_eq set_filter)
    with "1.IH" [OF "1.prems" Cons this, of "c + 1"] Cons "1.prems" show ?thesis
      by (subst depth_loop_last, subst last_branch.simps) simp
  qed
qed

lemma getNodeDepth_last_branch: "getNodeDepth m = last_branch m"
  by (cases "children m = []")
    (use depth_loop_branch [of m 0] in
      \<open>simp_all add: getNodeDepth_def calculateDepth_def checkNodes_children last_branch.simps [of m]\<close>)

lemma last_branch_le: "last_branch m \<le> tree_depth m"
proof (induction m rule: last_branch.induct)
  case (1 m)
  show ?case
  proof (cases "filter (\<lambda>m. children m \<noteq> []) (children m)")
    case Nil
    then show ?thesis by (subst last_branch.simps, subst tree_depth.simps) simp
  next
    case (Cons x xs)
    then have mem: "last (x # xs) \<in> set (children m)"
      using last_in_set [of "x # xs"] by (metis (mono_tags) list.discI mem_Collect_eq set_filter)
    then have ne: "children m \<noteq> []" by auto
    from "1.IH" [OF ne Cons] have "last_branch (last (x # xs)) \<le> tree_depth (last (x # xs))" .
    also have "\<dots> \<le> Max (set (map tree_depth (children m)))" using mem by (intro Max_ge) auto
    finally show ?thesis using Cons ne by (subst last_branch.simps, subst tree_depth.simps) simp
  qed
qed

lemma last_chosen_Some:
  "last_chosen at n = Some m \<Longrightarrow> \<exists>i < n. at i = Some m \<and> (\<forall>j. i < j \<and> j < n \<longrightarrow> at j = None)"
proof (induction n)
  case (Suc n)
  show ?case
  proof (cases "at n")
    case None
    with Suc obtain i where "i < n" "at i = Some m" "\<forall>j. i < j \<and> j < n \<longrightarrow> at j = None" by auto
    with None show ?thesis by (metis less_Suc_eq)
  next
    case (Some x)
    with Suc.prems show ?thesis by (intro exI [of _ n]) auto
  qed
qed simp

lemma last_chosen_at:
  "i < n \<Longrightarrow> at i = Some m \<Longrightarrow> (\<And>j. i < j \<Longrightarrow> j < n \<Longrightarrow> at j = None) \<Longrightarrow> last_chosen at n = Some m"
proof (induction n)
  case (Suc n)
  show ?case
  proof (cases "i = n")
    case True
    with Suc.prems show ?thesis by simp
  next
    case False
    with Suc show ?thesis by simp
  qed
qed simp

text \<open>A node below another one in a menu.\<close>

inductive below :: "menu_node \<Rightarrow> menu_node \<Rightarrow> bool" where
  child: "n \<in> set (children m) \<Longrightarrow> below n m"
| deeper: "below n c \<Longrightarrow> c \<in> set (children m) \<Longrightarrow> below n m"

lemma sublist_middle: "sublist s t \<Longrightarrow> sublist s (a @ t @ b)"
  by (metis sublist_appendI sublist_order.order_trans)

lemma sublist_concat_map: "x \<in> set xs \<Longrightarrow> sublist s (f x) \<Longrightarrow> sublist s (concat (map f xs))"
proof (induction xs)
  case (Cons a xs)
  then show ?case
    using sublist_middle [of s "f a" "[]"] sublist_middle [of s _ "f a" "[]"] by auto
qed simp

definition nav_item :: "menu_node \<Rightarrow> string" where
  "nav_item n = ''<li '' @ showNavNodes n @ ''>'' @ nav_link ''overflowed-text'' n @ prepareNavNodes n @ ''</li>''"

lemma prepareNavNodes_items:
  "children m \<noteq> [] \<Longrightarrow> prepareNavNodes m = ''<ul>'' @ concat (map nav_item (children m)) @ ''</ul>''"
  unfolding nav_item_def by (subst prepareNavNodes.simps) (simp only: has_submenu_def not_False_eq_True if_True)

lemma nav_item_parts:
  "sublist (nav_link ''overflowed-text'' n) (nav_item n)" "sublist (prepareNavNodes n) (nav_item n)"
  unfolding nav_item_def by (metis append_assoc sublist_appendI)+

lemma nav_nodes_item: "c \<in> set (children m) \<Longrightarrow> sublist s (nav_item c) \<Longrightarrow> sublist s (prepareNavNodes m)"
proof -
  assume c: "c \<in> set (children m)" "sublist s (nav_item c)"
  then have ne: "children m \<noteq> []" by auto
  show ?thesis unfolding prepareNavNodes_items [OF ne]
    by (rule sublist_middle [OF sublist_concat_map [where f = nav_item, OF c]])
qed

lemma nav_nodes_link: "below n m \<Longrightarrow> sublist (nav_link ''overflowed-text'' n) (prepareNavNodes m)"
proof (induction rule: below.induct)
  case (child n m)
  then show ?case by (rule nav_nodes_item) (rule nav_item_parts)
next
  case (deeper n c m)
  then show ?case using nav_nodes_item nav_item_parts(2) sublist_order.order_trans by blast
qed

lemma nav_entry_submenu: "children m \<noteq> [] \<Longrightarrow> sublist (prepareNavNodes m) (nav_entry m)"
  using sublist_appendI [of "prepareNavNodes m" "''<li '' @ showNavNodes m @ ''>''
      @ ''<a class=\"topnav-link toplink-btn\" ng-class=\"{'' @ [CHR 0x27] @ ''down-arrow'' @ [CHR 0x27]
      @ '': (node.nodes.length > 0)}\">'' @ mn_caption m @ ''</a>''
      @ ''<div class=\"dropdown2 style-default dropdown2-in-header\">''" "''</div>'' @ ''</li>''"]
  by (simp add: nav_entry_def has_submenu_def)

lemma nav_entry_leaf: "children m = [] \<Longrightarrow> sublist (nav_link ''topnav-link toplink-btn'' m) (nav_entry m)"
  using sublist_appendI [of "nav_link ''topnav-link toplink-btn'' m" "''<li '' @ showNavNodes m @ ''>''" "''</li>''"]
  by (simp add: nav_entry_def has_submenu_def)

section \<open>Properties\<close>

text \<open>
  the depth computed for a side bar entry is that of its last branch: what an earlier,
  deeper branch assigned is overwritten.  It never exceeds the depth of the tree, but the
  levels beyond it get no select, so their nodes cannot be chosen.
\<close>

theorem depth_is_last_branch:
  "getNodeDepth m = last_branch m \<and> getNodeDepth m \<le> tree_depth m \<and>
   length (selection_tags m (getNodeDepth m) index) = last_branch m"
  using last_branch_le [of m] by (simp add: getNodeDepth_last_branch selection_tags_def)

text \<open>
  there is a menu in which a node two levels down gets no select, because a later sibling
  of its parent is shallower.
\<close>

theorem deep_branch_unreachable:
  "\<exists>m n. below n m \<and> getNodeDepth m < tree_depth m \<and> tree_depth m = 3"
proof -
  let ?leaf = "\<lambda>i. MenuNode i i ''CLASS'' True (Some [])"
  let ?deep = "MenuNode ''d'' ''d'' ''GROUP'' True (Some [MenuNode ''e'' ''e'' ''GROUP'' True (Some [?leaf ''x''])])"
  let ?flat = "MenuNode ''f'' ''f'' ''GROUP'' True (Some [?leaf ''y''])"
  let ?m = "MenuNode ''m'' ''m'' ''GROUP'' True (Some [?deep, ?flat])"
  have "tree_depth ?m = 3" by (simp add: tree_depth.simps children_def)
  moreover have "getNodeDepth ?m = 2"
    by (simp add: getNodeDepth_def calculateDepth_def checkNodes_def children_def)
  moreover have "below ?deep ?m" by (rule below.child) (simp add: children_def)
  ultimately show ?thesis by (intro exI [of _ ?m] exI [of _ ?deep]) simp
qed

text \<open>
  the buttons of a side bar entry act on the deepest level chosen: after a choice on a
  level all deeper levels are empty, and the list that is opened and the object that is
  created are those of the chosen node, or of the entry itself when nothing is chosen.
\<close>

theorem choice_selects_node:
  assumes "i < depth" "sel_at sel i = Some m"
  shows "getNode (update_selection i depth sel) depth = Some m \<and>
    sidebar_list (update_selection i depth sel) depth = Inr (''/list?__node='' @ mn_id m) \<and>
    (\<forall>j. i < j \<and> j < depth \<longrightarrow> sel_at (update_selection i depth sel) j = None) \<and>
    getNode (sel\<lparr>sel_at := (\<lambda>_. None)\<rparr>) depth = sel_parentNode sel"
proof -
  have "last_chosen (sel_at (update_selection i depth sel)) depth = Some m"
    using assms by (intro last_chosen_at [of i]) (auto simp: update_selection_def)
  moreover have "last_chosen (\<lambda>_. None) depth = None" by (induction depth) auto
  ultimately show ?thesis by (simp add: getNode_def sidebar_list_def update_selection_def)
qed

theorem choice_selects_node_witness:
  "sidebar_list (update_selection 0 2 \<lparr>sel_at = (\<lambda>_. Some (MenuNode ''a'' ''A'' ''CLASS'' True None)), sel_parentNode = None\<rparr>) 2
     = Inr ''/list?__node=a''"
  using choice_selects_node [of 0 2 "\<lparr>sel_at = (\<lambda>_. Some (MenuNode ''a'' ''A'' ''CLASS'' True None)), sel_parentNode = None\<rparr>"]
  by simp

text \<open>
  every node below an entry of the top menu has its link to its list in the menu, however
  deep it lies, and so has every entry without a submenu.
\<close>

theorem nav_menu_links_every_node:
  assumes "m \<in> set menu"
  shows "(\<forall>n. below n m \<longrightarrow> sublist (nav_link ''overflowed-text'' n) (nav_menu menu)) \<and>
    (children m = [] \<longrightarrow> sublist (nav_link ''topnav-link toplink-btn'' m) (nav_menu menu))"
proof -
  have up: "sublist s (nav_entry m) \<Longrightarrow> sublist s (nav_menu menu)" for s
    unfolding nav_menu_def by (rule sublist_concat_map [OF assms])
  have "sublist (nav_link ''overflowed-text'' n) (nav_entry m)" if b: "below n m" for n
  proof -
    have "children m \<noteq> []" using b by (cases rule: below.cases) auto
    then have "sublist (prepareNavNodes m) (nav_entry m)"
      by (intro nav_entry_submenu)
    with nav_nodes_link [OF b] show ?thesis by (rule sublist_order.order_trans)
  qed
  moreover have "sublist (nav_link ''topnav-link toplink-btn'' m) (nav_entry m)" if "children m = []"
    using that by (rule nav_entry_leaf)
  ultimately show ?thesis using up by blast
qed

theorem nav_menu_links_every_node_witness:
  "sublist (nav_link ''overflowed-text'' (MenuNode ''b'' ''B'' ''CLASS'' True None))
     (nav_menu [MenuNode ''a'' ''A'' ''GROUP'' True (Some [MenuNode ''b'' ''B'' ''CLASS'' True None])])"
proof -
  let ?b = "MenuNode ''b'' ''B'' ''CLASS'' True None"
  let ?a = "MenuNode ''a'' ''A'' ''GROUP'' True (Some [?b])"
  have "below ?b ?a" by (rule below.child) (simp add: children_def)
  with nav_menu_links_every_node [of ?a "[?a]"] show ?thesis by simp
qed

text \<open>
  the state of the side bar survives a reload: the cookie that collapsing or expanding it
  writes makes the next page start with the same state, whatever it was before.
\<close>

theorem collapsed_survives_reload:
  "mi_sidebarCollapsed (mtplInfoFactory (Some (snd (changeCollapsed mi))) f h a b) =
     mi_sidebarCollapsed (fst (changeCollapsed mi)) \<and>
   mi_sidebarFloat (mtplInfoFactory c (Some (fst (snd (changeFloat mi)))) h a b) =
     mi_sidebarFloat (fst (changeFloat mi)) \<and>
   snd (changeCollapsed (fst (changeCollapsed mi))) \<noteq> snd (changeCollapsed mi)"
  by (simp add: mtplInfoFactory_def changeCollapsed_def changeFloat_def toggle_def Let_def)

end
