(* ===== verification/Search_Page.thy ===== *)
theory Search_Page
  imports Data_Cache
begin

text \<open>
  The full text search: the search field of the frame (\<open>performSearch\<close> of \<open>ion-ng-mtpl.js\<close>)
  and the page of results (\<open>searchController\<close> of \<open>ion-ng-search.js\<close>).  \<open>encodeURIComponent\<close>
  works on the bytes of the text's UTF-8 form, which is what a string is here.
\<close>

section \<open>Escaping a text in a location\<close>

definition uri_plain :: "char \<Rightarrow> bool" where
  "uri_plain c \<longleftrightarrow>
     (let n = (of_char c :: nat)
      in (97 \<le> n \<and> n \<le> 122) \<or> (65 \<le> n \<and> n \<le> 90) \<or> (48 \<le> n \<and> n \<le> 57)
         \<or> n \<in> {45, 95, 46, 33, 126, 42, 39, 40, 41})"

definition hex_digit :: "nat \<Rightarrow> char" where
  "hex_digit d = (if d < 10 then char_of (48 + d) else char_of (55 + d))"

definition hex_value :: "char \<Rightarrow> nat" where
  "hex_value c = (let n = (of_char c :: nat) in if n < 58 then n - 48 else n - 55)"

definition encodeURIComponent :: "string \<Rightarrow> string" where
  "encodeURIComponent s =
     concat (map (\<lambda>c. if uri_plain c then [c]
       else [CHR ''%'', hex_digit (of_char c div 16), hex_digit (of_char c mod 16)]) s)"

text \<open>How a location is read back.\<close>

fun decodeURIComponent :: "string \<Rightarrow> string" where
  "decodeURIComponent (CHR ''%'' # a # b # s) =
     char_of (hex_value a * 16 + hex_value b) # decodeURIComponent s"
| "decodeURIComponent (c # s) = c # decodeURIComponent s"
| "decodeURIComponent [] = []"

definition performSearch :: "string \<Rightarrow> string" where
  "performSearch searchPattern = ''/search?pattern='' @ encodeURIComponent searchPattern"

section \<open>The page of results\<close>

record search_scope =
  ss_results :: "jsval list option"
  ss_page :: jsval

definition init_search_scope :: search_scope where
  "init_search_scope = \<lparr>ss_results = None, ss_page = JNum 1\<rparr>"

definition resultUrl :: "string \<Rightarrow> string \<Rightarrow> string \<Rightarrow> string" where
  "resultUrl node classname i = ''#/item?__node='' @ node @ ''&__id='' @ classname @ '':'' @ i"

definition canOpenNextPage :: "search_scope \<Rightarrow> bool" where
  "canOpenNextPage s \<longleftrightarrow> (case ss_results s of None \<Rightarrow> False | Some rs \<Rightarrow> length rs = 20)"

definition canOpenPrevPage :: "search_scope \<Rightarrow> bool" where
  "canOpenPrevPage s \<longleftrightarrow> (case to_num (ss_page s) of None \<Rightarrow> False | Some n \<Rightarrow> n > 1)"

text \<open>\<open>page + 1\<close> and \<open>page - 1\<close>: a text is joined by the first, a number by the second.\<close>

definition plus_one :: "jsval \<Rightarrow> jsval" where
  "plus_one v =
     (if typeof v \<in> {''string'', ''object''} \<and> v \<noteq> JNull then JStr (to_str v @ ''1'')
      else case to_num v of None \<Rightarrow> JNaN | Some n \<Rightarrow> JNum (n + 1))"

definition minus_one :: "jsval \<Rightarrow> jsval" where
  "minus_one v = (case to_num v of None \<Rightarrow> JNaN | Some n \<Rightarrow> JNum (n - 1))"

definition nextPage :: "search_scope \<Rightarrow> jsobj \<Rightarrow> jsobj" where
  "nextPage s search = oset search ''__page'' (plus_one (ss_page s))"

definition prevPage :: "search_scope \<Rightarrow> jsobj \<Rightarrow> jsobj" where
  "prevPage s search = oset search ''__page'' (minus_one (ss_page s))"

text \<open>
  The watcher of the location.  It looks for the parameter \<open>page\<close>, while the page that is
  requested and shown is that of \<open>__page\<close>.
\<close>

definition search_watch ::
  "string \<Rightarrow> jsobj \<Rightarrow> search_scope \<Rightarrow> (string \<times> jsobj) option \<times> search_scope" where
  "search_watch path search s =
     (if path = ''/search'' \<and> oget search ''pattern'' \<noteq> JUndef then
        (if truthy (oget search ''page'')
         then (Some (''spa/search'', [(''pattern'', oget search ''pattern''), (''__page'', oget search ''__page'')]),
               s\<lparr>ss_page := oget search ''__page''\<rparr>)
         else (Some (''spa/search'', [(''pattern'', oget search ''pattern'')]), s\<lparr>ss_page := JNum 1\<rparr>))
      else (None, s))"

definition results_arrive :: "jsval list \<Rightarrow> search_scope \<Rightarrow> search_scope" where
  "results_arrive rs s = s\<lparr>ss_results := Some rs\<rparr>"

section \<open>Lemmas\<close>

lemma hex_roundtrip: "d < 16 \<Longrightarrow> hex_value (hex_digit d) = d"
  by (simp add: hex_digit_def hex_value_def Let_def of_char_of)

lemma uri_plain_not_percent: "uri_plain c \<Longrightarrow> c \<noteq> CHR ''%''"
  by (auto simp: uri_plain_def)

lemma decode_plain: "c \<noteq> CHR ''%'' \<Longrightarrow> decodeURIComponent (c # s) = c # decodeURIComponent s"
  by (cases "(c # s)" rule: decodeURIComponent.cases) auto

lemma char_nibbles: "char_of ((of_char c div 16) * 16 + of_char c mod 16 :: nat) = (c :: char)"
  by simp

lemma nibble: "(of_char (c :: char) :: nat) div 16 < 16"
  using nat_of_char_less_256 [of c] by (intro less_mult_imp_div_less) simp

section \<open>Properties\<close>

text \<open>
  C38: whatever text is searched for, reading it back from the location gives that text, and
  the location has no character of it that would end the parameter.
\<close>

theorem search_pattern_roundtrip:
  "\<exists>q. performSearch p = ''/search?pattern='' @ q \<and> decodeURIComponent q = p \<and>
     CHR ''&'' \<notin> set q \<and> CHR ''#'' \<notin> set q \<and> CHR ''='' \<notin> set q"
proof (intro exI conjI)
  show "performSearch p = ''/search?pattern='' @ encodeURIComponent p"
    by (simp add: performSearch_def)
  show "decodeURIComponent (encodeURIComponent p) = p"
  proof (induction p)
    case Nil
    then show ?case by (simp add: encodeURIComponent_def)
  next
    case (Cons c p)
    from Cons nibble [of c] show ?case
      by (simp add: encodeURIComponent_def decode_plain uri_plain_not_percent hex_roundtrip char_nibbles
          del: div_mult_mod_eq)
  qed
  have safe: "x \<in> set (encodeURIComponent p) \<Longrightarrow> uri_plain x \<or> x = CHR ''%''" for x
  proof -
    have h: "d < 16 \<Longrightarrow> uri_plain (hex_digit d)" for d
      by (auto simp: uri_plain_def hex_digit_def Let_def of_char_of)
    from nibble show "x \<in> set (encodeURIComponent p) \<Longrightarrow> uri_plain x \<or> x = CHR ''%''"
      by (auto simp: encodeURIComponent_def h split: if_splits)
  qed
  show "CHR ''&'' \<notin> set (encodeURIComponent p)" "CHR ''#'' \<notin> set (encodeURIComponent p)"
    "CHR ''='' \<notin> set (encodeURIComponent p)"
    using safe [of "CHR ''&''"] safe [of "CHR ''#''"] safe [of "CHR ''=''"]
    by (auto simp: uri_plain_def)
qed

text \<open>
  the result pages cannot be turned: after "next page" the watcher requests the same first
  page again and the page shown stays the first, however often the button is pressed, and the
  button back is never available.
\<close>

theorem search_stays_on_first_page:
  assumes "oget search ''page'' = JUndef" "oget search ''pattern'' \<noteq> JUndef"
  shows "search_watch ''/search'' ((nextPage s ^^ n) search) s' =
      (Some (''spa/search'', [(''pattern'', oget search ''pattern'')]), s'\<lparr>ss_page := JNum 1\<rparr>) \<and>
    \<not> canOpenPrevPage (snd (search_watch ''/search'' ((nextPage s ^^ n) search) s'))"
proof -
  have "oget ((nextPage s ^^ n) search) k = oget search k" if "k \<noteq> ''__page''" for k
    using that by (induction n) (auto simp: nextPage_def)
  with assms have "search_watch ''/search'' ((nextPage s ^^ n) search) s' =
      (Some (''spa/search'', [(''pattern'', oget search ''pattern'')]), s'\<lparr>ss_page := JNum 1\<rparr>)"
    by (simp add: search_watch_def)
  moreover have "js_parseInt (JNum 1) = Some 1" by (simp add: js_parseInt_def)
  ultimately show ?thesis by (simp add: canOpenPrevPage_def)
qed

theorem search_stays_on_first_page_witness:
  "fst (search_watch ''/search'' (nextPage init_search_scope [(''pattern'', JStr ''a'')]) init_search_scope) =
     Some (''spa/search'', [(''pattern'', JStr ''a'')])"
  using search_stays_on_first_page [where n = 1 and s = init_search_scope and s' = init_search_scope
      and search = "[(''pattern'', JStr ''a'')]"] by simp

end
