(* ===== verification/Shell.thy ===== *)
theory Shell
  imports Mtpl_Info
begin

text \<open>
  The frame of the application in \<open>ion-ng.js\<close>: the routes, the splitter between list and
  details, the paginator, the sizes after a resize, the date format of the pickers and the
  in-place editor.
\<close>

section \<open>Routes\<close>

record route_entry =
  re_path :: string
  re_template :: string
  re_controller :: "string option"

definition routes :: "route_entry list" where
  "routes =
     [\<lparr>re_path = ''/list'', re_template = ''theme/partials/list.html'', re_controller = None\<rparr>,
      \<lparr>re_path = ''/collection/create'', re_template = ''theme/partials/create.html'',
       re_controller = Some ''colCreateController''\<rparr>,
      \<lparr>re_path = ''/collection/item'', re_template = ''theme/partials/create.html'',
       re_controller = Some ''editController''\<rparr>,
      \<lparr>re_path = ''/collection'', re_template = ''theme/partials/collection.html'', re_controller = None\<rparr>,
      \<lparr>re_path = ''/create'', re_template = ''theme/partials/create.html'',
       re_controller = Some ''createController''\<rparr>,
      \<lparr>re_path = ''/item'', re_template = ''theme/partials/create.html'',
       re_controller = Some ''editController''\<rparr>,
      \<lparr>re_path = ''/search'', re_template = ''theme/partials/search.html'',
       re_controller = Some ''searchController''\<rparr>]"

definition route_to :: "string \<Rightarrow> route_entry option" where
  "route_to path = find (\<lambda>r. re_path r = path) routes"

text \<open>\<open>None\<close> redirects to the root.\<close>

section \<open>The splitter\<close>

text \<open>\<open>parseInt(x * 100 / width)\<close>; a width of zero gives no number.\<close>

definition trunc_div :: "int \<Rightarrow> int \<Rightarrow> int" where
  "trunc_div a b = (if (0 \<le> a) = (0 \<le> b) then \<bar>a\<bar> div \<bar>b\<bar> else - (\<bar>a\<bar> div \<bar>b\<bar>))"

definition dragSplitter :: "int \<Rightarrow> int \<Rightarrow> int \<Rightarrow> (int \<times> int) option" where
  "dragSplitter pageX left width =
     (if width = 0 then None
      else
        (let percent = trunc_div ((pageX - left) * 100) width;
             p1 = (if percent < 15 then 15 else percent);
             p2 = (if p1 > 85 then 85 else p1)
         in Some (p2, 100 - p2)))"

section \<open>The paginator\<close>

text \<open>A number \<open>None\<close> is NaN, from a page or a number of pages that is no number.\<close>

definition num_text :: "int option \<Rightarrow> string" where
  "num_text n = (case n of None \<Rightarrow> ''NaN'' | Some i \<Rightarrow> show_int i)"

datatype page_link = Back_Link "int option" | Current_Page "int option" | Page_Link int | Forward_Link "int option"

definition page_links :: "int option \<Rightarrow> int option \<Rightarrow> page_link list" where
  "page_links curPage pagesCount =
     (if curPage \<noteq> Some 1 then [Back_Link (map_option (\<lambda>p. p - 1) curPage)] else [])
     @ (case pagesCount of
          None \<Rightarrow> []
        | Some n \<Rightarrow> map (\<lambda>i. if Some i = curPage then Current_Page curPage else Page_Link i) [1..n])
     @ (if curPage = None \<or> curPage \<noteq> pagesCount
        then [Forward_Link (map_option (\<lambda>p. p + 1) curPage)] else [])"

text \<open>The texts of the links back and forward are in Russian, as their UTF-8 bytes.\<close>

definition back_text :: string where
  "back_text = ''&lt;&lt; '' @ map char_of [208::nat, 157, 208, 176, 208, 183, 208, 176, 208, 180]"

definition forward_text :: string where
  "forward_text = map char_of [208::nat, 148, 208, 176, 208, 187, 208, 181, 208, 181] @ '' &gt;&gt;''"

definition q :: string where "q = [CHR 0x27]"

definition page_anchor :: "int option \<Rightarrow> string" where
  "page_anchor n = ''<a href='' @ q @ q @ '' ng-click='' @ q @ ''pageClick('' @ num_text n @ '')'' @ q"

fun link_html :: "page_link \<Rightarrow> string" where
  "link_html (Back_Link n) =
     page_anchor n @ '' class='' @ q @ ''icon icon-previous'' @ q @ ''><span>'' @ back_text @ ''</span></a>''"
| "link_html (Current_Page n) = ''<b> '' @ num_text n @ '' </b>''"
| "link_html (Page_Link i) = page_anchor (Some i) @ q @ ''> '' @ show_int i @ '' </a>''"
| "link_html (Forward_Link n) =
     page_anchor n @ '' class='' @ q @ ''icon icon-next'' @ q @ ''><span>'' @ forward_text @ ''</span></a>''"

definition prepareTemplate :: "jsval \<Rightarrow> jsval \<Rightarrow> string" where
  "prepareTemplate page totalPages =
     ''<div class='' @ q @ ''pagination ajax fr'' @ q @ ''>''
     @ concat (map link_html (page_links (js_parseInt page) (js_parseInt totalPages))) @ ''</div>''"

definition paginator_click :: "int \<Rightarrow> jsobj \<Rightarrow> jsobj" where
  "paginator_click pageNum search = oset search ''__page'' (JNum pageNum)"

section \<open>Sizes\<close>

text \<open>
  The watcher of the window's size: the heights of the side bar and its content when it floats,
  and the margin of the main column.
\<close>

definition window_resized ::
  "int \<Rightarrow> int \<Rightarrow> int \<Rightarrow> mtpl_info \<Rightarrow> mtpl_info \<times> (int \<times> int) option \<times> int" where
  "window_resized window header footer mi =
     (let sidebarResult = window - header - footer;
          contentResult = window - header - footer - 40 - 64
      in (mi\<lparr>mi_maincolSize := sidebarResult\<rparr>,
          if mi_sidebarFloat mi = ''true'' then Some (sidebarResult, contentResult) else None,
          header))"

section \<open>The date format\<close>

text \<open>\<open>/D{2,3}/g\<close>: a run of three, or else of two.\<close>

function replace_D23 :: "string \<Rightarrow> string" where
  "replace_D23 s =
     (if s = [] then []
      else if prefix ''DDD'' s then ''oo'' @ replace_D23 (drop 3 s)
      else if prefix ''DD'' s then ''oo'' @ replace_D23 (drop 2 s)
      else hd s # replace_D23 (tl s))"
  by pat_completeness auto
termination
  by (relation "measure length") auto

declare replace_D23.simps [simp del]

definition prepareDateFormat :: "string \<Rightarrow> string" where
  "prepareDateFormat format =
     (let f1 = replace_all ''yy'' ''y'' format;
          f2 = replace_all ''MMMM'' ''MM'' f1;
          f3 = replace_all ''MMM'' ''M'' f2;
          f4 = replace_all ''M'' ''m'' f3
      in replace_all ''D'' ''o'' (replace_D23 f4))"

record date_options =
  do_changeYear :: bool
  do_changeMonth :: bool
  do_yearRange :: string
  do_dateFormat :: string

definition getDateOptions :: "string \<Rightarrow> date_options" where
  "getDateOptions format =
     \<lparr>do_changeYear = True, do_changeMonth = True, do_yearRange = ''1900:2100'',
      do_dateFormat = prepareDateFormat format\<rparr>"

section \<open>The in-place editor\<close>

record inplace_editor =
  ie_itm :: jsval
  ie_fld :: jsval

definition ionInplaceEditorFactory :: inplace_editor where
  "ionInplaceEditorFactory = \<lparr>ie_itm = JNull, ie_fld = JNull\<rparr>"

definition editor_is :: "jsval \<Rightarrow> jsval \<Rightarrow> inplace_editor \<Rightarrow> bool" where
  "editor_is item field e \<longleftrightarrow> ie_itm e = item \<and> ie_fld e = field"

definition editor_set :: "jsval \<Rightarrow> jsval \<Rightarrow> inplace_editor \<Rightarrow> inplace_editor" where
  "editor_set item field e = e\<lparr>ie_itm := item, ie_fld := field\<rparr>"

definition editor_remove :: "inplace_editor \<Rightarrow> inplace_editor" where
  "editor_remove e = e\<lparr>ie_itm := JNull, ie_fld := JNull\<rparr>"

section \<open>Lemmas\<close>

lemma set_replace_D23: "set (replace_D23 s) \<subseteq> insert (CHR ''o'') (set s)"
proof (induction s rule: replace_D23.induct)
  case (1 s)
  consider "s = []" | "s \<noteq> []" "prefix ''DDD'' s" | "s \<noteq> []" "\<not> prefix ''DDD'' s" "prefix ''DD'' s"
    | c t where "s = c # t" "\<not> prefix ''DDD'' s" "\<not> prefix ''DD'' s"
    by (cases s) blast+
  then show ?case
  proof cases
    case 1
    then show ?thesis by (simp add: replace_D23.simps)
  next
    case 2
    with "1.IH"(1) set_drop_subset [of 3 s] show ?thesis by (subst replace_D23.simps) auto
  next
    case 3
    with "1.IH"(2) set_drop_subset [of 2 s] show ?thesis by (subst replace_D23.simps) auto
  next
    case (4 c t)
    with "1.IH"(3) show ?thesis by (subst replace_D23.simps) auto
  qed
qed

lemma replace_single_gone: "x \<notin> set r \<Longrightarrow> x \<notin> set (replace_all [x] r s)"
  by (auto simp: replace_all_single split: if_splits)

section \<open>Properties\<close>

text \<open>
  wherever the splitter is dragged, inside the area or beyond it, both parts keep between
  15 and 85 percent of the width and together take all of it.
\<close>

theorem splitter_bounds:
  assumes "width \<noteq> 0"
  shows "\<exists>m s. dragSplitter pageX left width = Some (m, s) \<and> m + s = 100 \<and>
    15 \<le> m \<and> m \<le> 85 \<and> 15 \<le> s \<and> s \<le> 85 \<and>
    (0 \<le> pageX - left \<and> 0 < width \<and> 15 * width \<le> (pageX - left) * 100 \<and> (pageX - left) * 100 \<le> 85 * width \<longrightarrow>
       m = (pageX - left) * 100 div width)"
proof -
  have *: "15 \<le> (pageX - left) * 100 div width \<and> (pageX - left) * 100 div width \<le> 85"
    if "0 < width" "15 * width \<le> (pageX - left) * 100" "(pageX - left) * 100 \<le> 85 * width"
  proof
    show "15 \<le> (pageX - left) * 100 div width"
      using that zdiv_mono1 [OF that(2), of width] by simp
    show "(pageX - left) * 100 div width \<le> 85"
      using that zdiv_mono1 [OF that(3), of width] by simp
  qed
  show ?thesis
    using assms * by (auto simp: dragSplitter_def Let_def trunc_div_def)
qed

theorem splitter_bounds_witness:
  "dragSplitter 300 0 1000 = Some (30, 70)"
  using splitter_bounds [of 1000 300 0] by auto

text \<open>
  the paginator of a list with n pages has, on every page of it, a link to each other page
  once, the page itself as text, a link back unless it is the first and a link forward unless it
  is the last, and no link leaves the pages of the list.
\<close>

theorem paginator_links:
  assumes "1 \<le> p" "p \<le> n"
  shows "page_links (js_parseInt (JNum p)) (js_parseInt (JNum n)) =
      (if p = 1 then [] else [Back_Link (Some (p - 1))])
      @ map Page_Link [1..p - 1] @ [Current_Page (Some p)] @ map Page_Link [p + 1..n]
      @ (if p = n then [] else [Forward_Link (Some (p + 1))])"
proof -
  have "[1..n] = [1..p - 1] @ p # [p + 1..n]"
    using assms upto_split3 [of 1 p n] by simp
  moreover have "map (\<lambda>i. if Some i = Some p then Current_Page (Some p) else Page_Link i) [1..p - 1] = map Page_Link [1..p - 1]"
    "map (\<lambda>i. if Some i = Some p then Current_Page (Some p) else Page_Link i) [p + 1..n] = map Page_Link [p + 1..n]"
    by (rule map_cong; simp)+
  ultimately show ?thesis
    by (simp add: page_links_def js_parseInt_def del: upto.simps)
qed

theorem paginator_links_witness:
  "page_links (js_parseInt (JNum 1)) (js_parseInt (JNum 2)) =
     [Current_Page (Some 1), Page_Link 2, Forward_Link (Some 2)]"
  using paginator_links [of 1 2] by simp

text \<open>
  no date format shows a month or a day of the week by name: the result has no M and no D
  left, so a format with the month's name and one with its number become the same.
\<close>

theorem date_format_without_names:
  "CHR ''M'' \<notin> set (prepareDateFormat f) \<and> CHR ''D'' \<notin> set (prepareDateFormat f) \<and>
   prepareDateFormat ''dd MMMM yyyy'' = prepareDateFormat ''dd MM yyyy''"
proof -
  have "CHR ''M'' \<notin> set (prepareDateFormat f)"
  proof -
    define f4 where "f4 = replace_all ''M'' ''m''
      (replace_all ''MMM'' ''M'' (replace_all ''MMMM'' ''MM'' (replace_all ''yy'' ''y'' f)))"
    have "CHR ''M'' \<notin> set f4" unfolding f4_def by (rule replace_single_gone) simp
    then have "CHR ''M'' \<notin> set (replace_D23 f4)" using set_replace_D23 [of f4] by auto
    then have "CHR ''M'' \<notin> set (replace_all ''D'' ''o'' (replace_D23 f4))"
      using set_replace_all [of "''D''" "''o''" "replace_D23 f4"] by auto
    then show ?thesis by (simp add: prepareDateFormat_def f4_def)
  qed
  moreover have "CHR ''D'' \<notin> set (prepareDateFormat f)"
    unfolding prepareDateFormat_def Let_def by (rule replace_single_gone) simp
  moreover have "prepareDateFormat ''dd MMMM yyyy'' = prepareDateFormat ''dd MM yyyy''"
    by (simp add: prepareDateFormat_def replace_all_Cons replace_D23.simps)
  ultimately show ?thesis by blast
qed

end
