(* ===== verification/Ajax_Api.thy ===== *)
theory Ajax_Api
  imports Search_Page
begin

text \<open>
  \<open>ajax-ion-api.js\<close>, the requests of the pages without Angular: creating, editing and deleting
  items and filtering a list.  \<open>JSON.stringify\<close> is the parameter \<open>json\<close>.
\<close>

section \<open>Addresses and requests\<close>

record api_urls =
  au_createUrl :: string
  au_editUrl :: string
  au_deleteItemUrl :: string
  au_deleteManyUrl :: string
  au_filterUrl :: string

datatype api_body = Form_Data "(string \<times> string) list" | Url_Encoded string | No_Body

record api_request =
  ar_type :: string
  ar_url :: string
  ar_body :: api_body

definition modifyItem :: "jsobj \<Rightarrow> string \<Rightarrow> api_request" where
  "modifyItem data requestUrl =
     \<lparr>ar_type = ''POST'', ar_url = requestUrl, ar_body = Form_Data (map (\<lambda>(nm, v). (nm, to_str v)) data)\<rparr>"

definition createItem :: "api_urls \<Rightarrow> jsobj \<Rightarrow> api_request" where
  "createItem urls data = modifyItem data (au_createUrl urls)"

definition editItem :: "api_urls \<Rightarrow> jsobj \<Rightarrow> api_request" where
  "editItem urls data = modifyItem data (au_editUrl urls)"

definition editAttribute :: "jsobj \<Rightarrow> string \<Rightarrow> api_request" where
  "editAttribute data requestUrl = modifyItem data requestUrl"

definition deleteById :: "string \<Rightarrow> api_request" where
  "deleteById requestUrl = \<lparr>ar_type = ''GET'', ar_url = requestUrl, ar_body = No_Body\<rparr>"

definition deleteItem :: "api_urls \<Rightarrow> api_request" where
  "deleteItem urls = deleteById (au_deleteItemUrl urls)"

definition encode_pairs :: "string list \<Rightarrow> string" where
  "encode_pairs pairs = replace_all ''%20'' ''+'' (join ''&'' pairs)"

definition deleteFromArray :: "string list \<Rightarrow> string \<Rightarrow> api_request" where
  "deleteFromArray array requestUrl =
     \<lparr>ar_type = ''POST'', ar_url = requestUrl,
      ar_body = Url_Encoded (encode_pairs (map (\<lambda>i. ''ids[]='' @ encodeURIComponent i) array))\<rparr>"

definition deleteMany :: "api_urls \<Rightarrow> string list \<Rightarrow> api_request" where
  "deleteMany urls array = deleteFromArray array (au_deleteManyUrl urls)"

section \<open>Conditions\<close>

definition getConditionType :: "string \<Rightarrow> string option" where
  "getConditionType condition =
     (let up = to_upper condition
      in if condition = ''='' \<or> up = ''EQUAL'' then Some ''EQUAL''
         else if condition = ''!='' \<or> up = ''NOT_EQUAL'' then Some ''NOT_EQUAL''
         else if condition = ''=null'' \<or> up = ''EMPTY'' then Some ''EMPTY''
         else if condition = ''!=null'' \<or> up = ''NOT_EMPTY'' then Some ''NOT_EMPTY''
         else if up = ''LIKE'' then Some ''LIKE''
         else if condition = ''<'' \<or> up = ''LESS'' then Some ''LESS''
         else if condition = ''>'' \<or> up = ''MORE'' then Some ''MORE''
         else if condition = ''<='' \<or> up = ''LESS_OR_EQUAL'' then Some ''LESS_OR_EQUAL''
         else if condition = ''>='' \<or> up = ''MORE_OR_EQUAL'' then Some ''MORE_OR_EQUAL''
         else if up = ''IN'' then Some ''IN'' else None)"

datatype filter_entry = Triple string string jsval | Values jsobj | Other_Entry

text \<open>An object given to \<open>JSON.stringify\<close>; a key whose value is undefined does not appear.\<close>

definition condition_obj :: "string \<Rightarrow> string option \<Rightarrow> jsval \<Rightarrow> jsobj" where
  "condition_obj p t v =
     [(''_property'', JStr p), (''_type'', case t of None \<Rightarrow> JUndef | Some x \<Rightarrow> JStr x), (''_value'', v)]"

fun prepare_entry :: "filter_entry \<Rightarrow> jsobj list" where
  "prepare_entry (Triple p c v) = [condition_obj p (getConditionType c) v]"
| "prepare_entry (Values o') = map (\<lambda>(nm, v). condition_obj nm (Some ''EQUAL'') v) o'"
| "prepare_entry Other_Entry = []"

definition prepareOptions :: "(jsobj \<Rightarrow> string) \<Rightarrow> filter_entry list \<Rightarrow> string list" where
  "prepareOptions json array = map json (concat (map prepare_entry array))"

definition prepareSortings :: "(jsobj \<Rightarrow> string) \<Rightarrow> (string \<times> string) list \<Rightarrow> string list" where
  "prepareSortings json sortingObject =
     map (\<lambda>(nm, m). json [(''_property'', JStr nm), (''_mode'', JStr (to_upper m))]) sortingObject"

definition sendFilter :: "string \<Rightarrow> string list \<Rightarrow> string list option \<Rightarrow> string \<Rightarrow> api_request" where
  "sendFilter className options sorting requestUrl =
     \<lparr>ar_type = ''POST'', ar_url = requestUrl,
      ar_body = Url_Encoded (encode_pairs
        ([''className='' @ encodeURIComponent className]
         @ map (\<lambda>o'. ''options[]='' @ o') options @ [''options[]={}'']
         @ (case sorting of None \<Rightarrow> [] | Some ss \<Rightarrow> map (\<lambda>s. ''sortings[]='' @ s) ss)
         @ [''sortings[]={}'']))\<rparr>"

text \<open>\<open>filter\<close> with four arguments has a sorting, with three it has none.\<close>

definition api_filter ::
  "(jsobj \<Rightarrow> string) \<Rightarrow> api_urls \<Rightarrow> string \<Rightarrow> filter_entry list \<Rightarrow> (string \<times> string) list option \<Rightarrow> api_request" where
  "api_filter json urls className array sortingObject =
     sendFilter className (prepareOptions json array) (map_option (prepareSortings json) sortingObject)
       (au_filterUrl urls)"

section \<open>How the server reads a body\<close>

fun plus_to_blank :: "string \<Rightarrow> string" where
  "plus_to_blank s = map (\<lambda>c. if c = CHR ''+'' then CHR '' '' else c) s"

definition form_decode :: "string \<Rightarrow> string" where
  "form_decode s = decodeURIComponent (plus_to_blank s)"

section \<open>Lemmas\<close>

definition enc_char :: "char \<Rightarrow> string" where
  "enc_char c =
     (if uri_plain c then [c] else [CHR ''%'', hex_digit (of_char c div 16), hex_digit (of_char c mod 16)])"

definition plus_char :: "char \<Rightarrow> string" where
  "plus_char c = (if c = CHR '' '' then ''+'' else enc_char c)"

lemma encode_chars: "encodeURIComponent s = concat (map enc_char s)"
  by (simp add: encodeURIComponent_def enc_char_def [abs_def])

lemma hex_digit_code: "d < 16 \<Longrightarrow> of_char (hex_digit d) = (if d < 10 then 48 + d else 55 + d)"
  by (simp add: hex_digit_def of_char_of)

lemma hex_digit_not: "d < 16 \<Longrightarrow> hex_digit d \<noteq> CHR ''%'' \<and> hex_digit d \<noteq> CHR ''+'' \<and> hex_digit d \<noteq> CHR ''&''"
  using hex_digit_code [of d] by (auto split: if_splits)

lemma hex_digit_inj: "d < 16 \<Longrightarrow> e < 16 \<Longrightarrow> hex_digit d = hex_digit e \<longleftrightarrow> d = e"
  by (metis hex_roundtrip)

lemma blank_code: "(of_char c :: nat) = 32 \<longleftrightarrow> c = CHR '' ''"
proof
  assume "(of_char c :: nat) = 32"
  then have "(of_char c :: nat) = of_char (CHR '' '')" by simp
  then show "c = CHR '' ''" by (simp only: of_char_eq_iff)
qed simp

lemma blank_nibbles:
  "(of_char c :: nat) div 16 = 2 \<and> (of_char c :: nat) mod 16 = 0 \<longleftrightarrow> c = CHR '' ''"
proof -
  have "(of_char c :: nat) div 16 = 2 \<and> (of_char c :: nat) mod 16 = 0 \<longleftrightarrow> (of_char c :: nat) = 32"
    by presburger
  then show ?thesis by (simp add: blank_code)
qed

lemma hex_digit_chars: "hex_digit 2 = CHR ''2''" "hex_digit 0 = CHR ''0''"
  by code_simp+

lemma replace_step:
  "c \<noteq> CHR ''%'' \<Longrightarrow> replace_all ''%20'' r (c # s) = c # replace_all ''%20'' r s"
  by (simp add: replace_all_Cons)

lemma prefix_blank: "prefix ''%20'' (CHR ''%'' # a # b # t) \<longleftrightarrow> a = CHR ''2'' \<and> b = CHR ''0''"
  by auto

lemma escape_of_blank:
  "hex_digit (of_char c div 16) = CHR ''2'' \<and> hex_digit (of_char c mod 16) = CHR ''0'' \<longleftrightarrow> c = CHR '' ''"
proof -
  have "hex_digit (of_char c div 16) = hex_digit 2 \<longleftrightarrow> of_char c div 16 = (2 :: nat)"
    using nibble [of c] by (intro hex_digit_inj) simp_all
  moreover have "hex_digit (of_char c mod 16) = hex_digit 0 \<longleftrightarrow> of_char c mod 16 = (0 :: nat)"
    by (rule hex_digit_inj) simp_all
  ultimately show ?thesis by (simp only: hex_digit_chars blank_nibbles)
qed

lemma replace_enc_char:
  "replace_all ''%20'' ''+'' (enc_char c @ t) = plus_char c @ replace_all ''%20'' ''+'' t"
proof (cases "uri_plain c")
  case True
  then have "c \<noteq> CHR '' ''" by (auto simp: uri_plain_def)
  with True show ?thesis
    by (simp add: enc_char_def plus_char_def replace_step uri_plain_not_percent)
next
  case False
  define a where "a = hex_digit (of_char c div 16)"
  define b where "b = hex_digit (of_char c mod 16)"
  have enc: "enc_char c = [CHR ''%'', a, b]" using False by (simp only: enc_char_def a_def b_def if_False)
  have pre: "prefix ''%20'' (CHR ''%'' # a # b # t) \<longleftrightarrow> c = CHR '' ''"
    by (simp only: prefix_blank a_def b_def escape_of_blank)
  have ab: "a \<noteq> CHR ''%'' \<and> b \<noteq> CHR ''%''"
    using hex_digit_not [OF nibble [of c]] hex_digit_not [of "of_char c mod 16"]
    by (simp add: a_def b_def)
  have "replace_all ''%20'' ''+'' (CHR ''%'' # a # b # t) =
          (if c = CHR '' '' then ''+'' @ replace_all ''%20'' ''+'' t
           else CHR ''%'' # replace_all ''%20'' ''+'' (a # b # t))"
    unfolding pre [symmetric] by (subst replace_all_Cons) simp_all
  then show ?thesis
    using ab by (simp add: enc plus_char_def replace_step)
qed

lemma replace_encoded:
  "replace_all ''%20'' ''+'' (encodeURIComponent s @ t) =
     concat (map plus_char s) @ replace_all ''%20'' ''+'' t"
  by (induction s) (simp_all add: encode_chars replace_enc_char del: replace_all.simps)

lemma replace_joined:
  "pre = ''ids[]='' \<Longrightarrow>
   replace_all ''%20'' ''+'' (join ''&'' (map (\<lambda>i. pre @ encodeURIComponent i) xs)) =
     join ''&'' (map (\<lambda>i. pre @ concat (map plus_char i)) xs)"
proof (induction xs rule: induct_list012)
  case 1
  then show ?case by simp
next
  case (2 x)
  then show ?case using replace_encoded [of x "[]"] by (simp add: replace_step)
next
  case (3 x y zs)
  then show ?case by (simp add: replace_step replace_encoded)
qed

lemma plus_char_and: "CHR ''&'' \<notin> set (plus_char c)"
proof -
  have "\<not> uri_plain (CHR ''&'')" by (simp add: uri_plain_def)
  then show ?thesis
    using hex_digit_not [OF nibble [of c]] hex_digit_not [of "of_char c mod 16"]
    by (auto simp: plus_char_def enc_char_def)
qed

lemma plus_char_decode:
  "decodeURIComponent (plus_to_blank (plus_char c) @ t) = c # decodeURIComponent t"
proof (cases "c = CHR '' ''")
  case True
  then show ?thesis by (simp add: plus_char_def decode_plain)
next
  case False
  then show ?thesis
  proof (cases "uri_plain c")
    case True
    moreover have "\<not> uri_plain (CHR ''+'')" by (simp add: uri_plain_def)
    ultimately have "c \<noteq> CHR ''+''" by auto
    then show ?thesis
      using False True by (simp add: plus_char_def enc_char_def decode_plain uri_plain_not_percent)
  next
    case plain: False
    have "hex_digit (of_char c div 16) \<noteq> CHR ''+''" "hex_digit (of_char c mod 16) \<noteq> CHR ''+''"
      using hex_digit_not [OF nibble [of c]] hex_digit_not [of "of_char c mod 16"] by simp_all
    then show ?thesis
      using False plain nibble [of c]
      by (simp add: plus_char_def enc_char_def hex_roundtrip)
  qed
qed

lemma form_decode_plus:
  "decodeURIComponent (plus_to_blank (concat (map plus_char s))) = s"
proof (induction s)
  case Nil
  then show ?case by simp
next
  case (Cons c s)
  then show ?case using plus_char_decode [of c "plus_to_blank (concat (map plus_char s))"] by simp
qed

lemma split_joined:
  "xs \<noteq> [] \<Longrightarrow> \<forall>x\<in>set xs. c \<notin> set x \<Longrightarrow> split_on c (join [c] xs) = xs"
  by (induction xs rule: induct_list012) (simp_all add: split_on_plain split_on_append)

section \<open>Properties\<close>

text \<open>
  C25: The request of a bulk deletion carries exactly the chosen ids: read the way a server reads a
  form body (split at the ampersands, plus signs as blanks, escapes decoded), the body is one
  \<open>ids[]=\<close> pair per id, in the order of the selection, whatever characters the ids hold, although
  the escapes of blanks are rewritten in the joined text.
\<close>

theorem deleteMany_roundtrip:
  assumes "array \<noteq> []"
  shows "\<exists>body. ar_body (deleteMany urls array) = Url_Encoded body
    \<and> map form_decode (split_on CHR ''&'' body) = map (\<lambda>i. ''ids[]='' @ i) array"
proof -
  let ?parts = "map (\<lambda>i. ''ids[]='' @ concat (map plus_char i)) array"
  have "ar_body (deleteMany urls array) = Url_Encoded (join ''&'' ?parts)"
    by (simp only: deleteMany_def deleteFromArray_def encode_pairs_def replace_joined api_request.select_convs)
  moreover have "split_on CHR ''&'' (join ''&'' ?parts) = ?parts"
    using assms by (intro split_joined) (auto simp: plus_char_and)
  moreover have "map form_decode ?parts = map (\<lambda>i. ''ids[]='' @ i) array"
    using form_decode_plus by (simp add: form_decode_def decode_plain)
  ultimately show ?thesis by auto
qed

lemma deleteMany_roundtrip_witness:
  "\<exists>body. ar_body (deleteMany \<lparr>au_createUrl = [], au_editUrl = [], au_deleteItemUrl = [],
       au_deleteManyUrl = ''/deleteMany'', au_filterUrl = []\<rparr> [''a b'', ''c&d+'']) = Url_Encoded body
    \<and> map form_decode (split_on CHR ''&'' body) = [''ids[]=a b'', ''ids[]=c&d+'']"
  using deleteMany_roundtrip [of "[''a b'', ''c&d+'']"] by simp

lemma condition_type_names:
  "getConditionType c = Some t \<Longrightarrow>
   t \<in> {''EQUAL'', ''NOT_EQUAL'', ''EMPTY'', ''NOT_EMPTY'', ''LIKE'', ''LESS'', ''MORE'',
        ''LESS_OR_EQUAL'', ''MORE_OR_EQUAL'', ''IN''}"
  unfolding getConditionType_def Let_def by (simp split: if_splits)

lemma condition_type_fixed:
  "list_all (\<lambda>t. getConditionType t = Some t)
     [''EQUAL'', ''NOT_EQUAL'', ''EMPTY'', ''NOT_EMPTY'', ''LIKE'', ''LESS'', ''MORE'',
      ''LESS_OR_EQUAL'', ''MORE_OR_EQUAL'', ''IN'']"
  by code_simp

lemma condition_type_idempotent: "getConditionType c = Some t \<Longrightarrow> getConditionType t = Some t"
  using condition_type_names [of c t] condition_type_fixed by auto

text \<open>
  The entries of a filter are not escaped in its request, unlike the class name: an ampersand
  in a condition's value ends the entry, and what follows is read as a parameter of its own, so
  the server gets a condition that is cut off.
\<close>

theorem filter_entry_cut_at_ampersand:
  "\<exists>body. ar_body (api_filter (\<lambda>o'. ''{v='' @ to_str (oget o' ''_value'') @ ''}'') urls ''c''
       [Triple ''n'' ''='' (JStr ''A&options[]=B'')] None) = Url_Encoded body
    \<and> map form_decode (split_on CHR ''&'' body)
        = [''className=c'', ''options[]={v=A'', ''options[]=B}'', ''options[]={}'', ''sortings[]={}'']"
proof -
  have "ar_body (api_filter (\<lambda>o'. ''{v='' @ to_str (oget o' ''_value'') @ ''}'') urls ''c''
       [Triple ''n'' ''='' (JStr ''A&options[]=B'')] None)
     = Url_Encoded ''className=c&options[]={v=A&options[]=B}&options[]={}&sortings[]={}''"
    unfolding api_filter_def sendFilter_def api_request.select_convs by code_simp
  moreover have "map form_decode (split_on CHR ''&''
      ''className=c&options[]={v=A&options[]=B}&options[]={}&sortings[]={}'')
    = [''className=c'', ''options[]={v=A'', ''options[]=B}'', ''options[]={}'', ''sortings[]={}'']"
    by code_simp
  ultimately show ?thesis by simp
qed

end
