(* ===== verification/Page_Loader.thy ===== *)
theory Page_Loader
  imports Task_Interface Run_Interface
begin

text \<open>
  The page loader, the dialogs and the message panel of \<open>main.js\<close>.  The state holds the flag
  \<open>isLoadingAjax\<close>, the requests under way with what their replies do, the areas of the page, the
  dialogs with the element \<open>dialog\<close> as their id, the blanket behind them and the panel of messages.
  The steps are the calls of the page and the events of a request: its timer or its reply.
\<close>

section \<open>State\<close>

record area =
  ar_html :: string
  ar_loading :: bool

record dialog_opts =
  do_caption :: string
  do_content :: string
  do_url :: "string option"

record dialog =
  dl_id :: nat
  dl_caption :: string
  dl_content :: string
  dl_submitting :: bool
  dl_handlers :: nat

text \<open>What the handlers of a request do when it ends; a request of a dialog's form knows its dialog.\<close>

datatype page_job = Area_Job string | Open_Job dialog_opts | Submit_Job nat

record request =
  rq_url :: "string option"
  rq_job :: page_job

record page =
  isLoadingAjax :: bool
  pg_requests :: "(nat \<times> request) list"
  pg_next :: nat
  pg_areas :: "string \<Rightarrow> area"
  pg_dialogs :: "dialog list"
  pg_blankets :: nat
  pg_noscroll :: bool
  pg_slave :: bool
  pg_log :: "string list"

definition init_page :: "(string \<Rightarrow> area) \<Rightarrow> page" where
  "init_page areas = \<lparr>isLoadingAjax = False, pg_requests = [], pg_next = 0, pg_areas = areas,
     pg_dialogs = [], pg_blankets = 0, pg_noscroll = False, pg_slave = False, pg_log = []\<rparr>"

section \<open>Blanket and dialogs\<close>

definition createBlanket :: "page \<Rightarrow> page" where
  "createBlanket p = (if pg_blankets p > 0 then p else p\<lparr>pg_blankets := 1, pg_noscroll := True\<rparr>)"

definition removeBlanket :: "page \<Rightarrow> page" where
  "removeBlanket p = p\<lparr>pg_blankets := 0, pg_noscroll := False\<rparr>"

text \<open>\<open>$("#dialog")\<close> is the first element with the id.\<close>

definition close_dialog :: "page \<Rightarrow> page" where
  "close_dialog p = p\<lparr>pg_dialogs := tl (pg_dialogs p), pg_blankets := 0\<rparr>"

text \<open>
  A dialog is appended to the page; the handlers of its buttons and of its form are bound to the
  first element with the id, which is the new dialog only when there is no other.
  \<open>dl_handlers\<close> counts how often they have been bound.
\<close>

fun bind_first :: "dialog list \<Rightarrow> dialog list" where
  "bind_first [] = []"
| "bind_first (x # xs) = x\<lparr>dl_handlers := Suc (dl_handlers x)\<rparr> # xs"

definition showDialog :: "dialog_opts \<Rightarrow> page \<Rightarrow> page" where
  "showDialog options p = p\<lparr>pg_dialogs := bind_first (pg_dialogs p @
     [\<lparr>dl_id = pg_next p, dl_caption = do_caption options, dl_content = do_content options,
       dl_submitting = False, dl_handlers = 0\<rparr>]), pg_next := Suc (pg_next p)\<rparr>"

definition handlers_of :: "nat \<Rightarrow> page \<Rightarrow> nat" where
  "handlers_of d p =
     (case find (\<lambda>x. dl_id x = d) (pg_dialogs p) of None \<Rightarrow> 0 | Some x \<Rightarrow> dl_handlers x)"

text \<open>A click on a closing element of the dialog \<open>d\<close> runs \<open>closeDialog\<close> once for each binding.\<close>

definition close_click :: "nat \<Rightarrow> page \<Rightarrow> page" where
  "close_click d p = (close_dialog ^^ handlers_of d p) p"

definition set_submitting :: "nat \<Rightarrow> bool \<Rightarrow> page \<Rightarrow> page" where
  "set_submitting d b p = p\<lparr>pg_dialogs :=
     map (\<lambda>x. if dl_id x = d then x\<lparr>dl_submitting := b\<rparr> else x) (pg_dialogs p)\<rparr>"

section \<open>Requests\<close>

text \<open>\<open>ajax\<close> waits half a second before it sends; the flag is set at once.\<close>

definition ajax :: "request \<Rightarrow> page \<Rightarrow> page" where
  "ajax options p = p\<lparr>pg_requests := pg_requests p @ [(pg_next p, options)],
     pg_next := Suc (pg_next p), isLoadingAjax := True\<rparr>"

definition set_area :: "string \<Rightarrow> area \<Rightarrow> page \<Rightarrow> page" where
  "set_area i a p = p\<lparr>pg_areas := (pg_areas p)(i := a)\<rparr>"

definition load :: "string \<Rightarrow> string \<Rightarrow> page \<Rightarrow> page" where
  "load i url p =
     (if isLoadingAjax p then p
      else ajax \<lparr>rq_url = Some url, rq_job = Area_Job i\<rparr>
             (set_area i \<lparr>ar_html = [], ar_loading = True\<rparr> p))"

definition showSlaveSplitter :: "page \<Rightarrow> page" where
  "showSlaveSplitter p = p\<lparr>pg_slave := True\<rparr>"

definition hideSlaveSplitter :: "page \<Rightarrow> page" where
  "hideSlaveSplitter p = p\<lparr>pg_slave := False\<rparr>"

definition loadShortObject :: "string option \<Rightarrow> page \<Rightarrow> page" where
  "loadShortObject url p =
     (case url of
        None \<Rightarrow> set_area ''slave-area'' ((pg_areas p ''slave-area'')\<lparr>ar_html := []\<rparr>) p
      | Some u \<Rightarrow>
          if u = [] then set_area ''slave-area'' ((pg_areas p ''slave-area'')\<lparr>ar_html := []\<rparr>) p
          else load ''slave-area'' u (showSlaveSplitter p))"

definition loadFullObject :: "string \<Rightarrow> page \<Rightarrow> page" where
  "loadFullObject href p = load ''master-area'' href p"

definition createDialog :: "dialog_opts \<Rightarrow> page \<Rightarrow> page" where
  "createDialog options p = ajax \<lparr>rq_url = do_url options, rq_job = Open_Job options\<rparr> (createBlanket p)"

text \<open>
  The submission of a dialog's form, whose action is \<open>url\<close>: each bound handler sends a request.
  Without a handler the browser submits the form itself, which leaves the page and is no step here.
\<close>

definition submit_handler :: "nat \<Rightarrow> string \<Rightarrow> page \<Rightarrow> page" where
  "submit_handler d url p = ajax \<lparr>rq_url = Some url, rq_job = Submit_Job d\<rparr> (set_submitting d True p)"

definition submitDialog :: "nat \<Rightarrow> string \<Rightarrow> page \<Rightarrow> page" where
  "submitDialog d url p = (submit_handler d url ^^ handlers_of d p) p"

section \<open>The end of a request\<close>

text \<open>The \<open>success\<close> handlers; without an address the request succeeds with no data.\<close>

fun on_success :: "page_job \<Rightarrow> string option \<Rightarrow> page \<Rightarrow> page" where
  "on_success (Area_Job i) data p =
     (case data of None \<Rightarrow> p | Some h \<Rightarrow> set_area i ((pg_areas p i)\<lparr>ar_html := h\<rparr>) p)"
| "on_success (Open_Job options) data p =
     showDialog (case data of None \<Rightarrow> options
       | Some h \<Rightarrow> if h = [] then options else options\<lparr>do_content := h\<rparr>) p"
| "on_success (Submit_Job d) data p = close_dialog p"

text \<open>The \<open>complete\<close> handler of \<open>ajax\<close>, then the one of its caller.\<close>

fun caller_complete :: "page_job \<Rightarrow> page \<Rightarrow> page" where
  "caller_complete (Area_Job i) p = set_area i ((pg_areas p i)\<lparr>ar_loading := False\<rparr>) p"
| "caller_complete (Open_Job _) p = p"
| "caller_complete (Submit_Job d) p = set_submitting d False p"

definition on_complete :: "page_job \<Rightarrow> page \<Rightarrow> page" where
  "on_complete j p = caller_complete j (p\<lparr>isLoadingAjax := False\<rparr>)"

definition logAjaxError :: "string \<Rightarrow> page \<Rightarrow> page" where
  "logAjaxError msg p = p\<lparr>pg_log := pg_log p @ [msg]\<rparr>"

datatype outcome = Data string | Failure string

text \<open>
  The request \<open>n\<close> ends.  A request without an address ends when its timer fires; the others end
  with the server's reply or an error, of which the timeout of ten seconds is one.
\<close>

definition drop_request :: "nat \<Rightarrow> page \<Rightarrow> page" where
  "drop_request n p = p\<lparr>pg_requests := filter (\<lambda>(k, _). k \<noteq> n) (pg_requests p)\<rparr>"

definition finish :: "nat \<Rightarrow> outcome \<Rightarrow> page \<Rightarrow> page" where
  "finish n out p =
     (case map_of (pg_requests p) n of
        None \<Rightarrow> p
      | Some r \<Rightarrow>
          (let p' = drop_request n p
           in on_complete (rq_job r)
                (if rq_url r = None \<or> rq_url r = Some [] then on_success (rq_job r) None p'
                 else case out of Data h \<Rightarrow> on_success (rq_job r) (Some h) p'
                      | Failure e \<Rightarrow> logAjaxError e p')))"

section \<open>Steps\<close>

datatype page_event =
    Load string string
  | Short "string option"
  | Full string
  | Dialog dialog_opts
  | Submit nat string
  | Finish nat outcome
  | Close nat

fun page_step :: "page_event \<Rightarrow> page \<Rightarrow> page" where
  "page_step (Load i url) p = load i url p"
| "page_step (Short url) p = loadShortObject url p"
| "page_step (Full href) p = loadFullObject href p"
| "page_step (Dialog options) p = createDialog options p"
| "page_step (Submit d url) p = submitDialog d url p"
| "page_step (Finish n out) p = finish n out p"
| "page_step (Close d) p = close_click d p"

definition is_load :: "page_event \<Rightarrow> bool" where
  "is_load e = (case e of Dialog _ \<Rightarrow> False | Submit _ _ \<Rightarrow> False | _ \<Rightarrow> True)"

section \<open>The message panel\<close>

record panel =
  pn_classes :: "string list"
  pn_content :: string
  pn_visible :: bool
  pn_offset :: int

text \<open>
  \<open>showMsgPanel\<close>, then the animation that slides the panel in; \<open>pn_offset\<close> is the margin at its
  top or its distance from the bottom, and is where an animation ends.
\<close>

definition showMsgPanel :: "string \<Rightarrow> string \<Rightarrow> panel \<Rightarrow> panel" where
  "showMsgPanel type content pn =
     pn\<lparr>pn_classes := filter (\<lambda>c. c \<notin> {''error'', ''warning'', ''info''} \<and> c \<noteq> type) (pn_classes pn) @ [type],
        pn_content := content, pn_visible := True\<rparr>"

definition showTopMsgPanel :: "string \<Rightarrow> string \<Rightarrow> panel \<Rightarrow> panel" where
  "showTopMsgPanel type content pn = (showMsgPanel type content pn)\<lparr>pn_offset := 0\<rparr>"

definition showBottomMsgPanel :: "string \<Rightarrow> string \<Rightarrow> panel \<Rightarrow> panel" where
  "showBottomMsgPanel type content pn = (showMsgPanel type content pn)\<lparr>pn_offset := 0\<rparr>"

definition hideTopMsgPanel :: "int \<Rightarrow> panel \<Rightarrow> panel" where
  "hideTopMsgPanel height pn = pn\<lparr>pn_offset := - height\<rparr>"

definition hideBottomMsgPanel :: "int \<Rightarrow> panel \<Rightarrow> panel" where
  "hideBottomMsgPanel height pn = pn\<lparr>pn_offset := - height\<rparr>"

section \<open>Lemmas\<close>

lemma load_busy: "isLoadingAjax p \<Longrightarrow> load i url p = p"
  by (simp add: load_def)

lemma load_free: "\<not> isLoadingAjax p \<Longrightarrow> isLoadingAjax (load i url p)"
  by (simp add: load_def ajax_def)

interpretation page_task: exclusive_task isLoadingAjax "\<lambda>(i, url). load i url"
  by unfold_locales (auto simp: load_busy load_free)

definition loader_inv :: "page \<Rightarrow> bool" where
  "loader_inv p \<longleftrightarrow>
     (isLoadingAjax p \<longleftrightarrow> pg_requests p \<noteq> []) \<and> length (pg_requests p) \<le> 1
     \<and> (\<forall>(n, r)\<in>set (pg_requests p). \<exists>i. rq_job r = Area_Job i)
     \<and> (\<forall>i. ar_loading (pg_areas p i) \<longleftrightarrow> (\<exists>(n, r)\<in>set (pg_requests p). rq_job r = Area_Job i))"

lemma loader_inv_init: "(\<And>i. \<not> ar_loading (areas i)) \<Longrightarrow> loader_inv (init_page areas)"
  by (simp add: loader_inv_def init_page_def)

lemma loader_inv_load: "loader_inv p \<Longrightarrow> loader_inv (load i url p)"
  by (auto simp: loader_inv_def load_def ajax_def set_area_def)

lemma loader_inv_clear:
  "loader_inv p \<Longrightarrow> loader_inv (set_area i ((pg_areas p i)\<lparr>ar_html := h\<rparr>) p)"
  by (auto simp: loader_inv_def set_area_def)

lemma loader_inv_other:
  "loader_inv p \<Longrightarrow> loader_inv (showSlaveSplitter p)"
  "loader_inv p \<Longrightarrow> loader_inv (close_dialog p)"
  by (simp_all add: loader_inv_def showSlaveSplitter_def close_dialog_def)

lemma repeated_keeps: "(\<And>q. P q \<Longrightarrow> P (f q)) \<Longrightarrow> P q \<Longrightarrow> P ((f ^^ n) q)"
  by (induction n) auto

lemma loader_inv_click: "loader_inv p \<Longrightarrow> loader_inv (close_click d p)"
  unfolding close_click_def by (rule repeated_keeps [where P = loader_inv, OF loader_inv_other(2)])

lemma loader_inv_short: "loader_inv p \<Longrightarrow> loader_inv (loadShortObject url p)"
  by (simp add: loadShortObject_def loader_inv_clear loader_inv_load loader_inv_other split: option.split)

lemma success_html:
  "on_success (Area_Job i) data p =
     set_area i ((pg_areas p i)\<lparr>ar_html := (case data of None \<Rightarrow> ar_html (pg_areas p i) | Some h \<Rightarrow> h)\<rparr>) p"
  by (cases data) (auto simp: set_area_def)

lemma loader_inv_one: "loader_inv p \<Longrightarrow> map_of (pg_requests p) n = Some r \<Longrightarrow>
    pg_requests p = [(n, r)] \<and> (\<exists>i. rq_job r = Area_Job i \<and> (\<forall>k. ar_loading (pg_areas p k) \<longleftrightarrow> k = i))"
  by (cases "pg_requests p") (auto simp: loader_inv_def split: if_splits)

lemma area_success:
  "pg_requests (on_success (Area_Job i) d q) = pg_requests q"
  "ar_loading (pg_areas (on_success (Area_Job i) d q) k) = ar_loading (pg_areas q k)"
  by (simp_all add: success_html set_area_def del: on_success.simps)

lemma area_complete:
  "pg_requests (on_complete (Area_Job i) q) = pg_requests q"
  "\<not> isLoadingAjax (on_complete (Area_Job i) q)"
  "ar_loading (pg_areas (on_complete (Area_Job i) q) k) \<longleftrightarrow> k \<noteq> i \<and> ar_loading (pg_areas q k)"
  by (simp_all add: on_complete_def set_area_def)

lemma area_finish:
  assumes "rq_job r = Area_Job i" and "map_of (pg_requests p) n = Some r"
  shows "\<not> isLoadingAjax (finish n out p)"
    and "pg_requests (finish n out p) = filter (\<lambda>(k, _). k \<noteq> n) (pg_requests p)"
    and "ar_loading (pg_areas (finish n out p) k) \<longleftrightarrow> k \<noteq> i \<and> ar_loading (pg_areas p k)"
  using assms
  by (simp_all add: finish_def Let_def area_success area_complete drop_request_def logAjaxError_def
      del: on_success.simps split: outcome.split)

lemma loader_inv_finish: "loader_inv p \<Longrightarrow> loader_inv (finish n out p)"
proof (cases "map_of (pg_requests p) n")
  case None
  moreover assume "loader_inv p"
  ultimately show ?thesis by (simp add: finish_def)
next
  case (Some r)
  assume "loader_inv p"
  from loader_inv_one [OF this Some] obtain i where
    i: "pg_requests p = [(n, r)]" "rq_job r = Area_Job i" "\<forall>k. ar_loading (pg_areas p k) \<longleftrightarrow> k = i"
    by blast
  then show ?thesis
    by (simp add: loader_inv_def area_finish [OF i(2) Some])
qed

lemma loader_inv_step: "is_load e \<Longrightarrow> loader_inv p \<Longrightarrow> loader_inv (page_step e p)"
  by (cases e) (simp_all add: is_load_def loader_inv_load loader_inv_short loadFullObject_def
      loader_inv_finish loader_inv_click)

interpretation loader: event_run page_step loader_inv is_load
  by unfold_locales (rule loader_inv_step)

lemma loader_inv_run: "list_all is_load es \<Longrightarrow> loader_inv p \<Longrightarrow> loader_inv (fold page_step es p)"
  by (rule loader.run_inv)

lemma noscroll_success: "pg_noscroll p \<Longrightarrow> pg_noscroll (on_success j d p)"
  by (cases j) (simp_all add: set_area_def showDialog_def close_dialog_def split: option.split)

lemma noscroll_complete: "pg_noscroll (on_complete j p) = pg_noscroll p"
  by (cases j) (simp_all add: on_complete_def set_area_def set_submitting_def)

lemma noscroll_finish: "pg_noscroll p \<Longrightarrow> pg_noscroll (finish n out p)"
  by (auto simp: finish_def Let_def noscroll_complete drop_request_def logAjaxError_def
      intro!: noscroll_success split: option.split outcome.split)

lemma noscroll_handlers:
  assumes "pg_noscroll p"
  shows "pg_noscroll (close_click d p)" "pg_noscroll (submitDialog d url p)"
  unfolding close_click_def submitDialog_def using assms
  by (auto intro!: repeated_keeps [where P = pg_noscroll]
      simp: close_dialog_def submit_handler_def ajax_def set_submitting_def)

lemma noscroll_step: "pg_noscroll p \<Longrightarrow> pg_noscroll (page_step e p)"
  by (cases e) (simp_all add: load_def loadShortObject_def loadFullObject_def createDialog_def
      noscroll_handlers noscroll_finish ajax_def set_area_def showSlaveSplitter_def
      createBlanket_def split: option.split)

lemma noscroll_run: "pg_noscroll p \<Longrightarrow> pg_noscroll (fold page_step es p)"
  by (induction es arbitrary: p) (simp_all add: noscroll_step)

subsection \<open>Which dialogs have handlers\<close>

definition dialog_keys :: "page \<Rightarrow> (nat \<times> nat) list" where
  "dialog_keys p = map (\<lambda>x. (dl_id x, dl_handlers x)) (pg_dialogs p)"

definition dialogs_inv :: "page \<Rightarrow> bool" where
  "dialogs_inv p \<longleftrightarrow> list_all (\<lambda>k. snd k = 0) (tl (dialog_keys p))
     \<and> distinct (map fst (dialog_keys p)) \<and> list_all (\<lambda>k. fst k < pg_next p) (dialog_keys p)"

lemma dialogs_inv_frame:
  "dialogs_inv p \<Longrightarrow> dialog_keys q = dialog_keys p \<Longrightarrow> pg_next p \<le> pg_next q \<Longrightarrow> dialogs_inv q"
  by (auto simp: dialogs_inv_def list_all_iff)

lemma keys_submitting: "dialog_keys (set_submitting d b p) = dialog_keys p"
  by (simp add: dialog_keys_def set_submitting_def)

lemma keys_frame: "pg_dialogs q = pg_dialogs p \<Longrightarrow> dialog_keys q = dialog_keys p"
  by (simp add: dialog_keys_def)

lemma dialogs_inv_close: "dialogs_inv p \<Longrightarrow> dialogs_inv (close_dialog p)"
  by (cases "pg_dialogs p"; cases "tl (pg_dialogs p)")
    (auto simp: dialogs_inv_def close_dialog_def dialog_keys_def)

lemma dialogs_inv_show: "dialogs_inv p \<Longrightarrow> dialogs_inv (showDialog options p)"
  by (cases "pg_dialogs p") (auto simp: dialogs_inv_def showDialog_def dialog_keys_def list_all_iff)

lemma dialogs_inv_submitting: "dialogs_inv p \<Longrightarrow> dialogs_inv (set_submitting d b p)"
  by (rule dialogs_inv_frame [OF _ keys_submitting]) (simp_all add: set_submitting_def)

lemma dialogs_inv_submit: "dialogs_inv p \<Longrightarrow> dialogs_inv (submit_handler d url p)"
  unfolding submit_handler_def
  by (rule dialogs_inv_frame [OF dialogs_inv_submitting keys_frame]) (auto simp: ajax_def set_submitting_def intro: le_SucI)

lemma dialogs_inv_other:
  assumes "dialogs_inv p"
  shows "dialogs_inv (set_area i a p)" "dialogs_inv (showSlaveSplitter p)"
    "dialogs_inv (p\<lparr>isLoadingAjax := b\<rparr>)" "dialogs_inv (drop_request n p)"
    "dialogs_inv (logAjaxError e p)" "dialogs_inv (createBlanket p)" "dialogs_inv (ajax r p)"
  by (rule dialogs_inv_frame [OF assms keys_frame]; simp add: set_area_def showSlaveSplitter_def
      drop_request_def logAjaxError_def createBlanket_def ajax_def)+

lemma dialogs_inv_success: "dialogs_inv p \<Longrightarrow> dialogs_inv (on_success j d p)"
  by (cases j) (simp_all add: dialogs_inv_close dialogs_inv_show dialogs_inv_other split: option.split)

lemma dialogs_inv_complete: "dialogs_inv p \<Longrightarrow> dialogs_inv (on_complete j p)"
  by (cases j) (simp_all add: on_complete_def dialogs_inv_submitting dialogs_inv_other)

lemma dialogs_inv_finish: "dialogs_inv p \<Longrightarrow> dialogs_inv (finish n out p)"
  by (auto simp: finish_def Let_def intro!: dialogs_inv_complete dialogs_inv_success dialogs_inv_other
      split: option.split outcome.split)

lemma dialogs_inv_load: "dialogs_inv p \<Longrightarrow> dialogs_inv (load i url p)"
  by (simp add: load_def dialogs_inv_other)

lemma dialogs_inv_handlers:
  assumes "dialogs_inv p"
  shows "dialogs_inv (close_click d p)" "dialogs_inv (submitDialog d url p)"
  unfolding close_click_def submitDialog_def using assms
  by (auto intro!: repeated_keeps [where P = dialogs_inv] dialogs_inv_close dialogs_inv_submit)

lemma dialogs_inv_step: "dialogs_inv p \<Longrightarrow> dialogs_inv (page_step e p)"
  by (cases e) (simp_all add: dialogs_inv_load loadShortObject_def loadFullObject_def createDialog_def
      dialogs_inv_finish dialogs_inv_handlers dialogs_inv_other split: option.split)

lemma dialogs_inv_run: "dialogs_inv (fold page_step es (init_page areas))"
proof -
  have "dialogs_inv p \<Longrightarrow> dialogs_inv (fold page_step es p)" for p
    by (induction es arbitrary: p) (simp_all add: dialogs_inv_step)
  then show ?thesis by (simp add: dialogs_inv_def dialog_keys_def init_page_def)
qed

lemma later_has_no_handlers:
  "dialogs_inv p \<Longrightarrow> x \<in> set (tl (pg_dialogs p)) \<Longrightarrow> handlers_of (dl_id x) p = 0"
  by (cases "pg_dialogs p")
    (auto simp: dialogs_inv_def dialog_keys_def handlers_of_def list_all_iff find_Some_iff
      split: option.split)

section \<open>Properties\<close>

text \<open>
  C15: As long as a page only loads its areas, whatever the order of clicks, replies, errors and
  timeouts, at most one request is under way, the flag says exactly whether there is one, and the
  area that shows the loading mark is exactly the one whose content is awaited.
\<close>

theorem loads_one_at_a_time:
  assumes "\<And>i. \<not> ar_loading (areas i)" and "list_all is_load es"
  shows "let p = fold page_step es (init_page areas)
    in length (pg_requests p) \<le> 1 \<and> (isLoadingAjax p \<longleftrightarrow> pg_requests p \<noteq> [])
     \<and> (\<forall>i. ar_loading (pg_areas p i) \<longleftrightarrow> (\<exists>n r. (n, r) \<in> set (pg_requests p) \<and> rq_job r = Area_Job i))"
  using loader_inv_run [OF assms(2) loader_inv_init [OF assms(1)]]
  unfolding Let_def by (auto simp: loader_inv_def)

lemma loads_one_at_a_time_witness:
  "let p = fold page_step [Load ''a'' ''u'', Load ''b'' ''v'', Finish 0 (Data ''x''), Full ''w'']
             (init_page (\<lambda>i. \<lparr>ar_html = [], ar_loading = False\<rparr>))
    in length (pg_requests p) \<le> 1 \<and> (isLoadingAjax p \<longleftrightarrow> pg_requests p \<noteq> [])
     \<and> (\<forall>i. ar_loading (pg_areas p i) \<longleftrightarrow> (\<exists>n r. (n, r) \<in> set (pg_requests p) \<and> rq_job r = Area_Job i))"
  by (rule loads_one_at_a_time) (simp_all add: is_load_def)

text \<open>
  A dialog breaks that order.  Its request starts while a load is under way and its end clears
  the flag, so a second load of the same area starts; when the replies arrive in the other order
  the area shows the content of the first choice, not of the last.
\<close>

theorem dialog_lets_stale_content_win:
  "pg_areas (fold page_step
      [Load i (a # u1), Dialog \<lparr>do_caption = c, do_content = d, do_url = None\<rparr>, Finish 1 o1,
       Load i (b # u2), Finish 3 (Data second), Finish 0 (Data first)] (init_page areas)) i
    = \<lparr>ar_html = first, ar_loading = False\<rparr>"
  by (simp add: load_def ajax_def set_area_def init_page_def createDialog_def createBlanket_def
      finish_def drop_request_def on_complete_def showDialog_def Let_def)

text \<open>
  Creating a dialog stops the scrolling of the page for good: closing the dialog takes the
  blanket away but not the class that stops the scrolling, and no other operation does.
\<close>

theorem dialog_stops_scrolling:
  "pg_noscroll (fold page_step es (createDialog options (init_page areas)))"
  by (rule noscroll_run) (simp add: createDialog_def createBlanket_def init_page_def ajax_def)

text \<open>
  Only the first dialog of the page has handlers: whatever has happened on the page, the closing
  elements of a later dialog do nothing and its form sends no request.
\<close>

theorem later_dialogs_are_dead:
  assumes "x \<in> set (tl (pg_dialogs (fold page_step es (init_page areas))))"
  shows "page_step (Close (dl_id x)) (fold page_step es (init_page areas))
      = fold page_step es (init_page areas)
    \<and> page_step (Submit (dl_id x) url) (fold page_step es (init_page areas))
      = fold page_step es (init_page areas)"
  using later_has_no_handlers [OF dialogs_inv_run assms] by (simp add: close_click_def submitDialog_def)

lemma later_dialogs_are_dead_witness:
  "let o1 = \<lparr>do_caption = ''A'', do_content = ''f'', do_url = None\<rparr>;
       p = fold page_step [Dialog o1, Dialog o1, Finish 0 (Data []), Finish 1 (Data [])]
             (init_page (\<lambda>i. \<lparr>ar_html = [], ar_loading = False\<rparr>))
   in page_step (Close 3) p = p \<and> page_step (Submit 3 ''u'') p = p"
proof -
  let ?o = "\<lparr>do_caption = ''A'', do_content = ''f'', do_url = None\<rparr>"
  let ?x = "\<lparr>dl_id = 3, dl_caption = ''A'', dl_content = ''f'', dl_submitting = False, dl_handlers = 0\<rparr>"
  have "?x \<in> set (tl (pg_dialogs (fold page_step [Dialog ?o, Dialog ?o, Finish 0 (Data []), Finish 1 (Data [])]
             (init_page (\<lambda>i. \<lparr>ar_html = [], ar_loading = False\<rparr>)))))"
    by code_simp
  from later_dialogs_are_dead [OF this, of "''u''"] show ?thesis by (simp add: Let_def)
qed

text \<open>
  A dialog opened while the form of another is being saved stays on the page for good: the answer
  closes the first, and the second, now the only one, was never given its handlers.
\<close>

theorem dialog_opened_meanwhile_stays:
  "pg_dialogs (fold page_step
      [Dialog \<lparr>do_caption = c1, do_content = d1, do_url = None\<rparr>, Finish 0 o0, Submit 1 (u # us),
       Dialog \<lparr>do_caption = c2, do_content = d2, do_url = None\<rparr>, Finish 3 o3, Finish 2 (Data ok), Close 4]
      (init_page areas))
    = [\<lparr>dl_id = 4, dl_caption = c2, dl_content = d2, dl_submitting = False, dl_handlers = 0\<rparr>]"
  by (simp add: ajax_def init_page_def createDialog_def createBlanket_def finish_def drop_request_def
      on_complete_def showDialog_def Let_def close_click_def handlers_of_def submitDialog_def
      submit_handler_def set_submitting_def close_dialog_def)

text \<open>A click that closes a dialog with another behind it closes both.\<close>

theorem one_click_closes_two_dialogs:
  "pg_dialogs (fold page_step
      [Dialog \<lparr>do_caption = c1, do_content = d1, do_url = None\<rparr>,
       Dialog \<lparr>do_caption = c2, do_content = d2, do_url = None\<rparr>, Finish 0 o0, Finish 1 o1, Close 2]
      (init_page areas)) = []"
  by (simp add: ajax_def init_page_def createDialog_def createBlanket_def finish_def drop_request_def
      on_complete_def showDialog_def Let_def close_click_def handlers_of_def close_dialog_def
      numeral_eq_Suc)

end
