(* ===== verification/Page_Frame.thy ===== *)
theory Page_Frame
  imports Js_Prelude Run_Interface
begin

text \<open>
  The frame of the classic pages (\<open>main.js\<close>): the sidebar with its two modes, its cookies and its
  submenus, the rows of a table, the buttons of a node and the sizes that follow the window.  The
  ids of elements are those of a selector without special characters.
\<close>

section \<open>State\<close>

text \<open>
  A navigation button of the expanded panel has the blocks of its \<open>subnav\<close>; an icon of the
  collapsed panel has a submenu, if there was one beside it when the page was prepared.
\<close>

record submenu =
  sm_content :: "string list"
  sm_visible :: bool
  sm_active :: bool
  sm_pos :: "int \<times> int"

record icon =
  ic_id :: string
  ic_active :: bool
  ic_submenu :: "submenu option"

type_synonym navs = "(string \<times> string list) list"

record frame =
  fr_float :: bool
  fr_fixed :: bool
  fr_collapsed :: bool
  fr_maincol :: bool
  fr_cookies :: "(string \<times> string) list"
  fr_navs :: navs
  fr_icons :: "icon list"

definition cookie :: "string \<Rightarrow> (string \<times> string) list \<Rightarrow> string option" where
  "cookie k cs = map_of cs k"

definition set_cookie :: "string \<Rightarrow> bool \<Rightarrow> (string \<times> string) list \<Rightarrow> (string \<times> string) list" where
  "set_cookie k b cs = (k, to_str (JBool b)) # filter (\<lambda>(k', _). k' \<noteq> k) cs"

section \<open>Moving the subnavigation between the panels\<close>

definition find_icon :: "string \<Rightarrow> icon list \<Rightarrow> icon option" where
  "find_icon i ics = find (\<lambda>c. ic_id c = i) ics"

definition can_take :: "icon list \<Rightarrow> string \<Rightarrow> bool" where
  "can_take ics i = (case find_icon (i @ ''_collapsed'') ics of None \<Rightarrow> False | Some c \<Rightarrow> ic_submenu c \<noteq> None)"

text \<open>Appending blocks to the submenu of the first icon with an id.\<close>

fun put_icon :: "string \<Rightarrow> string list \<Rightarrow> icon list \<Rightarrow> icon list" where
  "put_icon i bs [] = []"
| "put_icon i bs (c # cs) =
     (if ic_id c = i
      then c\<lparr>ic_submenu := map_option (\<lambda>m. m\<lparr>sm_content := sm_content m @ bs\<rparr>) (ic_submenu c)\<rparr> # cs
      else c # put_icon i bs cs)"

fun put_nav :: "string \<Rightarrow> string list \<Rightarrow> navs \<Rightarrow> navs" where
  "put_nav i bs [] = []"
| "put_nav i bs ((k, xs) # ns) = (if k = i then (k, xs @ bs) # ns else (k, xs) # put_nav i bs ns)"

definition to_collapsed :: "navs \<times> icon list \<Rightarrow> navs \<times> icon list" where
  "to_collapsed = (\<lambda>(ns, ics).
     (map (\<lambda>(i, src). if can_take ics i then (i, []) else (i, src)) ns,
      fold (\<lambda>(i, src) cs. put_icon (i @ ''_collapsed'') src cs) ns ics))"

text \<open>\<open>id.split("_").shift()\<close>.\<close>

definition nav_of_icon :: "string \<Rightarrow> string" where
  "nav_of_icon i = takeWhile (\<lambda>c. c \<noteq> CHR ''_'') i"

definition blocks :: "icon \<Rightarrow> string list" where
  "blocks c = (case ic_submenu c of None \<Rightarrow> [] | Some m \<Rightarrow> sm_content m)"

definition to_expanded :: "navs \<times> icon list \<Rightarrow> navs \<times> icon list" where
  "to_expanded = (\<lambda>(ns, ics).
     (fold (\<lambda>c ns'. put_nav (nav_of_icon (ic_id c)) (blocks c) ns') ics ns,
      map (\<lambda>c. if nav_of_icon (ic_id c) \<in> set (map fst ns)
               then c\<lparr>ic_submenu := map_option (\<lambda>m. m\<lparr>sm_content := []\<rparr>) (ic_submenu c)\<rparr> else c) ics))"

section \<open>The clicks\<close>

definition sidebar_mode :: "frame \<Rightarrow> frame" where
  "sidebar_mode f =
     (let fl = (\<not> fr_float f)
      in f\<lparr>fr_float := fl, fr_cookies := set_cookie ''sidebar_mode'' fl (fr_cookies f)\<rparr>)"

definition sidebar_toggle :: "frame \<Rightarrow> frame" where
  "sidebar_toggle f =
     (let c = (\<not> fr_collapsed f);
          (ns, ics) = (if c then to_collapsed else to_expanded) (fr_navs f, fr_icons f)
      in f\<lparr>fr_collapsed := c, fr_maincol := (\<not> fr_maincol f),
           fr_cookies := set_cookie ''sidebar_toggle'' c (fr_cookies f), fr_navs := ns, fr_icons := ics\<rparr>)"

text \<open>Opening a page: its markup is expanded and fixed in the page, then the cookies are read.\<close>

definition mainJquery :: "(string \<times> string) list \<Rightarrow> navs \<Rightarrow> icon list \<Rightarrow> frame" where
  "mainJquery cs ns ics =
     (let f = \<lparr>fr_float = (cookie ''sidebar_mode'' cs = Some ''true''), fr_fixed = False,
               fr_collapsed = False, fr_maincol = False, fr_cookies = cs, fr_navs = ns, fr_icons = ics\<rparr>
      in if cookie ''sidebar_toggle'' cs = Some ''true'' then sidebar_toggle f else f)"

definition scroll :: "int \<Rightarrow> int \<Rightarrow> frame \<Rightarrow> frame" where
  "scroll mainTop scrollTop f =
     (if fr_float f then f\<lparr>fr_fixed := (scrollTop > mainTop)\<rparr> else f)"

section \<open>Submenus\<close>

definition map_submenu :: "(submenu \<Rightarrow> submenu) \<Rightarrow> icon \<Rightarrow> icon" where
  "map_submenu g c = c\<lparr>ic_submenu := map_option g (ic_submenu c)\<rparr>"

definition showSidebarSubmenu :: "int \<times> int \<Rightarrow> icon \<Rightarrow> icon" where
  "showSidebarSubmenu pos c =
     map_submenu (\<lambda>m. m\<lparr>sm_visible := True, sm_pos := (fst pos + 50, snd pos - 30)\<rparr>) c"

definition icon_enter :: "int \<times> int \<Rightarrow> icon \<Rightarrow> icon" where
  "icon_enter pos c = (if ic_active c then showSidebarSubmenu pos c else c)"

text \<open>\<open>into\<close>: the pointer goes to the icon's own submenu.\<close>

definition icon_leave :: "bool \<Rightarrow> icon \<Rightarrow> icon" where
  "icon_leave into c =
     (if ic_active c \<and> \<not> into then map_submenu (\<lambda>m. m\<lparr>sm_visible := False\<rparr>) c else c)"

text \<open>
  The element the pointer goes to: none when it leaves the window, which throws; otherwise whether
  it is the icon of this submenu and whether it is an open list of select2.
\<close>

definition submenu_leave :: "(bool \<times> bool) option \<Rightarrow> icon list \<Rightarrow> icon list res" where
  "submenu_leave relatedTarget ics =
     (case relatedTarget of
        None \<Rightarrow> Inl TypeError
      | Some (own, listed) \<Rightarrow>
          Inr (if \<not> own \<and> \<not> listed
               then map (map_submenu (\<lambda>m. m\<lparr>sm_visible := False, sm_active := False\<rparr>)) ics else ics))"

section \<open>Tables and node buttons\<close>

definition click_row :: "nat \<Rightarrow> bool list \<Rightarrow> bool list" where
  "click_row i rows =
     (if i < length rows then (if rows ! i then rows[i := False] else (map (\<lambda>_. False) rows)[i := True]) else rows)"

text \<open>The address the button \<open>create\<close> opens; a node without a selector has no value to measure.\<close>

definition node_create :: "string option \<Rightarrow> string option res" where
  "node_create url =
     (case url of None \<Rightarrow> Inl TypeError | Some u \<Rightarrow> Inr (if u \<noteq> [] then Some (u @ ''/create'') else None))"

definition or_else :: "string option \<Rightarrow> string option \<Rightarrow> string option" where
  "or_else a b = (if a = None \<or> a = Some [] then b else a)"

definition node_show :: "string option \<Rightarrow> string option \<Rightarrow> string option \<Rightarrow> string option" where
  "node_show url grp trigger = or_else (or_else url grp) trigger"

section \<open>Sizes\<close>

definition dropdown_pos :: "int \<times> int \<Rightarrow> int \<times> int \<Rightarrow> int \<times> int \<Rightarrow> int \<times> int" where
  "dropdown_pos = (\<lambda>(fw, fh) (w, h) (left, tp).
     (if left + w > fw then fw - w else left, if tp + h > fh then fh - h else tp))"

definition window_resize :: "int \<Rightarrow> int \<Rightarrow> int \<Rightarrow> int" where
  "window_resize wh header footer = wh - header - footer - 20"

definition fixFooter :: "int \<Rightarrow> int" where
  "fixFooter footer = footer + 10"

record sidebar_box =
  bx_main_top :: int
  bx_footer_top :: int
  bx_header :: int
  bx_footer :: int

text \<open>The height of the sidebar, where it is set, and of its content.\<close>

definition resizeFloatSidebar :: "int \<Rightarrow> int \<Rightarrow> bool \<Rightarrow> sidebar_box \<Rightarrow> int option \<times> int" where
  "resizeFloatSidebar wh scrollTop fixed b =
     (if fixed then (None, wh - bx_footer b - bx_header b - 40)
      else (let tp = bx_main_top b - scrollTop;
                h0 = bx_footer_top b - tp;
                h = (if h0 + tp > wh then wh - tp else h0)
            in (Some h, h - bx_footer b - bx_header b - 40)))"

definition resizeSidebar :: "frame \<Rightarrow> int \<Rightarrow> int \<Rightarrow> sidebar_box \<Rightarrow> (int option \<times> int) option" where
  "resizeSidebar f wh scrollTop b =
     (if fr_float f then Some (resizeFloatSidebar wh scrollTop (fr_fixed f) b) else None)"

text \<open>
  A dialog is its form body and what surrounds it.  The results are the height of the body, if it
  is set (a negative one is no valid style), and twice the margin at the top.
\<close>

definition resizeDialog :: "int \<Rightarrow> int \<Rightarrow> int \<Rightarrow> int option \<times> int" where
  "resizeDialog wh around body =
     (let ph = wh - 20; dh = around + body;
          new = (if dh > ph \<and> ph - (dh - body) \<ge> 0 then Some (ph - (dh - body)) else None)
      in (new, - (around + (case new of None \<Rightarrow> body | Some h \<Rightarrow> h))))"

section \<open>Lemmas\<close>

lemma dropdown_inside:
  "0 \<le> left \<Longrightarrow> w \<le> fw \<Longrightarrow> 0 \<le> tp \<Longrightarrow> h \<le> fh \<Longrightarrow>
   (let (l, t) = dropdown_pos (fw, fh) (w, h) (left, tp) in 0 \<le> l \<and> l + w \<le> fw \<and> 0 \<le> t \<and> t + h \<le> fh)"
  by (simp add: dropdown_pos_def)

lemma dialog_fits:
  "around \<le> wh - 20 \<Longrightarrow>
   (let (new, m) = resizeDialog wh around body in around + (case new of None \<Rightarrow> body | Some h \<Rightarrow> h) \<le> wh - 20)"
  by (simp add: resizeDialog_def Let_def)

lemma filter_update: "j < length rows \<Longrightarrow> \<not> rows ! j \<Longrightarrow>
    length (filter (\<lambda>b. b) (rows[j := True])) = Suc (length (filter (\<lambda>b. b) rows))"
  by (induction rows arbitrary: j) (auto split: nat.split simp: less_Suc_eq_0_disj)

lemma filter_clear: "length (filter (\<lambda>b. b) (rows[j := False])) \<le> length (filter (\<lambda>b. b) rows)"
  by (induction rows arbitrary: j) (auto split: nat.split simp: le_SucI)

lemma one_row_focused:
  "length (filter (\<lambda>b. b) rows) \<le> 1 \<Longrightarrow> length (filter (\<lambda>b. b) (click_row i rows)) \<le> 1"
  using filter_clear [of rows i] filter_update [of i "map (\<lambda>_. False) rows"]
  by (auto simp: click_row_def)

lemma cookie_set [simp]:
  "cookie k (set_cookie k' b cs) = (if k = k' then Some (to_str (JBool b)) else cookie k cs)"
  by (induction cs) (auto simp: cookie_def set_cookie_def)

datatype frame_click = Mode | Toggle

fun frame_step :: "frame_click \<Rightarrow> frame \<Rightarrow> frame" where
  "frame_step Mode f = sidebar_mode f"
| "frame_step Toggle f = sidebar_toggle f"

definition cookies_agree :: "frame \<Rightarrow> bool" where
  "cookies_agree f \<longleftrightarrow>
     fr_float f = (cookie ''sidebar_mode'' (fr_cookies f) = Some ''true'')
     \<and> fr_collapsed f = (cookie ''sidebar_toggle'' (fr_cookies f) = Some ''true'')"

lemma toggle_fields:
  "fr_collapsed (sidebar_toggle f) = (\<not> fr_collapsed f)"
  "fr_float (sidebar_toggle f) = fr_float f"
  "fr_cookies (sidebar_toggle f) = set_cookie ''sidebar_toggle'' (\<not> fr_collapsed f) (fr_cookies f)"
  by (simp_all add: sidebar_toggle_def Let_def split: prod.split)

lemma cookies_agree_step: "cookies_agree f \<Longrightarrow> cookies_agree (frame_step c f)"
  by (cases c) (auto simp: cookies_agree_def sidebar_mode_def toggle_fields Let_def)

lemma cookies_agree_open: "cookies_agree (mainJquery cs ns ics)"
  by (auto simp: cookies_agree_def mainJquery_def toggle_fields Let_def)

interpretation frame_cookies: event_run frame_step cookies_agree "\<lambda>_. True"
  by unfold_locales (rule cookies_agree_step)

lemma cookies_agree_run: "cookies_agree f \<Longrightarrow> cookies_agree (fold frame_step es f)"
  by (simp add: frame_cookies.run_inv list_all_iff)

lemma cookies_agree_state:
  "cookies_agree f \<Longrightarrow>
   fr_float (mainJquery (fr_cookies f) ns ics) = fr_float f
   \<and> fr_collapsed (mainJquery (fr_cookies f) ns ics) = fr_collapsed f"
  by (auto simp: cookies_agree_def mainJquery_def toggle_fields Let_def)

definition icon_of :: "string \<Rightarrow> string list \<Rightarrow> icon" where
  "icon_of i bs = \<lparr>ic_id = i @ ''_collapsed'', ic_active = False,
     ic_submenu = Some \<lparr>sm_content = bs, sm_visible = False, sm_active = False, sm_pos = (0, 0)\<rparr>\<rparr>"

lemma icon_of_simps [simp]:
  "ic_id (icon_of i bs) = i @ ''_collapsed''"
  "blocks (icon_of i bs) = bs"
  by (simp_all add: icon_of_def blocks_def)

lemma put_icon_skip: "i \<notin> ic_id ` set cs \<Longrightarrow> put_icon i bs (cs @ ds) = cs @ put_icon i bs ds"
  by (induction cs) auto

lemma put_nav_skip: "i \<notin> fst ` set ns \<Longrightarrow> put_nav i bs (ns @ ms) = ns @ put_nav i bs ms"
  by (induction ns) auto

lemma icon_of_updates [simp]:
  "(icon_of i [])\<lparr>ic_submenu := map_option (\<lambda>m. m\<lparr>sm_content := sm_content m @ bs\<rparr>)
     (ic_submenu (icon_of i []))\<rparr> = icon_of i bs"
  "(icon_of i bs)\<lparr>ic_submenu := map_option (\<lambda>m. m\<lparr>sm_content := []\<rparr>) (ic_submenu (icon_of i bs))\<rparr> = icon_of i []"
  by (simp_all add: icon_of_def)

lemma nav_of_icon_of: "CHR ''_'' \<notin> set i \<Longrightarrow> nav_of_icon (i @ ''_collapsed'') = i"
  by (induction i) (auto simp: nav_of_icon_def)

lemma find_icon_of:
  "i \<in> set (map fst ns) \<Longrightarrow> can_take (map (\<lambda>(i, _). icon_of i []) ns) i"
  by (induction ns) (auto simp: can_take_def find_icon_def icon_of_def)

lemma collapse_fold:
  "distinct (map fst (ms @ ns)) \<Longrightarrow>
   fold (\<lambda>(i, src) cs. put_icon (i @ ''_collapsed'') src cs) ns
     (map (\<lambda>(i, src). icon_of i src) ms @ map (\<lambda>(i, _). icon_of i []) ns)
   = map (\<lambda>(i, src). icon_of i src) (ms @ ns)"
proof (induction ns arbitrary: ms)
  case Nil
  then show ?case by simp
next
  case (Cons n ns)
  obtain i src where n: "n = (i, src)" by (cases n)
  with Cons.prems have "i @ ''_collapsed'' \<notin> ic_id ` set (map (\<lambda>(i, src). icon_of i src) ms)"
    by (force simp: image_iff)
  with Cons.IH [of "ms @ [n]"] Cons.prems n show ?case
    by (simp add: put_icon_skip)
qed

lemma collapse_all:
  "distinct (map fst ns) \<Longrightarrow>
   to_collapsed (ns, map (\<lambda>(i, _). icon_of i []) ns) =
     (map (\<lambda>(i, _). (i, [])) ns, map (\<lambda>(i, src). icon_of i src) ns)"
  using collapse_fold [of "[]" ns] find_icon_of [of _ ns]
  by (force simp: to_collapsed_def)

lemma expand_fold:
  "distinct (map fst (ms @ ns)) \<Longrightarrow> \<forall>i\<in>set (map fst ns). CHR ''_'' \<notin> set i \<Longrightarrow>
   fold (\<lambda>c ns'. put_nav (nav_of_icon (ic_id c)) (blocks c) ns') (map (\<lambda>(i, src). icon_of i src) ns)
     (ms @ map (\<lambda>(i, _). (i, [])) ns) = ms @ ns"
proof (induction ns arbitrary: ms)
  case Nil
  then show ?case by simp
next
  case (Cons n ns)
  obtain i src where n: "n = (i, src)" by (cases n)
  with Cons.prems have "i \<notin> fst ` set ms" by auto
  with Cons.IH [of "ms @ [n]"] Cons.prems n show ?case
    by (simp add: put_nav_skip nav_of_icon_of)
qed

section \<open>Properties\<close>

text \<open>
  Whatever cookies a page is opened with and whatever the user clicks, a page opened afterwards
  has its sidebar in the same mode and equally collapsed or expanded.
\<close>

theorem frame_survives_reload:
  "let f = fold frame_step clicks (mainJquery cs ns ics); g = mainJquery (fr_cookies f) ns' ics'
   in fr_float g = fr_float f \<and> fr_collapsed g = fr_collapsed f"
  unfolding Let_def by (rule cookies_agree_state) (rule cookies_agree_run [OF cookies_agree_open])

text \<open>
  C26: Collapsing the sidebar moves the blocks of every node to the submenu of its icon, and
  expanding it puts each of them back under its own node, when the ids of the nodes are distinct and
  hold no underscore.
\<close>

theorem subnav_roundtrip:
  assumes "distinct (map fst ns)" and "list_all (\<lambda>(i, _). CHR ''_'' \<notin> set i) ns"
  shows "let mid = to_collapsed (ns, map (\<lambda>(i, _). icon_of i []) ns)
    in fst mid = map (\<lambda>(i, _). (i, [])) ns \<and> map blocks (snd mid) = map snd ns
     \<and> to_expanded mid = (ns, map (\<lambda>(i, _). icon_of i []) ns)"
proof -
  have clean: "\<forall>i\<in>set (map fst ns). CHR ''_'' \<notin> set i"
    using assms(2) by (auto simp: list_all_iff)
  have "to_expanded (map (\<lambda>(i, _). (i, [])) ns, map (\<lambda>(i, src). icon_of i src) ns)
      = (ns, map (\<lambda>(i, _). icon_of i []) ns)"
  proof -
    have names: "map fst (map (\<lambda>(i, _). (i, [] :: string list)) ns) = map fst ns" by auto
    have "nav_of_icon (i @ ''_collapsed'') \<in> set (map fst ns)" if "(i, src) \<in> set ns" for i src
      using that clean by (force simp: nav_of_icon_of)
    then show ?thesis
      using expand_fold [of "[]" ns] assms(1) clean
      unfolding to_expanded_def names prod.case by (auto simp del: set_map)
  qed
  then show ?thesis
    unfolding collapse_all [OF assms(1)] Let_def by (simp add: comp_def case_prod_unfold)
qed

lemma subnav_roundtrip_witness:
  "to_expanded (to_collapsed ([(''a'', [''x'']), (''b'', [''y'', ''z''])], [icon_of ''a'' [], icon_of ''b'' []]))
     = ([(''a'', [''x'']), (''b'', [''y'', ''z''])], [icon_of ''a'' [], icon_of ''b'' []])"
  using subnav_roundtrip [of "[(''a'', [''x'']), (''b'', [''y'', ''z''])]"] by (simp add: Let_def)

text \<open>An underscore in a node's id: the blocks do not come back, and may go to another node.\<close>

lemma subnav_lost: "to_expanded (to_collapsed ([(''n_a'', [''x''])], [icon_of ''n_a'' []])) =
    ([(''n_a'', [])], [icon_of ''n_a'' [''x'']])"
  by code_simp

end
