(* ===== verification/Editable.thy ===== *)
theory Editable
  imports Js_Prelude Run_Interface
begin

text \<open>
  \<open>editable.js\<close>: the fields of a page that are edited in place.  A field is inactive, active or
  active and saving; its editor is built as markup in the page, and a reply of the server is
  shown in every field with the same \<open>input-id\<close>.  What the browser makes of markup is the parameter
  \<open>dom\<close>: the text of a markup, the content of the first element inside it that matches a selector,
  and the value of a in_quotes attribute.
\<close>

section \<open>Fields\<close>

record dom =
  text_of :: "string \<Rightarrow> string"
  inner_html :: "string \<Rightarrow> string \<Rightarrow> string option"
  attr_text :: "string \<Rightarrow> string"

text \<open>A reference field consists of the shown value and a hidden selector, until it is overwritten.\<close>

datatype view = Markup string | Ref_View string bool

record edata =
  ed_text :: string
  ed_type :: string
  ed_attr :: string
  ed_class :: string
  ed_item :: string

record efield =
  ef_input_id :: string
  ef_active :: bool
  ef_saving :: bool
  ef_view :: view
  ef_data :: "edata option"
  ef_value :: "string option"

definition view_text :: "dom \<Rightarrow> view \<Rightarrow> string" where
  "view_text d v = (case v of Markup m \<Rightarrow> text_of d m | Ref_View r _ \<Rightarrow> text_of d r)"

definition view_inner :: "dom \<Rightarrow> string \<Rightarrow> view \<Rightarrow> string option" where
  "view_inner d sel v =
     (case v of Markup m \<Rightarrow> inner_html d sel m
      | Ref_View r _ \<Rightarrow> if sel = ''.ref-value'' then Some r else inner_html d sel r)"

definition undef_text :: "string option \<Rightarrow> string" where
  "undef_text x = (case x of None \<Rightarrow> ''undefined'' | Some s \<Rightarrow> s)"

definition part :: "nat \<Rightarrow> string list \<Rightarrow> string" where
  "part n xs = (if n < length xs then xs ! n else ''undefined'')"

definition edit_icon :: string where
  "edit_icon = ''<span class=\"overlay-icon icon icon-small iconfont-edit\"></span>''"

section \<open>Preparing a field\<close>

definition link_of :: "string \<Rightarrow> string" where
  "link_of t = ''<a href=\"//'' @ t @ ''\">'' @ t @ ''</a>''"

text \<open>The text a cancellation brings back; \<open>data\<close> with an undefined value keeps what it had.\<close>

definition input_text :: "dom \<Rightarrow> string \<Rightarrow> view \<Rightarrow> string" where
  "input_text d itype v =
     (let t = view_text d v
      in if itype = ''html'' then (case view_inner d ''div.tinymce-content'' v of None \<Rightarrow> t | Some h \<Rightarrow> h)
         else if itype = ''url'' then link_of t
         else if itype = ''ref'' then (case view_inner d ''.ref-value'' v of None \<Rightarrow> t | Some h \<Rightarrow> h)
         else if itype = ''file'' \<or> itype = ''imgFile''
           then ''<div class='file'>'' @ undef_text (view_inner d ''.file'' v) @ ''</div>''
         else if itype = ''img''
           then ''<div class='image' style='width:100%;height:100%;'>''
                @ undef_text (view_inner d ''div.image'' v) @ ''</div>''
         else t)"

definition setEditable :: "dom \<Rightarrow> efield \<Rightarrow> efield" where
  "setEditable d f =
     (let info = split_on CHR ''-'' (ef_input_id f); itype = part 0 info
      in f\<lparr>ef_data := Some \<lparr>ed_text = input_text d itype (ef_view f), ed_type = itype,
             ed_attr = part 1 info, ed_class = part 2 info, ed_item = part 3 info\<rparr>\<rparr>)"

section \<open>Editors\<close>

definition save_options :: string where
  "save_options =
     ''<span class='overlay-icon throbber'></span><div class='save-options'>'' @
     ''<button type='button' class='btn submit'><span class='icon icon-small iconfont-success'>Save</span></button>'' @
     ''<button type='button' class='btn cancel'><span class='icon icon-small iconfont-close-dialog'>Cancel</span></button></div>''"

definition form_markup :: "string \<Rightarrow> string" where
  "form_markup input =
     ''<form class='frm' method='post' action='#'><div class='field-group'>'' @ input @ ''</div>'' @
     save_options @ ''</form>''"

text \<open>\<open>value='\<dots>'\<close> in markup ends at the first apostrophe of the text.\<close>

definition quoted_value :: "dom \<Rightarrow> string \<Rightarrow> string" where
  "quoted_value d t = attr_text d (takeWhile (\<lambda>c. c \<noteq> CHR 0x27) t)"

definition in_quotes :: "string \<Rightarrow> string" where
  "in_quotes s = [CHR 0x27] @ s @ [CHR 0x27]"

definition activeText :: "dom \<Rightarrow> edata \<Rightarrow> efield \<Rightarrow> efield" where
  "activeText d e f =
     (let t = view_text d (ef_view f)
      in f\<lparr>ef_view := Markup (form_markup
             (''<input type='text' class='text' name='' @ in_quotes (ed_attr e) @ ''value='' @ in_quotes t @ ''/>'')),
           ef_value := Some (quoted_value d t)\<rparr>)"

definition activeNumber :: "dom \<Rightarrow> edata \<Rightarrow> efield \<Rightarrow> efield" where
  "activeNumber d e f =
     (let t = view_text d (ef_view f); step = (if ed_type e = ''decimal'' then ''0.1'' else ''1'')
      in f\<lparr>ef_view := Markup (form_markup
             (''<input type='number' class='text' name='' @ in_quotes (ed_attr e) @ ''value='' @ in_quotes t
              @ '' step='' @ in_quotes step @ '' />'')),
           ef_value := Some (quoted_value d t)\<rparr>)"

definition activeDate :: "dom \<Rightarrow> edata \<Rightarrow> efield \<Rightarrow> efield" where
  "activeDate d e f =
     f\<lparr>ef_view := Markup (''<input id='' @ in_quotes (ed_item e) @ '' type='text' name='' @ in_quotes (ed_attr e)
          @ '' class='datepicker' value='' @ in_quotes (ed_text e) @ ''  />''),
       ef_value := Some (quoted_value d (ed_text e))\<rparr>"

definition item_path :: "edata \<Rightarrow> string" where
  "item_path e = ''/'' @ ed_class e @ ''%3A'' @ ed_item e"

text \<open>The markup of a file form is an invisible frame and the form; both get the save options.\<close>

definition activeFile :: "string \<Rightarrow> edata \<Rightarrow> efield \<Rightarrow> efield" where
  "activeFile href e f =
     f\<lparr>ef_view := Markup
         (''<iframe id='uploader' name='uploader' class='editable-hidden'>'' @ save_options @ ''</iframe>'' @
          ''<form name='file-upload' class='frm file-upload' method='post' action='' @ in_quotes (href @ item_path e @ ''/file'')
          @ '' enctype='multipart/form-data' target='uploader'><div class='field-group'>''
          @ ''<input type='file' class='open-file' name='' @ in_quotes (ed_attr e) @ '' />'' @ ''</div>''
          @ save_options @ ''</form>''),
       ef_value := None\<rparr>"

text \<open>The boxes over the page in which texts, formatted texts and images are edited.\<close>

definition activeTextArea :: "edata \<Rightarrow> string" where
  "activeTextArea e =
     ''<textarea class='editable-textarea' style='resize: none; width: 100%; height: 90%; display:inline-block;'>''
     @ ed_text e @ ''</textarea>''"

definition activeHTML :: "edata \<Rightarrow> string" where
  "activeHTML e =
     ''<div style='width: 100%; height: 90%; display:inline-block;'><textarea class='wysiwyg'>'' @ ed_text e
     @ ''</textarea></div>''"

text \<open>The caption of the upload button is Russian, here as its bytes.\<close>

definition upload_caption :: string where
  "upload_caption = map char_of
     [208::nat, 151, 208, 176, 208, 179, 209, 128, 209, 131, 208, 183, 208, 184, 209, 130, 209, 140]"

definition image_form :: "string \<Rightarrow> string \<Rightarrow> edata \<Rightarrow> string" where
  "image_form cls href e =
     ''<iframe id='uploader' name='uploader' class='editable-hidden'></iframe><form name='image-upload' class=''
     @ in_quotes cls @ '' method='post' action='' @ in_quotes (href @ item_path e @ ''/file'')
     @ '' enctype='multipart/form-data' target='uploader'><div class='field-group'><input type='file' class='open-file' name=''
     @ in_quotes (ed_attr e) @ '' /><button type='button' id='loadImage'>'' @ upload_caption @ ''</button></div>''"

definition activeImage :: "string \<Rightarrow> edata \<Rightarrow> string" where
  "activeImage href e = image_form ''file-upload'' href e @ ed_text e @ ''</form>''"

text \<open>The end of the form is a statement of its own and does not belong to the markup.\<close>

definition activeImageFile :: "string \<Rightarrow> string \<Rightarrow> edata \<Rightarrow> string" where
  "activeImageFile imgUrl href e =
     image_form ''file-upload'' href e @ ''<div class='image'><img src='' @ in_quotes imgUrl @ ''></img></div>''"

text \<open>The box an activation opens; \<open>imgUrl\<close> is the address of the field's link.\<close>

definition opened_box :: "string \<Rightarrow> string \<Rightarrow> edata \<Rightarrow> string option" where
  "opened_box href imgUrl e =
     (if ed_type e = ''textarea'' then Some (activeTextArea e)
      else if ed_type e = ''html'' then Some (activeHTML e)
      else if ed_type e = ''img'' then Some (activeImage href e)
      else if ed_type e = ''imgFile'' then Some (activeImageFile imgUrl href e)
      else None)"

definition activeRef :: "efield \<Rightarrow> efield" where
  "activeRef f = (case ef_view f of Ref_View r _ \<Rightarrow> f\<lparr>ef_view := Ref_View r True\<rparr> | Markup _ \<Rightarrow> f)"

text \<open>\<open>actions.active\<close>; \<open>icon\<close>: the click was on the edit icon.  Texts in a box and images open a box
  over the page and leave the field as it is.\<close>

definition activate :: "dom \<Rightarrow> string \<Rightarrow> bool \<Rightarrow> efield \<Rightarrow> efield" where
  "activate d href icon f =
     (case ef_data f of
        None \<Rightarrow> f
      | Some e \<Rightarrow>
          (let t = ed_type e
           in if t = ''textarea'' \<or> t = ''html'' \<or> t = ''img'' \<or> t = ''imgFile'' then f
              else if t = ''date'' then activeDate d e f
              else if t = ''url'' then (if icon then activeText d e f else f)
              else if t = ''ref'' then (if icon then activeRef f else f)
              else if t = ''file'' then activeFile href e f
              else if t = ''number'' \<or> t = ''decimal'' then activeNumber d e f
              else activeText d e f))"

section \<open>Cancelling\<close>

definition data_text :: "efield \<Rightarrow> string" where
  "data_text f = undef_text (map_option ed_text (ef_data f))"

definition closed_with :: "string \<Rightarrow> efield \<Rightarrow> efield" where
  "closed_with t f = f\<lparr>ef_view := Markup (t @ edit_icon), ef_active := False, ef_value := None\<rparr>"

text \<open>\<open>cancelEditable\<close> and \<open>cancelUrl\<close> of one field, and \<open>cancelRef\<close>.\<close>

definition cancelEditable :: "efield \<Rightarrow> efield" where
  "cancelEditable f = (if ef_saving f then f else closed_with (data_text f) f)"

definition cancelRef :: "efield \<Rightarrow> efield" where
  "cancelRef f =
     (if ef_saving f then f
      else f\<lparr>ef_view := (case ef_view f of Ref_View _ _ \<Rightarrow> Ref_View (data_text f) False | Markup m \<Rightarrow> Markup m),
             ef_active := False\<rparr>)"

text \<open>
  \<open>cancelEditable($(".editable-field.active"))\<close>: the test is whether any of the fields is saving,
  the text is that of the first one, and the change is made to all of them.
\<close>

definition cancel_active :: "efield list \<Rightarrow> efield list" where
  "cancel_active fs =
     (case filter ef_active fs of
        [] \<Rightarrow> fs
      | g # gs \<Rightarrow>
          if list_ex ef_saving (g # gs) then fs
          else map (\<lambda>f. if ef_active f then closed_with (data_text g) f else f) fs)"

definition action_cancel :: "efield \<Rightarrow> efield" where
  "action_cancel f =
     (case ef_data f of None \<Rightarrow> f | Some e \<Rightarrow> if ed_type e = ''ref'' then cancelRef f else cancelEditable f)"

section \<open>Saving\<close>

datatype reply_kind = Echo | Echo_Date | Known string | File_Link

record erequest =
  er_path :: string
  er_attr :: string
  er_value :: string
  er_input_id :: string
  er_kind :: reply_kind

definition start_saving :: "efield \<Rightarrow> efield" where
  "start_saving f = f\<lparr>ef_saving := True\<rparr>"

definition save_request :: "efield \<Rightarrow> edata \<Rightarrow> string \<Rightarrow> reply_kind \<Rightarrow> erequest" where
  "save_request f e v k = \<lparr>er_path = item_path e, er_attr = ed_attr e, er_value = v,
     er_input_id = ef_input_id f, er_kind = k\<rparr>"

text \<open>\<open>submitText\<close> sends the value of the input, the others what their editor hands them.\<close>

definition submitText :: "efield \<Rightarrow> edata \<Rightarrow> erequest" where
  "submitText f e = save_request f e (undef_text (ef_value f)) Echo"

definition submitTextArea :: "efield \<Rightarrow> edata \<Rightarrow> string \<Rightarrow> erequest" where
  "submitTextArea f e data = save_request f e data Echo"

definition submitHTML :: "efield \<Rightarrow> edata \<Rightarrow> string \<Rightarrow> erequest" where
  "submitHTML f e data = save_request f e data Echo"

definition submitDate :: "efield \<Rightarrow> edata \<Rightarrow> string \<Rightarrow> erequest" where
  "submitDate f e date = save_request f e date Echo_Date"

text \<open>The selected option of a reference, its class, and the location of the page.\<close>

definition submitRef :: "string \<Rightarrow> string \<Rightarrow> string \<Rightarrow> string \<Rightarrow> efield \<Rightarrow> edata \<Rightarrow> erequest" where
  "submitRef href cls val selection f e =
     save_request f e val
       (Known (''<a href='' @ in_quotes (href @ ''/'' @ cls @ '':'' @ val) @ ''>'' @ selection @ ''</a>''))"

definition submitFile :: "efield \<Rightarrow> edata \<Rightarrow> erequest" where
  "submitFile f e = (save_request f e [] File_Link)\<lparr>er_path := item_path e @ ''/file''\<rparr>"

section \<open>Replies\<close>

definition success :: "string \<Rightarrow> efield \<Rightarrow> efield" where
  "success v f =
     (case ef_data f of
        None \<Rightarrow> f
      | Some e \<Rightarrow>
          (let t = ed_type e;
               text = (if t = ''html'' then ''<div class=\"tinymce-content\">'' @ v @ ''</div>''
                       else if t = ''url'' then link_of v else v);
               f' = f\<lparr>ef_data := Some (e\<lparr>ed_text := text\<rparr>), ef_saving := False\<rparr>
           in if t = ''ref'' then cancelRef f' else cancelEditable f'))"

definition successForEeachEditable :: "dom \<Rightarrow> string \<Rightarrow> string \<Rightarrow> efield list \<Rightarrow> efield list" where
  "successForEeachEditable d inputId v fs =
     map (\<lambda>f. if ef_input_id f = inputId
              then success v (if ef_data f = None then setEditable d f else f) else f) fs"

text \<open>
  The text a reply puts into the fields: \<open>data.data[attr]\<close>, formatted when it is a date (a
  parameter), or the link to the file.  A reply without \<open>data\<close> throws.
\<close>

definition reply_text :: "(jsval \<Rightarrow> string) \<Rightarrow> erequest \<Rightarrow> jsval \<Rightarrow> string res" where
  "reply_text formatDate r data =
     (case er_kind r of
        Known s \<Rightarrow> Inr s
      | Echo \<Rightarrow> rbind (vget data (er_attr r)) (\<lambda>v. Inr (to_str v))
      | Echo_Date \<Rightarrow> rbind (vget data (er_attr r)) (\<lambda>v. Inr (formatDate v))
      | File_Link \<Rightarrow> rbind (vget data ''fileUrl'') (\<lambda>u. rbind (vget data ''fileName'') (\<lambda>n.
          Inr (''<a href='' @ in_quotes (to_str u) @ ''>'' @ to_str n @ ''</a>''))))"

text \<open>The upload of an image updates the image and the link of the same attribute.\<close>

definition image_loaded :: "dom \<Rightarrow> string \<Rightarrow> string \<Rightarrow> string \<Rightarrow> edata \<Rightarrow> efield list \<Rightarrow> efield list" where
  "image_loaded d height url name e fs =
     (let inputId = ''-'' @ ed_attr e @ ''-'' @ ed_class e @ ''-'' @ ed_item e;
          image = ''<img src='' @ in_quotes url @ '' style='' @ in_quotes (''width:auto;max-height:'' @ height @ ''px;'') @ '' />''
      in successForEeachEditable d (''imgFile'' @ inputId)
           (''<div class='file'><a href='' @ in_quotes url @ ''>'' @ name @ ''</a></div>'')
           (successForEeachEditable d (''img'' @ inputId) (''<div class='image'>'' @ image @ ''</div>'') fs))"

section \<open>Steps\<close>

record epage =
  ep_fields :: "efield list"
  ep_requests :: "(nat \<times> erequest) list"
  ep_next :: nat

record edit_browser =
  br_dom :: dom
  br_href :: string
  br_formatDate :: "jsval \<Rightarrow> string"

text \<open>
  A submission comes from the button (with the class, value and text of the selected option, which
  only a reference has), from the closing of a box with its text, or from the date picker.
\<close>

datatype submission = Button string string string | Box string | Picked string

definition action_submit :: "edit_browser \<Rightarrow> submission \<Rightarrow> efield \<Rightarrow> edata \<Rightarrow> erequest" where
  "action_submit b sub f e =
     (case sub of
        Button cls val selection \<Rightarrow>
          if ed_type e = ''ref'' then submitRef (br_href b) cls val selection f e
          else if ed_type e = ''file'' then submitFile f e
          else submitText f e
      | Box t \<Rightarrow> if ed_type e = ''html'' then submitHTML f e t else submitTextArea f e t
      | Picked t \<Rightarrow> submitDate f e t)"

datatype edit_event =
    Click nat bool
  | Typed nat string
  | Submit_Edit nat submission
  | Cancel_Edit nat
  | Image_Loaded nat string string string
  | Image_Closed nat
  | Edit_Reply nat jsval

definition on_field :: "nat \<Rightarrow> (efield \<Rightarrow> efield) \<Rightarrow> efield list \<Rightarrow> efield list" where
  "on_field i g fs = (if i < length fs then fs[i := g (fs ! i)] else fs)"

definition click_field :: "edit_browser \<Rightarrow> nat \<Rightarrow> bool \<Rightarrow> efield list \<Rightarrow> efield list" where
  "click_field b i icon fs =
     (if i < length fs \<and> \<not> ef_active (fs ! i)
      then on_field i (\<lambda>f. activate (br_dom b) (br_href b) icon
             (setEditable (br_dom b) (f\<lparr>ef_active := True\<rparr>))) (cancel_active fs)
      else fs)"

definition submit_field :: "edit_browser \<Rightarrow> nat \<Rightarrow> submission \<Rightarrow> epage \<Rightarrow> epage" where
  "submit_field b i sub p =
     (if i < length (ep_fields p)
      then (case ef_data (ep_fields p ! i) of
              None \<Rightarrow> p
            | Some e \<Rightarrow> p\<lparr>ep_fields := on_field i start_saving (ep_fields p),
                ep_requests := ep_requests p @ [(ep_next p, action_submit b sub (ep_fields p ! i) e)],
                ep_next := Suc (ep_next p)\<rparr>)
      else p)"

text \<open>A reply that throws changes no field; a request that fails has no handler at all.\<close>

definition edit_reply :: "edit_browser \<Rightarrow> nat \<Rightarrow> jsval \<Rightarrow> epage \<Rightarrow> epage" where
  "edit_reply b n data p =
     (case map_of (ep_requests p) n of
        None \<Rightarrow> p
      | Some r \<Rightarrow>
          (case reply_text (br_formatDate b) r data of
             Inl _ \<Rightarrow> p
           | Inr v \<Rightarrow> p\<lparr>ep_fields := successForEeachEditable (br_dom b) (er_input_id r) v (ep_fields p)\<rparr>)
            \<lparr>ep_requests := filter (\<lambda>(k, _). k \<noteq> n) (ep_requests p)\<rparr>)"

fun edit_step :: "edit_browser \<Rightarrow> edit_event \<Rightarrow> epage \<Rightarrow> epage" where
  "edit_step b (Click i icon) p = p\<lparr>ep_fields := click_field b i icon (ep_fields p)\<rparr>"
| "edit_step b (Typed i s) p =
     p\<lparr>ep_fields := on_field i (\<lambda>f. if ef_value f \<noteq> None \<and> \<not> ef_saving f then f\<lparr>ef_value := Some s\<rparr> else f)
          (ep_fields p)\<rparr>"
| "edit_step b (Submit_Edit i sub) p = submit_field b i sub p"
| "edit_step b (Cancel_Edit i) p = p\<lparr>ep_fields := on_field i action_cancel (ep_fields p)\<rparr>"
| "edit_step b (Image_Loaded i height url name) p =
     (if i < length (ep_fields p)
      then (case ef_data (ep_fields p ! i) of None \<Rightarrow> p
            | Some e \<Rightarrow> p\<lparr>ep_fields := image_loaded (br_dom b) height url name e (ep_fields p)\<rparr>)
      else p)"
| "edit_step b (Image_Closed i) p = p\<lparr>ep_fields := on_field i cancelEditable (ep_fields p)\<rparr>"
| "edit_step b (Edit_Reply n data) p = edit_reply b n data p"

section \<open>Check boxes\<close>

text \<open>
  A change of a check box: the request, and the boxes of the same \<open>input-id\<close> take its state at
  once.  The reply is assigned to a variable that nothing reads.
\<close>

definition bool_change :: "string \<Rightarrow> bool \<Rightarrow> (string \<times> bool) list \<Rightarrow> erequest \<times> (string \<times> bool) list" where
  "bool_change inputId isChecked boxes =
     (let info = split_on CHR ''-'' inputId
      in (\<lparr>er_path = ''/'' @ part 1 info @ ''%3A'' @ part 2 info, er_attr = part 0 info,
           er_value = to_str (JBool isChecked), er_input_id = inputId, er_kind = Echo\<rparr>,
          map (\<lambda>(i, c). if i = inputId then (i, isChecked) else (i, c)) boxes))"

definition bool_reply :: "jsval \<Rightarrow> (string \<times> bool) list \<Rightarrow> (string \<times> bool) list" where
  "bool_reply data boxes = boxes"

section \<open>Lemmas\<close>

definition new_field :: "string \<Rightarrow> string \<Rightarrow> efield" where
  "new_field i t = \<lparr>ef_input_id = i, ef_active = False, ef_saving = False, ef_view = Markup t,
     ef_data = None, ef_value = None\<rparr>"

lemma set_editable_id [simp]:
  "ef_input_id (setEditable d f) = ef_input_id f"
  "ef_active (setEditable d f) = ef_active f"
  "ef_saving (setEditable d f) = ef_saving f"
  "ef_data (setEditable d f) \<noteq> None"
  by (simp_all add: setEditable_def Let_def)

lemma activate_keeps [simp]:
  "ef_input_id (activate d h icon f) = ef_input_id f"
  "ef_active (activate d h icon f) = ef_active f"
  "ef_saving (activate d h icon f) = ef_saving f"
  "ef_data (activate d h icon f) = ef_data f"
  by (simp_all add: activate_def activeDate_def activeText_def activeRef_def activeFile_def
      activeNumber_def Let_def split: option.split view.split)

lemma cancel_keeps [simp]:
  "ef_input_id (cancelEditable f) = ef_input_id f" "ef_saving (cancelEditable f) = ef_saving f"
  "ef_input_id (cancelRef f) = ef_input_id f" "ef_saving (cancelRef f) = ef_saving f"
  by (simp_all add: cancelEditable_def cancelRef_def closed_with_def)

lemma success_keeps:
  "ef_input_id (success v f) = ef_input_id f"
  "ef_active (success v f) \<Longrightarrow> ef_active f"
  by (auto simp: success_def cancelEditable_def cancelRef_def closed_with_def Let_def
      split: option.splits if_splits)

lemma success_not_saving: "\<not> ef_saving f \<Longrightarrow> \<not> ef_saving (success v f)"
  by (simp add: success_def Let_def split: option.split)

lemma success_each_nth [simp]:
  "length (successForEeachEditable d x v fs) = length fs"
  "k < length fs \<Longrightarrow> successForEeachEditable d x v fs ! k =
     (if ef_input_id (fs ! k) = x
      then success v (if ef_data (fs ! k) = None then setEditable d (fs ! k) else fs ! k) else fs ! k)"
  by (simp_all add: successForEeachEditable_def)

lemma on_field_nth [simp]:
  "length (on_field i g fs) = length fs"
  "k < length fs \<Longrightarrow> on_field i g fs ! k = (if k = i then g (fs ! k) else fs ! k)"
  by (auto simp: on_field_def)

lemma cancel_active_nth:
  "length (cancel_active fs) = length fs"
  "k < length fs \<Longrightarrow> \<not> ef_active (fs ! k) \<Longrightarrow> cancel_active fs ! k = fs ! k"
  unfolding cancel_active_def by (cases "filter ef_active fs"; simp)+

lemma cancel_active_input_id: "k < length fs \<Longrightarrow> ef_input_id (cancel_active fs ! k) = ef_input_id (fs ! k)"
  unfolding cancel_active_def by (cases "filter ef_active fs"; simp add: closed_with_def)

lemma cancel_active_blocked:
  assumes "f \<in> set fs" "ef_active f" "ef_saving f"
  shows "cancel_active fs = fs"
proof -
  have "f \<in> set (filter ef_active fs)" using assms by simp
  then have "list_ex ef_saving (filter ef_active fs)" using assms(3) by (auto simp: list_ex_iff)
  then show ?thesis unfolding cancel_active_def by (cases "filter ef_active fs"; simp)
qed

text \<open>At most one field is active when none is saving.\<close>

definition quiet :: "efield list \<Rightarrow> bool" where
  "quiet fs \<longleftrightarrow> list_all (\<lambda>f. \<not> ef_saving f) fs \<and> length (filter ef_active fs) \<le> 1"

lemma cancel_active_quiet:
  "list_all (\<lambda>f. \<not> ef_saving f) fs \<Longrightarrow>
   list_all (\<lambda>f. \<not> ef_active f \<and> \<not> ef_saving f) (cancel_active fs)"
proof (cases "filter ef_active fs")
  case Nil
  assume "list_all (\<lambda>f. \<not> ef_saving f) fs"
  with Nil show ?thesis by (auto simp: cancel_active_def list_all_iff filter_empty_conv)
next
  case (Cons g gs)
  assume n: "list_all (\<lambda>f. \<not> ef_saving f) fs"
  have "set (g # gs) \<subseteq> set fs" unfolding Cons [symmetric] by auto
  with n have "\<not> list_ex ef_saving (g # gs)" by (auto simp: list_ex_iff list_all_iff)
  with Cons n show ?thesis
    by (auto simp: cancel_active_def list_all_iff closed_with_def)
qed

lemma filter_one: "list_all (\<lambda>f. \<not> P f) fs \<Longrightarrow> length (filter P (fs[i := x])) \<le> 1"
  by (induction fs arbitrary: i) (auto split: nat.split simp: filter_empty_conv list_all_iff
      dest!: set_update_subset_insert [THEN subsetD])

lemma filter_map_le:
  "(\<And>f. P (g f) \<Longrightarrow> P f) \<Longrightarrow> length (filter P (map g fs)) \<le> length (filter P fs)"
  by (induction fs) (auto simp: le_SucI)

lemma filter_update_le:
  "(\<And>f. P (g f) \<Longrightarrow> P f) \<Longrightarrow> length (filter P (on_field i g fs)) \<le> length (filter P fs)"
proof (induction fs arbitrary: i)
  case Nil
  then show ?case by (simp add: on_field_def)
next
  case (Cons f fs)
  then have "length (filter P (on_field j g fs)) \<le> length (filter P fs)" for j by blast
  from this [of "i - 1"] Cons.prems [of f] show ?case
    by (cases i) (auto simp: on_field_def le_SucI split: if_splits)
qed

lemma list_all_on_field: "list_all P fs \<Longrightarrow> (\<And>f. P f \<Longrightarrow> P (g f)) \<Longrightarrow> list_all P (on_field i g fs)"
  by (simp add: list_all_length)

lemma quiet_on_field:
  assumes "quiet fs" and "\<And>f. ef_active (g f) \<Longrightarrow> ef_active f" and "\<And>f. \<not> ef_saving f \<Longrightarrow> \<not> ef_saving (g f)"
  shows "quiet (on_field i g fs)"
  using assms filter_update_le [of ef_active g i fs] list_all_on_field [of "\<lambda>f. \<not> ef_saving f" fs g i]
  by (auto simp: quiet_def)

lemma quiet_each: "quiet fs \<Longrightarrow> quiet (successForEeachEditable d x v fs)"
proof -
  assume q: "quiet fs"
  let ?g = "\<lambda>f. if ef_input_id f = x
              then success v (if ef_data f = None then setEditable d f else f) else f"
  have "ef_active (?g f) \<Longrightarrow> ef_active f" for f
    using success_keeps(2) [of v f] success_keeps(2) [of v "setEditable d f"] by (auto split: if_splits)
  then have "length (filter ef_active (map ?g fs)) \<le> length (filter ef_active fs)" by (rule filter_map_le)
  moreover have "list_all (\<lambda>f. \<not> ef_saving f) (map ?g fs)"
    using q success_not_saving by (auto simp: quiet_def list_all_iff)
  ultimately show ?thesis using q by (simp add: quiet_def successForEeachEditable_def)
qed

lemma quiet_click: "quiet fs \<Longrightarrow> quiet (click_field b i icon fs)"
proof -
  assume q: "quiet fs"
  show ?thesis
  proof (cases "i < length fs \<and> \<not> ef_active (fs ! i)")
    case True
    let ?g = "\<lambda>f. activate (br_dom b) (br_href b) icon (setEditable (br_dom b) (f\<lparr>ef_active := True\<rparr>))"
    have none: "list_all (\<lambda>f. \<not> ef_active f \<and> \<not> ef_saving f) (cancel_active fs)"
      using q by (intro cancel_active_quiet) (simp add: quiet_def)
    have "list_all (\<lambda>f. \<not> ef_saving f) (on_field i ?g (cancel_active fs))"
      using none by (intro list_all_on_field) (auto simp: list_all_iff)
    moreover have "length (filter ef_active (on_field i ?g (cancel_active fs))) \<le> 1"
      using none filter_one [of ef_active "cancel_active fs" i]
      by (auto simp: on_field_def list_all_iff filter_empty_conv)
    ultimately show ?thesis using True by (simp add: click_field_def quiet_def)
  next
    case False
    then show ?thesis using q by (auto simp: click_field_def)
  qed
qed

lemma quiet_step:
  "quiet (ep_fields p) \<Longrightarrow> (\<And>i sub. ev \<noteq> Submit_Edit i sub) \<Longrightarrow> quiet (ep_fields (edit_step b ev p))"
proof (induction b ev p rule: edit_step.induct)
  case (4 b i p)
  then show ?case
    by (auto intro!: quiet_on_field simp: action_cancel_def cancelEditable_def cancelRef_def closed_with_def
        split: option.splits if_splits)
next
  case (6 b i p)
  then show ?case
    by (auto intro!: quiet_on_field simp: cancelEditable_def closed_with_def split: if_splits)
next
  case (2 b i s p)
  then show ?case by (auto intro!: quiet_on_field split: if_splits)
qed (auto simp: quiet_click quiet_each image_loaded_def Let_def edit_reply_def split: option.split sum.split)

definition is_submit :: "edit_event \<Rightarrow> bool" where
  "is_submit ev = (case ev of Submit_Edit _ _ \<Rightarrow> True | _ \<Rightarrow> False)"

interpretation quiet_page: event_run "edit_step b" "\<lambda>p. quiet (ep_fields p)" "\<lambda>ev. \<not> is_submit ev"
  by unfold_locales (rule quiet_step, auto simp: is_submit_def)

lemma quiet_run:
  "quiet (ep_fields p) \<Longrightarrow> list_all (\<lambda>ev. \<not> is_submit ev) evs \<Longrightarrow>
   quiet (ep_fields (fold (edit_step b) evs p))"
  by (rule quiet_page.run_inv)

text \<open>A saving field stays as it is until a reply or an image reaches it.\<close>

definition is_answer :: "edit_event \<Rightarrow> bool" where
  "is_answer ev = (case ev of Edit_Reply _ _ \<Rightarrow> True | Image_Loaded _ _ _ _ \<Rightarrow> True | _ \<Rightarrow> False)"

lemma saving_kept_on_field:
  "k < length fs \<Longrightarrow> (\<And>f. ef_saving f \<and> ef_active f \<Longrightarrow> ef_saving (g f) \<and> ef_active (g f)) \<Longrightarrow>
   ef_saving (fs ! k) \<and> ef_active (fs ! k) \<Longrightarrow>
   ef_saving (on_field i g fs ! k) \<and> ef_active (on_field i g fs ! k)"
  by auto

lemma saving_step:
  assumes "k < length (ep_fields p)" "ef_saving (ep_fields p ! k) \<and> ef_active (ep_fields p ! k)" "\<not> is_answer ev"
  shows "k < length (ep_fields (edit_step b ev p)) \<and> ef_saving (ep_fields (edit_step b ev p) ! k)
    \<and> ef_active (ep_fields (edit_step b ev p) ! k)"
proof (cases ev)
  case (Click i icon)
  have "cancel_active (ep_fields p) = ep_fields p"
    using assms by (intro cancel_active_blocked [of "ep_fields p ! k"]) auto
  with Click assms show ?thesis by (auto simp: click_field_def)
next
  case (Submit_Edit i sub)
  then show ?thesis using assms
    by (auto simp: submit_field_def start_saving_def split: option.split)
next
  case (Cancel_Edit i)
  then show ?thesis using assms
    by (auto simp: action_cancel_def cancelEditable_def cancelRef_def split: option.split)
next
  case (Typed i s)
  then show ?thesis using assms by auto
next
  case (Image_Closed i)
  then show ?thesis using assms by (auto simp: cancelEditable_def)
qed (use assms in \<open>auto simp: is_answer_def\<close>)

interpretation saving_field: event_run "edit_step b"
  "\<lambda>p. k < length (ep_fields p) \<and> ef_saving (ep_fields p ! k) \<and> ef_active (ep_fields p ! k)" "\<lambda>ev. \<not> is_answer ev"
  by unfold_locales (use saving_step in blast)

lemma saving_run:
  "k < length (ep_fields p) \<Longrightarrow> ef_saving (ep_fields p ! k) \<and> ef_active (ep_fields p ! k) \<Longrightarrow>
   list_all (\<lambda>ev. \<not> is_answer ev) evs \<Longrightarrow>
   ef_saving (ep_fields (fold (edit_step b) evs p) ! k) \<and> ef_active (ep_fields (fold (edit_step b) evs p) ! k)"
  by (rule saving_field.run_gives [where k = k]) auto

text \<open>Once a field is plain markup it stays so: nothing brings a reference's selector back.\<close>

definition plain_view :: "efield \<Rightarrow> bool" where
  "plain_view f = (case ef_view f of Markup _ \<Rightarrow> True | Ref_View _ _ \<Rightarrow> False)"

lemma plain_viewD: "plain_view f \<Longrightarrow> \<exists>m. ef_view f = Markup m"
  by (simp add: plain_view_def split: view.splits)

lemma plain_ops:
  "plain_view f \<Longrightarrow> plain_view (activate d h icon f)"
  "plain_view f \<Longrightarrow> plain_view (setEditable d f)"
  "plain_view f \<Longrightarrow> plain_view (cancelEditable f)"
  "plain_view f \<Longrightarrow> plain_view (action_cancel f)"
  "plain_view f \<Longrightarrow> plain_view (success v f)"
  "plain_view f \<Longrightarrow> plain_view (start_saving f)"
  by (simp_all add: plain_view_def activate_def activeDate_def activeText_def activeRef_def activeFile_def
      activeNumber_def Let_def setEditable_def cancelEditable_def cancelRef_def closed_with_def
      action_cancel_def success_def start_saving_def split: option.splits view.splits)

lemma plain_cancel_active:
  "k < length fs \<Longrightarrow> plain_view (fs ! k) \<Longrightarrow> plain_view (cancel_active fs ! k)"
  unfolding cancel_active_def by (cases "filter ef_active fs"; simp add: closed_with_def plain_view_def)

lemma plain_each:
  "k < length fs \<Longrightarrow> plain_view (fs ! k) \<Longrightarrow> plain_view (successForEeachEditable d x v fs ! k)"
  by (simp add: plain_ops)

lemma plain_image:
  "k < length fs \<Longrightarrow> plain_view (fs ! k) \<Longrightarrow> plain_view (image_loaded d height url name e fs ! k)"
  unfolding image_loaded_def Let_def by (intro plain_each) (simp_all del: success_each_nth(2) add: plain_each)

lemma step_length: "length (ep_fields (edit_step b ev p)) = length (ep_fields p)"
  by (cases ev) (simp_all add: click_field_def cancel_active_nth submit_field_def image_loaded_def
      edit_reply_def Let_def split: option.split sum.split)

lemma plain_step:
  assumes "k < length (ep_fields p)" "plain_view (ep_fields p ! k)"
  shows "plain_view (ep_fields (edit_step b ev p) ! k)"
proof (cases ev)
  case (Click i icon)
  have v: "plain_view (f\<lparr>ef_active := a\<rparr>) = plain_view f" for f a by (simp add: plain_view_def)
  show ?thesis using Click assms
    by (auto simp: click_field_def cancel_active_nth plain_cancel_active plain_ops v)
next
  case (Typed i s)
  then show ?thesis using assms by (auto simp: plain_view_def)
next
  case (Submit_Edit i sub)
  then show ?thesis using assms by (auto simp: submit_field_def plain_ops split: option.split)
next
  case (Image_Loaded i height url name)
  then show ?thesis using assms by (simp add: plain_image split: option.split)
next
  case (Edit_Reply n data)
  then show ?thesis using assms by (auto simp: edit_reply_def plain_ops split: option.split sum.split)
qed (use assms in \<open>auto simp: plain_ops\<close>)

interpretation plain_field: event_run "edit_step b"
  "\<lambda>p. k < length (ep_fields p) \<and> plain_view (ep_fields p ! k)" "\<lambda>_. True"
  by unfold_locales (simp add: plain_step step_length)

lemma plain_run:
  "k < length (ep_fields p) \<Longrightarrow> plain_view (ep_fields p ! k) \<Longrightarrow>
   plain_view (ep_fields (fold (edit_step b) evs p) ! k)"
  by (rule plain_field.run_gives [where k = k]) (auto simp: list_all_iff)

lemma split_on_hd: "split_on c s = takeWhile (\<lambda>x. x \<noteq> c) s # tl (split_on c s)"
  by (induction s) (auto split: list.splits)

lemma input_id_parts:
  assumes "CHR ''-'' \<notin> set t" "CHR ''-'' \<notin> set a" "CHR ''-'' \<notin> set c"
  shows "split_on CHR ''-'' (join ''-'' [t, a, c, i])
    = [t, a, c, takeWhile (\<lambda>x. x \<noteq> CHR ''-'') i] @ tl (split_on CHR ''-'' i)"
  using assms split_on_hd [of "CHR ''-''" i] by (simp add: split_on_append)

lemmas edit_run_simps = click_field_def on_field_def cancel_active_def new_field_def setEditable_def
  activate_def activeText_def activeRef_def submit_field_def start_saving_def action_submit_def
  submitText_def save_request_def edit_reply_def reply_text_def successForEeachEditable_def success_def
  cancelEditable_def cancelRef_def closed_with_def data_text_def undef_text_def input_text_def
  view_text_def view_inner_def quoted_value_def part_def Let_def

section \<open>Properties\<close>

text \<open>
  C23: As long as nothing is saved, at most one field of a page is being edited: opening a field
  closes the one that was open, in every order of clicks, typing, cancellations and uploads.
\<close>

theorem one_editor_open:
  assumes "list_all (\<lambda>f. \<not> ef_active f \<and> \<not> ef_saving f) fs" and "list_all (\<lambda>ev. \<not> is_submit ev) evs"
  shows "length (filter ef_active (ep_fields (fold (edit_step b) evs
      \<lparr>ep_fields = fs, ep_requests = [], ep_next = 0\<rparr>))) \<le> 1"
proof -
  have "quiet fs" using assms(1) by (auto simp: quiet_def list_all_iff filter_empty_conv)
  then show ?thesis using quiet_run [OF _ assms(2), of "\<lparr>ep_fields = fs, ep_requests = [], ep_next = 0\<rparr>" b]
    by (simp add: quiet_def)
qed

definition plain_browser :: edit_browser where
  "plain_browser = \<lparr>br_dom = \<lparr>text_of = (\<lambda>s. s), inner_html = (\<lambda>_ _. None), attr_text = (\<lambda>s. s)\<rparr>,
     br_href = ''/list'', br_formatDate = to_str\<rparr>"

lemma one_editor_open_witness:
  "length (filter ef_active (ep_fields (fold (edit_step plain_browser)
      [Click 0 True, Typed 0 ''z'', Click 1 True, Cancel_Edit 1, Click 0 False]
      \<lparr>ep_fields = [new_field ''text-n-c-1'' ''x'', new_field ''text-m-c-1'' ''y''],
        ep_requests = [], ep_next = 0\<rparr>))) \<le> 1"
  by (rule one_editor_open) (simp_all add: new_field_def is_submit_def)

text \<open>
  C40: A field that is being saved leaves that state only by an answer: without one (a failed
  request has no handler) no click, cancellation or new submission brings it back.
\<close>

theorem failed_save_never_ends:
  assumes "k < length (ep_fields p)" and "ef_saving (ep_fields p ! k) \<and> ef_active (ep_fields p ! k)"
    and "list_all (\<lambda>ev. \<not> is_answer ev) evs"
  shows "ef_saving (ep_fields (fold (edit_step b) evs p) ! k) \<and> ef_active (ep_fields (fold (edit_step b) evs p) ! k)"
  by (rule saving_run [OF assms])

lemma failed_save_never_ends_witness:
  "ef_saving (ep_fields (fold (edit_step plain_browser) [Cancel_Edit 0, Submit_Edit 0 (Box ''z'')]
      \<lparr>ep_fields = [(new_field ''text-n-c-1'' ''x'')\<lparr>ef_saving := True, ef_active := True\<rparr>],
       ep_requests = [], ep_next = 0\<rparr>) ! 0)"
  using failed_save_never_ends [of 0 "\<lparr>ep_fields = [(new_field ''text-n-c-1'' ''x'')\<lparr>ef_saving := True,
      ef_active := True\<rparr>], ep_requests = [], ep_next = 0\<rparr>"
      "[Cancel_Edit 0, Submit_Edit 0 (Box ''z'')]" plain_browser]
  by (simp add: is_answer_def)

text \<open>
  Cancelling several open fields writes the text of the first into all of them.  It takes a
  slow save: while the first field is saving, the second and the third are opened and neither is
  closed; when the save has been answered, a click on the fourth makes the third show the second's text.
\<close>

theorem saving_field_mixes_texts:
  "let p = fold (edit_step b)
     [Click 0 True, Submit_Edit 0 (Button c v s), Click 1 True, Click 2 True,
      Edit_Reply 0 (JObj [(''n'', JStr a')]), Click 3 True]
     \<lparr>ep_fields = [new_field ''text-n-c-1'' ta, new_field ''text-m-c-1'' tb, new_field ''text-o-c-1'' tc,
        new_field ''text-q-c-1'' td], ep_requests = [], ep_next = 0\<rparr>
   in map ef_view (take 3 (ep_fields p)) =
     [Markup (a' @ edit_icon), Markup (text_of (br_dom b) tb @ edit_icon), Markup (text_of (br_dom b) tb @ edit_icon)]"
  by (simp add: edit_run_simps)

text \<open>
  Opening another field destroys a reference that is being edited: the generic cancellation
  replaces its content, the selector included, by its text, and from then on no click, save or
  reply makes a reference field of it again.
\<close>

theorem reference_field_destroyed:
  "\<exists>m. ef_view (ep_fields (fold (edit_step b) ([Click 0 True, Click 1 icon] @ evs)
      \<lparr>ep_fields = [(new_field (''ref-'' @ i) [])\<lparr>ef_view := Ref_View r False\<rparr>, new_field j t],
        ep_requests = [], ep_next = 0\<rparr>) ! 0) = Markup m"
proof -
  let ?p = "fold (edit_step b) [Click 0 True, Click 1 icon]
      \<lparr>ep_fields = [(new_field (''ref-'' @ i) [])\<lparr>ef_view := Ref_View r False\<rparr>, new_field j t],
        ep_requests = [], ep_next = 0\<rparr>"
  have "length (ep_fields ?p) = 2" by (simp add: step_length del: edit_step.simps)
  then have "0 < length (ep_fields ?p)" by linarith
  moreover have "plain_view (ep_fields ?p ! 0)"
    by (simp add: edit_run_simps plain_view_def)
  ultimately have "plain_view (ep_fields (fold (edit_step b) evs ?p) ! 0)" by (rule plain_run)
  then show ?thesis unfolding fold_append comp_apply by (rule plain_viewD)
qed

text \<open>
  The parts of an \<open>input-id\<close> are read back as they were written when they hold no hyphen; an id
  of an item that holds one is cut off there, so the field is saved at the address of another item.
\<close>

theorem input_id_cut_at_hyphen:
  assumes "CHR ''-'' \<notin> set t" and "CHR ''-'' \<notin> set a" and "CHR ''-'' \<notin> set c"
  shows "\<exists>e. ef_data (setEditable d (new_field (join ''-'' [t, a, c, i]) x)) = Some e
    \<and> ed_type e = t \<and> ed_attr e = a \<and> item_path e = ''/'' @ c @ ''%3A'' @ takeWhile (\<lambda>x. x \<noteq> CHR ''-'') i"
  unfolding setEditable_def new_field_def efield.select_convs input_id_parts [OF assms] Let_def
  by (simp add: part_def item_path_def)

lemma input_id_cut_at_hyphen_witness:
  "\<exists>e. ef_data (setEditable (br_dom plain_browser) (new_field (join ''-'' [''text'', ''name'', ''doc'', ''a1-b2'']) []))
      = Some e \<and> ed_type e = ''text'' \<and> ed_attr e = ''name'' \<and> item_path e = ''/doc%3Aa1''"
  using input_id_cut_at_hyphen [of "''text''" "''name''" "''doc''" _ "''a1-b2''"] by simp

text \<open>
  A text that is opened and saved unchanged is sent up to its first apostrophe only, because
  the editor's markup puts it unescaped between apostrophes.
\<close>

theorem text_cut_at_apostrophe:
  "map (er_value \<circ> snd) (ep_requests (fold (edit_step b) [Click 0 icon, Submit_Edit 0 (Button c v s)]
      \<lparr>ep_fields = [new_field (''text-'' @ i) t], ep_requests = [], ep_next = 0\<rparr>))
    = [attr_text (br_dom b) (takeWhile (\<lambda>c. c \<noteq> CHR 0x27) (text_of (br_dom b) t))]"
  by (simp add: edit_run_simps)



end
