(* ===== verification/Markup.thy ===== *)
theory Markup
  imports Js_Prelude
begin

text \<open>
  The markup that the field directives (\<open>ion-ng-listfield.js\<close>, \<open>ion-ng-formfield.js\<close>,
  \<open>ion-ng-collectionfield.js\<close>) put into the page: the tree that \<open>angular.element\<close> makes of their
  strings.  An attribute without a value has the empty value; an expression of AngularJS stays the
  text that it is in the source.
\<close>

datatype html =
    El string "(string \<times> string) list" "html list"
  | Tx string

fun values_of :: "string \<Rightarrow> html \<Rightarrow> string list" where
  "values_of n (El t as hs) = map snd (filter (\<lambda>a. fst a = n) as) @ concat (map (values_of n) hs)"
| "values_of n (Tx s) = []"

fun elements_of :: "html \<Rightarrow> (string \<times> (string \<times> string) list) list" where
  "elements_of (El t as hs) = (t, as) # concat (map elements_of hs)"
| "elements_of (Tx s) = []"

fun texts_of :: "html \<Rightarrow> string list" where
  "texts_of (El t as hs) = concat (map texts_of hs)"
| "texts_of (Tx s) = [s]"

text \<open>What the user can do in a piece of markup: the expressions of its clicks, its model.\<close>

definition clicks_of :: "html \<Rightarrow> string list" where
  "clicks_of = values_of ''ng-click''"

definition models_of :: "html \<Rightarrow> string list" where
  "models_of = values_of ''ng-model''"

lemma values_of_elements:
  "set (values_of n h) = {v. \<exists>t as. (t, as) \<in> set (elements_of h) \<and> (n, v) \<in> set as}"
proof (induction h)
  case (El t as hs)
  have "set (values_of n (El t as hs)) = {v. (n, v) \<in> set as} \<union> (\<Union>h\<in>set hs. set (values_of n h))"
    by force
  also have "\<dots> = {v. (n, v) \<in> set as} \<union>
      (\<Union>h\<in>set hs. {v. \<exists>t as. (t, as) \<in> set (elements_of h) \<and> (n, v) \<in> set as})"
    using El.IH by simp
  finally show ?case by auto
qed simp

text \<open>The pieces that several templates share.\<close>

definition sp :: "string \<Rightarrow> html list \<Rightarrow> html" where
  "sp cls hs = El ''span'' [(''class'', cls)] hs"

definition pencil_icon :: html where
  "pencil_icon = sp ''overlay-icon icon icon-small iconfont-edit'' []"

definition icon_text :: "string \<Rightarrow> string \<Rightarrow> html" where
  "icon_text icon t = sp (''icon icon-small '' @ icon) [Tx t]"

definition save_button :: html where
  "save_button = El ''button'' [(''ng-click'', ''save($parent.$index)'')] [icon_text ''iconfont-success'' ''Save'']"

definition cancel_button :: html where
  "cancel_button = El ''button'' [(''ng-click'', ''editable.remove()'')] [icon_text ''iconfont-close-dialog'' ''Cancel'']"

definition link_to :: "string \<Rightarrow> html list \<Rightarrow> html" where
  "link_to url hs = El ''a'' [(''href'', url)] hs"

lemmas markup_defs = sp_def pencil_icon_def icon_text_def save_button_def cancel_button_def link_to_def
  clicks_of_def models_of_def

end
