(* ===== verification/Cell_Templates.thy ===== *)
theory Cell_Templates
  imports Markup
begin

text \<open>
  The templates of \<open>ion-ng-listfield.js\<close>: the markup of a cell of a list and of a field of the
  details, by the kind of its column, and the two directives that choose the kind.
\<close>

record column =
  co_property :: string
  co_type :: string
  co_readonly :: bool
  co_required :: bool
  co_mode :: string
  co_paginated :: bool

definition inputOptions :: "(string \<times> string) list" where
  "inputOptions = [(''ng-disabled'', ''isDisabled(col)''), (''ng-required'', ''isRequired(col)''),
     (''ng-readonly'', ''col.readonly'')]"

section \<open>The cells\<close>

text \<open>
  Most cells have two halves, of which one is shown: the value, whose click opens the editor, and
  the editor with its buttons.
\<close>

definition focused :: "string \<Rightarrow> html list \<Rightarrow> html" where
  "focused directive hs = El ''span'' [(directive, ''editable.is(item, col)'')] hs"

definition value_half :: "string \<Rightarrow> html list \<Rightarrow> html" where
  "value_half cls hs = El ''span'' [(''ng-hide'', ''editable.is(item, col)''),
     (''class'', ''editable-field inactive'' @ cls), (''ng-click'', ''setEditable($event)'')] (hs @ [pencil_icon])"

definition editor_half :: "string \<Rightarrow> html list \<Rightarrow> html" where
  "editor_half tag hs = El tag [(''ng-show'', ''editable.is(item, col)''), (''class'', ''editable'')] hs"

definition text_template :: "bool \<Rightarrow> bool \<Rightarrow> bool \<Rightarrow> html" where
  "text_template readonly selection nullable =
     (if \<not> selection then
        (if readonly then sp ''value'' [Tx ''{{item[col.property]}}'']
         else focused ''focus-this''
           [value_half [] [Tx ''{{item[col.property]}}''],
            editor_half ''span''
              [El ''input'' [(''type'', ''text''), (''ng-model'', ''inputModel''), (''class'', ''text editable-input'')] [],
               save_button, cancel_button]])
      else
        (if readonly then sp ''value'' [Tx ''{{item[col.property+\"__str\"]}}'']
         else focused ''focus-this''
           [value_half [] [Tx ''{{item[col.property+\"__str\"]}}''],
            editor_half ''span''
              [El ''select'' [(''ng-model'', ''inputModel''), (''ng-options'', ''v as n for (v,n) in selection''),
                              (''class'', ''editable-input'')]
                 (if nullable then [El ''option'' [(''value'', [])]
                    [Tx [CHR 0xD0, CHR 0xBD, CHR 0xD0, CHR 0xB5, CHR 0xD1, CHR 0x82]]] else []),
               save_button, cancel_button]]))"

definition wysiwyg_template :: "bool \<Rightarrow> html" where
  "wysiwyg_template readonly =
     (if readonly then sp ''value'' [El ''div'' [(''ng-bind-html'', ''item[col.property]'')] []]
      else El ''span'' []
        [El ''span'' [(''class'', ''editable-field inactive value''), (''ng-click'', ''setEditable($event)'')]
           [El ''div'' [(''class'', ''editable-input''), (''ng-bind-html'', ''item[col.property]'')] [], pencil_icon]])"

definition url_template :: "bool \<Rightarrow> html" where
  "url_template readonly =
     (if readonly then sp ''value'' [link_to ''{{item[col.property]}}'' [Tx ''{{item[col.property]}}'']]
      else focused ''focus-this''
        [value_half [] [link_to ''{{item[col.property]}}'' [Tx ''{{item[col.property]}}'']],
         editor_half ''div''
           [El ''input'' [(''type'', ''text''), (''class'', ''text editable-input''), (''value'', ''{{item[col.property]}}'')] [],
            save_button, cancel_button]])"

definition file_link :: html where
  "file_link = El ''div'' [(''class'', ''file'')]
     [link_to ''{{item[col.property+'__url']}}'' [Tx ''{{item[col.property]}}'']]"

definition image_template :: "bool \<Rightarrow> html" where
  "image_template readonly =
     (if readonly then sp ''value<'' [file_link]
      else El ''span'' []
        [El ''span'' [(''class'', ''editable-field inactive''), (''ng-click'', ''setEditable($event)'')] [file_link, pencil_icon]])"

definition file_template :: "bool \<Rightarrow> html" where
  "file_template readonly =
     (if readonly then sp ''value<'' [file_link]
      else focused ''focus-this''
        [value_half [] [file_link],
         editor_half ''span''
           [El ''input'' [(''id'', ''fileInput''), (''type'', ''file''), (''class'', ''text editable-input'')] [],
            save_button, cancel_button]])"

definition number_template :: "bool \<Rightarrow> string \<Rightarrow> html" where
  "number_template readonly step =
     (if readonly then sp ''value to-right'' [Tx ''{{item[col.property]}}'']
      else focused ''focus-this''
        [value_half '' value to-right'' [Tx ''{{item[col.property]}}''],
         editor_half ''span''
           [El ''input'' [(''type'', ''number''), (''step'', step), (''class'', ''text editable-input''),
                          (''ng-model'', ''inputModel'')] [],
            save_button, cancel_button]])"

definition date_template :: "bool \<Rightarrow> html" where
  "date_template readonly =
     (if readonly then sp ''value to-right'' [Tx ''{{item[col.property]}}'']
      else focused ''focus-this-date''
        [value_half '' value to-right'' [Tx ''{{item[col.property]}}''],
         editor_half ''span''
           [El ''input'' [(''ui-date'', ''dateOptions''), (''ui-date-format'', ''{{dateFormat}}''), (''type'', ''text''),
                          (''class'', ''text editable-input''), (''ng-model'', ''dateModel'')] [],
            save_button, cancel_button]])"

definition checkbox_template :: "bool \<Rightarrow> html" where
  "checkbox_template readonly =
     (if readonly then sp ''to-right''
        [El ''input'' [(''type'', ''checkbox''), (''class'', ''bool-input''), (''ng-model'', ''item[col.property]''),
                       (''disabled'', ''true'')] []]
      else sp ''editable-field inactive to-right''
        [El ''input'' [(''type'', ''checkbox''), (''class'', ''bool-input''), (''ng-model'', ''checkBoxModel''),
                       (''ng-click'', ''save()'')] [],
         pencil_icon])"

definition ref_name :: html where
  "ref_name = Tx ''{{item[col.property+'__ref'][2]}}''"

definition ref_link :: html where
  "ref_link = link_to ''{{getRefUrl(item[col.property+'__ref'][0],item[col.property+'__ref'][1])}}'' [ref_name]"

text \<open>In mode INFO the markup is assigned to a variable and never returned.\<close>

definition reference_template :: "bool \<Rightarrow> string \<Rightarrow> bool \<Rightarrow> html option" where
  "reference_template readonly mode selectionPaginated =
     (if mode = ''INFO'' then None
      else if readonly then Some (sp ''ref-value'' [ref_link])
      else if \<not> selectionPaginated then
        Some (focused ''focus-this''
          [value_half [] [ref_name],
           editor_half ''span''
             [El ''select'' [(''ng-model'', ''selectModel''), (''ng-options'', ''v as n for (v,n) in selection''),
                             (''class'', ''input-field'')] [],
              save_button, cancel_button]])
      else
        Some (focused ''focus-this''
          [value_half [] [ref_link],
           editor_half ''span''
             [sp ''ref-value'' [ref_link], Tx '' '',
              El ''button'' [(''type'', ''button''), (''class'', ''icon-button''), (''ng-click'', ''selectRefItem()'')] [Tx ''...''],
              cancel_button]]))"

definition detail_image_template :: "bool \<Rightarrow> html" where
  "detail_image_template readonly =
     (let img = El ''img'' [(''src'', ''{{item[col.property+'__url']}}'')] [] in
      if readonly then sp ''value''
        [El ''div'' [(''class'', ''image'')] [link_to ''{{item[col.property+'__url']}}'' [img]]]
      else El ''span'' []
        [El ''span'' [(''class'', ''editable-field inactive''), (''ng-click'', ''setEditable($event)'')]
           [El ''div'' [(''class'', ''image'')] [El ''a'' [(''ng-click'', ''setEditable($event)'')] [img]], pencil_icon]])"

section \<open>The kind of a column\<close>

datatype cell_kind =
    Text_Cell | Wysiwyg_Cell | Url_Cell | Image_Cell | Detail_Image_Cell | File_Cell | Number_Cell string
  | Date_Cell | Checkbox_Cell | Reference_Cell string | Collection_Cell | Group_Cell

definition cell_kind_of :: "string \<Rightarrow> cell_kind" where
  "cell_kind_of type =
     (if type = ''WYSIWYG'' then Wysiwyg_Cell else if type = ''URL'' then Url_Cell
      else if type = ''FILE'' then File_Cell else if type = ''IMAGE'' then Image_Cell
      else if type = ''NUMBER_PICKER'' then Number_Cell ''1''
      else if type = ''DECIMAL_EDITOR'' then Number_Cell ''0.1''
      else if type = ''DATETIME_PICKER'' then Date_Cell else if type = ''CHECKBOX'' then Checkbox_Cell
      else if type = ''REFERENCE'' then Reference_Cell ''list'' else Text_Cell)"

definition detail_kind :: "string \<Rightarrow> cell_kind" where
  "detail_kind type =
     (if type = ''WYSIWYG'' then Wysiwyg_Cell else if type = ''URL'' then Url_Cell
      else if type = ''FILE'' then File_Cell else if type = ''IMAGE'' then Detail_Image_Cell
      else if type = ''NUMBER_PICKER'' then Number_Cell ''1''
      else if type = ''DECIMAL_EDITOR'' then Number_Cell ''0.1''
      else if type = ''DATETIME_PICKER'' then Date_Cell else if type = ''CHECKBOX'' then Checkbox_Cell
      else if type = ''REFERENCE'' then Reference_Cell ''detail''
      else if type = ''COLLECTION'' then Collection_Cell else if type = ''GROUP'' then Group_Cell
      else Text_Cell)"

text \<open>
  What a cell of the column shows: \<open>selection\<close> says whether the item has a text beside its value
  (\<open>__str\<close>).  A reference in a list is always a link.
\<close>

definition cell_markup :: "cell_kind \<Rightarrow> column \<Rightarrow> bool \<Rightarrow> html option" where
  "cell_markup k c selection =
     (case k of
        Text_Cell \<Rightarrow> Some (text_template (co_readonly c) selection (\<not> co_required c))
      | Wysiwyg_Cell \<Rightarrow> Some (wysiwyg_template (co_readonly c))
      | Url_Cell \<Rightarrow> Some (url_template (co_readonly c))
      | Image_Cell \<Rightarrow> Some (image_template (co_readonly c))
      | Detail_Image_Cell \<Rightarrow> Some (detail_image_template (co_readonly c))
      | File_Cell \<Rightarrow> Some (file_template (co_readonly c))
      | Number_Cell step \<Rightarrow> Some (number_template (co_readonly c) step)
      | Date_Cell \<Rightarrow> Some (date_template (co_readonly c))
      | Checkbox_Cell \<Rightarrow> Some (checkbox_template (co_readonly c))
      | Reference_Cell place \<Rightarrow>
          reference_template (co_readonly c) (if place = ''detail'' then co_mode c else ''LINK'') (co_paginated c)
      | Collection_Cell \<Rightarrow> None
      | Group_Cell \<Rightarrow> None)"

text \<open>The elements a directive puts into the page; each is then replaced by its cell.\<close>

definition list_field_element :: "string \<Rightarrow> html" where
  "list_field_element type =
     (case cell_kind_of type of
        Wysiwyg_Cell \<Rightarrow> El ''div'' [(''ion-wysiwyg'', [])] []
      | Url_Cell \<Rightarrow> El ''div'' [(''ion-url'', [])] []
      | File_Cell \<Rightarrow> El ''div'' [(''ion-file'', [])] []
      | Image_Cell \<Rightarrow> El ''div'' [(''ion-image'', [])] []
      | Number_Cell step \<Rightarrow> El ''div'' [(''ion-number'', []), (''step'', step)] []
      | Date_Cell \<Rightarrow> El ''div'' [(''ion-date'', [])] []
      | Checkbox_Cell \<Rightarrow> El ''div'' [(''ion-checkbox'', [])] []
      | Reference_Cell _ \<Rightarrow> El ''div'' [(''ion-reference'', [])] []
      | _ \<Rightarrow> El ''div'' [(''ion-text'', [])] [])"

definition labelled :: "html \<Rightarrow> html" where
  "labelled h = El ''div'' inputOptions
     [El ''label'' [(''class'', ''overflowed-text'')] [Tx ''{{col.caption}}''], El ''b'' [] [Tx '':''], h]"

definition detail_field_element :: "string \<Rightarrow> html" where
  "detail_field_element type =
     (case detail_kind type of
        Wysiwyg_Cell \<Rightarrow> labelled (El ''span'' [(''ion-wysiwyg'', [])] [])
      | Url_Cell \<Rightarrow> labelled (El ''span'' [(''ion-url'', [])] [])
      | File_Cell \<Rightarrow> labelled (El ''span'' [(''ion-file'', [])] [])
      | Detail_Image_Cell \<Rightarrow> labelled (El ''span'' [(''ion-detail-image'', [])] [])
      | Number_Cell step \<Rightarrow> labelled (El ''span'' [(''ion-number'', []), (''step'', step)] [])
      | Date_Cell \<Rightarrow> labelled (El ''span'' [(''ion-date'', [])] [])
      | Checkbox_Cell \<Rightarrow> labelled (El ''span'' [(''ion-checkbox'', [])] [])
      | Reference_Cell place \<Rightarrow> labelled (El ''span''
          [(''ion-reference'', []), (''place'', place), (''field'', ''col''), (''item'', ''item''),
           (''columns'', ''columns''), (''node'', ''node''), (''editable'', ''editable'')] [])
      | Collection_Cell \<Rightarrow> El ''span'' [(''ion-collection'', [])] []
      | Group_Cell \<Rightarrow> El ''span'' [(''ion-group'', [])] []
      | _ \<Rightarrow> labelled (El ''span'' [(''ion-text'', []), (''class'', ''value'')] []))"

definition group_template :: html where
  "group_template = El ''fieldset'' inputOptions
     [El ''legend'' [(''class'', ''overflowed-text'')] [Tx ''{{col.caption}}''],
      El ''div'' [(''class'', ''field''), (''ng-repeat'', ''col in col.fields'')] [El ''div'' [(''ion-detail-field'', [])] []]]"

section \<open>Collections in the details\<close>

definition collection_url :: string where
  "collection_url = ''#/{{node}}/collection/{{item.itemInfo[0]}}:{{item.itemInfo[1]}}/{{col.property}}''"

definition colon :: html where
  "colon = El ''b'' [] [Tx '':'']"

definition collection_template :: "string \<Rightarrow> html list" where
  "collection_template mode =
     (if mode = ''LINK'' then
        [El ''label'' [(''class'', ''overflowed-text'')] [Tx ''{{col.caption}}''], colon,
         sp ''value'' [link_to collection_url [Tx '' {{item[col.property].length}} '',
           Tx (map char_of [0xD1, 0x8D, 0xD0, 0xBB, 0xD0, 0xB5, 0xD0, 0xBC, 0xD0, 0xB5, 0xD0, 0xBD, 0xD1, 0x82, 0xD0, 0xBE, 0xD0, 0xB2::nat])]]]
      else
        [El ''label'' [(''class'', ''overflowed-text'')] [link_to collection_url [Tx ''{{col.caption}}'']], colon,
         (if mode = ''LINKS'' then
            sp ''value'' [El ''div'' [(''ng-repeat'', ''ci in item[col.property]'')]
              [link_to ''#/item/{{ci.itemInfo[0]+'/'+ci.itemInfo[1]}}'' [Tx ''{{ci.itemInfo[0]+'@'+ci.itemInfo[1]}}''],
               El ''div'' [] []]]
          else if mode = ''LIST'' then
            El ''div'' [(''class'', ''value'')] [El ''div'' [(''ng-repeat'', ''ci in item[col.property]'')]
              [El ''div'' [(''ion-list-field'', []), (''field'', ''dci''), (''item'', ''ci''),
                           (''ng-repeat'', ''dci in columns'')] []]]
          else
            El ''table'' [(''class'', ''list'')]
              [El ''tr'' [] [El ''th'' [(''class'', ''overflowed-text''), (''ng-repeat'', ''d in columns'')] [Tx ''{{col.caption}}'']],
               El ''tr'' [(''ng-repeat'', ''ci in item[col.property]'')]
                 [El ''td'' [(''ng-repeat'', ''dci in columns'')]
                    [El ''div'' [(''ion-list-field'', []), (''field'', ''dci''), (''item'', ''ci'')] []]]])])"

text \<open>
  Scopes: a repetition binds its variable in a new scope for each element, and a name that a scope
  does not bind is its parent's.  \<open>ion-list-field\<close> reads the column from \<open>col\<close> and the item from
  \<open>item\<close>, or from the expression of its attribute \<open>ion-item\<close>; it has no other attribute.
\<close>

type_synonym 'v scope = "(string \<times> 'v) list"

fun repeat_variable :: "(string \<times> string) list \<Rightarrow> string option" where
  "repeat_variable [] = None"
| "repeat_variable ((k, v) # as) =
     (if k = ''ng-repeat'' then Some (takeWhile (\<lambda>c. c \<noteq> CHR '' '') v) else repeat_variable as)"

definition cell_column :: "'v scope \<Rightarrow> 'v option" where
  "cell_column s = map_of s ''col''"

definition cell_item :: "(string \<times> string) list \<Rightarrow> 'v scope \<Rightarrow> 'v option" where
  "cell_item as s =
     (case map_of as ''ion-item'' of Some e \<Rightarrow> map_of s e | None \<Rightarrow> map_of s ''item'')"

text \<open>The cells of a template with their scopes, where the repetitions range over \<open>elems\<close>.\<close>

fun cells_in :: "(string \<Rightarrow> 'v list) \<Rightarrow> 'v scope \<Rightarrow> html \<Rightarrow> ('v option \<times> 'v option) list" where
  "cells_in elems s (Tx t) = []"
| "cells_in elems s (El t as hs) =
     concat (map (\<lambda>s'. (if map_of as ''ion-list-field'' \<noteq> None then [(cell_item as s', cell_column s')] else [])
                        @ concat (map (cells_in elems s') hs))
       (case repeat_variable as of None \<Rightarrow> [s] | Some x \<Rightarrow> map (\<lambda>v. (x, v) # s) (elems x)))"

section \<open>Properties\<close>

lemmas cell_templates = text_template_def wysiwyg_template_def url_template_def file_link_def image_template_def
  file_template_def number_template_def date_template_def checkbox_template_def ref_name_def ref_link_def
  reference_template_def detail_image_template_def focused_def value_half_def editor_half_def markup_defs

text \<open>
  A cell can be changed exactly when its column is not read-only: the markup of a read-only cell,
  of whatever kind, reacts to no click, and the markup of any other cell that is drawn does.
\<close>

theorem readonly_cells_are_inert:
  assumes "cell_markup k c selection = Some h"
  shows "clicks_of h = [] \<longleftrightarrow> co_readonly c"
  using assms
  by (cases k) (auto simp: cell_markup_def cell_templates Let_def split: if_splits)

lemma readonly_cells_are_inert_witness:
  "clicks_of (text_template True False True) = []"
  using readonly_cells_are_inert [of Text_Cell "\<lparr>co_property = ''p'', co_type = [], co_readonly = True, co_required = False,
     co_mode = [], co_paginated = False\<rparr>" False "text_template True False True"]
  by (simp add: cell_markup_def)

text \<open>
  A collection in the details that is shown as a list or a table has a cell for each element and
  column, but every one of them shows the collection itself: the elements and columns are passed in
  attributes that the cell does not read, so it finds the item of the details and the column of the
  collection.
\<close>

theorem collection_cells_show_collection:
  assumes "mode \<noteq> ''LINK''" and "mode \<noteq> ''LINKS''"
  shows "concat (map (cells_in elems s) (collection_template mode))
    = replicate (length (elems ''ci'') * length (elems ''dci'')) (map_of s ''item'', map_of s ''col'')"
proof -
  have rep: "concat (map (\<lambda>a. concat (map (\<lambda>b. [c]) bs)) as) = replicate (length as * length bs) c" for as bs :: "'v list" and c :: "'w"
  proof -
    have "concat (map (\<lambda>b. [c]) bs) = replicate (length bs) c" by (induction bs) simp_all
    then show ?thesis by (induction as) (simp_all add: replicate_add)
  qed
  show ?thesis
    using assms rep [of "(map_of s ''item'', map_of s ''col'')" "elems ''dci''" "elems ''ci''"]
    by (simp add: collection_template_def colon_def link_to_def cell_item_def cell_column_def comp_def split: option.split)
qed

lemma collection_cells_show_collection_witness:
  "concat (map (cells_in (\<lambda>_. [1::nat, 2]) [(''item'', 7), (''col'', 9)]) (collection_template ''LIST''))
    = replicate 4 (Some 7, Some 9)"
  using collection_cells_show_collection [of "''LIST''" "\<lambda>_. [1::nat, 2]" "[(''item'', 7), (''col'', 9)]"]
  by (simp add: eval_nat_numeral)

text \<open>A reference that the details should show with its own fields shows nothing.\<close>

lemma info_reference_shows_nothing:
  "co_mode c = ''INFO'' \<Longrightarrow> cell_markup (detail_kind ''REFERENCE'') c selection = None"
  by (simp add: cell_markup_def detail_kind_def reference_template_def)

end
