(* ===== verification/In_Place.thy ===== *)
theory In_Place
  imports Cell_Templates Data_Cache
begin

text \<open>
  Editing in place (\<open>ion-ng-listfield.js\<close>): the cells of a list and of the details, their editors,
  what they send and what the answers change.  Items are compared by reference (\<open>editable.is\<close>,
  \<open>list.indexOf\<close>, \<open>scope.item === ionCurrent.item\<close>), so they live in a store and everything refers
  to them by number.  A cell is the scope that its directive was linked with; it keeps living for
  the callbacks that hold it when its element is gone.  An event is followed by the digest, which
  gives the rows their items, draws new cells and runs the watchers.
\<close>

section \<open>State\<close>

datatype editor_target = No_Target | Target nat "bool \<times> nat" | Target_Index

text \<open>
  A column object is its place, in the details or not, with its number.  \<open>ce_model\<close> is the model of
  the editor's input (\<open>inputModel\<close>, \<open>dateModel\<close>, \<open>selectModel\<close>, \<open>checkBoxModel\<close>, or what the document
  holds), \<open>ce_drawn\<close> says that the text was drawn with a selection, \<open>ce_editing\<close> is the value the
  watcher of \<open>focus-this\<close> saw last, \<open>ce_outside\<close> the number of its one-time handlers that wait.
\<close>

record cell =
  ce_kind :: cell_kind
  ce_column :: column
  ce_field :: "bool \<times> nat"
  ce_item :: "nat option"
  ce_drawn :: bool
  ce_model :: jsval
  ce_selection :: jsval
  ce_editing :: bool
  ce_outside :: nat

datatype slot = Row_Slot nat nat | Detail_Slot nat

datatype asked = Asked_Save | Asked_Selection | Asked_Reference

record asked_request =
  aq_cell :: nat
  aq_what :: asked
  aq_url :: string
  aq_data :: jsobj

record editing =
  ew_node :: jsval
  ew_columns :: "column list"
  ew_details :: "column list option"
  ew_heap :: "nat \<Rightarrow> jsobj"
  ew_next :: nat
  ew_list :: "nat list option"
  ew_current :: "nat option"
  ew_seen :: "nat option"
  ew_cache :: "string \<Rightarrow> nat option"
  ew_editor :: editor_target
  ew_cells :: "nat \<Rightarrow> cell"
  ew_count :: nat
  ew_shown :: "slot \<Rightarrow> nat option"
  ew_asked :: "asked_request list"
  ew_dialog :: "nat option"
  ew_selecting :: "nat list"

text \<open>
  The item of a cell: the scope of a row has its own, the cells of the details see their
  controller's, also when their elements are gone.
\<close>

definition item_of :: "editing \<Rightarrow> cell \<Rightarrow> nat option" where
  "item_of w c = (if fst (ce_field c) then ew_seen w else ce_item c)"

definition the_item :: "editing \<Rightarrow> cell \<Rightarrow> jsobj" where
  "the_item w c = (case item_of w c of None \<Rightarrow> [] | Some x \<Rightarrow> ew_heap w x)"

definition put_prop :: "nat \<Rightarrow> string \<Rightarrow> jsval \<Rightarrow> editing \<Rightarrow> editing" where
  "put_prop x p v w = w\<lparr>ew_heap := (ew_heap w)(x := oset (ew_heap w x) p v)\<rparr>"

definition set_cell :: "nat \<Rightarrow> cell \<Rightarrow> editing \<Rightarrow> editing" where
  "set_cell n c w = w\<lparr>ew_cells := (ew_cells w)(n := c)\<rparr>"

definition editing_now :: "cell \<Rightarrow> editing \<Rightarrow> bool" where
  "editing_now c w \<longleftrightarrow> (case item_of w c of None \<Rightarrow> False | Some x \<Rightarrow> ew_editor w = Target x (ce_field c))"

definition edit_this :: "cell \<Rightarrow> editing \<Rightarrow> editing" where
  "edit_this c w = (case item_of w c of None \<Rightarrow> w | Some x \<Rightarrow> w\<lparr>ew_editor := Target x (ce_field c)\<rparr>)"

definition ask :: "nat \<Rightarrow> asked \<Rightarrow> string \<Rightarrow> jsobj \<Rightarrow> editing \<Rightarrow> editing" where
  "ask n what url data w =
     w\<lparr>ew_asked := ew_asked w @ [\<lparr>aq_cell = n, aq_what = what, aq_url = url, aq_data = data\<rparr>]\<rparr>"

text \<open>The key \<open>itemInfo[0]+":"+itemInfo[1]\<close> in a request; an item without \<open>itemInfo\<close> throws.\<close>

definition ask_for_item ::
  "nat \<Rightarrow> asked \<Rightarrow> string \<Rightarrow> (string \<Rightarrow> jsobj) \<Rightarrow> jsobj \<Rightarrow> editing \<Rightarrow> editing" where
  "ask_for_item n what url data it w =
     (case item_key '':'' it of Inl _ \<Rightarrow> w | Inr k \<Rightarrow> ask n what url (data k) w)"

section \<open>Linking a cell\<close>

text \<open>The directives by kind: what the link function reads from the item.\<close>

definition reference_mode :: "cell_kind \<Rightarrow> column \<Rightarrow> string" where
  "reference_mode k c = (if k = Reference_Cell ''detail'' then co_mode c else ''LINK'')"

definition link_cell :: "cell_kind \<Rightarrow> column \<Rightarrow> bool \<times> nat \<Rightarrow> nat option \<Rightarrow> jsobj \<Rightarrow> cell" where
  "link_cell k c f x it =
     (let p = co_property c;
          cell = \<lparr>ce_kind = k, ce_column = c, ce_field = f, ce_item = x, ce_drawn = False,
                  ce_model = JUndef, ce_selection = JNull, ce_editing = False, ce_outside = 0\<rparr>
      in case k of
           Text_Cell \<Rightarrow>
             if oget it (p @ ''__str'') \<noteq> JUndef
             then cell\<lparr>ce_drawn := True, ce_model := JStr (to_str (oget it p)),
                       ce_selection := oget it (p @ ''__sel'')\<rparr>
             else cell\<lparr>ce_model := oget it p\<rparr>
         | Number_Cell _ \<Rightarrow> cell\<lparr>ce_model := oget it p\<rparr>
         | Date_Cell \<Rightarrow> cell\<lparr>ce_model := oget it p\<rparr>
         | Checkbox_Cell \<Rightarrow> cell\<lparr>ce_model := oget it p\<rparr>
         | Reference_Cell _ \<Rightarrow> cell\<lparr>ce_model := oget it p, ce_selection := JObj []\<rparr>
         | Image_Cell \<Rightarrow> cell\<lparr>ce_model := JNull\<rparr>
         | Detail_Image_Cell \<Rightarrow> cell\<lparr>ce_model := JNull\<rparr>
         | _ \<Rightarrow> cell)"

text \<open>A reference that the item lacks is fetched when its cell is linked.\<close>

definition fetch_reference :: "nat \<Rightarrow> cell \<Rightarrow> editing \<Rightarrow> editing" where
  "fetch_reference n c w =
     (case (ce_kind c, item_of w c) of
        (Reference_Cell _, Some x) \<Rightarrow>
          if reference_mode (ce_kind c) (ce_column c) \<noteq> ''INFO''
            \<and> oget (ew_heap w x) (co_property (ce_column c)) = JUndef
          then ask_for_item n Asked_Reference ''spa/item''
                 (\<lambda>k. [(''__node'', ew_node w), (''__id'', JStr k)]) (ew_heap w x) w
          else w
      | _ \<Rightarrow> w)"

definition draw :: "slot \<Rightarrow> cell_kind \<Rightarrow> column \<Rightarrow> bool \<times> nat \<Rightarrow> nat option \<Rightarrow> editing \<Rightarrow> editing" where
  "draw s k c f x w =
     (let n = ew_count w;
          cell = link_cell k c f x (case x of None \<Rightarrow> [] | Some r \<Rightarrow> ew_heap w r)
      in fetch_reference n cell
           (w\<lparr>ew_count := n + 1, ew_cells := (ew_cells w)(n := cell), ew_shown := (ew_shown w)(s \<mapsto> n)\<rparr>))"

section \<open>The digest\<close>

text \<open>
  The watcher of \<open>ionCurrent.item\<close> throws the details away.  A row that stays takes the item that is
  now at its index (the rows are tracked by index), a row that is new is drawn.
\<close>

definition watch_current :: "editing \<Rightarrow> editing" where
  "watch_current w =
     (if ew_current w = ew_seen w then w else w\<lparr>ew_seen := ew_current w, ew_details := None\<rparr>)"

definition rows_of :: "editing \<Rightarrow> nat list" where
  "rows_of w = (case ew_list w of None \<Rightarrow> [] | Some xs \<Rightarrow> xs)"

definition fields_of :: "editing \<Rightarrow> column list" where
  "fields_of w = (case ew_details w of None \<Rightarrow> [] | Some cs \<Rightarrow> cs)"

definition row_slots :: "editing \<Rightarrow> slot list" where
  "row_slots w = concat (map (\<lambda>r. map (Row_Slot r) [0..<length (ew_columns w)]) [0..<length (rows_of w)])"

definition slots_of :: "editing \<Rightarrow> slot list" where
  "slots_of w = row_slots w @ map Detail_Slot [0..<length (fields_of w)]"

text \<open>Elements that go take their handlers with them.\<close>

definition drop_gone :: "editing \<Rightarrow> editing" where
  "drop_gone w =
     w\<lparr>ew_shown := (\<lambda>s. if s \<in> set (slots_of w) then ew_shown w s else None)\<rparr>"

definition slot_item :: "slot \<Rightarrow> editing \<Rightarrow> nat option" where
  "slot_item s w =
     (case s of Row_Slot r c \<Rightarrow> if r < length (rows_of w) then Some (rows_of w ! r) else None
              | Detail_Slot i \<Rightarrow> ew_seen w)"

definition draw_slot :: "slot \<Rightarrow> editing \<Rightarrow> editing" where
  "draw_slot s w =
     (case s of
        Row_Slot r c \<Rightarrow>
          draw s (cell_kind_of (co_type (ew_columns w ! c))) (ew_columns w ! c) (False, c) (slot_item s w) w
      | Detail_Slot i \<Rightarrow>
          draw s (detail_kind (co_type (fields_of w ! i))) (fields_of w ! i) (True, i) (slot_item s w) w)"

definition visit_slot :: "slot \<Rightarrow> editing \<Rightarrow> editing" where
  "visit_slot s w =
     (case ew_shown w s of
        Some n \<Rightarrow> set_cell n ((ew_cells w n)\<lparr>ce_item := slot_item s w\<rparr>) w
      | None \<Rightarrow> draw_slot s w)"

text \<open>The cells with \<open>focus-this\<close> or \<open>focus-this-date\<close>, which wait for a click outside.\<close>

fun has_focus :: "cell_kind \<Rightarrow> column \<Rightarrow> bool" where
  "has_focus Text_Cell c = (\<not> co_readonly c)"
| "has_focus Url_Cell c = (\<not> co_readonly c)"
| "has_focus File_Cell c = (\<not> co_readonly c)"
| "has_focus (Number_Cell _) c = (\<not> co_readonly c)"
| "has_focus Date_Cell c = (\<not> co_readonly c)"
| "has_focus (Reference_Cell pl) c = (\<not> co_readonly c \<and> reference_mode (Reference_Cell pl) c \<noteq> ''INFO'')"
| "has_focus _ c = False"

definition focus_watch :: "editing \<Rightarrow> cell \<Rightarrow> cell" where
  "focus_watch w c =
     (if has_focus (ce_kind c) (ce_column c) then
        (if editing_now c w \<and> \<not> ce_editing c then c\<lparr>ce_editing := True, ce_outside := ce_outside c + 1\<rparr>
         else c\<lparr>ce_editing := editing_now c w\<rparr>)
      else c)"

definition watch_slot :: "slot \<Rightarrow> editing \<Rightarrow> editing" where
  "watch_slot s w =
     (case ew_shown w s of Some n \<Rightarrow> set_cell n (focus_watch w (ew_cells w n)) w | None \<Rightarrow> w)"

definition run_digest :: "editing \<Rightarrow> editing" where
  "run_digest w =
     (let w1 = drop_gone (watch_current w); w2 = fold visit_slot (slots_of w1) w1
      in fold watch_slot (slots_of w2) w2)"

section \<open>Saving\<close>

text \<open>What the cell's input gives; an interpolated attribute shows undefined and null as nothing.\<close>

definition empty_to_null :: "jsval \<Rightarrow> jsval" where
  "empty_to_null v = (if loose_eq v (JStr []) then JNull else v)"

definition input_value :: "cell \<Rightarrow> jsobj \<Rightarrow> jsval" where
  "input_value c it =
     (case ce_kind c of
        Number_Cell _ \<Rightarrow> empty_to_null (ce_model c)
      | Date_Cell \<Rightarrow> empty_to_null (ce_model c)
      | Reference_Cell _ \<Rightarrow> empty_to_null (ce_model c)
      | Url_Cell \<Rightarrow>
          if ce_model c = JUndef
          then JStr (let v = oget it (co_property (ce_column c)) in if nullish v then [] else to_str v)
          else ce_model c
      | _ \<Rightarrow> ce_model c)"

text \<open>Reading the value of a text with a selection writes the chosen text into the item.\<close>

definition note_text :: "cell \<Rightarrow> nat \<Rightarrow> editing \<Rightarrow> editing" where
  "note_text c x w =
     (if ce_kind c = Text_Cell \<and> truthy (ce_selection c)
      then put_prop x (co_property (ce_column c) @ ''__str'')
             (case ce_selection c of JObj sel \<Rightarrow> oget sel (to_str (ce_model c)) | _ \<Rightarrow> JUndef) w
      else w)"

definition saveFunc :: "nat \<Rightarrow> editing \<Rightarrow> editing" where
  "saveFunc n w =
     (let c = ew_cells w n; p = co_property (ce_column c)
      in case item_of w c of
           None \<Rightarrow> w
         | Some x \<Rightarrow>
             (let w1 = note_text c x w; it = ew_heap w1 x; inputValue = input_value c it;
                  oldValue = (if oget it p = JUndef then JNull else oget it p)
              in if loose_eq oldValue inputValue then w1
                 else ask n Asked_Save ''spa/editItem''
                        (oset [(''itemInfo'', oget it ''itemInfo'')] p inputValue)
                        (w1\<lparr>ew_editor := No_Target\<rparr>)))"

text \<open>
  The answer: the new item is cached and takes the place of the cell's item, as it is now, in the
  list and in the details.  A list that is being loaded is null: the callback throws after caching.
\<close>

definition replace_at :: "'a option \<Rightarrow> 'a \<Rightarrow> 'a list \<Rightarrow> 'a list" where
  "replace_at x r xs = xs[length (takeWhile (\<lambda>y. Some y \<noteq> x) xs) := r]"

definition save_reply :: "nat \<Rightarrow> jsval \<Rightarrow> editing \<Rightarrow> editing" where
  "save_reply n newItem w =
     (case newItem of
        JObj it \<Rightarrow>
          if has_info it then
            (let r = ew_next w;
                 w1 = w\<lparr>ew_next := r + 1, ew_heap := (ew_heap w)(r := it),
                        ew_cache := (case itemsCache_key it of None \<Rightarrow> ew_cache w | Some k \<Rightarrow> (ew_cache w)(k \<mapsto> r))\<rparr>
             in case ew_list w of
                  None \<Rightarrow> w1
                | Some xs \<Rightarrow>
                    w1\<lparr>ew_list := Some (replace_at (item_of w (ew_cells w n)) r xs),
                       ew_current := (if item_of w (ew_cells w n) = ew_current w then Some r else ew_current w)\<rparr>)
          else w
      | _ \<Rightarrow> w)"

section \<open>Opening an editor\<close>

definition selection_of :: "jsobj \<Rightarrow> string \<Rightarrow> jsval" where
  "selection_of it p = oget it (p @ ''__sel'')"

definition ask_selection :: "nat \<Rightarrow> jsobj \<Rightarrow> string \<Rightarrow> editing \<Rightarrow> editing" where
  "ask_selection n it p w =
     ask_for_item n Asked_Selection ''spa/selection'' (\<lambda>k. [(''__id'', JStr k), (''__property'', JStr p)]) it w"

definition text_setEditable :: "nat \<Rightarrow> cell \<Rightarrow> editing \<Rightarrow> editing" where
  "text_setEditable n c w =
     (let it = the_item w c; p = co_property (ce_column c); c1 = c\<lparr>ce_model := oget it p\<rparr>
      in if oget it (p @ ''__str'') \<noteq> JUndef then
           (if selection_of it p \<noteq> JUndef then
              edit_this c (set_cell n (c1\<lparr>ce_selection :=
                (if selection_of it p = JBool False then JObj [] else selection_of it p)\<rparr>) w)
            else ask_selection n it p (set_cell n c1 w))
         else edit_this c (set_cell n c1 w))"

definition reference_setEditable :: "nat \<Rightarrow> cell \<Rightarrow> editing \<Rightarrow> editing" where
  "reference_setEditable n c w =
     (let it = the_item w c; p = co_property (ce_column c); c1 = c\<lparr>ce_model := oget it p\<rparr>
      in if \<not> co_paginated (ce_column c) then
           (if selection_of it p \<noteq> JUndef
            then edit_this c (set_cell n (c1\<lparr>ce_selection := selection_of it p\<rparr>) w)
            else ask_selection n it p (set_cell n c1 w))
         else edit_this c (set_cell n c1 w))"

definition value_setEditable :: "nat \<Rightarrow> cell \<Rightarrow> editing \<Rightarrow> editing" where
  "value_setEditable n c w =
     edit_this c (set_cell n (c\<lparr>ce_model := oget (the_item w c) (co_property (ce_column c))\<rparr>) w)"

text \<open>The image and wysiwyg cells edit in a dialog over the page; \<open>icon\<close> says the pencil was hit.\<close>

definition cell_setEditable :: "nat \<Rightarrow> bool \<Rightarrow> editing \<Rightarrow> editing" where
  "cell_setEditable n icon w =
     (let c = ew_cells w n
      in if item_of w c = None then w
         else case ce_kind c of
           Text_Cell \<Rightarrow> text_setEditable n c w
         | Number_Cell _ \<Rightarrow> value_setEditable n c w
         | Date_Cell \<Rightarrow> value_setEditable n c w
         | Reference_Cell _ \<Rightarrow> reference_setEditable n c w
         | Url_Cell \<Rightarrow> if icon then edit_this c w else w
         | File_Cell \<Rightarrow> if icon then edit_this c w else w
         | Wysiwyg_Cell \<Rightarrow> if icon then w\<lparr>ew_editor := Target_Index, ew_dialog := Some n\<rparr> else w
         | Image_Cell \<Rightarrow> if icon then w\<lparr>ew_dialog := Some n\<rparr> else w
         | Detail_Image_Cell \<Rightarrow> w\<lparr>ew_dialog := Some n\<rparr>
         | _ \<Rightarrow> w)"

definition selection_reply :: "nat \<Rightarrow> jsval \<Rightarrow> editing \<Rightarrow> editing" where
  "selection_reply n data w =
     (let c = ew_cells w n; p = co_property (ce_column c)
      in case item_of w c of
           None \<Rightarrow> w
         | Some x \<Rightarrow>
             if ce_kind c = Text_Cell then
               edit_this c (set_cell n (c\<lparr>ce_selection := (if truthy data then data else JObj [])\<rparr>)
                 (put_prop x (p @ ''__sel'') (if truthy data then data else JBool False) w))
             else
               edit_this c (set_cell n (c\<lparr>ce_selection := data\<rparr>) (put_prop x (p @ ''__sel'') data w)))"

definition reference_reply :: "nat \<Rightarrow> jsval \<Rightarrow> editing \<Rightarrow> editing" where
  "reference_reply n data w =
     (let c = ew_cells w n; p = co_property (ce_column c)
      in case (item_of w c, data) of
           (Some x, JObj it) \<Rightarrow>
             (let w1 = (if truthy (oget it p) then put_prop x p (oget it p) w else w)
              in if truthy (oget it (p @ ''__ref'')) then put_prop x (p @ ''__ref'') (oget it (p @ ''__ref'')) w1
                 else w1)
         | _ \<Rightarrow> w)"

section \<open>Clicks outside\<close>

text \<open>
  The handlers of \<open>focus-this\<close>: \<open>ed\<close> says that the click is in some editor, \<open>dp\<close> that it is in the
  date picker.  Each handler is there once.
\<close>

definition fire_once :: "nat \<Rightarrow> bool \<Rightarrow> bool \<Rightarrow> editing \<Rightarrow> editing" where
  "fire_once n ed dp w =
     (if ce_kind (ew_cells w n) = Date_Cell \<and> dp then w
      else saveFunc n (if ed then w else run_digest (w\<lparr>ew_editor := No_Target\<rparr>)))"

definition fire_cell :: "nat \<Rightarrow> bool \<Rightarrow> bool \<Rightarrow> editing \<Rightarrow> editing" where
  "fire_cell n ed dp w =
     (fire_once n ed dp ^^ ce_outside (ew_cells w n)) (set_cell n ((ew_cells w n)\<lparr>ce_outside := 0\<rparr>) w)"

definition fire_slot :: "nat option \<Rightarrow> bool \<Rightarrow> bool \<Rightarrow> slot \<Rightarrow> editing \<Rightarrow> editing" where
  "fire_slot inside ed dp s w =
     (case ew_shown w s of
        Some n \<Rightarrow> if inside = Some n then w else fire_cell n ed dp w
      | None \<Rightarrow> w)"

definition click_document :: "nat option \<Rightarrow> bool \<Rightarrow> bool \<Rightarrow> editing \<Rightarrow> editing" where
  "click_document inside ed dp w = run_digest (fold (fire_slot inside ed dp) (slots_of w) w)"

section \<open>Events\<close>

text \<open>
  What the user does with the cell of a number (a scope), and what comes from outside: an answer by
  the place of its request, \<open>None\<close> for a failure; the list controller's doings.  A click that no
  handler stops reaches the document after the cell.  A click on a row is \<open>Choose_Row\<close> followed by
  \<open>Click_Outside\<close>.
\<close>

datatype cell_event =
    Click_Value nat bool
  | Type_In nat jsval
  | Press_Save nat
  | Press_Cancel nat
  | Toggle_Box nat
  | Open_Selection nat
  | Selection_Closed jsval
  | Close_Dialog bool jsval
  | Click_Outside "nat option" bool bool
  | Answer nat "jsval option"
  | Choose_Row nat
  | Details_Arrive "column list"
  | Clear_List
  | Load_List "jsobj list"
  | Append_Rows "jsobj list"
  | Drop_Rows "nat list"

definition usable :: "nat \<Rightarrow> editing \<Rightarrow> bool" where
  "usable n w \<longleftrightarrow> list_ex (\<lambda>s. ew_shown w s = Some n) (slots_of w) \<and> \<not> co_readonly (ce_column (ew_cells w n))"

fun stops_click :: "cell_kind \<Rightarrow> bool \<Rightarrow> bool" where
  "stops_click Text_Cell icon = True"
| "stops_click (Number_Cell _) icon = True"
| "stops_click Date_Cell icon = True"
| "stops_click (Reference_Cell _) icon = True"
| "stops_click Url_Cell icon = icon"
| "stops_click File_Cell icon = icon"
| "stops_click _ icon = False"

definition set_model :: "nat \<Rightarrow> jsval \<Rightarrow> editing \<Rightarrow> editing" where
  "set_model n v w = set_cell n ((ew_cells w n)\<lparr>ce_model := v\<rparr>) w"

definition paginated_reference :: "cell \<Rightarrow> bool" where
  "paginated_reference c \<longleftrightarrow> (case ce_kind c of Reference_Cell _ \<Rightarrow> co_paginated (ce_column c) | _ \<Rightarrow> False)"

definition answer :: "asked_request \<Rightarrow> jsval \<Rightarrow> editing \<Rightarrow> editing" where
  "answer q data w =
     (case aq_what q of
        Asked_Save \<Rightarrow> save_reply (aq_cell q) data w
      | Asked_Selection \<Rightarrow> selection_reply (aq_cell q) data w
      | Asked_Reference \<Rightarrow> reference_reply (aq_cell q) data w)"

definition close_select_dialog :: "bool \<Rightarrow> jsval \<Rightarrow> nat \<Rightarrow> editing \<Rightarrow> editing" where
  "close_select_dialog save data n w =
     (if ce_kind (ew_cells w n) = Wysiwyg_Cell
      then (if save then saveFunc n (set_model n data w) else w)
      else (let w1 = set_model n data w in if save then saveFunc n w1 else w1))"

definition add_items :: "jsobj list \<Rightarrow> editing \<Rightarrow> nat list \<times> editing" where
  "add_items its w =
     ([ew_next w..<ew_next w + length its],
      w\<lparr>ew_next := ew_next w + length its,
        ew_heap := (\<lambda>r. if ew_next w \<le> r \<and> r < ew_next w + length its then its ! (r - ew_next w) else ew_heap w r)\<rparr>)"

definition drop_rows :: "nat list \<Rightarrow> 'a list \<Rightarrow> 'a list" where
  "drop_rows rs xs = map snd (filter (\<lambda>p. fst p \<notin> set rs) (zip [0..<length xs] xs))"

fun cell_step :: "cell_event \<Rightarrow> editing \<Rightarrow> editing" where
  "cell_step (Click_Value n icon) w =
     (if usable n w \<and> \<not> ce_editing (ew_cells w n) then
        (if stops_click (ce_kind (ew_cells w n)) icon then run_digest (cell_setEditable n icon w)
         else click_document (Some n) False False (run_digest (cell_setEditable n icon w)))
      else w)"
| "cell_step (Type_In n v) w =
     (if usable n w \<and> ce_editing (ew_cells w n) then run_digest (set_model n v w) else w)"
| "cell_step (Press_Save n) w =
     (if usable n w \<and> ce_editing (ew_cells w n) \<and> \<not> paginated_reference (ew_cells w n)
      then click_document (Some n) True False (run_digest (saveFunc n w)) else w)"
| "cell_step (Press_Cancel n) w =
     (if usable n w \<and> ce_editing (ew_cells w n)
      then click_document (Some n) True False (run_digest (w\<lparr>ew_editor := No_Target\<rparr>)) else w)"
| "cell_step (Toggle_Box n) w =
     (if usable n w \<and> ce_kind (ew_cells w n) = Checkbox_Cell
      then click_document (Some n) False False
             (run_digest (saveFunc n (set_model n (JBool (ce_model (ew_cells w n) \<noteq> JBool True)) w)))
      else w)"
| "cell_step (Open_Selection n) w =
     (if usable n w \<and> ce_editing (ew_cells w n) \<and> paginated_reference (ew_cells w n)
      then click_document (Some n) True False (run_digest (w\<lparr>ew_selecting := ew_selecting w @ [n]\<rparr>)) else w)"
| "cell_step (Selection_Closed result) w =
     (let w1 = w\<lparr>ew_selecting := []\<rparr>
      in run_digest (if truthy result
                 then fold (\<lambda>n v. saveFunc n (set_model n result v)) (ew_selecting w) w1 else w1))"
| "cell_step (Close_Dialog save data) w =
     (case ew_dialog w of
        None \<Rightarrow> w
      | Some n \<Rightarrow> run_digest (close_select_dialog save data n (w\<lparr>ew_dialog := None\<rparr>)))"
| "cell_step (Click_Outside inside ed dp) w = click_document inside ed dp w"
| "cell_step (Answer i ans) w =
     (if i < length (ew_asked w) then
        (let w1 = w\<lparr>ew_asked := take i (ew_asked w) @ drop (Suc i) (ew_asked w)\<rparr>
         in run_digest (case ans of None \<Rightarrow> w1 | Some data \<Rightarrow> answer (ew_asked w ! i) data w1))
      else w)"
| "cell_step (Choose_Row r) w =
     (if r < length (rows_of w)
      then run_digest (w\<lparr>ew_current := (if ew_seen w = Some (rows_of w ! r) then None else Some (rows_of w ! r))\<rparr>)
      else w)"
| "cell_step (Details_Arrive cols) w =
     run_digest (w\<lparr>ew_details := Some cols,
               ew_shown := (\<lambda>s. case s of Detail_Slot _ \<Rightarrow> None | Row_Slot _ _ \<Rightarrow> ew_shown w s)\<rparr>)"
| "cell_step Clear_List w = run_digest (w\<lparr>ew_list := None\<rparr>)"
| "cell_step (Load_List its) w =
     (let (rs, w1) = add_items its w in run_digest (w1\<lparr>ew_list := Some rs\<rparr>))"
| "cell_step (Append_Rows its) w =
     (case ew_list w of
        None \<Rightarrow> w
      | Some xs \<Rightarrow> (let (rs, w1) = add_items its w in run_digest (w1\<lparr>ew_list := Some (xs @ rs)\<rparr>)))"
| "cell_step (Drop_Rows rs) w =
     (case ew_list w of
        None \<Rightarrow> w
      | Some xs \<Rightarrow> run_digest (w\<lparr>ew_list := Some (drop_rows rs xs)\<rparr>))"

definition cell_run :: "cell_event list \<Rightarrow> editing \<Rightarrow> editing" where
  "cell_run es w = fold cell_step es w"

text \<open>The page before its list is loaded.\<close>

definition init_editing :: "column list \<Rightarrow> jsval \<Rightarrow> editing" where
  "init_editing cols node =
     \<lparr>ew_node = node, ew_columns = cols, ew_details = None, ew_heap = (\<lambda>_. []), ew_next = 0, ew_list = None,
      ew_current = None, ew_seen = None, ew_cache = (\<lambda>_. None), ew_editor = No_Target,
      ew_cells = (\<lambda>_. link_cell Text_Cell (\<lparr>co_property = [], co_type = [], co_readonly = True,
                       co_required = False, co_mode = [], co_paginated = False\<rparr>) (False, 0) None []),
      ew_count = 0, ew_shown = (\<lambda>_. None), ew_asked = [], ew_dialog = None, ew_selecting = []\<rparr>"

end
