(* ===== verification/Cell_Editing.thy ===== *)
theory Cell_Editing
  imports In_Place Run_Interface
begin

text \<open>
  What holds of editing in place, over all lists of events: every row is drawn with the item at its
  index, a digest changes nothing that the cells do not show, and what an editor sends and when.
\<close>

section \<open>Frames\<close>

lemma fold_keeps: "(\<And>x s. f (g x s) = f s) \<Longrightarrow> f (fold g xs s) = f s"
  by (induction xs arbitrary: s) auto

lemma funpow_keeps: "(\<And>s. f (g s) = f s) \<Longrightarrow> f ((g ^^ k) s) = f s"
  by (induction k) auto

lemma put_prop_sel [simp]:
  "ew_node (put_prop x p v w) = ew_node w" "ew_columns (put_prop x p v w) = ew_columns w"
  "ew_details (put_prop x p v w) = ew_details w" "ew_next (put_prop x p v w) = ew_next w"
  "ew_list (put_prop x p v w) = ew_list w" "ew_current (put_prop x p v w) = ew_current w"
  "ew_seen (put_prop x p v w) = ew_seen w" "ew_cache (put_prop x p v w) = ew_cache w"
  "ew_editor (put_prop x p v w) = ew_editor w" "ew_cells (put_prop x p v w) = ew_cells w"
  "ew_count (put_prop x p v w) = ew_count w" "ew_shown (put_prop x p v w) = ew_shown w"
  "ew_asked (put_prop x p v w) = ew_asked w" "ew_dialog (put_prop x p v w) = ew_dialog w"
  "ew_selecting (put_prop x p v w) = ew_selecting w"
  "ew_heap (put_prop x p v w) = (ew_heap w)(x := oset (ew_heap w x) p v)"
  by (simp_all add: put_prop_def)

lemma set_cell_sel [simp]:
  "ew_node (set_cell n c w) = ew_node w" "ew_columns (set_cell n c w) = ew_columns w"
  "ew_details (set_cell n c w) = ew_details w" "ew_next (set_cell n c w) = ew_next w"
  "ew_list (set_cell n c w) = ew_list w" "ew_current (set_cell n c w) = ew_current w"
  "ew_seen (set_cell n c w) = ew_seen w" "ew_cache (set_cell n c w) = ew_cache w"
  "ew_editor (set_cell n c w) = ew_editor w" "ew_heap (set_cell n c w) = ew_heap w"
  "ew_count (set_cell n c w) = ew_count w" "ew_shown (set_cell n c w) = ew_shown w"
  "ew_asked (set_cell n c w) = ew_asked w" "ew_dialog (set_cell n c w) = ew_dialog w"
  "ew_selecting (set_cell n c w) = ew_selecting w"
  "ew_cells (set_cell n c w) = (ew_cells w)(n := c)"
  by (simp_all add: set_cell_def)

lemma edit_this_sel [simp]:
  "ew_node (edit_this c w) = ew_node w" "ew_columns (edit_this c w) = ew_columns w"
  "ew_details (edit_this c w) = ew_details w" "ew_next (edit_this c w) = ew_next w"
  "ew_list (edit_this c w) = ew_list w" "ew_current (edit_this c w) = ew_current w"
  "ew_seen (edit_this c w) = ew_seen w" "ew_cache (edit_this c w) = ew_cache w"
  "ew_heap (edit_this c w) = ew_heap w" "ew_cells (edit_this c w) = ew_cells w"
  "ew_count (edit_this c w) = ew_count w" "ew_shown (edit_this c w) = ew_shown w"
  "ew_asked (edit_this c w) = ew_asked w" "ew_dialog (edit_this c w) = ew_dialog w"
  "ew_selecting (edit_this c w) = ew_selecting w"
  by (simp_all add: edit_this_def split: option.splits)

lemma ask_sel [simp]:
  "ew_node (ask n q u d w) = ew_node w" "ew_columns (ask n q u d w) = ew_columns w"
  "ew_details (ask n q u d w) = ew_details w" "ew_next (ask n q u d w) = ew_next w"
  "ew_list (ask n q u d w) = ew_list w" "ew_current (ask n q u d w) = ew_current w"
  "ew_seen (ask n q u d w) = ew_seen w" "ew_cache (ask n q u d w) = ew_cache w"
  "ew_editor (ask n q u d w) = ew_editor w" "ew_heap (ask n q u d w) = ew_heap w"
  "ew_cells (ask n q u d w) = ew_cells w" "ew_count (ask n q u d w) = ew_count w"
  "ew_shown (ask n q u d w) = ew_shown w" "ew_dialog (ask n q u d w) = ew_dialog w"
  "ew_selecting (ask n q u d w) = ew_selecting w"
  "ew_asked (ask n q u d w) =
     ew_asked w @ [\<lparr>aq_cell = n, aq_what = q, aq_url = u, aq_data = d\<rparr>]"
  by (simp_all add: ask_def)

lemma ask_for_item_sel [simp]:
  "ew_node (ask_for_item n q u d it w) = ew_node w" "ew_columns (ask_for_item n q u d it w) = ew_columns w"
  "ew_details (ask_for_item n q u d it w) = ew_details w" "ew_next (ask_for_item n q u d it w) = ew_next w"
  "ew_list (ask_for_item n q u d it w) = ew_list w" "ew_current (ask_for_item n q u d it w) = ew_current w"
  "ew_seen (ask_for_item n q u d it w) = ew_seen w" "ew_cache (ask_for_item n q u d it w) = ew_cache w"
  "ew_editor (ask_for_item n q u d it w) = ew_editor w" "ew_heap (ask_for_item n q u d it w) = ew_heap w"
  "ew_cells (ask_for_item n q u d it w) = ew_cells w" "ew_count (ask_for_item n q u d it w) = ew_count w"
  "ew_shown (ask_for_item n q u d it w) = ew_shown w" "ew_dialog (ask_for_item n q u d it w) = ew_dialog w"
  "ew_selecting (ask_for_item n q u d it w) = ew_selecting w"
  by (simp_all add: ask_for_item_def split: sum.splits)

lemmas cell_op_defs = ask_selection_def fetch_reference_def

lemma item_of_cong: "fst (ce_field c) = fst (ce_field c') \<Longrightarrow> ce_item c = ce_item c' \<Longrightarrow> ew_seen w = ew_seen w' \<Longrightarrow>
    item_of w c = item_of w' c'"
  by (simp add: item_of_def)

section \<open>What the cells are drawn from\<close>

text \<open>The columns and the place of a cell never change, whatever happens between two digests.\<close>

definition statics :: "cell \<Rightarrow> cell_kind \<times> column \<times> (bool \<times> nat)" where
  "statics c = (ce_kind c, ce_column c, ce_field c)"

definition slot_statics :: "slot \<Rightarrow> editing \<Rightarrow> cell_kind \<times> column \<times> (bool \<times> nat)" where
  "slot_statics s w =
     (case s of
        Row_Slot r c \<Rightarrow> (cell_kind_of (co_type (ew_columns w ! c)), ew_columns w ! c, (False, c))
      | Detail_Slot i \<Rightarrow> (detail_kind (co_type (fields_of w ! i)), fields_of w ! i, (True, i)))"

definition slots_sound :: "editing \<Rightarrow> bool" where
  "slots_sound w \<longleftrightarrow>
     (\<forall>s n. ew_shown w s = Some n \<longrightarrow> n < ew_count w \<and>
        (\<forall>s'. ew_shown w s' = Some n \<longrightarrow> s' = s) \<and> statics (ew_cells w n) = slot_statics s w)"

definition basis :: "editing \<Rightarrow> (slot \<Rightarrow> nat option) \<times> nat \<times> column list \<times> column list option \<times>
    (nat \<Rightarrow> cell_kind \<times> column \<times> (bool \<times> nat))" where
  "basis w = (ew_shown w, ew_count w, ew_columns w, ew_details w, \<lambda>n. statics (ew_cells w n))"

lemma slots_sound_basis: "basis w = basis w' \<Longrightarrow> slots_sound w \<longleftrightarrow> slots_sound w'"
  unfolding slots_sound_def basis_def slot_statics_def fields_of_def
  by (auto simp: fun_eq_iff split: slot.splits)

lemma basis_set_cell: "statics c = statics (ew_cells w n) \<Longrightarrow> basis (set_cell n c w) = basis w"
  by (auto simp: basis_def fun_eq_iff)

lemma statics_upd [simp]:
  "statics (c\<lparr>ce_model := v\<rparr>) = statics c" "statics (c\<lparr>ce_selection := v\<rparr>) = statics c"
  "statics (c\<lparr>ce_item := x\<rparr>) = statics c" "statics (c\<lparr>ce_outside := k\<rparr>) = statics c"
  "statics (c\<lparr>ce_editing := b\<rparr>) = statics c"
  by (simp_all add: statics_def)

lemma basis_simps [simp]:
  "basis (put_prop x p v w) = basis w" "basis (edit_this c w) = basis w"
  "basis (ask n q u d w) = basis w" "basis (ask_for_item n q u df it w) = basis w"
  "basis (w\<lparr>ew_editor := e\<rparr>) = basis w" "basis (w\<lparr>ew_asked := qs\<rparr>) = basis w"
  "basis (w\<lparr>ew_dialog := dl\<rparr>) = basis w" "basis (w\<lparr>ew_selecting := ns\<rparr>) = basis w"
  "basis (w\<lparr>ew_list := l\<rparr>) = basis w" "basis (w\<lparr>ew_current := cu\<rparr>) = basis w"
  "basis (w\<lparr>ew_heap := h\<rparr>) = basis w" "basis (w\<lparr>ew_next := k\<rparr>) = basis w"
  "basis (w\<lparr>ew_cache := ca\<rparr>) = basis w"
  by (simp_all add: basis_def)

lemma basis_set_model [simp]: "basis (set_model n v w) = basis w"
  by (simp add: set_model_def basis_set_cell)

lemma basis_note_text [simp]: "basis (note_text c x w) = basis w"
  by (simp add: note_text_def)

lemma basis_saveFunc [simp]: "basis (saveFunc n w) = basis w"
  by (simp add: saveFunc_def Let_def split: option.splits)

lemma basis_setEditable [simp]: "basis (cell_setEditable n icon w) = basis w"
  by (auto simp: cell_setEditable_def text_setEditable_def reference_setEditable_def value_setEditable_def
      ask_selection_def Let_def basis_set_cell split: cell_kind.splits)

lemma basis_save_reply [simp]: "basis (save_reply n v w) = basis w"
  by (simp add: save_reply_def Let_def split: jsval.splits option.splits)

lemma basis_answer [simp]: "basis (answer q v w) = basis w"
  by (auto simp: answer_def selection_reply_def reference_reply_def Let_def basis_set_cell
      split: asked.splits option.splits jsval.splits)

section \<open>The digest\<close>

text \<open>What the slots depend on.\<close>

definition layout :: "editing \<Rightarrow> column list \<times> column list option \<times> nat list option \<times> nat option \<times> nat option" where
  "layout w = (ew_columns w, ew_details w, ew_list w, ew_seen w, ew_current w)"

lemma layout_slots:
  assumes "layout w = layout w'"
  shows "slots_of w = slots_of w'" "slot_item s w = slot_item s w'" "slot_statics s w = slot_statics s w'"
    "rows_of w = rows_of w'" "fields_of w = fields_of w'"
  using assms
  by (auto simp: layout_def slots_of_def row_slots_def rows_of_def fields_of_def slot_item_def
      slot_statics_def split: slot.splits)

text \<open>A digest leaves the items, the list and the editor; it can only ask for references.\<close>

definition list_page_state :: "editing \<Rightarrow> (nat \<Rightarrow> jsobj) \<times> nat \<times> nat list option \<times> nat option \<times> (string \<Rightarrow> nat option) \<times> editor_target \<times> column list" where
  "list_page_state w = (ew_heap w, ew_next w, ew_list w, ew_current w, ew_cache w, ew_editor w, ew_columns w)"

lemma fetch_reference_frame [simp]:
  "list_page_state (fetch_reference n c w) = list_page_state w" "layout (fetch_reference n c w) = layout w"
  "ew_shown (fetch_reference n c w) = ew_shown w" "ew_cells (fetch_reference n c w) = ew_cells w"
  "ew_count (fetch_reference n c w) = ew_count w" "basis (fetch_reference n c w) = basis w"
  by (simp_all add: fetch_reference_def list_page_state_def layout_def split: cell_kind.splits option.splits)

lemma visit_frame [simp]:
  "list_page_state (visit_slot s w) = list_page_state w" "layout (visit_slot s w) = layout w"
  by (auto simp: visit_slot_def draw_slot_def draw_def Let_def split: option.splits slot.splits)
    (simp_all add: list_page_state_def layout_def)

lemma watch_frame [simp]:
  "list_page_state (watch_slot s w) = list_page_state w" "layout (watch_slot s w) = layout w" "ew_asked (watch_slot s w) = ew_asked w"
  by (auto simp: watch_slot_def list_page_state_def layout_def split: option.splits)

lemma page_digest [simp]: "list_page_state (run_digest w) = list_page_state w"
proof -
  have "list_page_state (drop_gone (watch_current w)) = list_page_state w"
    by (simp add: list_page_state_def drop_gone_def watch_current_def)
  then show ?thesis by (simp add: run_digest_def Let_def fold_keeps [of list_page_state])
qed

lemma digest_sel [simp]:
  "ew_heap (run_digest w) = ew_heap w" "ew_next (run_digest w) = ew_next w" "ew_list (run_digest w) = ew_list w"
  "ew_current (run_digest w) = ew_current w" "ew_cache (run_digest w) = ew_cache w" "ew_editor (run_digest w) = ew_editor w"
  "ew_columns (run_digest w) = ew_columns w"
  using page_digest [of w] by (simp_all add: list_page_state_def)

text \<open>One slot is drawn, or takes the item at its index; the others stay.\<close>

definition drawn_right :: "slot \<Rightarrow> editing \<Rightarrow> bool" where
  "drawn_right s w \<longleftrightarrow> (\<exists>n. ew_shown w s = Some n \<and> ce_item (ew_cells w n) = slot_item s w)"

lemma link_cell_sel [simp]:
  "ce_kind (link_cell k c f x it) = k" "ce_column (link_cell k c f x it) = c"
  "ce_field (link_cell k c f x it) = f" "ce_item (link_cell k c f x it) = x"
  "ce_outside (link_cell k c f x it) = 0" "ce_editing (link_cell k c f x it) = False"
  by (auto simp: link_cell_def Let_def split: cell_kind.splits)

lemma statics_link [simp]: "statics (link_cell k c f x it) = (k, c, f)"
  by (simp add: statics_def)

lemma draw_slot_eq:
  "\<exists>cell w'. draw_slot s w = fetch_reference (ew_count w) cell w' \<and>
     w' = w\<lparr>ew_count := ew_count w + 1, ew_cells := (ew_cells w)(ew_count w := cell),
            ew_shown := (ew_shown w)(s \<mapsto> ew_count w)\<rparr> \<and>
     statics cell = slot_statics s w \<and> ce_item cell = slot_item s w \<and> ce_outside cell = 0"
  by (cases s; simp add: draw_slot_def draw_def Let_def slot_statics_def; rule exI; rule conjI, rule refl;
      simp)

lemma visit_effect:
  assumes "slots_sound w"
  shows "slots_sound (visit_slot s w) \<and> drawn_right s (visit_slot s w) \<and>
    (\<forall>s'. s' \<noteq> s \<longrightarrow> ew_shown (visit_slot s w) s' = ew_shown w s' \<and>
       (\<forall>n. ew_shown w s' = Some n \<longrightarrow> ew_cells (visit_slot s w) n = ew_cells w n))"
proof (cases "ew_shown w s")
  case (Some n)
  then have v: "visit_slot s w = set_cell n ((ew_cells w n)\<lparr>ce_item := slot_item s w\<rparr>) w"
    by (simp add: visit_slot_def)
  have "slots_sound (visit_slot s w)"
    using assms slots_sound_basis [of "visit_slot s w" w] v by (simp add: basis_set_cell)
  moreover have "slot_item s (visit_slot s w) = slot_item s w" by (rule layout_slots) simp
  ultimately show ?thesis
    using Some assms by (auto simp: v drawn_right_def slots_sound_def)
next
  case None
  obtain cell w' where d: "visit_slot s w = fetch_reference (ew_count w) cell w'"
    and w': "w' = w\<lparr>ew_count := ew_count w + 1, ew_cells := (ew_cells w)(ew_count w := cell),
            ew_shown := (ew_shown w)(s \<mapsto> ew_count w)\<rparr>"
    and c: "statics cell = slot_statics s w" "ce_item cell = slot_item s w"
    using draw_slot_eq [of s w] None by (auto simp: visit_slot_def)
  have l: "layout w' = layout w" by (simp add: w' layout_def)
  have old: "n < ew_count w \<and> (\<forall>s'. ew_shown w s' = Some n \<longrightarrow> s' = s1) \<and>
      statics (ew_cells w n) = slot_statics s1 w" if "ew_shown w s1 = Some n" for s1 n
    using assms that by (simp add: slots_sound_def)
  have sh: "ew_shown w' = (ew_shown w)(s \<mapsto> ew_count w)" "ew_count w' = ew_count w + 1"
      "ew_cells w' = (ew_cells w)(ew_count w := cell)" by (simp_all add: w')
  have "slots_sound w'"
    unfolding slots_sound_def
  proof (intro allI impI)
    fix s1 n assume a: "ew_shown w' s1 = Some n"
    show "n < ew_count w' \<and> (\<forall>s'. ew_shown w' s' = Some n \<longrightarrow> s' = s1) \<and>
        statics (ew_cells w' n) = slot_statics s1 w'"
    proof (cases "s1 = s")
      case True
      with a have n: "n = ew_count w" by (simp add: sh)
      have "ew_shown w s' \<noteq> Some (ew_count w)" for s' using old [of s' "ew_count w"] by auto
      then show ?thesis unfolding sh layout_slots(3) [OF l] using True n c(1) by auto
    next
      case False
      with a have "ew_shown w s1 = Some n" by (simp add: sh)
      from old [OF this] show ?thesis unfolding sh layout_slots(3) [OF l] by auto
    qed
  qed
  then have "slots_sound (visit_slot s w)"
    using slots_sound_basis [of "visit_slot s w" w'] by (simp add: d)
  moreover have "drawn_right s (visit_slot s w)"
  proof -
    have si: "slot_item s (visit_slot s w) = slot_item s w" by (rule layout_slots) simp
    show ?thesis unfolding drawn_right_def si using c by (simp add: d sh)
  qed
  moreover have "n < ew_count w" if "ew_shown w s' = Some n" for s' n
    using assms that by (simp add: slots_sound_def)
  ultimately show ?thesis by (auto simp: d sh)
qed

lemma drawn_right_other:
  assumes "slots_sound w" "drawn_right s' w"
  shows "drawn_right s' (visit_slot s w)"
proof (cases "s' = s")
  case True
  then show ?thesis using visit_effect [OF assms(1)] by simp
next
  case False
  then show ?thesis
    using assms visit_effect [OF assms(1), of s] layout_slots(2) [of "visit_slot s w" w s']
    by (auto simp: drawn_right_def)
qed

lemma fold_visit:
  assumes "slots_sound w"
  shows "slots_sound (fold visit_slot ss w) \<and> layout (fold visit_slot ss w) = layout w \<and>
    (\<forall>s. s \<in> set ss \<or> drawn_right s w \<longrightarrow> drawn_right s (fold visit_slot ss w)) \<and>
    (\<forall>s. s \<notin> set ss \<longrightarrow> ew_shown (fold visit_slot ss w) s = ew_shown w s)"
  using assms
proof (induction ss arbitrary: w)
  case Nil
  then show ?case by simp
next
  case (Cons s ss)
  note v = visit_effect [OF Cons.prems, of s]
  from Cons.IH [of "visit_slot s w"] v drawn_right_other [OF Cons.prems] show ?case
    by auto
qed

lemma visit_keeps:
  assumes "slots_sound w" "ew_shown w s' = Some n"
  shows "ew_shown (visit_slot s w) s' = Some n \<and>
    ce_model (ew_cells (visit_slot s w) n) = ce_model (ew_cells w n) \<and>
    statics (ew_cells (visit_slot s w) n) = statics (ew_cells w n)"
proof (cases "s' = s")
  case True
  then show ?thesis using assms(2) by (simp add: visit_slot_def)
next
  case False
  then show ?thesis using visit_effect [OF assms(1), of s] assms(2) by auto
qed

lemma fold_visit_keeps:
  assumes "slots_sound w" "ew_shown w s' = Some n"
  shows "ew_shown (fold visit_slot ss w) s' = Some n \<and>
    ce_model (ew_cells (fold visit_slot ss w) n) = ce_model (ew_cells w n) \<and>
    statics (ew_cells (fold visit_slot ss w) n) = statics (ew_cells w n)"
  using assms
proof (induction ss arbitrary: w)
  case (Cons s ss)
  from visit_keeps [OF Cons.prems, of s] visit_effect [OF Cons.prems(1), of s] Cons.IH [of "visit_slot s w"]
  show ?case by simp
qed simp

section \<open>The watchers\<close>

lemma focus_watch_cong:
  "ew_editor w = ew_editor w' \<Longrightarrow> ew_seen w = ew_seen w' \<Longrightarrow> focus_watch w c = focus_watch w' c"
  by (simp add: focus_watch_def editing_now_def item_of_def split: option.splits)

lemma editing_now_upd [simp]:
  "editing_now (c\<lparr>ce_editing := b\<rparr>) w = editing_now c w"
  "editing_now (c\<lparr>ce_editing := b, ce_outside := k\<rparr>) w = editing_now c w"
  "editing_now (c\<lparr>ce_model := v\<rparr>) w = editing_now c w"
  "editing_now (c\<lparr>ce_outside := k\<rparr>) w = editing_now c w"
  by (simp_all add: editing_now_def item_of_def split: option.splits)

lemma focus_watch_twice [simp]: "focus_watch w (focus_watch w c) = focus_watch w c"
  by (auto simp: focus_watch_def)

lemma focus_watch_sel [simp]:
  "ce_kind (focus_watch w c) = ce_kind c" "ce_column (focus_watch w c) = ce_column c"
  "ce_field (focus_watch w c) = ce_field c" "ce_item (focus_watch w c) = ce_item c"
  "ce_model (focus_watch w c) = ce_model c" "ce_selection (focus_watch w c) = ce_selection c"
  "ce_drawn (focus_watch w c) = ce_drawn c" "statics (focus_watch w c) = statics c"
  by (simp_all add: focus_watch_def statics_def)

lemma fold_watch:
  "fold watch_slot ss w =
     w\<lparr>ew_cells := (\<lambda>n. if \<exists>s\<in>set ss. ew_shown w s = Some n then focus_watch w (ew_cells w n) else ew_cells w n)\<rparr>"
proof (induction ss arbitrary: w)
  case Nil
  then show ?case by simp
next
  case (Cons s ss)
  have f: "focus_watch (watch_slot s w) c = focus_watch w c" for c
    using watch_frame [of s w] by (intro focus_watch_cong) (simp_all add: list_page_state_def layout_def)
  show ?case
  proof (cases "ew_shown w s")
    case None
    then show ?thesis using Cons.IH [of w] by (simp add: watch_slot_def)
  next
    case (Some n)
    have "watch_slot s w = set_cell n (focus_watch w (ew_cells w n)) w"
      using Some by (simp add: watch_slot_def)
    with Cons.IH [of "watch_slot s w"] f Some show ?thesis
      by (auto simp: fun_eq_iff set_cell_def)
  qed
qed

section \<open>Between two events\<close>

text \<open>
  What holds whenever the page is at rest: every slot of the list and the details is drawn, with the
  item at its index, and a cell is in its editor exactly when the editor's target is its item and
  column.
\<close>

definition settled :: "editing \<Rightarrow> bool" where
  "settled w \<longleftrightarrow> slots_sound w \<and> ew_seen w = ew_current w \<and>
     (\<forall>s. s \<notin> set (slots_of w) \<longrightarrow> ew_shown w s = None) \<and>
     (\<forall>s \<in> set (slots_of w). drawn_right s w)"

definition at_rest :: "editing \<Rightarrow> bool" where
  "at_rest w \<longleftrightarrow> settled w \<and>
     (\<forall>s n. ew_shown w s = Some n \<longrightarrow> has_focus (ce_kind (ew_cells w n)) (ce_column (ew_cells w n)) \<longrightarrow>
        ce_editing (ew_cells w n) = editing_now (ew_cells w n) w)"

lemma settled_shown:
  "settled w \<Longrightarrow> (\<exists>s\<in>set (slots_of w). ew_shown w s = Some n) \<longleftrightarrow> (\<exists>s. ew_shown w s = Some n)"
  by (metis option.distinct(1) settled_def)

lemma settled_digest:
  assumes "settled w"
  shows "run_digest w =
    w\<lparr>ew_cells := (\<lambda>n. if \<exists>s. ew_shown w s = Some n then focus_watch w (ew_cells w n) else ew_cells w n)\<rparr>"
proof -
  have "watch_current w = w" using assms by (simp add: settled_def watch_current_def)
  moreover have "drop_gone w = w"
  proof -
    have "(\<lambda>s. if s \<in> set (slots_of w) then ew_shown w s else None) = ew_shown w"
      using assms by (auto simp: settled_def fun_eq_iff)
    then show ?thesis by (simp add: drop_gone_def)
  qed
  moreover have f: "fold visit_slot ss w = w" if "set ss \<subseteq> set (slots_of w)" for ss
    using that
  proof (induction ss)
    case (Cons s ss)
    then have "drawn_right s w" using assms by (auto simp: settled_def)
    then obtain n where n: "ew_shown w s = Some n" and i: "slot_item s w = ce_item (ew_cells w n)"
      by (auto simp: drawn_right_def)
    have "visit_slot s w = w" unfolding visit_slot_def i by (simp add: n set_cell_def)
    with Cons show ?case by simp
  qed simp
  ultimately have "run_digest w = fold watch_slot (slots_of w) w"
    by (simp add: run_digest_def Let_def)
  then show ?thesis by (simp add: fold_watch settled_shown [OF assms])
qed

lemma layout_drawn_right:
  "layout w = layout w' \<Longrightarrow> ew_shown w = ew_shown w' \<Longrightarrow>
   (\<And>n. ce_item (ew_cells w n) = ce_item (ew_cells w' n)) \<Longrightarrow> drawn_right s w = drawn_right s w'"
  using layout_slots(2) [of w w' s] by (simp add: drawn_right_def)

lemma mem_slots:
  "Row_Slot r c \<in> set (slots_of w) \<longleftrightarrow> r < length (rows_of w) \<and> c < length (ew_columns w)"
  "Detail_Slot i \<in> set (slots_of w) \<longleftrightarrow> i < length (fields_of w)"
  by (auto simp: slots_of_def row_slots_def image_iff)

lemma slots_drop_gone [simp]: "slots_of (drop_gone w) = slots_of w"
  by (rule layout_slots) (simp add: layout_def drop_gone_def)

lemma drop_gone_none: "s \<notin> set (slots_of (drop_gone w)) \<Longrightarrow> ew_shown (drop_gone w) s = None"
  unfolding slots_drop_gone by (simp add: drop_gone_def)

lemma slots_sound_drop: "slots_sound w \<Longrightarrow> slots_sound (drop_gone (watch_current w))"
proof -
  assume s: "slots_sound w"
  let ?w = "watch_current w"
  have r: "rows_of ?w = rows_of w" "ew_columns ?w = ew_columns w" "ew_shown ?w = ew_shown w"
    "ew_cells ?w = ew_cells w" "ew_count ?w = ew_count w"
    by (simp_all add: watch_current_def rows_of_def)
  have f: "fields_of ?w = fields_of w \<or> fields_of ?w = []"
    by (simp add: watch_current_def fields_of_def)
  have st: "slot_statics sl ?w = slot_statics sl w" if "sl \<in> set (slots_of ?w)" for sl
  proof (cases sl)
    case (Detail_Slot i)
    with that f show ?thesis by (auto simp: slot_statics_def mem_slots)
  qed (simp add: slot_statics_def r)
  have l: "layout (drop_gone ?w) = layout ?w" by (simp add: layout_def drop_gone_def)
  show ?thesis
    using s st layout_slots(3) [OF l] by (auto simp: slots_sound_def drop_gone_def r split: if_splits)
qed

lemma editing_now_cells [simp]: "editing_now c (w\<lparr>ew_cells := f\<rparr>) = editing_now c w"
  by (simp add: editing_now_def item_of_def split: option.splits)

lemma watched_at_rest:
  assumes "settled w"
  shows "at_rest (w\<lparr>ew_cells := (\<lambda>n. if \<exists>s. ew_shown w s = Some n
      then focus_watch w (ew_cells w n) else ew_cells w n)\<rparr>)" (is "at_rest ?w")
proof -
  have l: "layout ?w = layout w" by (simp add: layout_def)
  have b: "slots_sound ?w"
    using assms slots_sound_basis [of ?w w] by (simp add: settled_def basis_def fun_eq_iff)
  have r: "drawn_right s ?w = drawn_right s w" for s
    using l by (rule layout_drawn_right) simp_all
  have "settled ?w"
    using assms b r layout_slots(1) [OF l] by (simp add: settled_def)
  then show ?thesis by (auto simp: at_rest_def focus_watch_def)
qed

lemma digest_at_rest:
  assumes "slots_sound w"
  shows "at_rest (run_digest w)"
proof -
  let ?w1 = "drop_gone (watch_current w)"
  let ?w2 = "fold visit_slot (slots_of ?w1) ?w1"
  note s1 = slots_sound_drop [OF assms]
  note v = fold_visit [OF s1, of "slots_of ?w1"]
  have d: "run_digest w = fold watch_slot (slots_of ?w2) ?w2" by (simp add: run_digest_def Let_def)
  from v have l2: "layout ?w2 = layout ?w1" and v1: "slots_sound ?w2"
    and v2: "\<And>s. s \<in> set (slots_of ?w1) \<Longrightarrow> drawn_right s ?w2"
    and v3: "\<And>s. s \<notin> set (slots_of ?w1) \<Longrightarrow> ew_shown ?w2 s = ew_shown ?w1 s" by blast+
  have l: "layout (run_digest w) = layout ?w1" by (simp add: d fold_keeps [of layout] l2)
  have "ew_seen ?w1 = ew_current ?w1" by (simp add: drop_gone_def watch_current_def)
  then have se: "ew_seen ?w2 = ew_current ?w2" using l2 by (simp add: layout_def)
  have sl: "slots_of ?w2 = slots_of ?w1" using l2 by (rule layout_slots)
  have sh: "ew_shown ?w2 s = None" if "s \<notin> set (slots_of ?w1)" for s
    using v3 [OF that] drop_gone_none [OF that] by (rule trans)
  have s2: "settled ?w2" unfolding settled_def sl using v1 v2 se sh by blast
  have e: "run_digest w = ?w2\<lparr>ew_cells := (\<lambda>n. if \<exists>s. ew_shown ?w2 s = Some n
      then focus_watch ?w2 (ew_cells ?w2 n) else ew_cells ?w2 n)\<rparr>" (is "_ = ?w3")
    unfolding d fold_watch settled_shown [OF s2] by (rule refl)
  show ?thesis unfolding e by (rule watched_at_rest [OF s2])
qed

lemma at_rest_sound: "at_rest w \<Longrightarrow> slots_sound w"
  by (simp add: at_rest_def settled_def)

lemma sound_digest [intro]: "slots_sound w \<Longrightarrow> slots_sound (run_digest w)"
  by (rule at_rest_sound) (rule digest_at_rest)

lemma sound_fire:
  assumes "slots_sound w"
  shows "slots_sound (fold (fire_slot inside ed dp) ss w)"
proof -
  have once: "slots_sound (fire_once n ed dp w)" if "slots_sound w" for n w
    using that slots_sound_basis [OF basis_saveFunc, of n w]
      slots_sound_basis [OF basis_saveFunc, of n "run_digest (w\<lparr>ew_editor := No_Target\<rparr>)"]
      sound_digest [of "w\<lparr>ew_editor := No_Target\<rparr>"] slots_sound_basis [of "w\<lparr>ew_editor := No_Target\<rparr>" w]
    by (simp add: fire_once_def)
  have many: "slots_sound ((fire_once n ed dp ^^ k) w)" if "slots_sound w" for n k w
    using that once by (induction k) auto
  have cell: "slots_sound (fire_cell n ed dp w)" if "slots_sound w" for n w
  proof -
    have "slots_sound (set_cell n ((ew_cells w n)\<lparr>ce_outside := 0\<rparr>) w)"
      using that slots_sound_basis [OF basis_set_cell] by (metis statics_upd(4))
    then show ?thesis unfolding fire_cell_def by (rule many)
  qed
  have "slots_sound (fire_slot inside ed dp s w)" if "slots_sound w" for s w
    using that cell by (auto simp: fire_slot_def split: option.splits)
  then show ?thesis using assms by (induction ss arbitrary: w) auto
qed

lemma click_at_rest: "slots_sound w \<Longrightarrow> at_rest (click_document inside ed dp w)"
  unfolding click_document_def by (intro digest_at_rest sound_fire)

section \<open>Every event\<close>

text \<open>What an event of the user leaves alone: the list, the item in the details, the cache.\<close>

definition ledger :: "editing \<Rightarrow> nat \<times> nat list option \<times> nat option \<times> (string \<Rightarrow> nat option) \<times> column list" where
  "ledger w = (ew_next w, ew_list w, ew_current w, ew_cache w, ew_columns w)"

lemma ledger_simps [simp]:
  "ledger (put_prop x p v w) = ledger w" "ledger (edit_this c w) = ledger w"
  "ledger (ask n q u d w) = ledger w" "ledger (ask_for_item n q u df it w) = ledger w"
  "ledger (set_cell n c w) = ledger w" "ledger (run_digest w) = ledger w"
  "ledger (w\<lparr>ew_editor := e\<rparr>) = ledger w" "ledger (w\<lparr>ew_asked := qs\<rparr>) = ledger w"
  "ledger (w\<lparr>ew_dialog := dl\<rparr>) = ledger w" "ledger (w\<lparr>ew_selecting := ns\<rparr>) = ledger w"
  by (simp_all add: ledger_def)

lemma ledger_set_model [simp]: "ledger (set_model n v w) = ledger w"
  by (simp add: set_model_def)

lemma ledger_saveFunc [simp]: "ledger (saveFunc n w) = ledger w"
  by (simp add: saveFunc_def note_text_def Let_def split: option.splits)

lemma ledger_setEditable [simp]: "ledger (cell_setEditable n icon w) = ledger w"
  by (auto simp: cell_setEditable_def text_setEditable_def reference_setEditable_def value_setEditable_def
      ask_selection_def Let_def split: cell_kind.splits)

lemma ledger_fire_cell [simp]: "ledger (fire_cell n ed dp w) = ledger w"
proof -
  have "ledger (fire_once n ed dp w) = ledger w" for w by (simp add: fire_once_def)
  then show ?thesis by (simp add: fire_cell_def funpow_keeps [of ledger])
qed

lemma ledger_click [simp]: "ledger (click_document inside ed dp w) = ledger w"
proof -
  have "ledger (fire_slot inside ed dp s w) = ledger w" for s w
    by (simp add: fire_slot_def split: option.splits)
  then show ?thesis by (simp add: click_document_def fold_keeps [of ledger])
qed

lemma ledger_selected: "ledger (fold (\<lambda>n v. saveFunc n (set_model n r v)) ns w) = ledger w"
  by (rule fold_keeps) simp

lemma basis_selected: "basis (fold (\<lambda>n v. saveFunc n (set_model n r v)) ns w) = basis w"
  by (rule fold_keeps) simp

lemma basis_close_dialog [simp]: "basis (close_select_dialog save data n w) = basis w"
  by (simp add: close_select_dialog_def Let_def)

lemma ledger_close_dialog [simp]: "ledger (close_select_dialog save data n w) = ledger w"
  by (simp add: close_select_dialog_def Let_def)

lemma basis_digest_at_rest: "at_rest w \<Longrightarrow> basis w' = basis w \<Longrightarrow> at_rest (run_digest w')"
  using slots_sound_basis at_rest_sound digest_at_rest by blast

lemma basis_click_at_rest: "at_rest w \<Longrightarrow> basis w' = basis w \<Longrightarrow> at_rest (click_document i ed dp (run_digest w'))"
  using basis_digest_at_rest at_rest_sound click_at_rest by blast

lemma add_items_basis: "add_items its w = (rs, w') \<Longrightarrow> basis w' = basis w"
  by (auto simp: add_items_def basis_def)

lemma details_sound:
  "slots_sound w \<Longrightarrow> slots_sound (w\<lparr>ew_details := Some cols,
     ew_shown := (\<lambda>s. case s of Detail_Slot _ \<Rightarrow> None | Row_Slot _ _ \<Rightarrow> ew_shown w s)\<rparr>)"
  (is "_ \<Longrightarrow> slots_sound ?w")
proof -
  assume h: "slots_sound w"
  show ?thesis
    unfolding slots_sound_def
  proof (intro allI impI)
    fix s n assume a: "ew_shown ?w s = Some n"
    then obtain r c where s: "s = Row_Slot r c" and b: "ew_shown w s = Some n" by (cases s) auto
    from h b have "n < ew_count w" "statics (ew_cells w n) = slot_statics s w"
      and u: "\<And>s'. ew_shown w s' = Some n \<Longrightarrow> s' = s" by (auto simp: slots_sound_def)
    moreover have "s' = s" if "ew_shown ?w s' = Some n" for s'
      using that by (intro u) (cases s'; simp)
    ultimately show "n < ew_count ?w \<and> (\<forall>s'. ew_shown ?w s' = Some n \<longrightarrow> s' = s) \<and>
        statics (ew_cells ?w n) = slot_statics s ?w"
      by (simp add: s slot_statics_def)
  qed
qed

lemma step_at_rest:
  assumes "at_rest w"
  shows "at_rest (cell_step e w)"
proof (cases e)
  case (Selection_Closed r)
  then show ?thesis
    using assms by (simp add: Let_def basis_digest_at_rest [OF assms] basis_selected)
next
  case (Details_Arrive cols)
  then show ?thesis using digest_at_rest [OF details_sound [OF at_rest_sound [OF assms]]] by simp
next
  case (Load_List its)
  then show ?thesis
    using basis_digest_at_rest [OF assms] add_items_basis [of its w] by (auto split: prod.split)
next
  case (Append_Rows its)
  then show ?thesis
    using assms basis_digest_at_rest [OF assms] add_items_basis [of its w]
    by (auto split: prod.split option.split)
next
  case (Answer i ans)
  then show ?thesis
    using assms by (auto simp: Let_def intro!: basis_digest_at_rest [OF assms] split: option.split)
qed (use assms in \<open>auto simp: Let_def intro!: basis_digest_at_rest [OF assms]
      basis_click_at_rest [OF assms] click_at_rest [OF at_rest_sound] split: option.split\<close>)

text \<open>The rows are different items, which exist.\<close>

definition rows_exist :: "editing \<Rightarrow> bool" where
  "rows_exist w \<longleftrightarrow> distinct (rows_of w) \<and> (\<forall>x\<in>set (rows_of w). x < ew_next w)"

lemma rows_exist_ledger: "ledger w' = ledger w \<Longrightarrow> rows_exist w' = rows_exist w"
  by (simp add: rows_exist_def rows_of_def ledger_def)

lemma replace_first_set: "set (replace_at x r xs) \<subseteq> insert r (set xs)"
  by (simp add: replace_at_def set_update_subset_insert)

lemma replace_first_distinct: "distinct xs \<Longrightarrow> r \<notin> set xs \<Longrightarrow> distinct (replace_at x r xs)"
  by (simp add: replace_at_def distinct_list_update)

lemma rows_exist_save_reply: "rows_exist w \<Longrightarrow> rows_exist (save_reply n v w)"
proof -
  assume r: "rows_exist w"
  show ?thesis
  proof (cases v)
    case (JObj it)
    show ?thesis
    proof (cases "ew_list w")
      case None
      then show ?thesis using JObj r by (simp add: save_reply_def Let_def rows_exist_def rows_of_def)
    next
      case (Some xs)
      have "\<forall>x\<in>set xs. x < ew_next w" and d: "distinct xs"
        using r Some by (simp_all add: rows_exist_def rows_of_def)
      then have n: "ew_next w \<notin> set xs" and "\<forall>x\<in>insert (ew_next w) (set xs). x < Suc (ew_next w)"
        by auto
      then have "\<forall>x\<in>set (replace_at y (ew_next w) xs). x < Suc (ew_next w)" for y
        using replace_first_set [of y "ew_next w" xs] by blast
      then show ?thesis
        using JObj r Some replace_first_distinct [OF d n]
        by (simp add: save_reply_def Let_def rows_exist_def rows_of_def)
    qed
  qed (use r in \<open>simp_all add: save_reply_def\<close>)
qed

lemma rows_exist_answer: "rows_exist w \<Longrightarrow> rows_exist (answer q v w)"
proof -
  assume r: "rows_exist w"
  have l: "ledger (answer q v w) = ledger w" if "aq_what q \<noteq> Asked_Save"
    using that by (cases "aq_what q") (auto simp: answer_def selection_reply_def reference_reply_def Let_def
        split: option.splits jsval.splits)
  show ?thesis
  proof (cases "aq_what q = Asked_Save")
    case True
    then show ?thesis by (simp add: answer_def rows_exist_save_reply [OF r])
  next
    case False
    from rows_exist_ledger [OF l [OF False]] r show ?thesis by simp
  qed
qed

lemma drop_rows_subset: "set (drop_rows rs xs) \<subseteq> set xs"
  by (auto simp: drop_rows_def set_zip)

lemma drop_rows_distinct: "distinct xs \<Longrightarrow> distinct (drop_rows rs xs)"
proof -
  assume d: "distinct xs"
  have "distinct (zip [0..<length xs] xs)" by (simp add: distinct_zipI1)
  moreover have "inj_on snd (set (zip [0..<length xs] xs))"
    using d by (auto simp: inj_on_def set_zip nth_eq_iff_index_eq)
  then have "inj_on snd (set (filter P (zip [0..<length xs] xs)))" for P
    by (rule inj_on_subset) (rule filter_is_subset)
  ultimately show ?thesis
    by (simp add: drop_rows_def distinct_map)
qed

lemma step_rows_exist:
  assumes "rows_exist w"
  shows "rows_exist (cell_step e w)"
proof (cases e)
  case (Answer i ans)
  have "rows_exist (w\<lparr>ew_asked := qs\<rparr>)" for qs using assms rows_exist_ledger [of "w\<lparr>ew_asked := qs\<rparr>" w] by simp
  then show ?thesis
    using Answer assms rows_exist_answer rows_exist_ledger [of "run_digest v" v for v]
    by (auto simp: Let_def split: option.split)
next
  case (Load_List its)
  then show ?thesis
    by (simp add: add_items_def rows_exist_ledger [of "run_digest v" v for v]) (simp add: rows_exist_def rows_of_def)
next
  case (Append_Rows its)
  then show ?thesis
    using assms
    by (auto simp: add_items_def rows_exist_ledger [of "run_digest v" v for v] split: option.split)
      (auto simp: rows_exist_def rows_of_def)
next
  case (Drop_Rows rs)
  then show ?thesis
    using assms drop_rows_distinct [of _ rs]
    by (auto simp: rows_exist_ledger [of "run_digest v" v for v] split: option.split)
      (auto simp: rows_exist_def rows_of_def dest: subsetD [OF drop_rows_subset])
next
  case Clear_List
  then show ?thesis
    by (simp add: rows_exist_ledger [of "run_digest v" v for v]) (simp add: rows_exist_def rows_of_def)
next
  case (Choose_Row r)
  then show ?thesis
    using assms by (simp add: rows_exist_ledger [of "run_digest v" v for v]) (simp add: rows_exist_def rows_of_def)
next
  case (Details_Arrive cols)
  then show ?thesis
    using assms by (simp add: rows_exist_ledger [of "run_digest v" v for v]) (simp add: rows_exist_def rows_of_def)
next
  case (Close_Dialog b d)
  then show ?thesis using assms rows_exist_ledger [of "cell_step e w" w] by (simp split: option.split)
next
  case (Selection_Closed r)
  then have "ledger (cell_step e w) = ledger w" by (simp add: Let_def ledger_selected)
  then show ?thesis using assms rows_exist_ledger by blast
qed (use assms rows_exist_ledger [of "cell_step e w" w] in \<open>simp_all\<close>)

lemma init_at_rest: "at_rest (init_editing cols node)"
  by (simp add: at_rest_def settled_def slots_sound_def init_editing_def slots_of_def row_slots_def
      rows_of_def fields_of_def)

lemma init_rows_exist: "rows_exist (init_editing cols node)"
  by (simp add: rows_exist_def rows_of_def init_editing_def)

interpretation cells: event_run cell_step "\<lambda>w. at_rest w \<and> rows_exist w" "\<lambda>_. True"
  by unfold_locales (simp add: step_at_rest step_rows_exist)

lemma run_invariant:
  "at_rest (cell_run es (init_editing cols node)) \<and> rows_exist (cell_run es (init_editing cols node))"
  unfolding cell_run_def
  by (rule cells.run_inv) (simp_all add: init_at_rest init_rows_exist list_all_iff)

section \<open>The table behind the cells\<close>

text \<open>
  What the page promises of its list, without cells, editors and requests: the items with their
  properties (the choices and texts that a cell notes beside a value are not part of them), the rows,
  the item in the details, the cache.  Only the server and the list controller change it.
\<close>

definition plain_name :: "string \<Rightarrow> bool" where
  "plain_name k \<longleftrightarrow> \<not> suffix ''__sel'' k \<and> \<not> suffix ''__str'' k"

definition plain :: "jsobj \<Rightarrow> jsobj" where
  "plain it = filter (\<lambda>a. plain_name (fst a)) it"

record table =
  tb_items :: "nat \<Rightarrow> jsobj"
  tb_next :: nat
  tb_rows :: "nat list option"
  tb_detail :: "nat option"
  tb_cache :: "string \<Rightarrow> nat option"

datatype table_event =
    Nothing_New
  | Saved "nat option" jsobj
  | Learned nat string jsobj
  | Chosen nat
  | Cleared
  | Loaded "jsobj list"
  | Appended "jsobj list"
  | Dropped "nat list"

definition learn :: "nat \<Rightarrow> string \<Rightarrow> jsval \<Rightarrow> table \<Rightarrow> table" where
  "learn x p v t = (if truthy v then t\<lparr>tb_items := (tb_items t)(x := plain (oset (tb_items t x) p v))\<rparr> else t)"

definition new_items :: "jsobj list \<Rightarrow> table \<Rightarrow> table" where
  "new_items its t =
     t\<lparr>tb_next := tb_next t + length its,
       tb_items := (\<lambda>r. if tb_next t \<le> r \<and> r < tb_next t + length its then plain (its ! (r - tb_next t))
                      else tb_items t r)\<rparr>"

fun table_step :: "table_event \<Rightarrow> table \<Rightarrow> table" where
  "table_step Nothing_New t = t"
| "table_step (Saved x it) t =
     (if has_info it then
        (let r = tb_next t;
             t1 = t\<lparr>tb_next := r + 1, tb_items := (tb_items t)(r := plain it),
                    tb_cache := (case itemsCache_key it of None \<Rightarrow> tb_cache t | Some k \<Rightarrow> (tb_cache t)(k \<mapsto> r))\<rparr>
         in case tb_rows t of
              None \<Rightarrow> t1
            | Some xs \<Rightarrow> t1\<lparr>tb_rows := Some (replace_at x r xs),
                            tb_detail := (if x = tb_detail t then Some r else tb_detail t)\<rparr>)
      else t)"
| "table_step (Learned x p it) t = learn x (p @ ''__ref'') (oget it (p @ ''__ref'')) (learn x p (oget it p) t)"
| "table_step (Chosen r) t =
     (case tb_rows t of
        None \<Rightarrow> t
      | Some xs \<Rightarrow> if r < length xs then t\<lparr>tb_detail := (if tb_detail t = Some (xs ! r) then None else Some (xs ! r))\<rparr>
                   else t)"
| "table_step Cleared t = t\<lparr>tb_rows := None\<rparr>"
| "table_step (Loaded its) t = (new_items its t)\<lparr>tb_rows := Some [tb_next t..<tb_next t + length its]\<rparr>"
| "table_step (Appended its) t =
     (case tb_rows t of
        None \<Rightarrow> t
      | Some xs \<Rightarrow> (new_items its t)\<lparr>tb_rows := Some (xs @ [tb_next t..<tb_next t + length its])\<rparr>)"
| "table_step (Dropped rs) t =
     (case tb_rows t of None \<Rightarrow> t | Some xs \<Rightarrow> t\<lparr>tb_rows := Some (drop_rows rs xs)\<rparr>)"

definition table_of :: "editing \<Rightarrow> table" where
  "table_of w =
     \<lparr>tb_items = (\<lambda>r. plain (ew_heap w r)), tb_next = ew_next w, tb_rows = ew_list w,
      tb_detail = ew_current w, tb_cache = ew_cache w\<rparr>"

definition answer_seen_as :: "asked_request \<Rightarrow> jsval \<Rightarrow> editing \<Rightarrow> table_event" where
  "answer_seen_as q data w =
     (let c = ew_cells w (aq_cell q)
      in case (aq_what q, data) of
           (Asked_Save, JObj it) \<Rightarrow> Saved (item_of w c) it
         | (Asked_Reference, JObj it) \<Rightarrow>
             (case item_of w c of None \<Rightarrow> Nothing_New | Some x \<Rightarrow> Learned x (co_property (ce_column c)) it)
         | _ \<Rightarrow> Nothing_New)"

fun seen_as :: "cell_event \<Rightarrow> editing \<Rightarrow> table_event" where
  "seen_as (Answer i (Some data)) w =
     (if i < length (ew_asked w) then answer_seen_as (ew_asked w ! i) data w else Nothing_New)"
| "seen_as (Choose_Row r) w = Chosen r"
| "seen_as Clear_List w = Cleared"
| "seen_as (Load_List its) w = Loaded its"
| "seen_as (Append_Rows its) w = Appended its"
| "seen_as (Drop_Rows rs) w = Dropped rs"
| "seen_as _ w = Nothing_New"

lemma item_of_upd [simp]:
  "item_of (w\<lparr>ew_asked := qs\<rparr>) c = item_of w c" "item_of (w\<lparr>ew_editor := e\<rparr>) c = item_of w c"
  "item_of (set_cell n c' w) c = item_of w c" "item_of (w\<lparr>ew_cells := f\<rparr>) c = item_of w c"
  by (simp_all add: item_of_def)

lemma plain_oset: "plain (oset it k v) = (if plain_name k then oset (plain it) k v else plain it)"
  by (induction it k v rule: oset.induct) (auto simp: plain_def)

lemma plain_oset_plain: "plain (oset (plain it) k v) = plain (oset it k v)"
proof -
  have "plain (plain it) = plain it" by (simp add: plain_def)
  then show ?thesis by (simp add: plain_oset)
qed

lemma sel_str_not_plain [simp]: "\<not> plain_name (p @ ''__sel'')" "\<not> plain_name (p @ ''__str'')"
  by (simp_all add: plain_name_def suffix_def)

lemma table_put_prop:
  "table_of (put_prop x p v w) = (table_of w)\<lparr>tb_items := (\<lambda>r. plain (ew_heap w r))(x := plain (oset (ew_heap w x) p v))\<rparr>"
  by (simp add: table_of_def fun_eq_iff)

lemma table_note [simp]: "\<not> plain_name p \<Longrightarrow> table_of (put_prop x p v w) = table_of w"
  by (simp add: table_of_def fun_eq_iff plain_oset)

lemma table_simps [simp]:
  "table_of (edit_this c w) = table_of w" "table_of (ask n q u d w) = table_of w"
  "table_of (ask_for_item n q u df it w) = table_of w" "table_of (set_cell n c w) = table_of w"
  "table_of (run_digest w) = table_of w" "table_of (w\<lparr>ew_editor := e\<rparr>) = table_of w"
  "table_of (w\<lparr>ew_asked := qs\<rparr>) = table_of w" "table_of (w\<lparr>ew_dialog := dl\<rparr>) = table_of w"
  "table_of (w\<lparr>ew_selecting := ns\<rparr>) = table_of w"
  by (simp_all add: table_of_def)

lemma table_set_model [simp]: "table_of (set_model n v w) = table_of w"
  by (simp add: set_model_def)

lemma table_saveFunc [simp]: "table_of (saveFunc n w) = table_of w"
  by (simp add: saveFunc_def note_text_def Let_def split: option.splits)

lemma table_setEditable [simp]: "table_of (cell_setEditable n icon w) = table_of w"
  by (auto simp: cell_setEditable_def text_setEditable_def reference_setEditable_def value_setEditable_def
      ask_selection_def Let_def split: cell_kind.splits)

lemma table_click [simp]: "table_of (click_document inside ed dp w) = table_of w"
proof -
  have "table_of (fire_once n ed dp w) = table_of w" for n w by (simp add: fire_once_def)
  then have "table_of (fire_slot inside ed dp s w) = table_of w" for s w
    by (simp add: fire_slot_def fire_cell_def funpow_keeps [of table_of] split: option.splits)
  then show ?thesis by (simp add: click_document_def fold_keeps [of table_of])
qed

lemma table_selected: "table_of (fold (\<lambda>n v. saveFunc n (set_model n r v)) ns w) = table_of w"
  by (rule fold_keeps) simp

lemma table_close_dialog [simp]: "table_of (close_select_dialog save data n w) = table_of w"
  by (simp add: close_select_dialog_def Let_def)

lemma table_save_reply:
  "table_of (save_reply n v w) =
     (case v of JObj it \<Rightarrow> table_step (Saved (item_of w (ew_cells w n)) it) (table_of w) | _ \<Rightarrow> table_of w)"
  by (simp add: save_reply_def table_of_def Let_def fun_eq_iff split: jsval.split option.split)

lemma learn_put:
  "table_of (if truthy v then put_prop x p v w else w) = learn x p v (table_of w)"
  by (simp add: learn_def table_put_prop) (simp add: table_of_def plain_oset_plain)

lemma table_answer:
  "table_of (answer q data w) = table_step (answer_seen_as q data w) (table_of w)"
proof (cases "aq_what q")
  case Asked_Save
  then show ?thesis by (simp add: answer_def answer_seen_as_def table_save_reply Let_def split: jsval.split)
next
  case Asked_Selection
  then show ?thesis by (simp add: answer_def answer_seen_as_def selection_reply_def Let_def split: option.split)
next
  case Asked_Reference
  then show ?thesis
    by (simp add: answer_def answer_seen_as_def reference_reply_def Let_def learn_put [symmetric]
        split: option.split jsval.split)
qed

text \<open>
  C1: Editing in place refines a table that only the server and the list controller change: after any
  events, one event more changes the items' properties, the rows, the details and the cache exactly
  as the table's own step for it does, and that step is none for everything the user does in a cell
  and for every answer but those to a save and to the fetch of a reference.
\<close>

theorem editing_refines_table:
  "table_of (cell_step e (cell_run es (init_editing cols node)))
     = table_step (seen_as e (cell_run es (init_editing cols node))) (table_of (cell_run es (init_editing cols node)))"
proof -
  let ?w = "cell_run es (init_editing cols node)"
  have seen: "ew_seen ?w = ew_current ?w"
    using run_invariant [of es cols node] by (simp add: at_rest_def settled_def)
  show ?thesis
  proof (cases e)
    case (Answer i ans)
    let ?w1 = "?w\<lparr>ew_asked := take i (ew_asked ?w) @ drop (Suc i) (ew_asked ?w)\<rparr>"
    have "answer_seen_as q d ?w1 = answer_seen_as q d ?w" for q d
      by (cases "aq_what q"; cases d) (simp_all add: answer_seen_as_def)
    then show ?thesis using Answer by (cases ans) (simp_all add: Let_def table_answer)
  next
    case (Choose_Row r)
    then show ?thesis
      using seen by (cases "ew_list ?w") (simp_all add: table_of_def rows_of_def)
  next
    case (Load_List its)
    then show ?thesis by (simp add: add_items_def new_items_def) (simp add: table_of_def fun_eq_iff)
  next
    case (Append_Rows its)
    then show ?thesis
      by (cases "ew_list ?w") (simp_all add: add_items_def new_items_def table_of_def fun_eq_iff)
  next
    case (Drop_Rows rs)
    then show ?thesis by (cases "ew_list ?w") (simp_all add: table_of_def)
  next
    case (Close_Dialog b d)
    then show ?thesis by (cases "ew_dialog ?w") simp_all
  next
    case (Selection_Closed r)
    then show ?thesis by (simp add: Let_def table_selected)
  next
    case (Details_Arrive c)
    then show ?thesis by (simp add: table_of_def)
  next
    case Clear_List
    then show ?thesis by (simp add: table_of_def)
  qed simp_all
qed

section \<open>One cell at work\<close>

lemma settled_cong:
  assumes "basis w' = basis w" "layout w' = layout w" "\<And>n. ce_item (ew_cells w' n) = ce_item (ew_cells w n)"
  shows "settled w' = settled w"
proof -
  have "ew_shown w' = ew_shown w" using assms(1) by (simp add: basis_def)
  then have "drawn_right s w' = drawn_right s w" for s
    using assms(2,3) by (intro layout_drawn_right)
  then show ?thesis
    using assms layout_slots(1) [OF assms(2)] slots_sound_basis [OF assms(1)]
    by (auto simp: settled_def basis_def layout_def)
qed

lemma settled_edit:
  assumes "settled w" "statics c = statics (ew_cells w n)" "ce_item c = ce_item (ew_cells w n)"
  shows "settled ((set_cell n c w)\<lparr>ew_editor := e\<rparr>)"
proof -
  have "settled ((set_cell n c w)\<lparr>ew_editor := e\<rparr>) = settled w"
    using assms(2,3) by (intro settled_cong) (auto simp: basis_set_cell layout_def)
  with assms(1) show ?thesis by simp
qed

lemma at_rest_digest: "at_rest w \<Longrightarrow> run_digest w = w"
proof -
  assume r: "at_rest w"
  have "focus_watch w (ew_cells w n) = ew_cells w n" if "ew_shown w s = Some n" for s n
    using r that by (auto simp: at_rest_def focus_watch_def)
  then have "(\<lambda>n. if \<exists>s. ew_shown w s = Some n then focus_watch w (ew_cells w n) else ew_cells w n) = ew_cells w"
    by (auto simp: fun_eq_iff)
  with r show ?thesis by (simp add: at_rest_def settled_digest)
qed

text \<open>Different cells show different items or different columns.\<close>

lemma slot_fieldD:
  "snd (snd (slot_statics s w)) = snd (snd (slot_statics s' w)) \<Longrightarrow>
   s = s' \<or> (\<exists>r r' c. s = Row_Slot r c \<and> s' = Row_Slot r' c)"
  by (cases s; cases s') (auto simp: slot_statics_def)

lemma at_rest_cellD:
  assumes "at_rest w" "ew_shown w s = Some n"
  shows "s \<in> set (slots_of w)" "statics (ew_cells w n) = slot_statics s w"
    "ce_item (ew_cells w n) = slot_item s w"
proof -
  show s: "s \<in> set (slots_of w)" using assms by (auto simp: at_rest_def settled_def)
  show "statics (ew_cells w n) = slot_statics s w"
    using assms by (auto simp: at_rest_def settled_def slots_sound_def)
  show "ce_item (ew_cells w n) = slot_item s w"
    using assms s by (auto simp: at_rest_def settled_def drawn_right_def)
qed

lemma cell_unique:
  assumes w: "at_rest w" "rows_exist w" and n: "ew_shown w s = Some n" and m: "ew_shown w s' = Some m"
    and f: "ce_field (ew_cells w n) = ce_field (ew_cells w m)"
    and i: "item_of w (ew_cells w n) = Some x" "item_of w (ew_cells w m) = Some x"
  shows "n = m"
proof -
  note a = at_rest_cellD [OF w(1) n] and b = at_rest_cellD [OF w(1) m]
  have "s = s' \<or> (\<exists>r r' c. s = Row_Slot r c \<and> s' = Row_Slot r' c)"
    using f by (intro slot_fieldD [of s w]) (simp add: a(2) [symmetric] b(2) [symmetric] statics_def)
  then have "s = s'"
  proof
    assume "\<exists>r r' c. s = Row_Slot r c \<and> s' = Row_Slot r' c"
    then obtain r r' c where s: "s = Row_Slot r c" "s' = Row_Slot r' c" by blast
    from a(1) b(1) s have l: "r < length (rows_of w)" "r' < length (rows_of w)" by (auto simp: mem_slots)
    have "fst (ce_field (ew_cells w n)) = False" "fst (ce_field (ew_cells w m)) = False"
      using a(2) b(2) s by (auto simp: statics_def slot_statics_def)
    then have "rows_of w ! r = rows_of w ! r'"
      using i a(3) b(3) s l by (simp add: item_of_def slot_item_def)
    with l w(2) have "r = r'" by (simp add: rows_exist_def nth_eq_iff_index_eq)
    with s show ?thesis by simp
  qed
  with n m show ?thesis by simp
qed

lemma columns_ledger: "ledger w' = ledger w \<Longrightarrow> ew_columns w' = ew_columns w"
  by (simp add: ledger_def)

lemma columns_answer [simp]: "ew_columns (answer q d w) = ew_columns w"
  by (simp add: answer_def save_reply_def selection_reply_def reference_reply_def Let_def
      split: asked.split jsval.split option.split)

lemmas columns_simps [simp] = columns_ledger [OF ledger_click] columns_ledger [OF ledger_saveFunc]
  columns_ledger [OF ledger_setEditable] columns_ledger [OF ledger_selected] columns_ledger [OF ledger_set_model]
  columns_ledger [OF ledger_close_dialog]

lemma columns_step: "ew_columns (cell_step e w) = ew_columns w"
  by (cases e) (simp_all add: Let_def add_items_def split: option.split)

text \<open>
  C2: After any events every cell of the list is bound to the item that is in its row now and to its
  column, and every field of the details to the item that is chosen; no two of them share a scope.  A cell
  that can be edited in place is in its editor exactly when the page's editor is opened on the item it is
  bound to now and on its column, so at most one cell is.  (What a cell draws only once, when it is linked, is
  not followed: its template, and the tick of a box.)
\<close>

theorem cells_follow_list:
  fixes es cols node
  defines "w \<equiv> cell_run es (init_editing cols node)"
  shows "(\<forall>r c. r < length (rows_of w) \<and> c < length cols \<longrightarrow>
       (\<exists>n. ew_shown w (Row_Slot r c) = Some n \<and> item_of w (ew_cells w n) = Some (rows_of w ! r) \<and>
          ce_column (ew_cells w n) = cols ! c \<and> ce_kind (ew_cells w n) = cell_kind_of (co_type (cols ! c)))) \<and>
    (\<forall>i. i < length (fields_of w) \<longrightarrow>
       (\<exists>n. ew_shown w (Detail_Slot i) = Some n \<and> item_of w (ew_cells w n) = ew_current w \<and>
          ce_column (ew_cells w n) = fields_of w ! i)) \<and>
    (\<forall>s s' n. ew_shown w s = Some n \<and> ew_shown w s' = Some n \<longrightarrow> s = s') \<and>
    (\<forall>s n. ew_shown w s = Some n \<and> has_focus (ce_kind (ew_cells w n)) (ce_column (ew_cells w n)) \<longrightarrow>
       (ce_editing (ew_cells w n) \<longleftrightarrow>
          (\<exists>x. item_of w (ew_cells w n) = Some x \<and> ew_editor w = Target x (ce_field (ew_cells w n))))) \<and>
    (\<forall>s s' n m. ew_shown w s = Some n \<and> ew_shown w s' = Some m \<and>
       has_focus (ce_kind (ew_cells w n)) (ce_column (ew_cells w n)) \<and>
       has_focus (ce_kind (ew_cells w m)) (ce_column (ew_cells w m)) \<and>
       ce_editing (ew_cells w n) \<and> ce_editing (ew_cells w m) \<longrightarrow> n = m)"
proof (intro conjI allI impI)
  have w: "at_rest w" "rows_exist w" using run_invariant unfolding w_def by blast+
  have cols: "ew_columns w = cols"
  proof -
    have "ew_columns (fold cell_step es v) = ew_columns v" for es v by (rule fold_keeps) (rule columns_step)
    then show ?thesis by (simp add: w_def cell_run_def init_editing_def)
  qed
  have ed: "ce_editing (ew_cells w n) = editing_now (ew_cells w n) w"
    if "ew_shown w s = Some n" "has_focus (ce_kind (ew_cells w n)) (ce_column (ew_cells w n))" for s n
    using w(1) that by (auto simp: at_rest_def)
  {
    fix r c assume "r < length (rows_of w) \<and> c < length cols"
    then have "drawn_right (Row_Slot r c) w"
      using w(1) cols by (auto simp: at_rest_def settled_def mem_slots)
    then obtain n where n: "ew_shown w (Row_Slot r c) = Some n" by (auto simp: drawn_right_def)
    from at_rest_cellD [OF w(1) n] n cols \<open>r < _ \<and> _\<close>
    show "\<exists>n. ew_shown w (Row_Slot r c) = Some n \<and> item_of w (ew_cells w n) = Some (rows_of w ! r) \<and>
        ce_column (ew_cells w n) = cols ! c \<and> ce_kind (ew_cells w n) = cell_kind_of (co_type (cols ! c))"
      by (auto simp: slot_item_def slot_statics_def statics_def item_of_def)
  next
    fix i assume i: "i < length (fields_of w)"
    then have "drawn_right (Detail_Slot i) w"
      using w(1) by (auto simp: at_rest_def settled_def mem_slots)
    then obtain n where n: "ew_shown w (Detail_Slot i) = Some n" by (auto simp: drawn_right_def)
    moreover have "ew_seen w = ew_current w" using w(1) by (simp add: at_rest_def settled_def)
    ultimately show "\<exists>n. ew_shown w (Detail_Slot i) = Some n \<and> item_of w (ew_cells w n) = ew_current w \<and>
        ce_column (ew_cells w n) = fields_of w ! i"
      using at_rest_cellD [OF w(1) n] by (auto simp: slot_statics_def statics_def item_of_def)
  next
    fix s s' n assume "ew_shown w s = Some n \<and> ew_shown w s' = Some n"
    then show "s = s'" using w(1) unfolding at_rest_def settled_def slots_sound_def by metis
  next
    fix s n
    assume "ew_shown w s = Some n \<and> has_focus (ce_kind (ew_cells w n)) (ce_column (ew_cells w n))"
    then show "ce_editing (ew_cells w n) \<longleftrightarrow>
        (\<exists>x. item_of w (ew_cells w n) = Some x \<and> ew_editor w = Target x (ce_field (ew_cells w n)))"
      using ed [of s n] by (simp add: editing_now_def split: option.split)
  next
    fix s s' n m
    assume a: "ew_shown w s = Some n \<and> ew_shown w s' = Some m \<and>
       has_focus (ce_kind (ew_cells w n)) (ce_column (ew_cells w n)) \<and>
       has_focus (ce_kind (ew_cells w m)) (ce_column (ew_cells w m)) \<and>
       ce_editing (ew_cells w n) \<and> ce_editing (ew_cells w m)"
    with w(1) have "editing_now (ew_cells w n) w" "editing_now (ew_cells w m) w"
      by (auto simp: at_rest_def)
    then obtain x where "ce_field (ew_cells w n) = ce_field (ew_cells w m)"
      "item_of w (ew_cells w n) = Some x" "item_of w (ew_cells w m) = Some x"
      by (auto simp: editing_now_def split: option.splits)
    with a show "n = m" using cell_unique [OF w] by blast
  }
qed

definition sample_column :: "string \<Rightarrow> string \<Rightarrow> column" where
  "sample_column p type = \<lparr>co_property = p, co_type = type, co_readonly = False, co_required = False,
     co_mode = [], co_paginated = False\<rparr>"

lemma cells_follow_list_witness:
  "\<exists>n. ew_shown (cell_run [Load_List [mk_item ''A'' ''1'' []]] (init_editing [sample_column ''n'' ''NUMBER_PICKER''] JNull))
     (Row_Slot 0 0) = Some n"
proof -
  let ?w = "cell_run [Load_List [mk_item ''A'' ''1'' []]] (init_editing [sample_column ''n'' ''NUMBER_PICKER''] JNull)"
  have "rows_of ?w = [0]" by (simp add: cell_run_def add_items_def rows_of_def init_editing_def)
  with conjunct1 [OF cells_follow_list [of "[Load_List [mk_item ''A'' ''1'' []]]" "[sample_column ''n'' ''NUMBER_PICKER'']" JNull]]
  show ?thesis by fastforce
qed

end
