(* ===== verification/Cell_Sessions.thy ===== *)
theory Cell_Sessions
  imports Cell_Editing
begin

text \<open>
  What the editor of a number or a date sends, from its opening to the click that closes it, and what
  happens to a row when the list changes under an editor or under a request.
\<close>

section \<open>An editor and its handlers\<close>

text \<open>
  The cell can be edited in place and is the only one with handlers that wait; \<open>j\<close> of them do.
\<close>

definition worked :: "nat \<Rightarrow> nat \<Rightarrow> nat \<Rightarrow> editing \<Rightarrow> bool" where
  "worked n x j w \<longleftrightarrow>
     at_rest w \<and> rows_exist w \<and> (\<exists>s. ew_shown w s = Some n) \<and>
     (ce_kind (ew_cells w n) = Date_Cell \<or> (\<exists>st. ce_kind (ew_cells w n) = Number_Cell st)) \<and>
     \<not> co_readonly (ce_column (ew_cells w n)) \<and> item_of w (ew_cells w n) = Some x \<and>
     ce_outside (ew_cells w n) = j \<and>
     (\<forall>s m. ew_shown w s = Some m \<longrightarrow> m \<noteq> n \<longrightarrow> ce_outside (ew_cells w m) = 0)"

lemma worked_focus: "worked n x j w \<Longrightarrow> has_focus (ce_kind (ew_cells w n)) (ce_column (ew_cells w n))"
  by (auto simp: worked_def)

lemma worked_editing: "worked n x j w \<Longrightarrow> ce_editing (ew_cells w n) = (ew_editor w = Target x (ce_field (ew_cells w n)))"
  using worked_focus [of n x j w] by (auto simp: worked_def at_rest_def editing_now_def)

lemma worked_usable: "worked n x j w \<Longrightarrow> usable n w"
  by (auto simp: worked_def usable_def list_ex_iff at_rest_def settled_def)

text \<open>A new model, a new target of the editor, and a digest.\<close>

definition retarget :: "nat \<Rightarrow> jsval \<Rightarrow> editor_target \<Rightarrow> editing \<Rightarrow> editing" where
  "retarget n v e w = run_digest ((set_model n v w)\<lparr>ew_editor := e\<rparr>)"

lemma retarget_cells:
  assumes "worked n x j w"
  shows "ew_cells (retarget n v e w) m =
     (let c = (if m = n then (ew_cells w n)\<lparr>ce_model := v\<rparr> else ew_cells w m)
      in if \<exists>s. ew_shown w s = Some m then focus_watch (w\<lparr>ew_editor := e\<rparr>) c else c)"
    and "ew_shown (retarget n v e w) = ew_shown w" "ew_asked (retarget n v e w) = ew_asked w"
    and "at_rest (retarget n v e w)" "ew_seen (retarget n v e w) = ew_seen w"
proof -
  let ?w = "(set_model n v w)\<lparr>ew_editor := e\<rparr>"
  have s: "settled ?w"
    unfolding set_model_def using assms by (intro settled_edit) (auto simp: worked_def at_rest_def)
  have f: "focus_watch ?w c = focus_watch (w\<lparr>ew_editor := e\<rparr>) c" for c
    by (rule focus_watch_cong) (simp_all add: set_model_def)
  show "ew_cells (retarget n v e w) m =
     (let c = (if m = n then (ew_cells w n)\<lparr>ce_model := v\<rparr> else ew_cells w m)
      in if \<exists>s. ew_shown w s = Some m then focus_watch (w\<lparr>ew_editor := e\<rparr>) c else c)"
    "ew_shown (retarget n v e w) = ew_shown w" "ew_asked (retarget n v e w) = ew_asked w"
    "ew_seen (retarget n v e w) = ew_seen w"
    unfolding retarget_def settled_digest [OF s] f by (simp_all add: set_model_def Let_def)
  show "at_rest (retarget n v e w)"
    unfolding retarget_def by (rule digest_at_rest) (use s in \<open>simp add: settled_def\<close>)
qed

lemma retarget_worked:
  assumes w: "worked n x j w" and e: "e = No_Target \<or> e = Target x (ce_field (ew_cells w n))"
  shows "worked n x (if e \<noteq> No_Target \<and> \<not> ce_editing (ew_cells w n) then j + 1 else j) (retarget n v e w)"
    "ce_model (ew_cells (retarget n v e w) n) = v"
    "statics (ew_cells (retarget n v e w) n) = statics (ew_cells w n)"
    "ew_heap (retarget n v e w) = ew_heap w" "ew_editor (retarget n v e w) = e"
    "ew_asked (retarget n v e w) = ew_asked w"
proof -
  let ?w = "retarget n v e w"
  let ?e = "w\<lparr>ew_editor := e\<rparr>"
  obtain s where sn: "ew_shown w s = Some n" using w by (auto simp: worked_def)
  have x: "item_of w (ew_cells w n) = Some x" using w by (simp add: worked_def)
  note c = retarget_cells [OF w, of v e]
  have cn: "ew_cells ?w n = focus_watch ?e ((ew_cells w n)\<lparr>ce_model := v\<rparr>)"
    using sn by (auto simp: c(1) Let_def)
  then show m: "ce_model (ew_cells ?w n) = v" and st: "statics (ew_cells ?w n) = statics (ew_cells w n)" by simp_all
  have k: "ce_kind (ew_cells ?w n) = ce_kind (ew_cells w n)" "ce_column (ew_cells ?w n) = ce_column (ew_cells w n)"
    "ce_field (ew_cells ?w n) = ce_field (ew_cells w n)" using st by (simp_all add: statics_def)
  have "ledger ?w = ledger w" by (simp add: retarget_def)
  from rows_exist_ledger [OF this] w have r: "rows_exist ?w" by (simp add: worked_def)
  have i: "item_of ?w (ew_cells ?w n) = Some x"
    using x by (simp add: item_of_def c(5) cn split: if_splits)
  have en: "editing_now (ew_cells w n) ?e \<longleftrightarrow> e \<noteq> No_Target"
    using e x by (auto simp: editing_now_def)
  have o1: "ce_outside (ew_cells ?w n) = (if e \<noteq> No_Target \<and> \<not> ce_editing (ew_cells w n) then j + 1 else j)"
    using w en worked_focus [OF w] by (auto simp: cn focus_watch_def worked_def)
  have "ce_outside (ew_cells ?w m) = 0" if m: "ew_shown w s' = Some m" "m \<noteq> n" for s' m
  proof -
    have "\<not> editing_now (ew_cells w m) ?e"
    proof
      assume "editing_now (ew_cells w m) ?e"
      then have "ce_field (ew_cells w n) = ce_field (ew_cells w m)" "item_of w (ew_cells w m) = Some x"
        using e by (auto simp: editing_now_def split: option.splits)
      with cell_unique [OF _ _ sn m(1) _ x] w m(2) show False by (auto simp: worked_def)
    qed
    moreover have "ce_outside (ew_cells w m) = 0" using w m by (auto simp: worked_def)
    ultimately show ?thesis using m by (auto simp: c(1) Let_def focus_watch_def)
  qed
  with w i o1 r c sn k show "worked n x (if e \<noteq> No_Target \<and> \<not> ce_editing (ew_cells w n) then j + 1 else j) ?w"
    by (auto simp: worked_def)
  show "ew_heap ?w = ew_heap w" "ew_editor ?w = e"
    "ew_asked ?w = ew_asked w" by (simp_all add: retarget_def c(3) [unfolded retarget_def]) (simp_all add: set_model_def)
qed

text \<open>The events as retargetings.\<close>

lemma set_model_same: "set_model n (ce_model (ew_cells w n)) w = w"
  by (simp add: set_model_def set_cell_def)

lemma outside_same: "ce_outside c = 0 \<Longrightarrow> c\<lparr>ce_outside := 0\<rparr> = c"
  by (cases c) simp

lemma quiet_fire:
  assumes "\<And>s' m. ew_shown w s' = Some m \<Longrightarrow> m \<noteq> n \<Longrightarrow> ce_outside (ew_cells w m) = 0"
  shows "fold (fire_slot (Some n) ed dp) ss w = w"
proof -
  have "fire_slot (Some n) ed dp s w = w" for s
  proof (cases "ew_shown w s")
    case (Some m)
    then show ?thesis using assms [OF Some] by (auto simp: fire_slot_def fire_cell_def set_cell_def outside_same)
  qed (simp add: fire_slot_def)
  then show ?thesis by (induction ss) auto
qed

lemma worked_click: "worked n x j w \<Longrightarrow> click_document (Some n) ed dp w = w"
  using quiet_fire [of w n] at_rest_digest [of w] by (simp add: click_document_def worked_def)

definition cell_value :: "nat \<Rightarrow> nat \<Rightarrow> editing \<Rightarrow> jsval" where
  "cell_value n x w = oget (ew_heap w x) (co_property (ce_column (ew_cells w n)))"

lemma open_editor:
  assumes "worked n x j w" "\<not> ce_editing (ew_cells w n)"
  shows "cell_step (Click_Value n icon) w = retarget n (cell_value n x w) (Target x (ce_field (ew_cells w n))) w"
  using assms worked_usable [OF assms(1)]
  by (auto simp: worked_def cell_setEditable_def value_setEditable_def edit_this_def the_item_def
      retarget_def set_model_def cell_value_def Let_def)

lemma type_in:
  assumes "worked n x j w" "ce_editing (ew_cells w n)"
  shows "cell_step (Type_In n v) w = retarget n v (Target x (ce_field (ew_cells w n))) w"
proof -
  have "(set_model n v w)\<lparr>ew_editor := Target x (ce_field (ew_cells w n))\<rparr> = set_model n v w"
    using worked_editing [OF assms(1)] assms(2) by (simp add: set_model_def set_cell_def)
  then show ?thesis using assms worked_usable [OF assms(1)] by (simp add: retarget_def)
qed

lemma press_cancel:
  assumes "worked n x j w" "ce_editing (ew_cells w n)"
  shows "cell_step (Press_Cancel n) w = retarget n (ce_model (ew_cells w n)) No_Target w"
proof -
  have "cell_step (Press_Cancel n) w
      = click_document (Some n) True False (retarget n (ce_model (ew_cells w n)) No_Target w)"
    using assms worked_usable [OF assms(1)] by (simp add: retarget_def set_model_same)
  also have "\<dots> = retarget n (ce_model (ew_cells w n)) No_Target w"
    by (rule worked_click) (rule retarget_worked(1) [OF assms(1)], simp)
  finally show ?thesis .
qed

section \<open>The click outside\<close>

text \<open>What one handler of the cell asks for: nothing, or that its value be saved.\<close>

definition cell_save_request :: "nat \<Rightarrow> nat \<Rightarrow> jsval \<Rightarrow> editing \<Rightarrow> asked_request list" where
  "cell_save_request n x v w =
     (let p = co_property (ce_column (ew_cells w n)); old = cell_value n x w
      in if loose_eq (if old = JUndef then JNull else old) (empty_to_null v) then []
         else [\<lparr>aq_cell = n, aq_what = Asked_Save, aq_url = ''spa/editItem'',
                aq_data = oset [(''itemInfo'', oget (ew_heap w x) ''itemInfo'')] p (empty_to_null v)\<rparr>])"

lemma save_request_cong:
  "ew_heap w' = ew_heap w \<Longrightarrow> ce_column (ew_cells w' n) = ce_column (ew_cells w n) \<Longrightarrow>
   cell_save_request n x v w' = cell_save_request n x v w"
  by (simp add: cell_save_request_def cell_value_def Let_def)

lemma editing_now_asked [simp]: "editing_now c (w\<lparr>ew_asked := qs\<rparr>) = editing_now c w"
  by (simp add: editing_now_def split: option.splits)

lemma at_rest_asked [simp]: "at_rest (w\<lparr>ew_asked := qs\<rparr>) = at_rest w"
proof -
  have "settled (w\<lparr>ew_asked := qs\<rparr>) = settled w"
    by (rule settled_cong) (simp_all add: layout_def)
  then show ?thesis by (simp add: at_rest_def)
qed

lemma worked_asked [simp]: "worked n x j (w\<lparr>ew_asked := qs\<rparr>) = worked n x j w"
proof -
  have "rows_exist (w\<lparr>ew_asked := qs\<rparr>) = rows_exist w" by (rule rows_exist_ledger) simp
  then show ?thesis by (simp add: worked_def)
qed

lemma worked_save:
  assumes "worked n x j w" "ew_editor w = No_Target"
  shows "saveFunc n w = w\<lparr>ew_asked := ew_asked w @ cell_save_request n x (ce_model (ew_cells w n)) w\<rparr>"
proof -
  let ?c = "ew_cells w n"
  have i: "item_of w ?c = Some x" and k: "ce_kind ?c = Date_Cell \<or> (\<exists>st. ce_kind ?c = Number_Cell st)"
    using assms(1) by (auto simp: worked_def)
  have nt: "note_text ?c x w = w" "input_value ?c it = empty_to_null (ce_model ?c)" for it
    using k by (auto simp: note_text_def input_value_def)
  have e: "w\<lparr>ew_editor := No_Target\<rparr> = w" using assms(2) by simp
  show ?thesis
    using i by (simp add: saveFunc_def Let_def nt e cell_save_request_def cell_value_def ask_def)
qed

lemma worked_fire_once:
  assumes w: "worked n x j w"
  shows "\<exists>w'. fire_once n False False w = w' \<and> worked n x j w' \<and> ce_model (ew_cells w' n) = ce_model (ew_cells w n)
     \<and> statics (ew_cells w' n) = statics (ew_cells w n) \<and> ew_heap w' = ew_heap w \<and> ew_shown w' = ew_shown w
     \<and> ew_asked w' = ew_asked w @ cell_save_request n x (ce_model (ew_cells w n)) w"
proof -
  let ?v = "ce_model (ew_cells w n)"
  let ?r = "retarget n ?v No_Target w"
  note r = retarget_worked [OF w disjI1, OF refl, of ?v]
  have p: "ce_column (ew_cells ?r n) = ce_column (ew_cells w n)" using r(3) by (simp add: statics_def)
  have q: "cell_save_request n x ?v ?r = cell_save_request n x ?v w"
    using r(4) p by (rule save_request_cong)
  have w1: "worked n x j ?r" using r(1) by simp
  have "fire_once n False False w = saveFunc n ?r"
    by (simp add: fire_once_def retarget_def set_model_same)
  also have "\<dots> = ?r\<lparr>ew_asked := ew_asked ?r @ cell_save_request n x (ce_model (ew_cells ?r n)) ?r\<rparr>"
    by (rule worked_save [OF w1]) (use r(5) in simp)
  also have "\<dots> = ?r\<lparr>ew_asked := ew_asked w @ cell_save_request n x ?v w\<rparr>" using r(2,6) q by simp
  finally show ?thesis
    using w1 r(2,3,4) retarget_cells(2) [OF w] by simp
qed

lemma worked_fire:
  assumes "worked n x j w"
  shows "\<exists>w'. (fire_once n False False ^^ k) w = w' \<and> worked n x j w' \<and>
     ce_model (ew_cells w' n) = ce_model (ew_cells w n) \<and> statics (ew_cells w' n) = statics (ew_cells w n) \<and>
     ew_heap w' = ew_heap w \<and> ew_shown w' = ew_shown w \<and>
     ew_asked w' = ew_asked w @ concat (replicate k (cell_save_request n x (ce_model (ew_cells w n)) w))"
proof (induction k)
  case 0
  then show ?case using assms by simp
next
  case (Suc k)
  then obtain w1 where w1: "(fire_once n False False ^^ k) w = w1" "worked n x j w1"
    "ce_model (ew_cells w1 n) = ce_model (ew_cells w n)" "statics (ew_cells w1 n) = statics (ew_cells w n)"
    "ew_heap w1 = ew_heap w" "ew_shown w1 = ew_shown w"
    "ew_asked w1 = ew_asked w @ concat (replicate k (cell_save_request n x (ce_model (ew_cells w n)) w))" by blast
  have "ce_column (ew_cells w1 n) = ce_column (ew_cells w n)" using w1(4) by (simp add: statics_def)
  then have "cell_save_request n x v w1 = cell_save_request n x v w" for v
    using w1(5) by (intro save_request_cong)
  moreover have "concat (replicate (Suc k) l) = concat (replicate k l) @ l" for l :: "asked_request list"
    by (induction k) auto
  ultimately show ?case using worked_fire_once [OF w1(2)] w1 by auto
qed

lemma worked_disarm:
  assumes "worked n x j w"
  shows "worked n x 0 (set_cell n ((ew_cells w n)\<lparr>ce_outside := 0\<rparr>) w)"
proof -
  let ?w = "set_cell n ((ew_cells w n)\<lparr>ce_outside := 0\<rparr>) w"
  have "settled ?w = settled w"
    by (rule settled_cong) (simp_all add: basis_set_cell layout_def)
  moreover have "editing_now c ?w = editing_now c w" for c by (simp add: editing_now_def split: option.splits)
  moreover have "rows_exist ?w = rows_exist w" by (rule rows_exist_ledger) simp
  moreover have "item_of w (c\<lparr>ce_outside := 0\<rparr>) = item_of w c" for c by (simp add: item_of_def)
  ultimately show ?thesis using assms by (auto simp: worked_def at_rest_def)
qed

lemma click_outside:
  assumes w: "worked n x j w"
  shows "\<exists>w'. cell_step (Click_Outside None False False) w = w' \<and> worked n x 0 w' \<and>
     ew_heap w' = ew_heap w \<and> ew_shown w' = ew_shown w \<and>
     ew_asked w' = ew_asked w @ concat (replicate j (cell_save_request n x (ce_model (ew_cells w n)) w))"
proof -
  obtain s where s: "ew_shown w s = Some n" using w by (auto simp: worked_def)
  have inj: "s' = s" if "ew_shown w s' = Some n" for s'
    using w s that by (auto simp: worked_def at_rest_def settled_def slots_sound_def)
  have "s \<in> set (slots_of w)" using w s at_rest_cellD(1) by (auto simp: worked_def)
  then obtain as bs where ab: "slots_of w = as @ s # bs" "s \<notin> set as" by (meson split_list_first)
  let ?w0 = "set_cell n ((ew_cells w n)\<lparr>ce_outside := 0\<rparr>) w"
  let ?fire = "fire_slot None False False"
  have rest: "fold ?fire ss v = v"
    if "\<And>s' m. s' \<in> set ss \<Longrightarrow> ew_shown v s' = Some m \<Longrightarrow> ce_outside (ew_cells v m) = 0" for ss v
    using that
  proof (induction ss)
    case (Cons s' ss)
    have "?fire s' v = v"
      using Cons.prems [of s'] by (auto simp: fire_slot_def fire_cell_def set_cell_def outside_same split: option.split)
    moreover have "fold ?fire ss v = v" by (rule Cons.IH) (use Cons.prems in auto)
    ultimately show ?case by simp
  qed simp
  have a: "fold ?fire as w = w"
  proof (rule rest)
    fix s' m assume "s' \<in> set as" "ew_shown w s' = Some m"
    with inj ab have "m \<noteq> n" by blast
    with w \<open>ew_shown w s' = Some m\<close> show "ce_outside (ew_cells w m) = 0" by (auto simp: worked_def)
  qed
  have j: "ce_outside (ew_cells w n) = j" using w by (simp add: worked_def)
  have q: "cell_save_request n x v ?w0 = cell_save_request n x v w" for v
    by (rule save_request_cong) simp_all
  from worked_fire [OF worked_disarm [OF w], of j] q obtain w1
    where w1: "(fire_once n False False ^^ j) ?w0 = w1" "worked n x 0 w1" "ew_heap w1 = ew_heap w"
      "ew_shown w1 = ew_shown w" "ew_asked w1 = ew_asked w @ concat (replicate j (cell_save_request n x (ce_model (ew_cells w n)) w))" by auto
  have f: "?fire s w = w1" using s j w1(1) by (simp add: fire_slot_def fire_cell_def)
  have "fold ?fire bs w1 = w1"
    by (rule rest) (use w1(2) in \<open>auto simp: worked_def\<close>)
  with a f have "fold ?fire (slots_of w) w = w1" by (simp add: ab(1))
  moreover have "run_digest w1 = w1" using w1(2) at_rest_digest by (simp add: worked_def)
  ultimately show ?thesis using w1 by (simp add: click_document_def)
qed

section \<open>A page that was just loaded\<close>

lemma fold_visit_draws:
  assumes "slots_sound w" "s \<in> set ss" "ew_shown w s = None"
  shows "\<exists>n. ew_shown (fold visit_slot ss w) s = Some n \<and> ce_model (ew_cells (fold visit_slot ss w) n)
    = ce_model (link_cell (fst (slot_statics s w)) (fst (snd (slot_statics s w))) (snd (snd (slot_statics s w)))
        (slot_item s w) (case slot_item s w of None \<Rightarrow> [] | Some x \<Rightarrow> ew_heap w x))"
proof -
  obtain as bs where ss: "ss = as @ s # bs" "s \<notin> set as" using assms(2) by (meson split_list_first)
  let ?w1 = "fold visit_slot as w"
  have v: "slots_sound ?w1" "layout ?w1 = layout w" "ew_shown ?w1 s = None"
    using fold_visit [OF assms(1), of as] ss(2) assms(3) by auto
  have p: "list_page_state ?w1 = list_page_state w" by (rule fold_keeps) simp
  let ?w2 = "visit_slot s ?w1"
  have d: "ew_shown ?w2 s = Some (ew_count ?w1) \<and> ce_model (ew_cells ?w2 (ew_count ?w1))
    = ce_model (link_cell (fst (slot_statics s ?w1)) (fst (snd (slot_statics s ?w1))) (snd (snd (slot_statics s ?w1)))
        (slot_item s ?w1) (case slot_item s ?w1 of None \<Rightarrow> [] | Some x \<Rightarrow> ew_heap ?w1 x))"
    using v(3) by (cases s) (simp_all add: visit_slot_def draw_slot_def draw_def Let_def slot_statics_def)
  have h: "ew_heap ?w1 = ew_heap w" using p by (simp add: list_page_state_def)
  have "slots_sound ?w2" using visit_effect [OF v(1), of s] by blast
  from fold_visit_keeps [OF this conjunct1 [OF d], of bs] d show ?thesis
    using layout_slots(2,3) [OF v(2)] h by (simp add: ss(1) cong: option.case_cong)
qed

definition cells_quiet :: "editing \<Rightarrow> bool" where
  "cells_quiet w \<longleftrightarrow> (\<forall>s m. ew_shown w s = Some m \<longrightarrow> ce_outside (ew_cells w m) = 0)"

lemma quiet_visit:
  assumes "slots_sound w" "cells_quiet w"
  shows "cells_quiet (visit_slot s w)"
proof -
  have "ce_outside (ew_cells (visit_slot s w) m) = 0" if "ew_shown (visit_slot s w) s' = Some m" for s' m
  proof (cases "s' = s")
    case False
    then show ?thesis using that assms(2) visit_effect [OF assms(1), of s] by (auto simp: cells_quiet_def)
  next
    case True
    show ?thesis
    proof (cases "ew_shown w s")
      case None
      with draw_slot_eq [of s w] that True show ?thesis by (auto simp: visit_slot_def)
    next
      case (Some n)
      with that True assms(2) show ?thesis by (auto simp: visit_slot_def cells_quiet_def)
    qed
  qed
  then show ?thesis by (simp add: cells_quiet_def)
qed

lemma quiet_digest:
  assumes "slots_sound w" "cells_quiet w" "ew_editor w = No_Target"
  shows "cells_quiet (run_digest w)"
proof -
  let ?w1 = "drop_gone (watch_current w)"
  have q1: "cells_quiet ?w1" using assms(2) by (auto simp: cells_quiet_def drop_gone_def watch_current_def split: if_splits)
  have "cells_quiet (fold visit_slot ss v)" if "slots_sound v" "cells_quiet v" for ss v
    using that
  proof (induction ss arbitrary: v)
    case (Cons s ss)
    then show ?case using visit_effect [of v s] quiet_visit [of v s] by simp
  qed simp
  then have q2: "cells_quiet (fold visit_slot (slots_of ?w1) ?w1)" using slots_sound_drop [OF assms(1)] q1 by blast
  have "list_page_state (fold visit_slot (slots_of ?w1) ?w1) = list_page_state ?w1" by (rule fold_keeps) simp
  then have "ew_editor (fold visit_slot (slots_of ?w1) ?w1) = No_Target"
    using assms(3) by (simp add: list_page_state_def drop_gone_def watch_current_def)
  then show ?thesis
    using q2 by (auto simp: run_digest_def Let_def fold_watch cells_quiet_def focus_watch_def editing_now_def split: option.splits)
qed

text \<open>A cell that was drawn and left alone, on a page where no editor waits for a click.\<close>

definition idle_cell :: "nat \<Rightarrow> nat \<Rightarrow> editing \<Rightarrow> bool" where
  "idle_cell n x w \<longleftrightarrow>
     (\<exists>s. ew_shown w s = Some n) \<and> item_of w (ew_cells w n) = Some x \<and>
     \<not> co_readonly (ce_column (ew_cells w n)) \<and> \<not> ce_editing (ew_cells w n) \<and>
     (\<forall>s m. ew_shown w s = Some m \<longrightarrow> ce_outside (ew_cells w m) = 0)"

lemma loaded_page:
  fixes its cols node
  defines "w \<equiv> cell_run [Load_List its] (init_editing cols node)"
  assumes r: "r < length its" and c: "c < length cols"
  shows "\<exists>n. ew_shown w (Row_Slot r c) = Some n \<and> item_of w (ew_cells w n) = Some r \<and>
    ce_kind (ew_cells w n) = cell_kind_of (co_type (cols ! c)) \<and> ce_column (ew_cells w n) = cols ! c \<and>
    ce_model (ew_cells w n) = ce_model (link_cell (cell_kind_of (co_type (cols ! c))) (cols ! c) (False, c) (Some r) (its ! r)) \<and>
    ew_heap w r = its ! r \<and> rows_of w = [0..<length its] \<and> cells_quiet w \<and>
    (has_focus (cell_kind_of (co_type (cols ! c))) (cols ! c) \<longrightarrow> \<not> co_readonly (cols ! c) \<longrightarrow> idle_cell n r w)"
proof -
  let ?w0 = "(snd (add_items its (init_editing cols node)))\<lparr>ew_list := Some [0..<length its]\<rparr>"
  have w: "w = run_digest ?w0"
    by (simp add: w_def cell_run_def add_items_def) (simp add: init_editing_def)
  have i: "ew_shown ?w0 s = None" "ew_columns ?w0 = cols" "ew_seen ?w0 = None" "ew_current ?w0 = None"
    "ew_editor ?w0 = No_Target" "ew_details ?w0 = None" "rows_of ?w0 = [0..<length its]" for s
    by (simp_all add: add_items_def init_editing_def rows_of_def)
  have h: "ew_heap ?w0 r = its ! r" using r by (simp add: add_items_def init_editing_def)
  have s0: "slots_sound ?w0" "cells_quiet ?w0" by (simp_all add: slots_sound_def cells_quiet_def add_items_def init_editing_def)
  let ?s = "Row_Slot r c"
  have d: "drop_gone (watch_current ?w0) = ?w0"
    by (simp add: watch_current_def i(3,4)) (simp add: drop_gone_def i(1) fun_eq_iff add_items_def init_editing_def)
  have mem: "?s \<in> set (slots_of ?w0)" using r c by (simp add: mem_slots i)
  have it: "slot_item ?s ?w0 = Some r" using r by (simp add: slot_item_def i)
  from fold_visit_draws [OF s0(1) mem i(1)] it h obtain n
    where n: "ew_shown (fold visit_slot (slots_of ?w0) ?w0) ?s = Some n"
      "ce_model (ew_cells (fold visit_slot (slots_of ?w0) ?w0) n)
        = ce_model (link_cell (cell_kind_of (co_type (cols ! c))) (cols ! c) (False, c) (Some r) (its ! r))"
    by (auto simp: slot_statics_def i)
  have wn: "ew_shown w ?s = Some n" "ce_model (ew_cells w n)
        = ce_model (link_cell (cell_kind_of (co_type (cols ! c))) (cols ! c) (False, c) (Some r) (its ! r))"
    using n by (simp_all add: w run_digest_def Let_def d fold_watch)
  have rest: "at_rest w" and q: "cells_quiet w" unfolding w by (rule digest_at_rest, rule s0) (rule quiet_digest [OF s0 i(5)])
  have hw: "ew_heap w r = its ! r" "rows_of w = [0..<length its]" "ew_columns w = cols" "ew_editor w = No_Target"
    using h i by (simp_all add: w rows_of_def)
  have st: "statics (ew_cells w n) = (cell_kind_of (co_type (cols ! c)), cols ! c, (False, c))"
    using at_rest_cellD(2) [OF rest wn(1)] by (simp add: slot_statics_def hw)
  have x: "item_of w (ew_cells w n) = Some r"
    using at_rest_cellD(3) [OF rest wn(1)] st r by (simp add: item_of_def statics_def slot_item_def hw)
  have "\<not> ce_editing (ew_cells w n)" if "has_focus (cell_kind_of (co_type (cols ! c))) (cols ! c)"
    using rest wn(1) st that hw(4) by (auto simp: at_rest_def statics_def editing_now_def split: option.splits)
  with wn hw st x q show ?thesis by (auto simp: statics_def idle_cell_def cells_quiet_def)
qed

section \<open>What an editor sends\<close>

lemma idle_worked:
  assumes "idle_cell n x (cell_run es (init_editing cols node))"
    and "ce_kind (ew_cells (cell_run es (init_editing cols node)) n) = Date_Cell \<or>
      (\<exists>st. ce_kind (ew_cells (cell_run es (init_editing cols node)) n) = Number_Cell st)"
  shows "worked n x 0 (cell_run es (init_editing cols node))"
  using assms run_invariant [of es cols node] by (auto simp: worked_def idle_cell_def)

lemma open_and_leave:
  assumes w: "worked n x 0 w" "\<not> ce_editing (ew_cells w n)"
  shows "ew_asked (cell_run [Click_Value n icon, Click_Outside None False False] w)
      = ew_asked w @ cell_save_request n x (cell_value n x w) w"
    "ew_shown (cell_run [Click_Value n icon, Click_Outside None False False] w) = ew_shown w"
    "worked n x 0 (cell_run [Click_Value n icon, Click_Outside None False False] w)"
    "ew_heap (cell_run [Click_Value n icon, Click_Outside None False False] w) = ew_heap w"
proof -
  let ?v = "cell_value n x w"
  let ?w1 = "retarget n ?v (Target x (ce_field (ew_cells w n))) w"
  note r = retarget_worked [OF w(1), of "Target x (ce_field (ew_cells w n))" ?v]
  have "worked n x 1 ?w1" using r(1) w(2) by simp
  from click_outside [OF this] r(2,4,6) retarget_cells(2) [OF w(1)]
  have a: "ew_asked (cell_step (Click_Outside None False False) ?w1) = ew_asked w @ cell_save_request n x ?v ?w1"
    and sh: "ew_shown (cell_step (Click_Outside None False False) ?w1) = ew_shown w"
    and wk: "worked n x 0 (cell_step (Click_Outside None False False) ?w1)"
    and hp: "ew_heap (cell_step (Click_Outside None False False) ?w1) = ew_heap w" by auto
  have q: "cell_save_request n x ?v ?w1 = cell_save_request n x ?v w"
    using r(3,4) by (intro save_request_cong) (auto simp: statics_def)
  have e: "cell_run [Click_Value n icon, Click_Outside None False False] w = cell_step (Click_Outside None False False) ?w1"
    by (simp only: cell_run_def fold.simps comp_apply id_apply open_editor [OF w])
  show "ew_asked (cell_run [Click_Value n icon, Click_Outside None False False] w)
      = ew_asked w @ cell_save_request n x (cell_value n x w) w"
    "ew_shown (cell_run [Click_Value n icon, Click_Outside None False False] w) = ew_shown w"
    unfolding e a sh q by (rule refl)+
  show "ew_heap (cell_run [Click_Value n icon, Click_Outside None False False] w) = ew_heap w"
    unfolding e by (rule hp)
  show "worked n x 0 (cell_run [Click_Value n icon, Click_Outside None False False] w)"
    unfolding e by (rule wk)
qed

text \<open>
  Opening the editor of a number and leaving it by a click elsewhere sends nothing unless the
  number is 0: then it sends the empty value, for the input's test for emptiness takes 0 for it.
  Looking at a zero erases it.
\<close>

theorem zero_is_erased:
  fixes es cols node
  defines "w \<equiv> cell_run es (init_editing cols node)"
  assumes "idle_cell n x w" and "ce_kind (ew_cells w n) = Number_Cell st" and "cell_value n x w = JNum i"
  shows "ew_asked (cell_run [Click_Value n icon, Click_Outside None False False] w) = ew_asked w @
    (if i = 0
     then [\<lparr>aq_cell = n, aq_what = Asked_Save, aq_url = ''spa/editItem'',
             aq_data = oset [(''itemInfo'', oget (ew_heap w x) ''itemInfo'')] (co_property (ce_column (ew_cells w n))) JNull\<rparr>]
     else [])"
proof -
  have w: "worked n x 0 w" using assms(2,3) unfolding w_def by (intro idle_worked) auto
  have "loose_eq (JNum i) (JStr []) = (i = 0)" by (simp add: str_to_num_def num_eq_def)
  then have "cell_save_request n x (JNum i) w = (if i = 0
     then [\<lparr>aq_cell = n, aq_what = Asked_Save, aq_url = ''spa/editItem'',
             aq_data = oset [(''itemInfo'', oget (ew_heap w x) ''itemInfo'')] (co_property (ce_column (ew_cells w n))) JNull\<rparr>]
     else [])"
    using assms(4) by (simp add: cell_save_request_def empty_to_null_def Let_def num_eq_def str_to_num_def)
  with open_and_leave(1) [OF w, of icon] assms(2,4) show ?thesis by (simp add: idle_cell_def)
qed

lemma cancelled_rounds:
  assumes "worked n x j w" "\<not> ce_editing (ew_cells w n)"
  shows "\<exists>w'. cell_run (concat (replicate k [Click_Value n icon, Type_In n v, Press_Cancel n])) w = w' \<and>
    worked n x (j + k) w' \<and> \<not> ce_editing (ew_cells w' n) \<and> ew_heap w' = ew_heap w \<and>
    ew_asked w' = ew_asked w \<and> ce_column (ew_cells w' n) = ce_column (ew_cells w n) \<and>
    (k > 0 \<longrightarrow> ce_model (ew_cells w' n) = v)"
  using assms
proof (induction k arbitrary: w j)
  case 0
  then show ?case by (simp add: cell_run_def)
next
  case (Suc k)
  let ?t = "Target x (ce_field (ew_cells w n))"
  let ?w1 = "retarget n (cell_value n x w) ?t w"
  let ?w2 = "retarget n v ?t ?w1"
  let ?w3 = "retarget n v No_Target ?w2"
  note r1 = retarget_worked [OF Suc.prems(1), of ?t "cell_value n x w"]
  have w1: "worked n x (Suc j) ?w1" using r1(1) Suc.prems(2) by simp
  have f1: "ce_field (ew_cells ?w1 n) = ce_field (ew_cells w n)" using r1(3) by (simp add: statics_def)
  have e1: "ce_editing (ew_cells ?w1 n)" using worked_editing [OF w1] r1(5) f1 by simp
  note r2 = retarget_worked [OF w1, of ?t v, unfolded f1]
  have w2: "worked n x (Suc j) ?w2" using r2(1) e1 by simp
  have f2: "ce_field (ew_cells ?w2 n) = ce_field (ew_cells w n)" using r2(3) f1 by (simp add: statics_def)
  have e2: "ce_editing (ew_cells ?w2 n)" using worked_editing [OF w2] r2(5) f2 by simp
  note r3 = retarget_worked [OF w2, of No_Target v]
  have w3: "worked n x (Suc j) ?w3" using r3(1) by simp
  have e3: "\<not> ce_editing (ew_cells ?w3 n)" using worked_editing [OF w3] r3(5) by simp
  have col: "ce_column (ew_cells ?w3 n) = ce_column (ew_cells w n)"
    using r1(3) r2(3) r3(3) by (simp add: statics_def)
  have m2: "ce_model (ew_cells ?w2 n) = v" using r2(2) by simp
  have "cell_run [Click_Value n icon, Type_In n v, Press_Cancel n] w = ?w3"
    using open_editor [OF Suc.prems] type_in [OF w1 e1, of v] press_cancel [OF w2 e2]
    by (simp only: cell_run_def fold.simps comp_apply id_apply f1 m2)
  then have s: "cell_run (concat (replicate (Suc k) [Click_Value n icon, Type_In n v, Press_Cancel n])) w
      = cell_run (concat (replicate k [Click_Value n icon, Type_In n v, Press_Cancel n])) ?w3"
    by (simp add: cell_run_def)
  show ?case
    unfolding s using Suc.IH [OF w3 e3] r1(4,6) r2(4,6) r3(2,4,6) col
    by (cases k) (auto simp: cell_run_def)
qed

text \<open>
  The Cancel button of an editor does not cancel: the handler of the click outside stays, and that
  click saves what had been typed.  An edit of a number or a date that was begun and cancelled k times
  is sent k times by the next click anywhere else.
\<close>

theorem cancelled_edits_are_saved:
  fixes es cols node
  defines "w \<equiv> cell_run es (init_editing cols node)"
  assumes idle: "idle_cell n x w"
    and kind: "ce_kind (ew_cells w n) = Date_Cell \<or> (\<exists>st. ce_kind (ew_cells w n) = Number_Cell st)"
    and new: "cell_value n x w \<noteq> JUndef" "\<not> loose_eq (cell_value n x w) (empty_to_null v)"
  shows "ew_asked (cell_run (concat (replicate k [Click_Value n icon, Type_In n v, Press_Cancel n])
      @ [Click_Outside None False False]) w) = ew_asked w @ replicate k
    \<lparr>aq_cell = n, aq_what = Asked_Save, aq_url = ''spa/editItem'',
     aq_data = oset [(''itemInfo'', oget (ew_heap w x) ''itemInfo'')]
       (co_property (ce_column (ew_cells w n))) (empty_to_null v)\<rparr>"
proof -
  have w: "worked n x 0 w" using idle kind unfolding w_def by (intro idle_worked)
  from cancelled_rounds [OF w, of k icon v] idle
  obtain w1 where w1: "cell_run (concat (replicate k [Click_Value n icon, Type_In n v, Press_Cancel n])) w = w1"
    "worked n x k w1" "ew_heap w1 = ew_heap w" "ew_asked w1 = ew_asked w"
    "ce_column (ew_cells w1 n) = ce_column (ew_cells w n)" "k > 0 \<longrightarrow> ce_model (ew_cells w1 n) = v"
    by (auto simp: idle_cell_def)
  have "cell_save_request n x v w1 = cell_save_request n x v w" using w1(3,5) by (rule save_request_cong)
  also have "\<dots> = [\<lparr>aq_cell = n, aq_what = Asked_Save, aq_url = ''spa/editItem'',
     aq_data = oset [(''itemInfo'', oget (ew_heap w x) ''itemInfo'')]
       (co_property (ce_column (ew_cells w n))) (empty_to_null v)\<rparr>]" (is "_ = [?rq]")
    using new by (simp add: cell_save_request_def Let_def)
  finally have q: "cell_save_request n x v w1 = [?rq]" .
  have "concat (replicate k [?rq]) = replicate k ?rq" by (induction k) auto
  moreover have "concat (replicate k (cell_save_request n x (ce_model (ew_cells w1 n)) w1)) = concat (replicate k [?rq])"
    using w1(6) q by (cases k) simp_all
  ultimately have "ew_asked (cell_step (Click_Outside None False False) w1) = ew_asked w @ replicate k ?rq"
    using click_outside [OF w1(2)] w1(4) by auto
  moreover have "cell_run (concat (replicate k [Click_Value n icon, Type_In n v, Press_Cancel n])
      @ [Click_Outside None False False]) w = cell_step (Click_Outside None False False) w1"
    using w1(1) by (simp only: cell_run_def fold_append fold.simps comp_apply id_apply)
  ultimately show ?thesis by simp
qed

text \<open>Two items with a number each, just loaded.\<close>

definition sample_items :: "jsobj list" where
  "sample_items = [mk_item ''A'' ''1'' [(''n'', JNum 0), (''b'', JBool True)],
     mk_item ''A'' ''2'' [(''n'', JNum 5), (''b'', JBool False)]]"

definition sample_page :: "string \<Rightarrow> string \<Rightarrow> editing" where
  "sample_page p type = cell_run [Load_List sample_items] (init_editing [sample_column p type] JNull)"

lemma sample_number:
  "\<exists>n. ew_shown (sample_page ''n'' ''NUMBER_PICKER'') (Row_Slot 0 0) = Some n \<and>
     idle_cell n 0 (sample_page ''n'' ''NUMBER_PICKER'') \<and>
     ce_kind (ew_cells (sample_page ''n'' ''NUMBER_PICKER'') n) = Number_Cell ''1'' \<and>
     cell_value n 0 (sample_page ''n'' ''NUMBER_PICKER'') = JNum 0 \<and>
     rows_of (sample_page ''n'' ''NUMBER_PICKER'') = [0, 1]"
  using loaded_page [of 0 sample_items 0 "[sample_column ''n'' ''NUMBER_PICKER'']" JNull]
  by (auto simp: sample_page_def sample_items_def sample_column_def cell_kind_of_def cell_value_def mk_item_def)

lemma zero_is_erased_witness:
  "\<exists>n q. ew_asked (cell_run [Click_Value n False, Click_Outside None False False] (sample_page ''n'' ''NUMBER_PICKER''))
     = ew_asked (sample_page ''n'' ''NUMBER_PICKER'') @ [q] \<and> oget (aq_data q) ''n'' = JNull"
proof -
  obtain n where n: "idle_cell n 0 (sample_page ''n'' ''NUMBER_PICKER'')"
    "ce_kind (ew_cells (sample_page ''n'' ''NUMBER_PICKER'') n) = Number_Cell ''1''"
    "cell_value n 0 (sample_page ''n'' ''NUMBER_PICKER'') = JNum 0"
    "ew_shown (sample_page ''n'' ''NUMBER_PICKER'') (Row_Slot 0 0) = Some n" using sample_number by blast
  have "co_property (ce_column (ew_cells (sample_page ''n'' ''NUMBER_PICKER'') n)) = ''n''"
    using loaded_page [of 0 sample_items 0 "[sample_column ''n'' ''NUMBER_PICKER'']" JNull] n(4)
    by (auto simp: sample_page_def sample_items_def sample_column_def)
  with zero_is_erased [OF n(1-3) [unfolded sample_page_def], folded sample_page_def, of False] show ?thesis
    by (intro exI [of _ n]) auto
qed

lemma cancelled_edits_are_saved_witness:
  "\<exists>n. length (ew_asked (cell_run (concat (replicate 2 [Click_Value n False, Type_In n (JNum 7), Press_Cancel n])
     @ [Click_Outside None False False]) (sample_page ''n'' ''NUMBER_PICKER'')))
   = length (ew_asked (sample_page ''n'' ''NUMBER_PICKER'')) + 2"
proof -
  obtain n where n: "idle_cell n 0 (sample_page ''n'' ''NUMBER_PICKER'')"
    "ce_kind (ew_cells (sample_page ''n'' ''NUMBER_PICKER'') n) = Number_Cell ''1''"
    "cell_value n 0 (sample_page ''n'' ''NUMBER_PICKER'') = JNum 0" using sample_number by blast
  have v: "\<not> loose_eq (JNum 0) (empty_to_null (JNum 7))" by (simp add: empty_to_null_def num_eq_def str_to_num_def)
  have "length (ew_asked (cell_run (concat (replicate 2 [Click_Value n False, Type_In n (JNum 7), Press_Cancel n])
     @ [Click_Outside None False False]) (sample_page ''n'' ''NUMBER_PICKER'')))
   = length (ew_asked (sample_page ''n'' ''NUMBER_PICKER'')) + 2"
    unfolding sample_page_def
    by (subst cancelled_edits_are_saved [OF n(1) [unfolded sample_page_def]])
      (use n v in \<open>simp_all add: sample_page_def\<close>)
  then show ?thesis by (rule exI [of _ n])
qed

end
