(* ===== verification/Cell_Rows.thy ===== *)
theory Cell_Rows
  imports Cell_Sessions
begin

text \<open>
  Answers and rows: what the answer to a save changes, and what becomes of a cell whose row gets
  another item while its request or its box is as it was.
\<close>

section \<open>Cells through a digest\<close>

lemma digest_keeps_cell:
  assumes "slots_sound w" "ew_shown w s = Some n" "s \<in> set (slots_of (watch_current w))"
  shows "ew_shown (run_digest w) s = Some n" "ce_model (ew_cells (run_digest w) n) = ce_model (ew_cells w n)"
    "statics (ew_cells (run_digest w) n) = statics (ew_cells w n)"
proof -
  let ?w1 = "drop_gone (watch_current w)"
  have w1: "ew_shown ?w1 s = Some n" "ew_cells ?w1 = ew_cells w"
    using assms(2,3) by (simp_all add: drop_gone_def watch_current_def)
  note k = fold_visit_keeps [OF slots_sound_drop [OF assms(1)] w1(1), of "slots_of ?w1"]
  show "ew_shown (run_digest w) s = Some n" "ce_model (ew_cells (run_digest w) n) = ce_model (ew_cells w n)"
    "statics (ew_cells (run_digest w) n) = statics (ew_cells w n)"
    using k w1(2) by (simp_all add: run_digest_def Let_def fold_watch)
qed

lemma digest_asked: "\<exists>qs. ew_asked (run_digest w) = ew_asked w @ qs"
proof -
  have visit: "\<exists>qs. ew_asked (visit_slot s w) = ew_asked w @ qs" for s w
  proof (cases "ew_shown w s")
    case None
    from draw_slot_eq [of s w] obtain cell w' where "visit_slot s w = fetch_reference (ew_count w) cell w'"
      "ew_asked w' = ew_asked w" using None by (auto simp: visit_slot_def)
    then show ?thesis
      by (simp add: fetch_reference_def ask_for_item_def split: cell_kind.split option.split sum.split)
  qed (simp add: visit_slot_def)
  have "\<exists>qs. ew_asked (fold visit_slot ss w) = ew_asked w @ qs" for ss w
  proof (induction ss arbitrary: w)
    case (Cons s ss)
    then show ?case using visit [of s w] by (metis append_assoc comp_apply fold_simps(2))
  qed simp
  moreover have "ew_asked (drop_gone (watch_current w)) = ew_asked w"
    by (simp add: drop_gone_def watch_current_def)
  ultimately show ?thesis by (simp add: run_digest_def Let_def fold_watch) metis
qed

section \<open>The answer to a save\<close>

lemma replace_first_map: "distinct xs \<Longrightarrow> replace_at (Some x) r xs = map (\<lambda>y. if y = x then r else y) xs"
proof (induction xs)
  case (Cons a xs)
  have "map (\<lambda>y. if y = x then r else y) xs = xs" if "x \<notin> set xs"
    using that by (intro map_idI) auto
  with Cons show ?case by (auto simp: replace_at_def)
qed (simp add: replace_at_def)

text \<open>
  C9: The answer to a save puts the server's version of the saved item in its place
  everywhere: in the list, where the other rows keep their items, in the details, if they show it,
  and in the cache under its class and id, and it changes no other item.  This holds whatever happens
  between the save and its answer, as long as the cell still has the item that was saved when the answer comes
  (the class and id of the request): the callback replaces the item the cell has by then, so a row that has
  moved meanwhile loses its item to the answer.
\<close>

theorem save_updates_everywhere:
  fixes es cols node
  defines "w \<equiv> cell_run es (init_editing cols node)"
  assumes req: "i < length (ew_asked w)" "aq_what (ew_asked w ! i) = Asked_Save" "aq_cell (ew_asked w ! i) = n"
    and item: "item_of w (ew_cells w n) = Some x" and list: "ew_list w = Some xs"
    and saved: "oget (ew_heap w x) ''itemInfo'' = oget (aq_data (ew_asked w ! i)) ''itemInfo''"
    and ans: "oget it ''itemInfo'' = oget (aq_data (ew_asked w ! i)) ''itemInfo''"
    and key: "itemsCache_key (aq_data (ew_asked w ! i)) = Some k"
  shows "itemsCache_key (ew_heap w x) = Some k \<and> (\<exists>w' r. cell_step (Answer i (Some (JObj it))) w = w' \<and> r \<notin> set xs \<and>
    ew_list w' = Some (map (\<lambda>y. if y = x then r else y) xs) \<and>
    ew_current w' = (if ew_current w = Some x then Some r else ew_current w) \<and>
    ew_cache w' = (ew_cache w)(k \<mapsto> r) \<and> ew_heap w' = (ew_heap w)(r := it))"
proof -
  have cong: "itemsCache_key a = itemsCache_key b" if "oget a ''itemInfo'' = oget b ''itemInfo''" for a b
    using that by (simp add: itemsCache_key_def item_key_def item_info_def)
  have k: "itemsCache_key it = Some k" "itemsCache_key (ew_heap w x) = Some k"
    using cong [OF ans] cong [OF saved] key by simp_all
  let ?w1 = "w\<lparr>ew_asked := take i (ew_asked w) @ drop (Suc i) (ew_asked w)\<rparr>"
  let ?w2 = "save_reply n (JObj it) ?w1"
  have rows: "rows_exist w" using run_invariant unfolding w_def by blast
  have d: "distinct xs" and n: "ew_next w \<notin> set xs" using rows list by (auto simp: rows_exist_def rows_of_def)
  have "has_info it" using k(1) by (auto simp: itemsCache_key_def has_info_def nullish_iff split: if_splits)
  then have r: "ew_list ?w2 = Some (replace_at (Some x) (ew_next w) xs)" "ew_cache ?w2 = (ew_cache w)(k \<mapsto> ew_next w)"
    "ew_current ?w2 = (if ew_current w = Some x then Some (ew_next w) else ew_current w)"
    "ew_heap ?w2 = (ew_heap w)(ew_next w := it)"
    using item list k(1) by (simp_all add: save_reply_def Let_def)
  have "cell_step (Answer i (Some (JObj it))) w = run_digest ?w2"
    using req by (simp add: answer_def)
  with r n k(2) show ?thesis
    by (intro conjI exI [of _ "run_digest ?w2"] exI [of _ "ew_next w"]) (simp_all add: replace_first_map [OF d])
qed

text \<open>A row that is deleted: the rows below move up, into the cells that were the row's.\<close>

lemma drop_one_row: "r < length xs \<Longrightarrow> drop_rows [r] xs = take r xs @ drop (Suc r) xs"
proof -
  assume r: "r < length xs"
  have a: "map snd (filter (\<lambda>p. fst p \<noteq> r) (zip [k..<k + length ys] ys)) = ys"
    if "r < k \<or> k + length ys \<le> r" for k and ys :: "'a list"
    using that
  proof (induction ys arbitrary: k)
    case (Cons y ys)
    have "[k..<k + length (y # ys)] = k # [Suc k..<Suc k + length ys]"
      by (simp add: upt_conv_Cons del: upt_Suc)
    moreover have "map snd (filter (\<lambda>p. fst p \<noteq> r) (zip [Suc k..<Suc k + length ys] ys)) = ys"
      by (rule Cons.IH) (use Cons.prems in auto)
    ultimately show ?case using Cons.prems by auto
  qed simp
  have xs: "xs = take r xs @ xs ! r # drop (Suc r) xs" using r by (rule id_take_nth_drop)
  have l: "length (take r xs) = r" using r by simp
  have len: "Suc (length xs - Suc 0) = length xs" using r by linarith
  have "[0..<length xs] = [0..<0 + length (take r xs)] @ r # [Suc r..<Suc r + length (drop (Suc r) xs)]"
    using r len upt_add_eq_append [of 0 r "length xs - r"] by (simp add: upt_conv_Cons del: upt_Suc)
  then have "zip [0..<length xs] xs = zip [0..<0 + length (take r xs)] (take r xs) @
      (r, xs ! r) # zip [Suc r..<Suc r + length (drop (Suc r) xs)] (drop (Suc r) xs)"
    using l by (subst (2) xs) (simp only: zip_append zip_Cons_Cons length_upt add_diff_cancel_left' diff_zero)
  moreover have "drop_rows [r] xs = map snd (filter (\<lambda>p. fst p \<noteq> r) (zip [0..<length xs] xs))"
    by (simp add: drop_rows_def)
  ultimately show ?thesis using a [of 0 "take r xs"] a [of "Suc r" "drop (Suc r) xs"] l by simp
qed

lemma row_moves_up:
  fixes es cols node
  defines "w \<equiv> cell_run es (init_editing cols node)"
  assumes n: "ew_shown w (Row_Slot r c) = Some n" and r: "Suc r < length (rows_of w)"
  shows "\<exists>w'. cell_step (Drop_Rows [r]) w = w' \<and> at_rest w' \<and> rows_exist w' \<and>
    rows_of w' = take r (rows_of w) @ drop (Suc r) (rows_of w) \<and> ew_list w' = Some (rows_of w') \<and>
    ew_shown w' (Row_Slot r c) = Some n \<and> item_of w' (ew_cells w' n) = Some (rows_of w ! Suc r) \<and>
    ce_model (ew_cells w' n) = ce_model (ew_cells w n) \<and> statics (ew_cells w' n) = statics (ew_cells w n) \<and>
    ew_heap w' = ew_heap w \<and> ew_next w' = ew_next w \<and> (\<exists>qs. ew_asked w' = ew_asked w @ qs)"
proof -
  have w: "at_rest w" "rows_exist w" using run_invariant unfolding w_def by blast+
  obtain xs where xs: "ew_list w = Some xs" "rows_of w = xs"
    using r by (cases "ew_list w") (auto simp: rows_of_def)
  let ?l = "take r xs @ drop (Suc r) xs"
  let ?w1 = "w\<lparr>ew_list := Some ?l\<rparr>"
  let ?w = "run_digest ?w1"
  have len: "r < length ?l" using r xs by simp
  have step: "cell_step (Drop_Rows [r]) w = ?w" using xs r by (simp add: drop_one_row)
  have inv: "at_rest ?w" "rows_exist ?w"
    unfolding step [symmetric] by (rule step_at_rest [OF w(1)], rule step_rows_exist [OF w(2)])
  have snd1: "slots_sound ?w1" using at_rest_sound [OF w(1)] slots_sound_basis [of ?w1 w] by simp
  have c: "c < length (ew_columns w)" using at_rest_cellD(1) [OF w(1) n] by (simp add: mem_slots)
  have "Row_Slot r c \<in> set (slots_of (watch_current ?w1))"
    using len c by (simp add: mem_slots rows_of_def watch_current_def)
  from digest_keeps_cell [OF snd1 _ this] n
  have k: "ew_shown ?w (Row_Slot r c) = Some n" "ce_model (ew_cells ?w n) = ce_model (ew_cells w n)"
    "statics (ew_cells ?w n) = statics (ew_cells w n)" by simp_all
  have rows: "rows_of ?w = ?l" by (simp add: rows_of_def)
  have "ce_item (ew_cells ?w n) = Some (?l ! r)"
    using at_rest_cellD(3) [OF inv(1) k(1)] len by (simp add: slot_item_def rows)
  moreover have "\<not> fst (ce_field (ew_cells ?w n))"
    using at_rest_cellD(2) [OF inv(1) k(1)] by (simp add: statics_def slot_statics_def)
  ultimately have it: "item_of ?w (ew_cells ?w n) = Some (xs ! Suc r)"
    using r xs by (simp add: item_of_def nth_append)
  show ?thesis
    using step inv rows k it xs digest_asked [of ?w1] by simp
qed

text \<open>
  A save whose answer comes after the item has been deleted from the list replaces the item that
  moved into its row: the deleted item is back in the list, in the place of another that nobody
  touched and that is no longer listed.
\<close>

theorem late_answer_replaces_next_item:
  fixes es cols node
  defines "w \<equiv> cell_run es (init_editing cols node)"
  assumes n: "ew_shown w (Row_Slot r c) = Some n" and r: "Suc r < length (rows_of w)"
    and req: "i < length (ew_asked w)" "aq_what (ew_asked w ! i) = Asked_Save" "aq_cell (ew_asked w ! i) = n"
    and ans: "has_info it"
  shows "\<exists>w'. cell_run [Drop_Rows [r], Answer i (Some (JObj it))] w = w' \<and>
    map (ew_heap w') (rows_of w')
      = map (ew_heap w) (take r (rows_of w)) @ it # map (ew_heap w) (drop (Suc (Suc r)) (rows_of w))"
proof -
  let ?xs = "rows_of w"
  from row_moves_up [OF n [unfolded w_def] r [unfolded w_def]] obtain w1 qs
    where w1: "cell_step (Drop_Rows [r]) w = w1" "rows_exist w1" "ew_list w1 = Some (take r ?xs @ drop (Suc r) ?xs)"
      "item_of w1 (ew_cells w1 n) = Some (?xs ! Suc r)" "ew_heap w1 = ew_heap w" "ew_next w1 = ew_next w"
      "ew_asked w1 = ew_asked w @ qs" by (auto simp: w_def)
  let ?l = "take r ?xs @ drop (Suc r) ?xs"
  let ?y = "?xs ! Suc r"
  let ?w2 = "w1\<lparr>ew_asked := take i (ew_asked w1) @ drop (Suc i) (ew_asked w1)\<rparr>"
  let ?w3 = "save_reply n (JObj it) ?w2"
  have d: "distinct ?l" and old: "\<forall>z\<in>set ?l. z < ew_next w"
    using w1(2,3,6) by (auto simp: rows_exist_def rows_of_def)
  have l: "?l = take r ?xs @ ?y # drop (Suc (Suc r)) ?xs"
    using r by (simp add: Cons_nth_drop_Suc)
  have "?y \<notin> set (take r ?xs) \<union> set (drop (Suc (Suc r)) ?xs)" using d unfolding l by auto
  then have rep: "replace_at (Some ?y) (ew_next w) ?l
      = take r ?xs @ ew_next w # drop (Suc (Suc r)) ?xs"
    unfolding replace_first_map [OF d] unfolding l by (auto intro!: map_idI)
  have "ew_list ?w3 = Some (replace_at (Some ?y) (ew_next w) ?l)" "ew_heap ?w3 = (ew_heap w)(ew_next w := it)"
    using w1 ans by (simp_all add: save_reply_def Let_def)
  then have fin: "rows_of (run_digest ?w3) = take r ?xs @ ew_next w # drop (Suc (Suc r)) ?xs"
    "ew_heap (run_digest ?w3) = (ew_heap w)(ew_next w := it)"
    unfolding rep by (simp_all add: rows_of_def)
  have "map (ew_heap (run_digest ?w3)) (rows_of (run_digest ?w3))
      = map (ew_heap w) (take r ?xs) @ it # map (ew_heap w) (drop (Suc (Suc r)) ?xs)"
    unfolding fin using old l by auto
  moreover have "cell_run [Drop_Rows [r], Answer i (Some (JObj it))] w = run_digest ?w3"
    using w1(1,7) req by (simp add: cell_run_def answer_def nth_append)
  ultimately show ?thesis by blast
qed

text \<open>
  The box of a cell is set when its row is drawn and never again, while the rows are told apart by
  their index only: when an item with a ticked box is deleted, the next item moves into its row and
  under its tick.  If that item's property is false, the tick stays wrong, and clicking it away sends
  nothing.
\<close>

theorem checkbox_shows_deleted_item:
  fixes es cols node
  defines "w \<equiv> cell_run es (init_editing cols node)"
  assumes n: "ew_shown w (Row_Slot r c) = Some n" and r: "Suc r < length (rows_of w)"
    and box: "ce_kind (ew_cells w n) = Checkbox_Cell" "\<not> co_readonly (ce_column (ew_cells w n))"
    and ticked: "ce_model (ew_cells w n) = JBool True"
    and other: "oget (ew_heap w (rows_of w ! Suc r)) (co_property (ce_column (ew_cells w n))) = JBool False"
  shows "\<exists>w'. cell_step (Drop_Rows [r]) w = w' \<and>
    ce_item (ew_cells w' n) = Some (rows_of w ! Suc r) \<and> ce_model (ew_cells w' n) = JBool True \<and>
    ((\<forall>s m. ew_shown w' s = Some m \<longrightarrow> ce_outside (ew_cells w' m) = 0) \<longrightarrow>
       ew_asked (cell_step (Toggle_Box n) w') = ew_asked w')"
proof -
  from row_moves_up [OF n [unfolded w_def] r [unfolded w_def]] obtain w1
    where w1: "cell_step (Drop_Rows [r]) w = w1" "at_rest w1" "ew_shown w1 (Row_Slot r c) = Some n"
      "item_of w1 (ew_cells w1 n) = Some (rows_of w ! Suc r)" "ce_model (ew_cells w1 n) = JBool True"
      "statics (ew_cells w1 n) = statics (ew_cells w n)" "ew_heap w1 = ew_heap w"
    using ticked by (auto simp: w_def)
  have k: "ce_kind (ew_cells w1 n) = Checkbox_Cell" "ce_column (ew_cells w1 n) = ce_column (ew_cells w n)"
    using w1(6) box by (simp_all add: statics_def)
  have "\<not> fst (ce_field (ew_cells w1 n))"
    using at_rest_cellD(2) [OF w1(2,3)] by (simp add: statics_def slot_statics_def)
  then have item: "ce_item (ew_cells w1 n) = Some (rows_of w ! Suc r)" using w1(4) by (simp add: item_of_def)
  have "ew_asked (cell_step (Toggle_Box n) w1) = ew_asked w1"
    if cells_quiet: "\<And>s m. ew_shown w1 s = Some m \<Longrightarrow> ce_outside (ew_cells w1 m) = 0"
  proof -
    let ?w2 = "set_model n (JBool False) w1"
    have us: "usable n w1"
      using at_rest_cellD(1) [OF w1(2,3)] w1(3) box k by (auto simp: usable_def list_ex_iff)
    have sv: "saveFunc n ?w2 = ?w2"
    proof -
      let ?c = "(ew_cells w1 n)\<lparr>ce_model := JBool False\<rparr>"
      have "item_of ?w2 ?c = Some (rows_of w ! Suc r)"
        using w1(4) by (simp add: item_of_def set_model_def split: if_splits)
      then show ?thesis
        using other k w1(7)
        by (simp add: saveFunc_def set_model_def note_text_def input_value_def Let_def num_eq_def)
    qed
    have s2: "settled ?w2"
      using settled_edit [of w1 "(ew_cells w1 n)\<lparr>ce_model := JBool False\<rparr>" n "ew_editor w1"] w1(2)
      by (simp add: set_model_def at_rest_def set_cell_def)
    have "\<not> editing_now (ew_cells w1 m) w1 \<or> ce_editing (ew_cells w1 m)"
      if "ew_shown w1 s = Some m" "has_focus (ce_kind (ew_cells w1 m)) (ce_column (ew_cells w1 m))" for s m
      using w1(2) that by (auto simp: at_rest_def)
    then have out: "ce_outside (ew_cells (run_digest ?w2) m) = 0" if "ew_shown (run_digest ?w2) s = Some m" for s m
      using that cells_quiet unfolding settled_digest [OF s2]
      by (auto simp: focus_watch_def set_model_def editing_now_def item_of_def split: option.splits if_splits)
    have "at_rest (run_digest ?w2)" by (rule digest_at_rest) (use s2 in \<open>simp add: settled_def\<close>)
    then have "click_document (Some n) False False (run_digest ?w2) = run_digest ?w2"
      unfolding click_document_def using quiet_fire [of "run_digest ?w2" n] out at_rest_digest by simp
    then have "cell_step (Toggle_Box n) w1 = run_digest ?w2"
      using us k w1(5) sv by simp
    then show ?thesis unfolding settled_digest [OF s2] by (simp add: set_model_def)
  qed
  with w1(1,5) item show ?thesis by auto
qed

text \<open>
  A text with a list of choices: reading the value for the save already writes the text of the new
  choice into the item, which keeps its old value.  A save that fails changes nothing any more, so the
  item goes on showing a choice that was not stored.
\<close>

theorem text_shown_before_saved:
  assumes "ce_kind (ew_cells w n) = Text_Cell" and "ce_selection (ew_cells w n) = JObj sel"
    and "item_of w (ew_cells w n) = Some x"
  defines "p \<equiv> co_property (ce_column (ew_cells w n))"
  shows "oget (ew_heap (saveFunc n w) x) (p @ ''__str'') = oget sel (to_str (ce_model (ew_cells w n)))"
    and "oget (ew_heap (saveFunc n w) x) p = oget (ew_heap w x) p"
  using assms by (simp_all add: saveFunc_def note_text_def put_prop_def ask_def Let_def)

section \<open>Witnesses\<close>

definition busy_events :: "nat \<Rightarrow> cell_event list" where
  "busy_events n = [Load_List sample_items, Click_Value n False, Click_Outside None False False]"

text \<open>The save of the first row's number is under way.\<close>

lemma sample_busy:
  "\<exists>n i. i < length (ew_asked (cell_run (busy_events n) (init_editing [sample_column ''n'' ''NUMBER_PICKER''] JNull))) \<and>
     aq_what (ew_asked (cell_run (busy_events n) (init_editing [sample_column ''n'' ''NUMBER_PICKER''] JNull)) ! i) = Asked_Save \<and>
     aq_cell (ew_asked (cell_run (busy_events n) (init_editing [sample_column ''n'' ''NUMBER_PICKER''] JNull)) ! i) = n \<and>
     ew_shown (cell_run (busy_events n) (init_editing [sample_column ''n'' ''NUMBER_PICKER''] JNull)) (Row_Slot 0 0) = Some n \<and>
     item_of (cell_run (busy_events n) (init_editing [sample_column ''n'' ''NUMBER_PICKER''] JNull))
       (ew_cells (cell_run (busy_events n) (init_editing [sample_column ''n'' ''NUMBER_PICKER''] JNull)) n) = Some 0 \<and>
     ew_list (cell_run (busy_events n) (init_editing [sample_column ''n'' ''NUMBER_PICKER''] JNull)) = Some [0, 1] \<and>
     oget (aq_data (ew_asked (cell_run (busy_events n) (init_editing [sample_column ''n'' ''NUMBER_PICKER''] JNull)) ! i)) ''itemInfo''
       = oget (mk_item ''A'' ''1'' []) ''itemInfo'' \<and>
     oget (ew_heap (cell_run (busy_events n) (init_editing [sample_column ''n'' ''NUMBER_PICKER''] JNull)) 0) ''itemInfo''
       = oget (mk_item ''A'' ''1'' []) ''itemInfo''"
proof -
  let ?w = "sample_page ''n'' ''NUMBER_PICKER''"
  obtain n where n: "ew_shown ?w (Row_Slot 0 0) = Some n" "idle_cell n 0 ?w" "ce_kind (ew_cells ?w n) = Number_Cell ''1''"
    "cell_value n 0 ?w = JNum 0" "rows_of ?w = [0, 1]" using sample_number by blast
  have col: "ce_column (ew_cells ?w n) = sample_column ''n'' ''NUMBER_PICKER''"
    and info: "oget (ew_heap ?w 0) ''itemInfo'' = oget (mk_item ''A'' ''1'' []) ''itemInfo''"
    using loaded_page [of 0 sample_items 0 "[sample_column ''n'' ''NUMBER_PICKER'']" JNull] n(1)
    by (auto simp: sample_page_def sample_items_def mk_item_def)
  let ?r = "cell_run [Click_Value n False, Click_Outside None False False] ?w"
  have e: "cell_run (busy_events n) (init_editing [sample_column ''n'' ''NUMBER_PICKER''] JNull) = ?r"
    by (simp only: busy_events_def sample_page_def cell_run_def fold.simps comp_apply id_apply)
  have w: "worked n 0 0 ?w" unfolding sample_page_def
    by (rule idle_worked) (use n in \<open>simp_all add: sample_page_def\<close>)
  have ne: "\<not> ce_editing (ew_cells ?w n)" using n(2) by (simp add: idle_cell_def)
  have q: "ew_asked ?r = ew_asked ?w @ cell_save_request n 0 (JNum 0) ?w" "ew_shown ?r = ew_shown ?w"
    using open_and_leave [OF w ne, of False] n(4) by simp_all
  have it: "item_of ?r (ew_cells ?r n) = Some 0"
    using open_and_leave(3) [OF w ne, of False] by (simp add: worked_def)
  have "\<exists>qq. cell_save_request n 0 (JNum 0) ?w = [qq] \<and> aq_what qq = Asked_Save \<and> aq_cell qq = n \<and>
      oget (aq_data qq) ''itemInfo'' = oget (mk_item ''A'' ''1'' []) ''itemInfo''"
    using n(4) col info by (simp add: cell_save_request_def empty_to_null_def str_to_num_def num_eq_def Let_def
        sample_column_def)
  then obtain qq where qq: "cell_save_request n 0 (JNum 0) ?w = [qq]" "aq_what qq = Asked_Save" "aq_cell qq = n"
    "oget (aq_data qq) ''itemInfo'' = oget (mk_item ''A'' ''1'' []) ''itemInfo''" by blast
  have heap: "oget (ew_heap ?r 0) ''itemInfo'' = oget (mk_item ''A'' ''1'' []) ''itemInfo''"
    using open_and_leave [OF w ne, of False] info by simp
  have "ledger ?r = ledger ?w" by (simp add: cell_run_def)
  then have "ew_list ?r = Some [0, 1]" using n(5) by (simp add: ledger_def rows_of_def split: option.splits)
  with e q qq n(1) it heap show ?thesis
    by (intro exI [of _ n] exI [of _ "length (ew_asked ?w)"]) simp
qed

lemma save_updates_everywhere_witness:
  "\<exists>n i r. ew_list (cell_step (Answer i (Some (JObj (mk_item ''A'' ''1'' []))))
     (cell_run (busy_events n) (init_editing [sample_column ''n'' ''NUMBER_PICKER''] JNull))) = Some [r, 1]"
proof -
  let ?w = "\<lambda>n. cell_run (busy_events n) (init_editing [sample_column ''n'' ''NUMBER_PICKER''] JNull)"
  obtain n i where "i < length (ew_asked (?w n))" "aq_what (ew_asked (?w n) ! i) = Asked_Save"
    "aq_cell (ew_asked (?w n) ! i) = n" "item_of (?w n) (ew_cells (?w n) n) = Some 0" "ew_list (?w n) = Some [0, 1]"
    and info: "oget (aq_data (ew_asked (?w n) ! i)) ''itemInfo'' = oget (mk_item ''A'' ''1'' []) ''itemInfo''"
      "oget (ew_heap (?w n) 0) ''itemInfo'' = oget (mk_item ''A'' ''1'' []) ''itemInfo''"
    using sample_busy by blast
  have key: "itemsCache_key (aq_data (ew_asked (?w n) ! i)) = Some ''A:1''"
    using itemsCache_key_mk_item [of "''A''" "''1''" "[]"] info(1)
    by (simp add: itemsCache_key_def item_key_def item_info_def split: if_splits)
  have "oget (ew_heap (?w n) 0) ''itemInfo'' = oget (aq_data (ew_asked (?w n) ! i)) ''itemInfo''"
    "oget (mk_item ''A'' ''1'' []) ''itemInfo'' = oget (aq_data (ew_asked (?w n) ! i)) ''itemInfo''"
    using info by (simp_all only:)
  from save_updates_everywhere [OF \<open>i < _\<close> \<open>aq_what _ = _\<close> \<open>aq_cell _ = _\<close> \<open>item_of _ _ = _\<close> \<open>ew_list _ = _\<close> this key]
  have "\<exists>r. ew_list (cell_step (Answer i (Some (JObj (mk_item ''A'' ''1'' [])))) (?w n)) =
      Some (map (\<lambda>y. if y = 0 then r else y) [0, 1])" by (elim conjE exE) (simp only:, blast)
  then show ?thesis by (simp del: cell_step.simps) blast
qed

lemma late_answer_replaces_next_item_witness:
  "\<exists>n i w'. cell_run [Drop_Rows [0], Answer i (Some (JObj (mk_item ''A'' ''1'' [])))]
      (cell_run (busy_events n) (init_editing [sample_column ''n'' ''NUMBER_PICKER''] JNull)) = w' \<and>
     map (ew_heap w') (rows_of w') = [mk_item ''A'' ''1'' []]"
proof -
  let ?w = "\<lambda>n. cell_run (busy_events n) (init_editing [sample_column ''n'' ''NUMBER_PICKER''] JNull)"
  obtain n i where w: "ew_shown (?w n) (Row_Slot 0 0) = Some n" "i < length (ew_asked (?w n))"
    "aq_what (ew_asked (?w n) ! i) = Asked_Save" "aq_cell (ew_asked (?w n) ! i) = n" "ew_list (?w n) = Some [0, 1]"
    using sample_busy by blast
  have r: "Suc 0 < length (rows_of (?w n))" "rows_of (?w n) = [0, 1]" using w(5) by (simp_all add: rows_of_def)
  have "has_info (mk_item ''A'' ''1'' [])" by (simp add: has_info_def mk_item_def)
  from late_answer_replaces_next_item [OF w(1) r(1) w(2-4) this] r(2)
  have "map (ew_heap (cell_run [Drop_Rows [0], Answer i (Some (JObj (mk_item ''A'' ''1'' [])))] (?w n)))
      (rows_of (cell_run [Drop_Rows [0], Answer i (Some (JObj (mk_item ''A'' ''1'' [])))] (?w n)))
    = [mk_item ''A'' ''1'' []]" by simp
  with refl show ?thesis by (intro exI [of _ n] exI [of _ i] exI conjI)
qed

lemma checkbox_shows_deleted_item_witness:
  "\<exists>n. ce_item (ew_cells (cell_step (Drop_Rows [0]) (sample_page ''b'' ''CHECKBOX'')) n) = Some 1 \<and>
     ce_model (ew_cells (cell_step (Drop_Rows [0]) (sample_page ''b'' ''CHECKBOX'')) n) = JBool True"
proof -
  let ?w = "sample_page ''b'' ''CHECKBOX''"
  have one: "Suc 0 < length sample_items" "0 < length [sample_column ''b'' ''CHECKBOX'']" by (simp_all add: sample_items_def)
  obtain n where n: "ew_shown ?w (Row_Slot 0 0) = Some n" "rows_of ?w = [0, 1]" "ce_kind (ew_cells ?w n) = Checkbox_Cell"
    "ce_column (ew_cells ?w n) = sample_column ''b'' ''CHECKBOX''" "ce_model (ew_cells ?w n) = JBool True"
    using loaded_page [of 0 sample_items 0 "[sample_column ''b'' ''CHECKBOX'']" JNull]
    by (auto simp: sample_page_def sample_items_def sample_column_def cell_kind_of_def link_cell_def mk_item_def)
  have h: "oget (ew_heap ?w 1) ''b'' = JBool False"
    using loaded_page [OF one, of JNull]
    by (auto simp: sample_page_def sample_items_def mk_item_def)
  have "Suc 0 < length (rows_of ?w)" "\<not> co_readonly (ce_column (ew_cells ?w n))"
    "oget (ew_heap ?w (rows_of ?w ! Suc 0)) (co_property (ce_column (ew_cells ?w n))) = JBool False"
    using n h by (simp_all add: sample_column_def)
  from checkbox_shows_deleted_item [OF n(1) [unfolded sample_page_def], folded sample_page_def,
      OF this(1) n(3) this(2) n(5) this(3)] n(2)
  have "ce_item (ew_cells (cell_step (Drop_Rows [0]) ?w) n) = Some 1 \<and>
     ce_model (ew_cells (cell_step (Drop_Rows [0]) ?w) n) = JBool True" by (simp del: cell_step.simps)
  then show ?thesis by blast
qed

end
