(* ===== verification/Popup_Editors.thy ===== *)
theory Popup_Editors
  imports Cell_Templates
begin

text \<open>
  The editors that open above the page: formatted text and images of a list
  (\<open>ion-ng-listfield.js\<close>), formatted text of a new element (\<open>ion-ng-collectionfield.js\<close>).  A page has
  many such cells, and one popup.  The buttons of the popup write a global variable \<open>save\<close>, which all cells share and
  the popup's script declares anew each time it opens; the popup also closes by its overlay or the escape key.
  What the browser makes of a text between the tags of a \<open>textarea\<close>, and the editor of that, is the
  parameter \<open>area\<close>; what it gives back of a markup put into an element is the parameter \<open>inner\<close>.
\<close>

datatype popup_kind = Cell_Html | Cell_Image | Row_Html

datatype popup_value = Html_Value string | File_Value "string option"

text \<open>
  \<open>pp_bound\<close>: what a cell is bound to, as the watcher saw it last: \<open>item[col.property]\<close> of a text, the
  \<open>__url\<close> of an image, which is its link; \<open>pp_html\<close>: the contents of a text's element; \<open>pp_file\<close>: the variable
  \<open>file\<close> of an image's cell; \<open>pp_open\<close>: the cell of the open popup with what its editor holds; \<open>pp_save\<close>: the
  global variable; \<open>pp_saved\<close>: the calls of \<open>scope.save\<close>, which compares the value with the item's and sends it.
\<close>

record popup_page =
  pp_kind :: "nat \<Rightarrow> popup_kind"
  pp_bound :: "nat \<Rightarrow> string"
  pp_html :: "nat \<Rightarrow> string"
  pp_file :: "nat \<Rightarrow> string option"
  pp_open :: "(nat \<times> popup_value) option"
  pp_save :: bool
  pp_target :: "(jsval \<times> string) option"
  pp_saved :: "(nat \<times> popup_value) list"

datatype popup_event =
    Popup_Click nat bool jsval string
  | Popup_Input popup_value
  | Popup_Button bool
  | Popup_Dismiss
  | Item_Drawn nat string

section \<open>Opening\<close>

definition html_popup :: "(string \<Rightarrow> string) \<Rightarrow> nat \<Rightarrow> bool \<Rightarrow> jsval \<Rightarrow> string \<Rightarrow> popup_page \<Rightarrow> popup_page" where
  "html_popup area n on_icon index property w =
     (if on_icon
      then w\<lparr>pp_target := Some (index, property), pp_save := True,
             pp_open := Some (n, Html_Value (area (pp_html w n)))\<rparr>
      else w)"

definition image_popup :: "nat \<Rightarrow> bool \<Rightarrow> popup_page \<Rightarrow> popup_page" where
  "image_popup n on_icon w = (if on_icon then w\<lparr>pp_save := True, pp_open := Some (n, File_Value None)\<rparr> else w)"

definition row_popup :: "(string \<Rightarrow> string) \<Rightarrow> nat \<Rightarrow> jsval \<Rightarrow> string \<Rightarrow> popup_page \<Rightarrow> popup_page" where
  "row_popup area n index property w =
     w\<lparr>pp_target := Some (index, property), pp_save := True, pp_open := Some (n, Html_Value (area (pp_html w n)))\<rparr>"

text \<open>While a popup is open its overlay covers the page.\<close>

definition popup_open :: "(string \<Rightarrow> string) \<Rightarrow> nat \<Rightarrow> bool \<Rightarrow> jsval \<Rightarrow> string \<Rightarrow> popup_page \<Rightarrow> popup_page" where
  "popup_open area n on_icon index property w =
     (if pp_open w \<noteq> None then w
      else case pp_kind w n of
             Row_Html \<Rightarrow> row_popup area n index property w
           | Cell_Html \<Rightarrow> html_popup area n on_icon index property w
           | Cell_Image \<Rightarrow> image_popup n on_icon w)"

section \<open>Closing\<close>

text \<open>
  \<open>onCleanup\<close> reads the editor, \<open>onClosed\<close> uses what was read.  A text's element is written, and \<open>scope.save\<close>
  reads it back; \<open>file\<close> is read on Cancel, too; the text of a new element is written and not saved.
\<close>

definition html_closed :: "(string \<Rightarrow> string) \<Rightarrow> nat \<Rightarrow> string \<Rightarrow> popup_page \<Rightarrow> popup_page" where
  "html_closed inner n tinyMceData w =
     (if pp_save w
      then (let w1 = w\<lparr>pp_html := (pp_html w)(n := inner tinyMceData)\<rparr>
            in w1\<lparr>pp_saved := pp_saved w1 @ [(n, Html_Value (pp_html w1 n))]\<rparr>)
      else w)"

definition image_closed :: "nat \<Rightarrow> string option \<Rightarrow> popup_page \<Rightarrow> popup_page" where
  "image_closed n file w =
     (let w1 = w\<lparr>pp_file := (pp_file w)(n := file)\<rparr>
      in if pp_save w1 then w1\<lparr>pp_saved := pp_saved w1 @ [(n, File_Value (pp_file w1 n))]\<rparr> else w1)"

definition row_closed :: "(string \<Rightarrow> string) \<Rightarrow> nat \<Rightarrow> string \<Rightarrow> popup_page \<Rightarrow> popup_page" where
  "row_closed inner n tinyMceData w =
     (if pp_save w then w\<lparr>pp_html := (pp_html w)(n := inner tinyMceData)\<rparr> else w)"

definition popup_closed :: "(string \<Rightarrow> string) \<Rightarrow> popup_page \<Rightarrow> popup_page" where
  "popup_closed inner w =
     (let w1 = w\<lparr>pp_open := None\<rparr>
      in case pp_open w of
           None \<Rightarrow> w
         | Some (n, Html_Value t) \<Rightarrow> if pp_kind w n = Row_Html then row_closed inner n t w1 else html_closed inner n t w1
         | Some (n, File_Value f) \<Rightarrow> image_closed n f w1)"

definition colorboxClose :: "(string \<Rightarrow> string) \<Rightarrow> bool \<Rightarrow> popup_page \<Rightarrow> popup_page" where
  "colorboxClose inner status w = popup_closed inner (if status = False then w\<lparr>pp_save := False\<rparr> else w)"

section \<open>The page\<close>

text \<open>
  A digest that finds another value under a cell's binding (the answer to a save has put a new item in its
  place, or the row has another item) redraws it: \<open>ng-bind-html\<close> writes a text's element, an image's link is the
  value.  A value that is as it was redraws nothing.
\<close>

definition item_drawn :: "(string \<Rightarrow> string) \<Rightarrow> nat \<Rightarrow> string \<Rightarrow> popup_page \<Rightarrow> popup_page" where
  "item_drawn inner n v w =
     (if pp_bound w n = v then w
      else w\<lparr>pp_bound := (pp_bound w)(n := v),
             pp_html := (if pp_kind w n = Cell_Image then pp_html w else (pp_html w)(n := inner v))\<rparr>)"

definition edited :: "popup_value \<Rightarrow> popup_value \<Rightarrow> popup_value" where
  "edited v old =
     (case (v, old) of
        (Html_Value _, Html_Value _) \<Rightarrow> v
      | (File_Value _, File_Value _) \<Rightarrow> v
      | _ \<Rightarrow> old)"

definition popup_step :: "(string \<Rightarrow> string) \<Rightarrow> (string \<Rightarrow> string) \<Rightarrow> popup_event \<Rightarrow> popup_page \<Rightarrow> popup_page" where
  "popup_step area inner e w =
     (case e of
        Popup_Click n on_icon index property \<Rightarrow> popup_open area n on_icon index property w
      | Popup_Input v \<Rightarrow>
          (case pp_open w of None \<Rightarrow> w | Some (n, old) \<Rightarrow> w\<lparr>pp_open := Some (n, edited v old)\<rparr>)
      | Popup_Button status \<Rightarrow> (if pp_open w = None then w else colorboxClose inner status w)
      | Popup_Dismiss \<Rightarrow> popup_closed inner w
      | Item_Drawn n v \<Rightarrow> item_drawn inner n v w)"

definition popup_run :: "(string \<Rightarrow> string) \<Rightarrow> (string \<Rightarrow> string) \<Rightarrow> popup_event list \<Rightarrow> popup_page \<Rightarrow> popup_page" where
  "popup_run area inner es w = fold (popup_step area inner) es w"

lemmas popup_defs = popup_open_def html_popup_def image_popup_def row_popup_def popup_closed_def html_closed_def
  image_closed_def row_closed_def colorboxClose_def

section \<open>One opening\<close>

fun popup_closes :: "popup_event \<Rightarrow> bool" where
  "popup_closes (Popup_Button b) = True"
| "popup_closes Popup_Dismiss = True"
| "popup_closes _ = False"

fun is_drawn :: "popup_event \<Rightarrow> bool" where
  "is_drawn (Item_Drawn n v) = True"
| "is_drawn _ = False"

text \<open>What the editor holds after the inputs of a session.\<close>

definition typed_last :: "popup_event list \<Rightarrow> popup_value \<Rightarrow> popup_value" where
  "typed_last es v = fold (\<lambda>e old. case e of Popup_Input x \<Rightarrow> edited x old | _ \<Rightarrow> old) es v"

text \<open>
  While a popup is open, the page is the page without it, redrawn alike, and the popup holds what
  was typed; the variable says that nothing has been cancelled.
\<close>

definition popup_beside :: "nat \<Rightarrow> popup_value \<Rightarrow> popup_page \<Rightarrow> popup_page \<Rightarrow> bool" where
  "popup_beside n v w u \<longleftrightarrow> pp_open w = Some (n, v) \<and> pp_save w \<and> pp_kind w = pp_kind u \<and> pp_bound w = pp_bound u \<and>
     pp_html w = pp_html u \<and> pp_file w = pp_file u \<and> pp_saved w = pp_saved u"

lemma popup_beside_step:
  assumes "popup_beside n v w u" "\<not> popup_closes e"
  shows "popup_beside n (typed_last [e] v) (popup_step area inner e w)
    (popup_run area inner (filter is_drawn [e]) u)"
  using assms
  by (cases e) (auto simp: popup_beside_def popup_step_def popup_run_def typed_last_def popup_open_def item_drawn_def)

lemma popup_beside_run:
  assumes "popup_beside n v w u" "list_all (\<lambda>e. \<not> popup_closes e) es"
  shows "popup_beside n (typed_last es v) (popup_run area inner es w) (popup_run area inner (filter is_drawn es) u)"
  using assms
proof (induction es arbitrary: v w u)
  case Nil
  then show ?case by (simp add: popup_run_def typed_last_def)
next
  case (Cons e es)
  then have "popup_beside n (typed_last es (typed_last [e] v)) (popup_run area inner es (popup_step area inner e w))
      (popup_run area inner (filter is_drawn es) (popup_run area inner (filter is_drawn [e]) u))"
    by (intro Cons.IH popup_beside_step) simp_all
  then show ?case by (cases "is_drawn e") (simp_all add: popup_run_def typed_last_def)
qed

text \<open>The kinds of the cells never change, so a popup holds text or a file as its cell does.\<close>

definition popup_fits :: "popup_kind \<Rightarrow> popup_value \<Rightarrow> bool" where
  "popup_fits k v \<longleftrightarrow> (case v of Html_Value _ \<Rightarrow> k \<noteq> Cell_Image | File_Value _ \<Rightarrow> k = Cell_Image)"

lemma typed_last_fits: "popup_fits k v \<Longrightarrow> popup_fits k (typed_last es v)"
proof (induction es arbitrary: v)
  case (Cons e es)
  have "popup_fits k (case e of Popup_Input x \<Rightarrow> edited x v | _ \<Rightarrow> v)"
    using Cons.prems by (cases e) (auto simp: popup_fits_def edited_def split: popup_value.splits)
  from Cons.IH [OF this] show ?case by (simp add: typed_last_def)
qed (simp add: typed_last_def)

lemma drawn_kind [simp]: "pp_kind (popup_run area inner es w) = pp_kind w"
proof -
  have "pp_kind (popup_step area inner e w) = pp_kind w" for e w
    by (cases e) (auto simp: popup_step_def popup_defs item_drawn_def Let_def
        split: popup_kind.split popup_value.split option.split)
  then show ?thesis unfolding popup_run_def by (induction es arbitrary: w) simp_all
qed

text \<open>Closing the popup, seen beside the page without it.\<close>

lemma popup_beside_close:
  assumes "popup_beside n v w u" "popup_fits (pp_kind u n) v" "popup_closes c"
  shows "pp_open (popup_step area inner c w) = None" "pp_bound (popup_step area inner c w) = pp_bound u"
    and "pp_html (popup_step area inner c w) =
      (case v of File_Value f \<Rightarrow> pp_html u
       | Html_Value t \<Rightarrow> if c = Popup_Button False then pp_html u else (pp_html u)(n := inner t))"
    and "pp_saved (popup_step area inner c w) = pp_saved u @
      (if c = Popup_Button False then []
       else case v of File_Value f \<Rightarrow> [(n, File_Value f)]
            | Html_Value t \<Rightarrow> if pp_kind u n = Row_Html then [] else [(n, Html_Value (inner t))])"
proof -
  note d = popup_beside_def popup_step_def popup_defs popup_fits_def Let_def
  show "pp_open (popup_step area inner c w) = None"
    using assms by (cases c; cases v) (auto simp: d)
  show "pp_bound (popup_step area inner c w) = pp_bound u"
    using assms by (cases c; cases v) (auto simp: d)
  show "pp_html (popup_step area inner c w) =
      (case v of File_Value f \<Rightarrow> pp_html u
       | Html_Value t \<Rightarrow> if c = Popup_Button False then pp_html u else (pp_html u)(n := inner t))"
    using assms by (cases c; cases v) (auto simp: d)
  show "pp_saved (popup_step area inner c w) = pp_saved u @
      (if c = Popup_Button False then []
       else case v of File_Value f \<Rightarrow> [(n, File_Value f)]
            | Html_Value t \<Rightarrow> if pp_kind u n = Row_Html then [] else [(n, Html_Value (inner t))])"
    using assms by (cases c; cases v) (auto simp: d)
qed

text \<open>
  C37: A popup saves for the cell it was opened for, and only when it was not cancelled, although all popups
  of the page share one variable: whatever earlier popups have left in it, and whatever is typed and redrawn
  while the popup is open, closing it by Cancel saves nothing and leaves every cell as the page without the
  popup would show it; closing it in any other way calls the save of its cell once, with the text the editor
  held last (as the cell's element gives it back) or the file that was chosen, and changes no other cell.
  The text of a new element is only shown: nothing stores it.
\<close>

theorem popup_saves_for_its_cell:
  assumes "pp_open w = None" "on_icon \<or> pp_kind w n = Row_Html"
    and "list_all (\<lambda>e. \<not> popup_closes e) es" "popup_closes c"
  shows "let w' = popup_run area inner (Popup_Click n on_icon index property # es @ [c]) w;
      u = popup_run area inner (filter is_drawn es) w;
      v = typed_last es (if pp_kind w n = Cell_Image then File_Value None else Html_Value (area (pp_html w n)))
    in pp_open w' = None \<and> pp_bound w' = pp_bound u \<and>
      (if c = Popup_Button False then pp_html w' = pp_html u \<and> pp_saved w' = pp_saved w
       else case v of
              File_Value f \<Rightarrow> pp_html w' = pp_html u \<and> pp_saved w' = pp_saved w @ [(n, File_Value f)]
            | Html_Value t \<Rightarrow> pp_html w' = (pp_html u)(n := inner t) \<and>
                pp_saved w' = pp_saved w @ (if pp_kind w n = Row_Html then [] else [(n, Html_Value (inner t))]))"
proof -
  let ?first = "if pp_kind w n = Cell_Image then File_Value None else Html_Value (area (pp_html w n))"
  let ?w1 = "popup_step area inner (Popup_Click n on_icon index property) w"
  let ?w2 = "popup_run area inner es ?w1" and ?u = "popup_run area inner (filter is_drawn es) w"
  let ?v = "typed_last es ?first"
  have "popup_beside n ?first ?w1 w"
    using assms(1,2) by (cases "pp_kind w n") (auto simp: popup_beside_def popup_step_def popup_defs)
  from popup_beside_run [OF this assms(3)] have b: "popup_beside n ?v ?w2 ?u" .
  have f: "popup_fits (pp_kind w n) ?v" by (rule typed_last_fits) (simp add: popup_fits_def)
  have "pp_saved (popup_run area inner ds w) = pp_saved w" if "\<forall>e\<in>set ds. is_drawn e" for ds
  proof -
    have "pp_saved (popup_step area inner e w) = pp_saved w" if "is_drawn e" for e w
      using that by (cases e) (simp_all add: popup_step_def item_drawn_def)
    then show ?thesis using that unfolding popup_run_def by (induction ds arbitrary: w) simp_all
  qed
  then have s: "pp_saved ?u = pp_saved w" by simp
  have e: "popup_run area inner (Popup_Click n on_icon index property # es @ [c]) w = popup_step area inner c ?w2"
    by (simp add: popup_run_def)
  have "popup_fits (pp_kind ?u n) ?v" using f by simp
  note close = popup_beside_close [OF b this assms(4)]
  show ?thesis
    unfolding Let_def e close s by (simp split: popup_value.split)
qed

definition sample_popups :: popup_page where
  "sample_popups =
     \<lparr>pp_kind = (\<lambda>_. Cell_Html), pp_bound = (\<lambda>_. ''a''), pp_html = (\<lambda>_. ''a''), pp_file = (\<lambda>_. None), pp_open = None,
      pp_save = False, pp_target = None, pp_saved = []\<rparr>"

lemma popup_saves_for_its_cell_witness:
  "pp_saved (popup_run (\<lambda>t. t) (\<lambda>t. t)
     (Popup_Click 1 True (JNum 1) ''text'' # [Popup_Input (Html_Value ''b''), Item_Drawn 0 ''c''] @ [Popup_Dismiss])
     sample_popups) = [(1, Html_Value ''b'')]"
  using popup_saves_for_its_cell [of sample_popups True 1 "[Popup_Input (Html_Value ''b''), Item_Drawn 0 ''c'']"
      Popup_Dismiss "\<lambda>t. t" "\<lambda>t. t" "JNum 1" "''text''"]
  by (simp add: sample_popups_def typed_last_def edited_def Let_def)

text \<open>
  Every way of closing the popup but its Cancel button saves: the escape key and a click beside the
  popup send what was typed so far.
\<close>

lemma popup_dismissed_saves:
  assumes "pp_kind w n = Cell_Html" and "pp_open w = Some (n, Html_Value t)" and "pp_save w"
  shows "pp_saved (popup_step area inner Popup_Dismiss w) = pp_saved w @ [(n, Html_Value (inner t))]"
    and "pp_saved (popup_step area inner (Popup_Button False) w) = pp_saved w"
  using assms by (simp_all add: popup_step_def popup_defs Let_def)

text \<open>
  The popup writes the cell's element itself, behind the back of the binding: when the server refuses the
  save, or stores the old text, the bound value is as it was, nothing is redrawn, and the cell goes on showing a text
  that is not stored.
\<close>

lemma refused_text_shown:
  assumes "pp_kind w n = Cell_Html" and "pp_open w = Some (n, Html_Value t)" and "pp_save w"
    and "w' = popup_run area inner [Popup_Dismiss, Item_Drawn n (pp_bound w n)] w"
  shows "pp_html w' n = inner t" "pp_bound w' n = pp_bound w n"
  using assms by (simp_all add: popup_run_def popup_step_def popup_defs item_drawn_def Let_def)

text \<open>The text of a new element is not given to anything that stores it.\<close>

lemma row_text_not_saved: "pp_saved (row_closed inner n t w) = pp_saved w"
  by (simp add: row_closed_def)

end
