(* ===== verification/Dialogs.thy ===== *)
theory Dialogs
  imports View_Model Data_Cache
begin

text \<open>
  The dialogs of \<open>ion-ng-modals.js\<close>: the attribute search, the selection of objects for a
  reference or a collection, and the form dialog with its service.  Callbacks are numbers;
  calling one is an event.
\<close>

section \<open>The attribute search\<close>

definition checkSearchCondition :: "string \<Rightarrow> jsval \<Rightarrow> bool" where
  "checkSearchCondition type value =
     (if contains type ''NOT_EMPTY'' then True
      else if contains type ''NOT_EQUAL LIKE LESS_OR_EQUAL MORE_OR_EQUAL IN''
      then truthy value \<and> \<not> loose_eq value (JStr []) else False)"

definition search_types :: "string list" where
  "search_types = [''EQUAL'', ''NOT_EQUAL'', ''EMPTY'', ''NOT_EMPTY'', ''LIKE'', ''LESS'', ''MORE'',
                   ''LESS_OR_EQUAL'', ''MORE_OR_EQUAL'', ''IN'']"

record search_cond =
  so_property :: string
  so_type :: string
  so_value :: jsval

text \<open>The loop of \<open>search\<close> over the attributes of the item searched for.\<close>

definition search_option :: "jsobj \<Rightarrow> string \<Rightarrow> jsval \<Rightarrow> search_cond option" where
  "search_option searchItem attr v =
     (case oget searchItem (attr @ ''__search'') of
        JStr t \<Rightarrow>
          if t \<noteq> [] \<and> checkSearchCondition t v
          then Some \<lparr>so_property = attr, so_type = t, so_value = v\<rparr> else None
      | _ \<Rightarrow> None)"

fun option_loop :: "jsobj \<Rightarrow> jsobj \<Rightarrow> search_cond list" where
  "option_loop searchItem [] = []"
| "option_loop searchItem ((attr, v) # rest) =
     (case search_option searchItem attr v of None \<Rightarrow> [] | Some o' \<Rightarrow> [o'])
     @ option_loop searchItem rest"

definition search_options :: "jsobj \<Rightarrow> search_cond list" where
  "search_options searchItem = option_loop searchItem searchItem"

text \<open>\<open>enc\<close> and \<open>dec\<close> are \<open>btoa(JSON.stringify(o))\<close> and \<open>eval(atob(s))\<close>.\<close>

definition run_search :: "(search_cond list \<Rightarrow> string) \<Rightarrow> jsobj \<Rightarrow> jsobj \<Rightarrow> jsobj" where
  "run_search enc searchItem search =
     (let options = search_options searchItem
      in if options \<noteq> [] then oset search ''__filter'' (JStr (enc options)) else search)"

fun fill_search :: "search_cond list \<Rightarrow> jsobj \<Rightarrow> jsobj" where
  "fill_search [] it = it"
| "fill_search (o' # os) it =
     fill_search os (oset (oset it (so_property o' @ ''__search'') (JStr (so_type o')))
                       (so_property o') (so_value o'))"

definition open_search :: "(jsval \<Rightarrow> search_cond list res) \<Rightarrow> jsobj \<Rightarrow> jsobj \<Rightarrow> jsobj res" where
  "open_search dec item search =
     (if truthy (oget search ''__filter'')
      then rbind (dec (oget search ''__filter'')) (\<lambda>fo. Inr (fill_search fo item))
      else Inr item)"

section \<open>The selection dialogs\<close>

datatype modal_kind = Reference_Modal | Collection_Modal

record select_params =
  sp_item :: "jsobj option"
  sp_container :: jsval
  sp_property :: jsval
  sp_result :: jsval

record select_scope =
  se_refList :: "jsval list option"
  se_page :: int
  se_pagesCount :: "int option"
  se_clickedItem :: "nat option"
  se_itemsToChoose :: jsobj
  se_caption :: jsval

definition clickOnItem :: "nat \<Rightarrow> select_scope \<Rightarrow> select_scope" where
  "clickOnItem index s = s\<lparr>se_clickedItem := Some index\<rparr>"

definition selection_id :: "select_params \<Rightarrow> jsval res" where
  "selection_id p =
     (case sp_item p of
        Some it \<Rightarrow> rbind (item_key_or_empty it) (\<lambda>k. Inr (JStr k))
      | None \<Rightarrow> Inr (sp_container p))"

text \<open>The button of a page: the request it sends, and its answer.\<close>

definition pageClick :: "select_params \<Rightarrow> int \<Rightarrow> (string \<times> jsobj) res" where
  "pageClick p page =
     rbind (selection_id p) (\<lambda>i.
       Inr (''spa/selectionItems'', [(''__id'', i), (''__property'', sp_property p), (''__page'', JNum page)]))"

datatype button = Choose | Prev int | Here int | Page int | Next int

definition generateDialogButtons :: "int \<Rightarrow> int option \<Rightarrow> button list" where
  "generateDialogButtons curPage pagesCount =
     [Choose]
     @ (if curPage \<noteq> 1 then [Prev (curPage - 1)] else [])
     @ (let begin' = (if curPage > 5 then curPage - 5 else 1);
            end' = (case pagesCount of None \<Rightarrow> 0
                    | Some n \<Rightarrow> if curPage < n - 5 then curPage + 5 else n)
        in map (\<lambda>i. if i = curPage then Here curPage else Page i) [begin'..end'])
     @ (if pagesCount \<noteq> Some curPage then [Next (curPage + 1)] else [])"

definition page_arrives :: "int \<Rightarrow> jsval list option \<Rightarrow> select_scope \<Rightarrow> select_scope \<times> button list option" where
  "page_arrives page list s =
     (case list of
        None \<Rightarrow> (s\<lparr>se_refList := None\<rparr>, None)
      | Some xs \<Rightarrow>
          (s\<lparr>se_clickedItem := None, se_refList := Some xs, se_page := page\<rparr>,
           Some (generateDialogButtons page (se_pagesCount s))))"

definition open_selection ::
  "modal_kind \<Rightarrow> select_params \<Rightarrow> select_scope \<Rightarrow>
   ((string \<times> jsobj) list res \<times> select_params \<times> select_scope)" where
  "open_selection kind p s =
     (let p1 = p\<lparr>sp_result := JNull\<rparr>;
          s1 = s\<lparr>se_refList := None, se_page := 1,
                 se_itemsToChoose := (if kind = Collection_Modal then [] else se_itemsToChoose s)\<rparr>
      in (if (sp_item p \<noteq> None \<or> truthy (sp_container p)) \<and> truthy (sp_property p)
          then rbind (selection_id p1) (\<lambda>i.
                 let rq = [(''__id'', i), (''__property'', sp_property p)]
                 in Inr [(''spa/selectionItems'', cleanParams rq),
                         (''spa/selection/vm'', cleanParams (rq @ [(''__type'', JStr ''modal'')])),
                         (''spa/selection/listinfo'', rq)])
          else Inr [], p1, s1))"

definition selection_info_arrives ::
  "(jsval \<times> int) option \<Rightarrow> select_scope \<Rightarrow> select_scope \<times> button list option" where
  "selection_info_arrives info s =
     (case info of
        None \<Rightarrow> (s\<lparr>se_caption := JNull, se_pagesCount := None\<rparr>, None)
      | Some (caption, n) \<Rightarrow>
          (s\<lparr>se_caption := caption, se_pagesCount := Some n\<rparr>,
           Some (generateDialogButtons (se_page s) (Some n))))"

text \<open>The choice: the second component says whether the dialog closes.\<close>

definition choose_handler :: "modal_kind \<Rightarrow> select_scope \<Rightarrow> select_params \<Rightarrow> (select_params \<times> bool) res" where
  "choose_handler kind s p =
     (case kind of
        Collection_Modal \<Rightarrow>
          Inr (p\<lparr>sp_result := JArr (map (\<lambda>(nm, v). JStr nm)
                   (filter (\<lambda>(nm, v). v = JBool True) (se_itemsToChoose s)))\<rparr>, True)
      | Reference_Modal \<Rightarrow>
          (case se_clickedItem s of
             None \<Rightarrow> Inr (p, False)
           | Some i \<Rightarrow>
               (case se_refList s of
                  None \<Rightarrow> Inl TypeError
                | Some xs \<Rightarrow> Inr (p\<lparr>sp_result := arr_at xs i\<rparr>, True))))"

section \<open>The form dialog\<close>

record modal_params =
  mp_item :: jsval
  mp_vm :: jsval
  mp_save :: "nat option"
  mp_onClose :: "nat option"

record modal_service =
  ms_params :: "modal_params option"
  ms_id :: "string option"
  ms_performer :: bool

definition ionModalServiceFactory :: modal_service where
  "ionModalServiceFactory = \<lparr>ms_params = None, ms_id = None, ms_performer = False\<rparr>"

definition perform :: "modal_service \<Rightarrow> modal_service" where
  "perform s = s\<lparr>ms_performer := \<not> ms_performer s\<rparr>"

definition performDialog :: "string \<Rightarrow> modal_params \<Rightarrow> modal_service \<Rightarrow> modal_service" where
  "performDialog modalId modalParams s =
     perform (s\<lparr>ms_params := Some modalParams, ms_id := Some modalId\<rparr>)"

text \<open>
  The dialog \<open>frm-dlg\<close>: \<open>fm_seen\<close> is the performer its watcher saw last, \<open>fm_timer\<close> the pending
  timeout, \<open>fm_handlers\<close> the one-time handlers of the close event.
\<close>

record form_modal =
  fm_item :: jsval
  fm_vm :: jsval
  fm_currentTab :: nat
  fm_saver :: "nat option"
  fm_seen :: bool
  fm_timer :: bool
  fm_open :: bool
  fm_handlers :: "nat list"

datatype modal_event = Call_Saver nat jsval | Call_OnClose nat

definition init_form_modal :: form_modal where
  "init_form_modal =
     \<lparr>fm_item = JNull, fm_vm = JNull, fm_currentTab = 0, fm_saver = None, fm_seen = False,
      fm_timer = False, fm_open = False, fm_handlers = []\<rparr>"

definition form_modal_watch :: "modal_service \<Rightarrow> form_modal \<Rightarrow> form_modal" where
  "form_modal_watch ms d =
     (if ms_performer ms \<noteq> fm_seen d then
        (let d1 = d\<lparr>fm_seen := ms_performer ms\<rparr>
         in case ms_params ms of
              Some p \<Rightarrow>
                if ms_id ms = Some ''frm-dlg''
                then d1\<lparr>fm_currentTab := 0, fm_saver := mp_save p, fm_timer := True\<rparr> else d1
            | None \<Rightarrow> d1)
      else d)"

definition openDialog :: "nat option \<Rightarrow> form_modal \<Rightarrow> form_modal" where
  "openDialog onClose d =
     d\<lparr>fm_handlers := fm_handlers d @ (case onClose of None \<Rightarrow> [] | Some h \<Rightarrow> [h]), fm_open := True\<rparr>"

definition form_modal_timeout :: "modal_service \<Rightarrow> form_modal \<Rightarrow> form_modal" where
  "form_modal_timeout ms d =
     (if fm_timer d then
        (case ms_params ms of
           None \<Rightarrow> d
         | Some p \<Rightarrow>
             openDialog (mp_onClose p) (d\<lparr>fm_timer := False, fm_item := mp_item p, fm_vm := mp_vm p\<rparr>))
      else d)"

definition closeDialog :: "form_modal \<Rightarrow> form_modal \<times> modal_event list" where
  "closeDialog d =
     (if fm_open d
      then (d\<lparr>fm_open := False, fm_handlers := []\<rparr>, map Call_OnClose (fm_handlers d)) else (d, []))"

definition form_modal_save :: "form_modal \<Rightarrow> form_modal \<times> modal_event list" where
  "form_modal_save d =
     (let (d', evs) = closeDialog d
      in (d', (case fm_saver d of None \<Rightarrow> [] | Some f \<Rightarrow> [Call_Saver f (fm_item d)]) @ evs))"

section \<open>Lemmas\<close>

lemma fill_search_other:
  "(\<And>o'. o' \<in> set os \<Longrightarrow> k \<noteq> so_property o' \<and> k \<noteq> so_property o' @ ''__search'') \<Longrightarrow>
   oget (fill_search os it) k = oget it k"
proof (induction os it rule: fill_search.induct)
  case (2 o' os it)
  then show ?case by simp
qed simp

lemma fill_search_get:
  assumes "distinct (map so_property os)"
    and "\<And>p q. p \<in> set os \<Longrightarrow> q \<in> set os \<Longrightarrow> so_property q \<noteq> so_property p @ ''__search''"
    and "o' \<in> set os"
  shows "oget (fill_search os it) (so_property o') = so_value o' \<and>
    oget (fill_search os it) (so_property o' @ ''__search'') = JStr (so_type o')"
  using assms
proof (induction os it rule: fill_search.induct)
  case (2 o1 os it)
  show ?case
  proof (cases "o' \<in> set os")
    case True
    with 2 show ?thesis by simp
  next
    case False
    with "2.prems"(3) have o1: "o' = o1" by simp
    have a: "\<And>x. x \<in> set os \<Longrightarrow> so_property o' \<noteq> so_property x \<and> so_property o' \<noteq> so_property x @ ''__search''"
      and b: "\<And>x. x \<in> set os \<Longrightarrow> so_property o' @ ''__search'' \<noteq> so_property x \<and>
        so_property o' @ ''__search'' \<noteq> so_property x @ ''__search''"
      using "2.prems"(1,2) o1 by (auto, metis)
    show ?thesis
      using fill_search_other [OF a] fill_search_other [OF b] o1 by simp
  qed
qed simp

lemma search_option_Some:
  "search_option it attr v = Some o' \<longleftrightarrow>
     so_property o' = attr \<and> so_value o' = v \<and> so_type o' \<noteq> [] \<and>
     oget it (attr @ ''__search'') = JStr (so_type o') \<and> checkSearchCondition (so_type o') v"
  by (cases o') (auto simp: search_option_def split: jsval.splits)

lemma option_loop_mem:
  "o' \<in> set (option_loop it rest) \<longleftrightarrow>
     (so_property o', so_value o') \<in> set rest \<and> so_type o' \<noteq> [] \<and>
     oget it (so_property o' @ ''__search'') = JStr (so_type o') \<and>
     checkSearchCondition (so_type o') (so_value o')"
proof (induction it rest rule: option_loop.induct)
  case (2 it attr v rest)
  show ?case
  proof (cases "search_option it attr v")
    case None
    have "\<not> (so_property o' = attr \<and> so_value o' = v \<and> so_type o' \<noteq> [] \<and>
        oget it (attr @ ''__search'') = JStr (so_type o') \<and> checkSearchCondition (so_type o') v)"
      using None by (simp add: search_option_Some [symmetric])
    with None "2" show ?thesis by auto
  next
    case (Some o1)
    have "o' = o1 \<longleftrightarrow> so_property o' = attr \<and> so_value o' = v \<and> so_type o' \<noteq> [] \<and>
        oget it (attr @ ''__search'') = JStr (so_type o') \<and> checkSearchCondition (so_type o') v"
      using Some by (auto simp: search_option_Some [symmetric])
    with Some "2" show ?thesis by auto
  qed
qed simp

lemma option_loop_distinct: "wf_obj rest \<Longrightarrow> distinct (map so_property (option_loop it rest))"
proof (induction it rest rule: option_loop.induct)
  case (2 it attr v rest)
  then have "attr \<notin> set (onames rest)" "distinct (map so_property (option_loop it rest))"
    by (auto simp: wf_obj_def)
  moreover have "so_property ` set (option_loop it rest) \<subseteq> set (onames rest)"
    by (auto simp: option_loop_mem onames_def image_iff) (metis fst_conv)
  ultimately show ?case
  proof (cases "search_option it attr v")
    case (Some o1)
    then have "so_property o1 = attr" by (simp add: search_option_Some)
    with Some \<open>attr \<notin> set (onames rest)\<close> \<open>so_property ` set (option_loop it rest) \<subseteq> set (onames rest)\<close>
      \<open>distinct (map so_property (option_loop it rest))\<close>
    show ?thesis by auto
  qed simp
qed simp

section \<open>Properties\<close>

text \<open>
  of the ten conditions the attribute search offers, "empty" and "not empty" are accepted
  without a value, and each of the other eight exactly when a value was entered.
\<close>

theorem search_conditions:
  "(\<forall>t \<in> set search_types.
      checkSearchCondition t (JStr s) = (t = ''EMPTY'' \<or> t = ''NOT_EMPTY'' \<or> s \<noteq> []) \<and>
      checkSearchCondition t JUndef = (t = ''EMPTY'' \<or> t = ''NOT_EMPTY'') \<and>
      checkSearchCondition t JNull = (t = ''EMPTY'' \<or> t = ''NOT_EMPTY''))"
  by (simp add: search_types_def checkSearchCondition_def contains_def)

theorem search_conditions_witness:
  "checkSearchCondition ''EQUAL'' (JStr ''x'') \<and> \<not> checkSearchCondition ''EQUAL'' (JStr [])"
  using search_conditions [of "''x''"] search_conditions [of "[]"] by (simp add: search_types_def)

text \<open>
  C21: reopening the search dialog restores the search: every attribute that was searched for has
  its condition and its value again, and every attribute that took no part is as it was in the
  fresh item, for any coding of the conditions that can be decoded.
\<close>

theorem search_roundtrip:
  assumes "wf_obj it" "search_options it \<noteq> []"
    and "enc (search_options it) \<noteq> []" "dec (JStr (enc (search_options it))) = Inr (search_options it)"
    and "\<And>p q. p \<in> set (search_options it) \<Longrightarrow> q \<in> set (search_options it) \<Longrightarrow>
      so_property q \<noteq> so_property p @ ''__search''"
  shows "\<exists>it'. open_search dec fresh (run_search enc it search) = Inr it' \<and>
    (\<forall>o' \<in> set (search_options it).
       oget it' (so_property o') = oget it (so_property o') \<and>
       oget it' (so_property o' @ ''__search'') = oget it (so_property o' @ ''__search'')) \<and>
    (\<forall>k. (\<forall>o' \<in> set (search_options it). k \<noteq> so_property o' \<and> k \<noteq> so_property o' @ ''__search'') \<longrightarrow>
       oget it' k = oget fresh k)"
proof -
  have d: "distinct (map so_property (search_options it))"
    unfolding search_options_def by (rule option_loop_distinct [OF assms(1)])
  have "open_search dec fresh (run_search enc it search) = Inr (fill_search (search_options it) fresh)"
    using assms(2-4) by (simp add: open_search_def run_search_def Let_def)
  moreover have "oget (fill_search (search_options it) fresh) (so_property o') = oget it (so_property o') \<and>
      oget (fill_search (search_options it) fresh) (so_property o' @ ''__search'') =
        oget it (so_property o' @ ''__search'')" if "o' \<in> set (search_options it)" for o'
    using fill_search_get [OF d assms(5) that] that oget_mem [OF assms(1)]
    by (auto simp: search_options_def option_loop_mem)
  ultimately show ?thesis using fill_search_other by blast
qed

theorem search_roundtrip_witness:
  "\<exists>it'. open_search (\<lambda>_. Inr [\<lparr>so_property = ''name'', so_type = ''LIKE'', so_value = JStr ''x''\<rparr>]) []
      (run_search (\<lambda>_. ''f'') [(''name'', JStr ''x''), (''name__search'', JStr ''LIKE'')] []) = Inr it'"
proof -
  let ?it = "[(''name'', JStr ''x''), (''name__search'', JStr ''LIKE'')]"
  have o': "search_options ?it = [\<lparr>so_property = ''name'', so_type = ''LIKE'', so_value = JStr ''x''\<rparr>]"
    by (simp add: search_options_def search_option_def checkSearchCondition_def contains_def)
  have "wf_obj ?it" by (simp add: wf_obj_def)
  from search_roundtrip [OF this, of "\<lambda>_. ''f''" "\<lambda>_. Inr (search_options ?it)"] o' show ?thesis
    by fastforce
qed

text \<open>
  the buttons of a selection dialog for page p of n are the choice, a step back unless p is
  the first and a step on unless it is the last page, and the pages from five before to five
  after p that exist, with p itself disabled; every button leads to a page there is.
\<close>

theorem dialog_buttons:
  assumes "1 \<le> p" "p \<le> n"
  shows "generateDialogButtons p (Some n) =
      [Choose] @ (if p = 1 then [] else [Prev (p - 1)])
      @ map (\<lambda>i. if i = p then Here p else Page i) [max 1 (p - 5)..min n (p + 5)]
      @ (if p = n then [] else [Next (p + 1)]) \<and>
    length (generateDialogButtons p (Some n)) \<le> 14 \<and>
    Here p \<in> set (generateDialogButtons p (Some n)) \<and>
    (\<forall>q. Prev q \<in> set (generateDialogButtons p (Some n)) \<or> Page q \<in> set (generateDialogButtons p (Some n))
       \<or> Next q \<in> set (generateDialogButtons p (Some n)) \<longrightarrow> 1 \<le> q \<and> q \<le> n \<and> q \<noteq> p)"
proof -
  have b: "(if p > 5 then p - 5 else 1) = max 1 (p - 5)" "(if p < n - 5 then p + 5 else n) = min n (p + 5)"
    using assms by auto
  have g: "generateDialogButtons p (Some n) =
      [Choose] @ (if p = 1 then [] else [Prev (p - 1)])
      @ map (\<lambda>i. if i = p then Here p else Page i) [max 1 (p - 5)..min n (p + 5)]
      @ (if p = n then [] else [Next (p + 1)])"
    unfolding generateDialogButtons_def Let_def option.case b by simp
  have "p \<in> set [max 1 (p - 5)..min n (p + 5)]" using assms by simp
  then have here: "Here p \<in> set (generateDialogButtons p (Some n))" unfolding g by (auto simp: image_iff)
  have "length [max 1 (p - 5)..min n (p + 5)] \<le> 11" by (simp add: length_upto)
  moreover have "length (if p = 1 then [] else [Prev (p - 1)]) \<le> 1"
    "length (if p = n then [] else [Next (p + 1)]) \<le> 1" by simp_all
  ultimately have "length (generateDialogButtons p (Some n)) \<le> 14"
    unfolding g length_append length_map by simp
  moreover have "Prev q \<in> set (generateDialogButtons p (Some n)) \<longleftrightarrow> p \<noteq> 1 \<and> q = p - 1"
    "Next q \<in> set (generateDialogButtons p (Some n)) \<longleftrightarrow> p \<noteq> n \<and> q = p + 1"
    "Page q \<in> set (generateDialogButtons p (Some n)) \<longleftrightarrow> q \<noteq> p \<and> max 1 (p - 5) \<le> q \<and> q \<le> min n (p + 5)"
    for q
    unfolding g by (auto simp del: upto.simps)
  then have "\<forall>q. Prev q \<in> set (generateDialogButtons p (Some n)) \<or> Page q \<in> set (generateDialogButtons p (Some n))
       \<or> Next q \<in> set (generateDialogButtons p (Some n)) \<longrightarrow> 1 \<le> q \<and> q \<le> n \<and> q \<noteq> p"
    using assms by simp
  ultimately show ?thesis using g here by blast
qed

theorem dialog_buttons_witness:
  "Here 3 \<in> set (generateDialogButtons 3 (Some 20))"
proof -
  have "1 \<le> (3::int)" "(3::int) \<le> 20" by simp_all
  from dialog_buttons [OF this] show ?thesis by blast
qed

text \<open>
  one request for the form dialog opens it with its object, and closing it, by its button
  or otherwise, calls the function given for that once; the button first saves the object.
  Two requests before the page is digested cancel each other: the dialog does not open at all.
\<close>

theorem form_dialog_once:
  assumes "fm_seen d = ms_performer ms" "\<not> fm_timer d" "\<not> fm_open d" "fm_handlers d = []"
    and "mp_onClose p = Some h" "mp_save p = Some f"
  shows "(let ms' = performDialog ''frm-dlg'' p ms; d' = form_modal_timeout ms' (form_modal_watch ms' d)
     in fm_open d' \<and> fm_item d' = mp_item p \<and>
        snd (form_modal_save d') = [Call_Saver f (mp_item p), Call_OnClose h] \<and>
        snd (closeDialog d') = [Call_OnClose h] \<and>
        snd (closeDialog (fst (closeDialog d'))) = []) \<and>
    form_modal_watch (performDialog ''frm-dlg'' p (performDialog ''frm-dlg'' q ms)) d = d"
  using assms
  by (simp add: Let_def performDialog_def perform_def form_modal_watch_def form_modal_timeout_def
      openDialog_def form_modal_save_def closeDialog_def)

theorem form_dialog_once_witness:
  "\<exists>p. let ms' = performDialog ''frm-dlg'' p ionModalServiceFactory in
     fm_open (form_modal_timeout ms' (form_modal_watch ms' init_form_modal))"
proof -
  let ?p = "\<lparr>mp_item = JNull, mp_vm = JNull, mp_save = Some 1, mp_onClose = Some 2\<rparr>"
  from form_dialog_once [of init_form_modal ionModalServiceFactory ?p 2 1 ?p] show ?thesis
    by (auto simp: init_form_modal_def ionModalServiceFactory_def Let_def)
qed

end
