(* ===== verification/Form_Fields.thy ===== *)
theory Form_Fields
  imports Markup Actions Dialogs
begin

text \<open>
  The fields of a form (\<open>ion-ng-formfield.js\<close> without its collections): the markup each kind of
  field draws, and the watchers and callbacks of text fields with choices and of references.  All
  fields of a form share the form's item; a callback writes into the item that is shown when it runs,
  so items live in a store and the form refers to the one it shows.
\<close>

section \<open>Fields and their markup\<close>

text \<open>
  \<open>ff_readonly\<close> is the property \<open>readonly\<close> that the server sends, \<open>ff_readOnly\<close> the property
  \<open>readOnly\<close> that the directive of references reads.
\<close>

record form_field =
  ff_property :: string
  ff_type :: string
  ff_mode :: string
  ff_readonly :: bool
  ff_readOnly :: bool
  ff_visibility :: "string option"
  ff_paginated :: bool
  ff_actions :: "string list"
  ff_validators :: "string list option"
  ff_fields :: "string list"

definition field_id :: string where
  "field_id = ''{{(field.property).replace('.','-')}}''"

definition field_inputOptions :: "(string \<times> string) list" where
  "field_inputOptions =
     [(''id'', field_id), (''name'', ''{{field.property}}''), (''ng-disabled'', ''isDisabled(field)''),
      (''ng-required'', ''isRequired(field)''), (''ng-readonly'', ''field.readonly''), (''ng-model'', ''item[field.property]'')]"

definition show_rule :: "string option \<Rightarrow> (string \<times> string) list" where
  "show_rule visibility =
     (case visibility of None \<Rightarrow> [] | Some _ \<Rightarrow> [(''ng-show'', ''execExpression(field.visibilityExpression)'')])"

definition legend :: html where
  "legend = El ''legend'' [(''class'', ''overflowed-text'')] [Tx ''{{field.caption}}'']"

definition ionFormGroup_markup :: "form_field \<Rightarrow> html list" where
  "ionFormGroup_markup f =
     [El ''fieldset'' ((''id'', field_id) # show_rule (ff_visibility f))
        [legend, El ''div'' [(''ion-form-field'', []), (''ng-repeat'', ''field in field.fields'')] []]]"

text \<open>The directives with a constant template.\<close>

definition file_input :: html where
  "file_input = El ''input'' ([(''type'', ''file''), (''ion-file-input'', ''item[field.property]'')]
     @ field_inputOptions @ [(''class'', ''upfile''), (''ng-hide'', ''field.readonly'')]) []"

definition ionFormMultiline_template :: "html list" where
  "ionFormMultiline_template = [El ''textarea'' (field_inputOptions @ [(''class'', ''textarea {{field.size}}'')]) []]"

definition ionFormWysiwyg_template :: "html list" where
  "ionFormWysiwyg_template = [El ''textarea'' (field_inputOptions @ [(''class'', ''textarea wysiwyg {{field.size}}'')]) []]"

definition field_url :: string where
  "field_url = ''{{item[field.property+'__url']}}''"

definition ionFormImage_template :: "html list" where
  "ionFormImage_template =
     [El ''div'' [(''class'', ''image'')] [link_to field_url [El ''img'' [(''src'', field_url)] []]], file_input]"

definition ionFormFile_template :: "html list" where
  "ionFormFile_template =
     [El ''a'' [(''href'', field_url), (''ng-show'', ''{{isExist(item[field.property+'__url'])}}'')] [Tx ''{{item[field.property]}}''],
      Tx '' '', file_input]"

definition ionFormDate_template :: "html list" where
  "ionFormDate_template =
     [El ''input'' ([(''ui-date'', ''dateOptions''), (''ui-date-format'', ''{{dateFormat}}'')] @ field_inputOptions
        @ [(''class'', ''text {{field.size}}''), (''ng-class'', ''{datepicker:!field.readonly}'')]) []]"

definition ionFormCheckbox_template :: "html list" where
  "ionFormCheckbox_template = [El ''input'' ((''type'', ''checkbox'') # field_inputOptions) []]"

definition ionFormPassword_template :: "html list" where
  "ionFormPassword_template =
     [El ''input'' ((''type'', ''password'') # field_inputOptions @ [(''class'', ''password {{field.size}}'')]) []]"

definition ionFormNumber_template :: "html list" where
  "ionFormNumber_template =
     [El ''input'' ((''type'', ''number'') # field_inputOptions @ [(''class'', ''number {{field.size}}''), (''step'', ''1'')]) []]"

definition ionFormDecimal_template :: "html list" where
  "ionFormDecimal_template =
     [El ''input'' ((''type'', ''number'') # field_inputOptions @ [(''class'', ''decimal {{field.size}}''), (''step'', ''0.1'')]) []]"

text \<open>
  \<open>prepareTextDirective\<close>: the validators become attributes with messages.  Its last argument,
  whether the field may stay empty, is not used.
\<close>

definition validator_attrs :: "string list option \<Rightarrow> (string \<times> string) list" where
  "validator_attrs vs = (case vs of None \<Rightarrow> [] | Some l \<Rightarrow> map (\<lambda>v. (to_lower v @ ''-validator'', [])) l)"

definition validator_messages :: "string list option \<Rightarrow> html list" where
  "validator_messages vs =
     (case vs of
        None \<Rightarrow> []
      | Some l \<Rightarrow>
          [El ''div'' [(''ng-messages'', ''main.{{field.property}}.$error'')]
             (map (\<lambda>v. El ''span'' [(''ng-message'', to_lower v @ ''Validator'')] [Tx ''{{warning}}'']) l)])"

definition prepareTextDirective :: "string list option \<Rightarrow> bool \<Rightarrow> bool \<Rightarrow> html list" where
  "prepareTextDirective fieldValidators selectList nullable =
     (if selectList then
        El ''select'' (field_inputOptions @ [(''ng-model'', ''item[field.property]''), (''ng-options'', ''v as n for (v,n) in selection''),
          (''class'', ''select {{field.size}}'')] @ validator_attrs fieldValidators) [] # validator_messages fieldValidators
      else
        El ''input'' ((''type'', ''text'') # field_inputOptions @ [(''class'', ''text {{field.size}}''), (''value'', [])]
          @ validator_attrs fieldValidators) [] # validator_messages fieldValidators)"

text \<open>\<open>prepareRefDirective\<close>; the link of a read-only reference names an unknown variable.\<close>

definition field_ref_name :: html where
  "field_ref_name = Tx ''{{item[field.property+'__ref'][2]}}''"

definition prepareRefDirective :: "bool \<Rightarrow> string \<Rightarrow> bool \<Rightarrow> bool \<Rightarrow> bool \<Rightarrow> html list" where
  "prepareRefDirective readOnly mode selectionPaginated checkVisibility allowCreate =
     (if readOnly then
        [link_to ''{{getRefUrl(iinputOptionstem[field.property+'__ref'][0],item[field.property+'__ref'][1])}}'' [field_ref_name]]
      else if mode = ''INFO'' then
        [El ''fieldset'' ((''id'', field_id) #
             (if checkVisibility then [(''ng-show'', ''execExpression(field.visibilityExpression)'')] else []))
           [legend, El ''div'' [(''ng-repeat'', ''field in field.fields'')] [El ''div'' [(''ion-form-field'', [])] []]]]
      else if \<not> selectionPaginated then
        [El ''select'' (field_inputOptions @ [(''ng-model'', ''item[field.property]''),
             (''ng-options'', ''v as n for (v,n) in selection''), (''class'', ''select {{field.size}}'')]) [],
         El ''a'' [(''href'', ''{{getRefUrl(item[field.property+'__ref'][0],item[field.property])}}''),
                   (''ng-if'', ''item[field.property+'__ref'] !== null'')]
           [El ''button'' [(''type'', ''button''), (''class'', ''icon-button ref-link'')] [Tx ''>'']]]
      else
        [El ''input'' [(''type'', ''hidden''), (''ng-required'', ''isRequired(field)''), (''ng-model'', ''item[field.property]'')] [],
         link_to ''{{getRefUrl(item[field.property+'__ref'][0],item[field.property+'__ref'][1])}}'' [field_ref_name],
         El ''span'' [(''style'', ''white-space:nowrap;'')]
           (El ''button'' [(''type'', ''button''), (''class'', ''icon-button ref-link''), (''ng-click'', ''selectRefItem()''),
                           (''ng-hide'', ''field.readonly'')] [Tx ''...'']
            # (if allowCreate
               then [El ''button'' [(''type'', ''button''), (''class'', ''icon-button ref-link''), (''ng-hide'', ''field.readonly''),
                                    (''ng-click'', ''createRefItem()'')] [sp ''icon icon-small iconfont-add'' []]]
               else []))])"

text \<open>\<open>ionFormField\<close>: the frame with the label, and the directive by type.\<close>

definition wrapField :: "form_field \<Rightarrow> html \<Rightarrow> bool \<Rightarrow> html" where
  "wrapField f markup block =
     El ''div'' ([(''class'', ''attr clearfix''), (''ng-class'', ''{ required: isRequired(field) }'')] @ show_rule (ff_visibility f))
       [El ''label'' ((''class'', ''label'') #
            (if block then [(''style'', ''display:block;max-width:none;width:100%;text-align:left;'')] else [])
            @ [(''for'', field_id)]) [Tx ''{{field.caption}}''],
        El ''div'' (if block then [] else [(''class'', ''data'')]) [markup]]"

definition directive :: "string \<Rightarrow> html" where
  "directive name = El ''div'' [(name, [])] []"

definition ionFormField_markup :: "form_field \<Rightarrow> html" where
  "ionFormField_markup f =
     (let t = ff_type f in
      if t = ''GROUP'' then directive ''ion-form-group''
      else if t = ''REFERENCE'' then
        (if ff_mode f = ''INFO'' then directive ''ion-form-ref'' else wrapField f (directive ''ion-form-ref'') False)
      else if t = ''COLLECTION'' then wrapField f (directive ''ion-form-collection'') True
      else if t = ''MULTILINE'' then wrapField f (directive ''ion-form-multiline'') False
      else if t = ''WYSIWYG'' then wrapField f (directive ''ion-form-wysiwyg'') False
      else if t = ''IMAGE'' then wrapField f (directive ''ion-form-image'') False
      else if t = ''FILE'' then wrapField f (directive ''ion-form-file'') False
      else if t = ''DATETIME_PICKER'' then wrapField f (directive ''ion-form-date'') False
      else if t = ''CHECKBOX'' then wrapField f (directive ''ion-form-checkbox'') False
      else if t = ''PASSWORD'' then wrapField f (directive ''ion-form-password'') False
      else if t = ''NUMBER_PICKER'' then wrapField f (directive ''ion-form-number'') False
      else if t = ''DECIMAL_EDITOR'' then wrapField f (directive ''ion-form-decimal'') False
      else wrapField f (directive ''ion-form-text'') False)"

definition ionSearchFormField_markup :: "string \<Rightarrow> html" where
  "ionSearchFormField_markup t =
     (if t = ''GROUP'' then directive ''ion-form-group''
      else if t = ''REFERENCE'' then directive ''ion-form-ref''
      else if t = ''MULTILINE'' then directive ''ion-form-multiline''
      else if t = ''WYSIWYG'' then directive ''ion-form-wysiwyg''
      else if t = ''DATETIME_PICKER'' then directive ''ion-form-date''
      else if t = ''CHECKBOX'' then directive ''ion-form-checkbox''
      else if t = ''PASSWORD'' then directive ''ion-form-password''
      else if t = ''NUMBER_PICKER'' then directive ''ion-form-number''
      else if t = ''DECIMAL_EDITOR'' then directive ''ion-form-decimal''
      else directive ''ion-form-text'')"

section \<open>State\<close>

text \<open>
  A field's scope: the choices, what is drawn, and the choices the watcher saw last.  \<open>fw_shown\<close> is the
  form's item, \<open>fw_seen\<close> the one the fields' watchers saw last.
\<close>

record field_scope =
  fd_selection :: jsval
  fd_markup :: "html list"
  fd_hideRef :: bool
  fd_seen :: jsval

datatype field_ask = Ask_Selection | Ask_Info

record field_request =
  fr_field :: nat
  fr_ask :: field_ask
  fr_url :: string
  fr_data :: jsobj

record fields_world =
  fw_fields :: "form_field list"
  fw_objects :: "nat \<Rightarrow> jsobj"
  fw_shown :: "nat option"
  fw_seen :: "nat option"
  fw_scopes :: "nat \<Rightarrow> field_scope"
  fw_asked :: "field_request list"
  fw_dirty :: bool

definition field_item :: "fields_world \<Rightarrow> jsobj" where
  "field_item w = (case fw_shown w of None \<Rightarrow> [] | Some x \<Rightarrow> fw_objects w x)"

definition item_put :: "string \<Rightarrow> jsval \<Rightarrow> fields_world \<Rightarrow> fields_world" where
  "item_put p v w =
     (case fw_shown w of
        None \<Rightarrow> w
      | Some x \<Rightarrow> w\<lparr>fw_objects := (fw_objects w)(x := oset (fw_objects w x) p v)\<rparr>)"

definition put_scope :: "nat \<Rightarrow> field_scope \<Rightarrow> fields_world \<Rightarrow> fields_world" where
  "put_scope i sc w = w\<lparr>fw_scopes := (fw_scopes w)(i := sc)\<rparr>"

definition field_asks :: "nat \<Rightarrow> field_ask \<Rightarrow> string \<Rightarrow> jsobj \<Rightarrow> fields_world \<Rightarrow> fields_world" where
  "field_asks i a url data w =
     w\<lparr>fw_asked := fw_asked w @ [\<lparr>fr_field = i, fr_ask = a, fr_url = url, fr_data = data\<rparr>]\<rparr>"

definition is_text_field :: "form_field \<Rightarrow> bool" where
  "is_text_field f \<longleftrightarrow> ff_type f \<notin> {''GROUP'', ''REFERENCE'', ''COLLECTION'', ''MULTILINE'', ''WYSIWYG'', ''IMAGE'', ''FILE'',
     ''DATETIME_PICKER'', ''CHECKBOX'', ''PASSWORD'', ''NUMBER_PICKER'', ''DECIMAL_EDITOR''}"

definition is_ref_field :: "form_field \<Rightarrow> bool" where
  "is_ref_field f \<longleftrightarrow> ff_type f = ''REFERENCE''"

section \<open>Linking\<close>

definition allowCreate :: "form_field \<Rightarrow> bool" where
  "allowCreate f \<longleftrightarrow> list_ex (\<lambda>a. a = ''CREATE'') (ff_actions f)"

definition link_field :: "form_field \<Rightarrow> field_scope" where
  "link_field f =
     \<lparr>fd_selection = JUndef,
      fd_markup = (if is_ref_field f
                   then prepareRefDirective (ff_readOnly f) (ff_mode f) (ff_paginated f) (ff_visibility f \<noteq> None) (allowCreate f)
                   else []),
      fd_hideRef = False, fd_seen = JUndef\<rparr>"

section \<open>The watchers\<close>

text \<open>The choices of the item: text fields and references that are not paginated follow them.\<close>

definition selection_watch :: "nat \<Rightarrow> fields_world \<Rightarrow> fields_world" where
  "selection_watch i w =
     (let f = fw_fields w ! i; sc = fw_scopes w i;
          v = (if fw_shown w = None then JNull else oget (field_item w) (ff_property f @ ''__sel''))
      in if (is_text_field f \<or> is_ref_field f \<and> \<not> ff_paginated f) \<and> v \<noteq> fd_seen sc
         then put_scope i (if nullish v then sc\<lparr>fd_seen := v\<rparr> else sc\<lparr>fd_seen := v, fd_selection := v\<rparr>) w
         else w)"

definition text_watch :: "(form_field \<Rightarrow> bool) \<Rightarrow> nat \<Rightarrow> fields_world \<Rightarrow> fields_world" where
  "text_watch required i w =
     (let f = fw_fields w ! i; p = ff_property f; sc = fw_scopes w i; it = field_item w; sel = oget it (p @ ''__sel'')
      in if oget it p \<noteq> JUndef then
           (if sel = JUndef \<or> sel = JBool False
            then put_scope i (sc\<lparr>fd_selection := JNull, fd_markup := prepareTextDirective (ff_validators f) False False\<rparr>) w
            else put_scope i (sc\<lparr>fd_selection := sel,
                                fd_markup := prepareTextDirective (ff_validators f) True (\<not> required f)\<rparr>)
                   (if truthy (oget it p) then item_put p (JStr (to_str (oget it p))) w else w))
         else w)"

text \<open>The reference: its choices, and in mode INFO the item it refers to.\<close>

definition ask_choices :: "nat \<Rightarrow> string \<Rightarrow> fields_world \<Rightarrow> fields_world res" where
  "ask_choices i p w =
     (let it = field_item w in
      if oget it (p @ ''__sel'') \<noteq> JUndef
      then Inr (put_scope i ((fw_scopes w i)\<lparr>fd_selection := oget it (p @ ''__sel'')\<rparr>) w)
      else rbind (item_key_or_empty it) (\<lambda>k.
             Inr (field_asks i Ask_Selection ''spa/selection'' [(''__id'', JStr k), (''__property'', JStr p)] w)))"

definition ask_info :: "nat \<Rightarrow> form_field \<Rightarrow> fields_world \<Rightarrow> fields_world" where
  "ask_info i f w =
     (let refItemInfo = oget (field_item w) (ff_property f @ ''__ref'');
          w1 = fold (\<lambda>p. item_put p JNull) (ff_fields f) w
      in case (vidx refItemInfo 0, vidx refItemInfo 1) of
           (Inr c, Inr r) \<Rightarrow>
             if c \<noteq> JNull \<and> r \<noteq> JNull
             then field_asks i Ask_Info ''spa/item'' [(''__id'', JStr (to_str c @ '':'' @ to_str r))] w1
             else put_scope i ((fw_scopes w1 i)\<lparr>fd_hideRef := True\<rparr>) w1
         | _ \<Rightarrow> w1)"

definition ref_watch :: "nat \<Rightarrow> fields_world \<Rightarrow> fields_world" where
  "ref_watch i w =
     (let f = fw_fields w ! i
      in case (if ff_paginated f then Inr w else ask_choices i (ff_property f) w) of
           Inl _ \<Rightarrow> w
         | Inr w1 \<Rightarrow> if ff_mode f = ''INFO'' then ask_info i f w1 else w1)"

definition item_watch_field :: "(form_field \<Rightarrow> bool) \<Rightarrow> nat \<Rightarrow> fields_world \<Rightarrow> fields_world" where
  "item_watch_field required i w =
     (if fw_shown w = None then w
      else if is_text_field (fw_fields w ! i) then text_watch required i w
      else if is_ref_field (fw_fields w ! i) then ref_watch i w else w)"

definition field_digest :: "(form_field \<Rightarrow> bool) \<Rightarrow> fields_world \<Rightarrow> fields_world" where
  "field_digest required w =
     (if fw_shown w = fw_seen w then fold selection_watch [0..<length (fw_fields w)] w
      else fold selection_watch [0..<length (fw_fields w)]
             (fold (\<lambda>i v. item_watch_field required i (selection_watch i v)) [0..<length (fw_fields w)]
               (w\<lparr>fw_seen := fw_shown w\<rparr>)))"

section \<open>Callbacks\<close>

text \<open>They write into the form's item of the moment.\<close>

definition selection_answer :: "nat \<Rightarrow> jsval \<Rightarrow> fields_world \<Rightarrow> fields_world" where
  "selection_answer i data w =
     (if fw_shown w = None then w
      else (let v = (if truthy data then data else JObj [])
            in put_scope i ((fw_scopes w i)\<lparr>fd_selection := v\<rparr>)
                 (item_put (ff_property (fw_fields w ! i) @ ''__sel'') v w)))"

text \<open>
  The item of a reference in mode INFO: its properties go into the form's item under the field's name,
  and the field is drawn again, with three arguments where five are expected.
\<close>

definition info_answer :: "nat \<Rightarrow> jsval \<Rightarrow> fields_world \<Rightarrow> fields_world" where
  "info_answer i data w =
     (let f = fw_fields w ! i; names = (case data of JObj o' \<Rightarrow> o' | _ \<Rightarrow> [])
      in if fw_shown w = None \<and> names \<noteq> [] then w
         else (let w1 = fold (\<lambda>(nm, v). item_put (ff_property f @ ''.'' @ nm) v) names w
               in put_scope i ((fw_scopes w1 i)\<lparr>fd_markup :=
                    prepareRefDirective (ff_readOnly f) (ff_mode f) (allowCreate f) False False\<rparr>) w1))"

definition assignRefToField :: "nat \<Rightarrow> jsval \<Rightarrow> fields_world \<Rightarrow> fields_world" where
  "assignRefToField i refItem w =
     (case refItem of
        JObj r \<Rightarrow>
          (case (oget r ''itemInfo'' \<noteq> JUndef, item_info r 0, item_info r 1) of
             (True, Inr c, Inr k) \<Rightarrow>
               (item_put (ff_property (fw_fields w ! i) @ ''__ref'') (JArr [c, k, oget r ''itemToString''])
                 (item_put (ff_property (fw_fields w ! i)) k w))\<lparr>fw_dirty := True\<rparr>
           | _ \<Rightarrow> w)
      | _ \<Rightarrow> w)"

text \<open>Creating the item to refer to: the classes, a new item, its view model, the dialog.\<close>

datatype ref_creation = Pick_Class | New_Item jsval | Class_Refused | No_Classes

definition createRefItem :: "jsval \<Rightarrow> nat \<Rightarrow> fields_world \<Rightarrow> (string \<times> jsobj) res" where
  "createRefItem node i w =
     rbind (item_info (field_item w) 0) (\<lambda>c.
       Inr (''spa/creationclasses'',
            [(''__node'', node), (''__class'', c), (''__ref'', JStr (ff_property (fw_fields w ! i)))]))"

definition ref_classes_reply :: "jsval \<Rightarrow> mtpl_info \<Rightarrow> ref_creation res \<times> mtpl_info" where
  "ref_classes_reply data mi =
     (let mi1 = mi\<lparr>mi_creationClasses := data\<rparr>
      in case data of
           JUndef \<Rightarrow> (Inr No_Classes, mi1)
         | JNull \<Rightarrow> (Inl TypeError, mi1)
         | JArr [c] \<Rightarrow> (rbind (vget c ''name'') (\<lambda>n. Inr (New_Item n)), mi1)
         | JArr (c # d # cs) \<Rightarrow> (Inr Pick_Class, mi1)
         | _ \<Rightarrow> (Inr Class_Refused, Alert ''error'' (Ru Access_Denied) mi1))"

definition dummy_request :: "jsval \<Rightarrow> jsval \<Rightarrow> string \<times> jsobj" where
  "dummy_request node className = (''spa/dummy'', [(''__node'', node), (''__class'', className)])"

definition dummy_reply :: "jsval \<Rightarrow> jsobj \<Rightarrow> (string \<times> jsobj) res" where
  "dummy_reply node dummy =
     rbind (item_key_or_empty dummy) (\<lambda>k. rbind (item_info dummy 0) (\<lambda>c.
       Inr (''spa/create/vm'', [(''__type'', JStr ''create''), (''__node'', node), (''__class'', c), (''__id'', JStr k)])))"

definition new_ref_dialog :: "jsobj \<Rightarrow> jsval \<Rightarrow> nat \<Rightarrow> modal_service \<Rightarrow> modal_service" where
  "new_ref_dialog dummy vm save ms =
     performDialog ''frm-dlg'' \<lparr>mp_item = JObj dummy, mp_vm = vm, mp_save = Some save, mp_onClose = None\<rparr> ms"

definition saveNewItem :: "jsobj \<Rightarrow> (string \<times> jsobj) res" where
  "saveNewItem newRefItem = rbind (prepareReqItem newRefItem) (\<lambda>rq. Inr (''spa/createItem'', rq))"

section \<open>Events\<close>

datatype field_event =
    Show_Object nat
  | Edit_Value nat jsval
  | Field_Answer nat "jsval option"
  | Choices_Arrive jsobj
  | Ref_Chosen nat jsval

definition field_step :: "(form_field \<Rightarrow> bool) \<Rightarrow> field_event \<Rightarrow> fields_world \<Rightarrow> fields_world" where
  "field_step required e w =
     (case e of
        Show_Object x \<Rightarrow> field_digest required (w\<lparr>fw_shown := Some x\<rparr>)
      | Edit_Value i v \<Rightarrow> field_digest required ((item_put (ff_property (fw_fields w ! i)) v w)\<lparr>fw_dirty := True\<rparr>)
      | Field_Answer j ans \<Rightarrow>
          if j < length (fw_asked w) then
            (let q = fw_asked w ! j; w1 = w\<lparr>fw_asked := take j (fw_asked w) @ drop (Suc j) (fw_asked w)\<rparr>
             in field_digest required
                  (case ans of
                     None \<Rightarrow> w1
                   | Some data \<Rightarrow>
                       (case fr_ask q of Ask_Selection \<Rightarrow> selection_answer (fr_field q) data w1
                                       | Ask_Info \<Rightarrow> info_answer (fr_field q) data w1)))
          else w
      | Choices_Arrive sel \<Rightarrow> field_digest required (fold (\<lambda>(nm, v). item_put (nm @ ''__sel'') v) sel w)
      | Ref_Chosen i r \<Rightarrow> field_digest required (if truthy r then assignRefToField i r w else w))"

definition init_fields :: "form_field list \<Rightarrow> (nat \<Rightarrow> jsobj) \<Rightarrow> fields_world" where
  "init_fields fs objs =
     \<lparr>fw_fields = fs, fw_objects = objs, fw_shown = None, fw_seen = None,
      fw_scopes = (\<lambda>i. link_field (fs ! i)), fw_asked = [], fw_dirty = False\<rparr>"

definition field_run :: "(form_field \<Rightarrow> bool) \<Rightarrow> field_event list \<Rightarrow> fields_world \<Rightarrow> fields_world" where
  "field_run required es w = fold (field_step required) es w"

section \<open>Lemmas\<close>

lemma item_put_sel [simp]:
  "fw_fields (item_put p v w) = fw_fields w" "fw_shown (item_put p v w) = fw_shown w"
  "fw_seen (item_put p v w) = fw_seen w" "fw_scopes (item_put p v w) = fw_scopes w"
  "fw_asked (item_put p v w) = fw_asked w"
  by (simp_all add: item_put_def split: option.split)

lemma item_put_objects: "fw_shown w = Some x \<Longrightarrow> fw_objects (item_put p v w) = (fw_objects w)(x := oset (fw_objects w x) p v)"
  by (simp add: item_put_def)

lemma put_scope_sel [simp]:
  "fw_fields (put_scope i sc w) = fw_fields w" "fw_shown (put_scope i sc w) = fw_shown w"
  "fw_seen (put_scope i sc w) = fw_seen w" "fw_scopes (put_scope i sc w) = (fw_scopes w)(i := sc)"
  "fw_asked (put_scope i sc w) = fw_asked w" "fw_objects (put_scope i sc w) = fw_objects w"
  by (simp_all add: put_scope_def)

lemma fold_put_sel [simp]:
  "fw_fields (fold (\<lambda>(nm, v). item_put (g nm) v) l w) = fw_fields w"
  "fw_shown (fold (\<lambda>(nm, v). item_put (g nm) v) l w) = fw_shown w"
  "fw_seen (fold (\<lambda>(nm, v). item_put (g nm) v) l w) = fw_seen w"
  "fw_scopes (fold (\<lambda>(nm, v). item_put (g nm) v) l w) = fw_scopes w"
  "fw_asked (fold (\<lambda>(nm, v). item_put (g nm) v) l w) = fw_asked w"
  by (induction l arbitrary: w) auto

lemma fold_put_get:
  assumes "fw_shown w = Some x"
  shows "fw_objects (fold (\<lambda>(nm, v). item_put (g nm) v) l w) x = fold (\<lambda>(nm, v) o'. oset o' (g nm) v) l (fw_objects w x)"
  using assms by (induction l arbitrary: w) (auto simp: item_put_objects)

text \<open>Writing a list of properties under new names.\<close>

lemma fold_oset_other:
  "(\<And>nm. nm \<in> fst ` set l \<Longrightarrow> g nm \<noteq> k) \<Longrightarrow> oget (fold (\<lambda>(nm, v) o'. oset o' (g nm) v) l o1) k = oget o1 k"
proof (induction l arbitrary: o1)
  case (Cons a l)
  have ih: "oget (fold (\<lambda>(nm, v) o'. oset o' (g nm) v) l o2) k = oget o2 k" for o2
    by (rule Cons.IH) (use Cons.prems in auto)
  from Cons.prems [of "fst a"] have "g (fst a) \<noteq> k" by simp
  with ih show ?case by (cases a) simp
qed simp

lemma fold_oset_get:
  assumes "wf_obj l" "inj g" "nm \<in> set (onames l)"
  shows "oget (fold (\<lambda>(nm, v) o'. oset o' (g nm) v) l o1) (g nm) = oget l nm"
  using assms
proof (induction l arbitrary: o1)
  case (Cons a l)
  obtain k v where a: "a = (k, v)" by (cases a)
  show ?case
  proof (cases "k = nm")
    case True
    with Cons.prems a have "nm \<notin> set (onames l)" by (simp add: wf_obj_def)
    then have "\<And>n. n \<in> fst ` set l \<Longrightarrow> g n \<noteq> g nm"
      using Cons.prems(2) by (auto simp: inj_def onames_def)
    with a True show ?thesis by (simp add: fold_oset_other)
  next
    case False
    with Cons a show ?thesis by (simp add: wf_obj_def)
  qed
qed simp

text \<open>The selection watchers change nothing but choices.\<close>

lemma selection_watch_keeps [simp]:
  "fw_fields (selection_watch i w) = fw_fields w" "fw_objects (selection_watch i w) = fw_objects w"
  "fw_shown (selection_watch i w) = fw_shown w" "fw_seen (selection_watch i w) = fw_seen w"
  "fw_asked (selection_watch i w) = fw_asked w"
  "fd_markup (fw_scopes (selection_watch i w) j) = fd_markup (fw_scopes w j)"
  by (simp_all add: selection_watch_def Let_def)

lemma selection_fold_keeps [simp]:
  "fw_fields (fold selection_watch is w) = fw_fields w" "fw_objects (fold selection_watch is w) = fw_objects w"
  "fw_shown (fold selection_watch is w) = fw_shown w" "fw_seen (fold selection_watch is w) = fw_seen w"
  "fw_asked (fold selection_watch is w) = fw_asked w"
  "fd_markup (fw_scopes (fold selection_watch is w) j) = fd_markup (fw_scopes w j)"
  by (induction "is" arbitrary: w) auto

lemma quiet_field_digest: "fw_shown w = fw_seen w \<Longrightarrow> field_digest required w = fold selection_watch [0..<length (fw_fields w)] w"
  by (simp add: field_digest_def)

lemma field_digest_one:
  "fw_fields w = [f] \<Longrightarrow> fw_shown w \<noteq> fw_seen w \<Longrightarrow>
   field_digest required w = selection_watch 0 (item_watch_field required 0 (selection_watch 0 (w\<lparr>fw_seen := fw_shown w\<rparr>)))"
proof -
  assume f: "fw_fields w = [f]" "fw_shown w \<noteq> fw_seen w"
  have "[0..<length (fw_fields w)] = [0]" using f by simp
  with f(2) show ?thesis by (simp add: field_digest_def)
qed

section \<open>Properties\<close>

text \<open>
  Choices that arrive after their item are not offered: a text field that was drawn for an item
  without choices stays a free text input when the choices come, although the field has them.
\<close>

theorem late_choices_not_offered:
  fixes f x objs required
  defines "w \<equiv> field_run required [Show_Object x] (init_fields [f] objs)"
  assumes "is_text_field f" and "oget (objs x) (ff_property f) \<noteq> JUndef"
    and "oget (objs x) (ff_property f @ ''__sel'') = JUndef" and "c \<noteq> []"
  shows "fd_markup (fw_scopes w 0) = prepareTextDirective (ff_validators f) False False \<and>
    (let w' = field_step required (Choices_Arrive [(ff_property f, JObj c)]) w
     in oget (field_item w') (ff_property f @ ''__sel'') = JObj c \<and> fd_selection (fw_scopes w' 0) = JObj c \<and>
        fd_markup (fw_scopes w' 0) = prepareTextDirective (ff_validators f) False False)"
proof -
  let ?w0 = "(init_fields [f] objs)\<lparr>fw_shown := Some x, fw_seen := Some x\<rparr>"
  let ?sc = "\<lparr>fd_selection = JNull, fd_markup = prepareTextDirective (ff_validators f) False False,
      fd_hideRef = False, fd_seen = JUndef\<rparr>"
  have nr: "\<not> is_ref_field f" using assms(2) by (auto simp: is_text_field_def is_ref_field_def)
  have s0: "selection_watch 0 ?w0 = ?w0"
    using assms(4) by (simp add: selection_watch_def init_fields_def field_item_def link_field_def Let_def)
  have t: "item_watch_field required 0 ?w0 = put_scope 0 ?sc ?w0"
    using assms(2-4) nr by (simp add: item_watch_field_def text_watch_def init_fields_def field_item_def link_field_def Let_def)
  have s1: "selection_watch 0 (put_scope 0 ?sc ?w0) = put_scope 0 ?sc ?w0"
    using assms(4) by (simp add: selection_watch_def init_fields_def field_item_def Let_def)
  have "field_digest required ((init_fields [f] objs)\<lparr>fw_shown := Some x\<rparr>) = put_scope 0 ?sc ?w0"
    by (subst field_digest_one [of _ f]) (simp_all add: init_fields_def s0 [unfolded init_fields_def, simplified]
        t [unfolded init_fields_def, simplified] s1 [unfolded init_fields_def, simplified])
  then have w: "w = put_scope 0 ?sc ?w0" by (simp add: w_def field_run_def field_step_def)
  let ?w1 = "item_put (ff_property f @ ''__sel'') (JObj c) w"
  have "field_step required (Choices_Arrive [(ff_property f, JObj c)]) w = selection_watch 0 ?w1"
    by (simp add: field_step_def w field_digest_def init_fields_def)
  moreover have "fd_selection (fw_scopes (selection_watch 0 ?w1) 0) = JObj c \<and>
      fd_markup (fw_scopes (selection_watch 0 ?w1) 0) = prepareTextDirective (ff_validators f) False False \<and>
      oget (field_item (selection_watch 0 ?w1)) (ff_property f @ ''__sel'') = JObj c"
    using assms(2) by (simp add: w selection_watch_def init_fields_def field_item_def item_put_objects Let_def)
  ultimately show ?thesis by (simp add: w Let_def)
qed

lemma show_reference:
  assumes "fw_fields w = [f]" "is_ref_field f" "\<not> ff_paginated f" "ff_mode f \<noteq> ''INFO''" "fw_seen w \<noteq> Some x"
  shows "fw_objects (field_step required (Show_Object x) w) = fw_objects w"
    "fw_fields (field_step required (Show_Object x) w) = [f]"
    "fw_shown (field_step required (Show_Object x) w) = Some x"
    "fw_seen (field_step required (Show_Object x) w) = Some x"
    "fw_asked (field_step required (Show_Object x) w) = fw_asked w @
      (if oget (fw_objects w x) (ff_property f @ ''__sel'') \<noteq> JUndef then []
       else case item_key_or_empty (fw_objects w x) of
              Inl _ \<Rightarrow> []
            | Inr k \<Rightarrow> [\<lparr>fr_field = 0, fr_ask = Ask_Selection, fr_url = ''spa/selection'',
                        fr_data = [(''__id'', JStr k), (''__property'', JStr (ff_property f))]\<rparr>])"
proof -
  let ?w0 = "selection_watch 0 (w\<lparr>fw_shown := Some x, fw_seen := Some x\<rparr>)"
  have "\<not> is_text_field f" using assms(2) by (auto simp: is_text_field_def is_ref_field_def)
  then have "field_step required (Show_Object x) w = selection_watch 0 (ref_watch 0 ?w0)"
    using assms field_digest_one [of "w\<lparr>fw_shown := Some x\<rparr>" f required]
    by (simp add: field_step_def item_watch_field_def)
  moreover have "fw_fields (ref_watch 0 ?w0) = [f] \<and> fw_objects (ref_watch 0 ?w0) = fw_objects w \<and>
      fw_shown (ref_watch 0 ?w0) = Some x \<and> fw_seen (ref_watch 0 ?w0) = Some x \<and>
      fw_asked (ref_watch 0 ?w0) = fw_asked w @
      (if oget (fw_objects w x) (ff_property f @ ''__sel'') \<noteq> JUndef then []
       else case item_key_or_empty (fw_objects w x) of
              Inl _ \<Rightarrow> []
            | Inr k \<Rightarrow> [\<lparr>fr_field = 0, fr_ask = Ask_Selection, fr_url = ''spa/selection'',
                        fr_data = [(''__id'', JStr k), (''__property'', JStr (ff_property f))]\<rparr>])"
    using assms
    by (auto simp: ref_watch_def ask_choices_def field_item_def field_asks_def Let_def split: sum.split)
  ultimately show "fw_objects (field_step required (Show_Object x) w) = fw_objects w"
    "fw_fields (field_step required (Show_Object x) w) = [f]"
    "fw_shown (field_step required (Show_Object x) w) = Some x"
    "fw_seen (field_step required (Show_Object x) w) = Some x"
    "fw_asked (field_step required (Show_Object x) w) = fw_asked w @
      (if oget (fw_objects w x) (ff_property f @ ''__sel'') \<noteq> JUndef then []
       else case item_key_or_empty (fw_objects w x) of
              Inl _ \<Rightarrow> []
            | Inr k \<Rightarrow> [\<lparr>fr_field = 0, fr_ask = Ask_Selection, fr_url = ''spa/selection'',
                        fr_data = [(''__id'', JStr k), (''__property'', JStr (ff_property f))]\<rparr>])"
    by simp_all
qed

text \<open>
  A request for choices is answered into the form's item of the moment: when the form has gone on
  to another item, that item gets the choices of the first one, over its own.
\<close>

theorem choices_given_to_next_item:
  fixes f a b objs required
  defines "w \<equiv> field_run required [Show_Object a, Show_Object b] (init_fields [f] objs)"
  assumes f: "is_ref_field f" "\<not> ff_paginated f" "ff_mode f \<noteq> ''INFO''" and ab: "a \<noteq> b"
    and sel: "oget (objs a) (ff_property f @ ''__sel'') = JUndef" and k: "item_key_or_empty (objs a) = Inr k"
    and data: "truthy data"
  shows "\<exists>q qs. fw_asked w = q # qs \<and> fr_url q = ''spa/selection'' \<and> oget (fr_data q) ''__id'' = JStr k \<and>
    (let w' = field_step required (Field_Answer 0 (Some data)) w
     in fw_shown w' = Some b \<and> oget (fw_objects w' b) (ff_property f @ ''__sel'') = data \<and>
        fw_objects w' a = objs a)"
proof -
  let ?q = "\<lparr>fr_field = 0, fr_ask = Ask_Selection, fr_url = ''spa/selection'',
      fr_data = [(''__id'', JStr k), (''__property'', JStr (ff_property f))]\<rparr>"
  let ?i = "init_fields [f] objs"
  have i: "fw_fields ?i = [f]" "fw_seen ?i \<noteq> Some a" "fw_objects ?i = objs" "fw_asked ?i = []"
    by (simp_all add: init_fields_def)
  let ?w1 = "field_step required (Show_Object a) ?i"
  note s1 = show_reference [OF i(1) f i(2), of required]
  have n1: "fw_seen ?w1 \<noteq> Some b" using ab s1(4) by simp
  note s2 = show_reference [OF s1(2) f n1, of required]
  have w: "w = field_step required (Show_Object b) ?w1" by (simp add: w_def field_run_def)
  obtain qs where qs: "fw_asked w = ?q # qs"
    unfolding w using s2(5) s1(5) sel k i by simp
  have wo: "fw_objects w = objs" "fw_fields w = [f]" "fw_shown w = Some b" "fw_seen w = Some b"
    unfolding w using s1 s2 i by simp_all
  let ?w2 = "selection_answer 0 data (w\<lparr>fw_asked := qs\<rparr>)"
  have a2: "fw_shown ?w2 = Some b" "fw_seen ?w2 = Some b"
    "fw_objects ?w2 = objs(b := oset (objs b) (ff_property f @ ''__sel'') data)"
    using data wo by (simp_all add: selection_answer_def Let_def item_put_objects)
  have "field_step required (Field_Answer 0 (Some data)) w = field_digest required ?w2"
    using qs by (simp add: field_step_def)
  then show ?thesis
    using a2 qs ab by (simp add: quiet_field_digest Let_def)
qed

text \<open>
  A reference shown with its own fields gets them from the item it refers to: every property of
  that item arrives under the reference's name, the rest of the form's item stays, and the field is
  drawn again without the rule that may hide it.
\<close>

theorem info_reference_spread:
  assumes f: "fw_fields w ! i = f" "ff_mode f = ''INFO''" "\<not> ff_readOnly f"
    and shown: "fw_shown w = Some x" "fw_seen w = Some x"
    and asked: "j < length (fw_asked w)" "fr_ask (fw_asked w ! j) = Ask_Info" "fr_field (fw_asked w ! j) = i"
    and r: "wf_obj r"
  shows "let w' = field_step required (Field_Answer j (Some (JObj r))) w
    in (\<forall>nm \<in> set (onames r). oget (fw_objects w' x) (ff_property f @ ''.'' @ nm) = oget r nm) \<and>
       (\<forall>k. (\<forall>nm \<in> set (onames r). k \<noteq> ff_property f @ ''.'' @ nm) \<longrightarrow>
          oget (fw_objects w' x) k = oget (fw_objects w x) k) \<and>
       (\<forall>y. y \<noteq> x \<longrightarrow> fw_objects w' y = fw_objects w y) \<and>
       (\<forall>h \<in> set (fd_markup (fw_scopes w' i)). values_of ''ng-show'' h = [])"
proof -
  let ?g = "\<lambda>nm. ff_property f @ ''.'' @ nm"
  let ?w1 = "w\<lparr>fw_asked := take j (fw_asked w) @ drop (Suc j) (fw_asked w)\<rparr>"
  let ?w2 = "fold (\<lambda>(nm, v). item_put (?g nm) v) r ?w1"
  have e: "field_step required (Field_Answer j (Some (JObj r))) w = field_digest required (info_answer i (JObj r) ?w1)"
    using asked by (simp add: field_step_def Let_def)
  have ia: "info_answer i (JObj r) ?w1 = put_scope i ((fw_scopes ?w2 i)\<lparr>fd_markup :=
      prepareRefDirective (ff_readOnly f) (ff_mode f) (allowCreate f) False False\<rparr>) ?w2"
    using f shown by (simp add: info_answer_def Let_def)
  have o1: "fw_objects ?w2 x = fold (\<lambda>(nm, v) o'. oset o' (?g nm) v) r (fw_objects w x)"
    using fold_put_get [of ?w1 x ?g r] shown by simp
  have o2: "fw_objects ?w2 y = fw_objects w y" if "y \<noteq> x" for y
  proof -
    have "fw_objects (fold (\<lambda>(nm, v). item_put (?g nm) v) l v0) y = fw_objects v0 y" if "fw_shown v0 = Some x" for l v0
      using that \<open>y \<noteq> x\<close> by (induction l arbitrary: v0) (auto simp: item_put_objects)
    then show ?thesis using shown by simp
  qed
  have inj: "inj ?g" by (simp add: inj_def)
  have get: "oget (fw_objects ?w2 x) (?g nm) = oget r nm" if "nm \<in> set (onames r)" for nm
    unfolding o1 using fold_oset_get [OF r inj that] by simp
  have other: "oget (fw_objects ?w2 x) k = oget (fw_objects w x) k" if "\<forall>nm \<in> set (onames r). k \<noteq> ?g nm" for k
    unfolding o1 by (rule fold_oset_other) (use that in \<open>auto simp: onames_def\<close>)
  have d: "field_digest required v = fold selection_watch [0..<length (fw_fields v)] v"
    if "v = info_answer i (JObj r) ?w1" for v
    by (rule quiet_field_digest) (use shown that ia in simp)
  have ob: "fw_objects (field_digest required (info_answer i (JObj r) ?w1)) = fw_objects ?w2"
    by (simp add: d ia)
  have mk: "fd_markup (fw_scopes (field_digest required (info_answer i (JObj r) ?w1)) i)
      = prepareRefDirective (ff_readOnly f) (ff_mode f) (allowCreate f) False False"
    by (simp add: d ia)
  have "\<forall>h \<in> set (prepareRefDirective (ff_readOnly f) (ff_mode f) (allowCreate f) False False). values_of ''ng-show'' h = []"
    using f by (simp add: prepareRefDirective_def legend_def field_id_def)
  then show ?thesis unfolding Let_def e ob mk using get other o2 by blast
qed

text \<open>What a field draws inside its frame before it has an item.\<close>

definition own_markup :: "form_field \<Rightarrow> html list" where
  "own_markup f =
     (if ff_type f = ''GROUP'' then ionFormGroup_markup f else fd_markup (link_field f))"

text \<open>
  The rule that shows a field is drawn exactly once, in the field's frame or, where it has none,
  by the field itself, and exactly when the field has a rule.
\<close>

theorem visibility_rule_drawn_once:
  assumes "\<not> ff_readOnly f"
  shows "values_of ''ng-show'' (ionFormField_markup f) @ concat (map (values_of ''ng-show'') (own_markup f))
    = (case ff_visibility f of None \<Rightarrow> [] | Some _ \<Rightarrow> [''execExpression(field.visibilityExpression)''])"
  using assms
  by (auto simp: ionFormField_markup_def wrapField_def directive_def own_markup_def ionFormGroup_markup_def
      link_field_def is_ref_field_def prepareRefDirective_def field_inputOptions_def show_rule_def legend_def
      markup_defs field_ref_name_def Let_def split: option.split)

section \<open>Witnesses\<close>

definition sample_field :: "string \<Rightarrow> string \<Rightarrow> string \<Rightarrow> form_field" where
  "sample_field p type mode =
     \<lparr>ff_property = p, ff_type = type, ff_mode = mode, ff_readonly = False, ff_readOnly = False, ff_visibility = Some ''.a'',
      ff_paginated = False, ff_actions = [], ff_validators = None, ff_fields = [''r.n'']\<rparr>"

lemma late_choices_not_offered_witness:
  "fd_markup (fw_scopes (field_run (\<lambda>_. False) [Show_Object 0] (init_fields [sample_field ''c'' ''TEXT'' []] (\<lambda>_. [(''c'', JStr ''1'')]))) 0)
     = prepareTextDirective None False False"
  using late_choices_not_offered [of "sample_field ''c'' ''TEXT'' []" "\<lambda>_. [(''c'', JStr ''1'')]" 0 "[(''1'', JStr ''x'')]" "\<lambda>_. False"]
  by (simp add: sample_field_def is_text_field_def)

lemma choices_given_to_next_item_witness:
  "oget (fw_objects (field_step (\<lambda>_. False) (Field_Answer 0 (Some (JBool True)))
      (field_run (\<lambda>_. False) [Show_Object 0, Show_Object 1] (init_fields [sample_field ''r'' ''REFERENCE'' []] (\<lambda>_. mk_item ''A'' ''1'' [])))) 1)
    (''r'' @ ''__sel'') = JBool True"
proof -
  have "is_ref_field (sample_field ''r'' ''REFERENCE'' [])" "\<not> ff_paginated (sample_field ''r'' ''REFERENCE'' [])"
    "ff_mode (sample_field ''r'' ''REFERENCE'' []) \<noteq> ''INFO''" "(0::nat) \<noteq> 1"
    by (simp_all add: is_ref_field_def sample_field_def)
  moreover have p: "ff_property (sample_field ''r'' ''REFERENCE'' []) = ''r''" by (simp add: sample_field_def)
  moreover have "oget (mk_item ''A'' ''1'' []) (''r'' @ ''__sel'') = JUndef"
    "item_key_or_empty (mk_item ''A'' ''1'' []) = Inr ''A:1''" "truthy (JBool True)"
    by (simp_all add: mk_item_def item_key_or_empty_def item_info_def arr_at_def)
  ultimately show ?thesis
    using choices_given_to_next_item [of "sample_field ''r'' ''REFERENCE'' []" 0 1 "\<lambda>_. mk_item ''A'' ''1'' []"
        "''A:1''" "JBool True" "\<lambda>_. False", unfolded p Let_def] by blast
qed

definition info_world :: fields_world where
  "info_world = (init_fields [sample_field ''r'' ''REFERENCE'' ''INFO''] (\<lambda>_. mk_item ''A'' ''1'' []))
     \<lparr>fw_shown := Some 0, fw_seen := Some 0,
      fw_asked := [\<lparr>fr_field = 0, fr_ask = Ask_Info, fr_url = ''spa/item'', fr_data = []\<rparr>]\<rparr>"

lemma info_reference_spread_witness:
  "oget (fw_objects (field_step (\<lambda>_. False) (Field_Answer 0 (Some (JObj [(''n'', JNum 5)]))) info_world) 0) (''r'' @ ''.'' @ ''n'') = JNum 5"
  using info_reference_spread [of info_world 0 "sample_field ''r'' ''REFERENCE'' ''INFO''" 0 0 "[(''n'', JNum 5)]" "\<lambda>_. False"]
  by (simp add: info_world_def init_fields_def sample_field_def wf_obj_def Let_def)

lemma visibility_rule_drawn_once_witness:
  "values_of ''ng-show'' (ionFormField_markup (sample_field ''c'' ''TEXT'' []))
     @ concat (map (values_of ''ng-show'') (own_markup (sample_field ''c'' ''TEXT'' [])))
   = [''execExpression(field.visibilityExpression)'']"
proof -
  have "\<not> ff_readOnly (sample_field ''c'' ''TEXT'' [])" by (simp add: sample_field_def)
  from visibility_rule_drawn_once [OF this] show ?thesis by (simp add: sample_field_def)
qed

text \<open>Each field's watcher of choices is its own, whatever the order in which the watchers run.\<close>

lemma selection_watch_own: "j \<noteq> i \<Longrightarrow> fw_scopes (selection_watch i w) j = fw_scopes w j"
  by (simp add: selection_watch_def Let_def)

lemma selection_watch_cong:
  "fw_fields v = fw_fields w \<Longrightarrow> fw_objects v = fw_objects w \<Longrightarrow> fw_shown v = fw_shown w \<Longrightarrow>
   fw_scopes v i = fw_scopes w i \<Longrightarrow> fw_scopes (selection_watch i v) i = fw_scopes (selection_watch i w) i"
proof -
  assume e: "fw_fields v = fw_fields w" "fw_objects v = fw_objects w" "fw_shown v = fw_shown w" "fw_scopes v i = fw_scopes w i"
  then have "field_item v = field_item w" by (cases "fw_shown w") (simp_all add: field_item_def)
  with e show ?thesis by (simp add: selection_watch_def Let_def)
qed

lemma selection_fold_at:
  "distinct is \<Longrightarrow> fw_scopes (fold selection_watch is w) i =
    (if i \<in> set is then fw_scopes (selection_watch i w) i else fw_scopes w i)"
proof (induction "is" arbitrary: w)
  case (Cons j js)
  show ?case
  proof (cases "i = j")
    case True
    with Cons show ?thesis by simp
  next
    case False
    have "fw_scopes (selection_watch i (selection_watch j w)) i = fw_scopes (selection_watch i w) i"
      by (rule selection_watch_cong) (simp_all add: selection_watch_own False)
    with Cons False show ?thesis by (simp add: selection_watch_own)
  qed
qed simp

lemma choices_reach_field:
  fixes required
  assumes "i < length (fw_fields w)" and "fw_shown w = Some x" and "fw_seen w = Some x"
    and "is_text_field (fw_fields w ! i) \<or> is_ref_field (fw_fields w ! i) \<and> \<not> ff_paginated (fw_fields w ! i)"
    and "wf_obj sel" and "(ff_property (fw_fields w ! i), v) \<in> set sel"
    and "\<not> nullish v" and "v \<noteq> fd_seen (fw_scopes w i)"
  defines "w' \<equiv> field_step required (Choices_Arrive sel) w"
  shows "fd_selection (fw_scopes w' i) = v" and "fd_markup (fw_scopes w' i) = fd_markup (fw_scopes w i)"
    and "fw_asked w' = fw_asked w"
    and "field_item w' = fold (\<lambda>(nm, v) o'. oset o' (nm @ ''__sel'') v) sel (field_item w)"
proof -
  let ?p = "ff_property (fw_fields w ! i)"
  let ?w1 = "fold (\<lambda>(nm, v). item_put (nm @ ''__sel'') v) sel w"
  have item: "field_item ?w1 = fold (\<lambda>(nm, v) o'. oset o' (nm @ ''__sel'') v) sel (field_item w)"
    using fold_put_get [OF assms(2), of "\<lambda>nm. nm @ ''__sel''" sel] assms(2) by (simp add: field_item_def)
  have "oget (field_item ?w1) (?p @ ''__sel'') = oget sel ?p"
    unfolding item by (rule fold_oset_get) (use assms(5,6) in \<open>force simp: inj_def onames_def\<close>)+
  then have v: "oget (field_item ?w1) (?p @ ''__sel'') = v" using oget_mem [OF assms(5,6)] by simp
  have step: "field_step required (Choices_Arrive sel) w = fold selection_watch [0..<length (fw_fields w)] ?w1"
    using assms(2,3) by (simp add: field_step_def field_digest_def)
  have at: "fw_scopes (fold selection_watch [0..<length (fw_fields w)] ?w1) i = fw_scopes (selection_watch i ?w1) i"
    using assms(1) by (simp add: selection_fold_at)
  have "fd_selection (fw_scopes (selection_watch i ?w1) i) = v"
    using assms(2,4,7,8) v by (auto simp: selection_watch_def Let_def)
  moreover have "field_item (fold selection_watch [0..<length (fw_fields w)] ?w1) = field_item ?w1"
    by (cases "fw_shown ?w1") (simp_all add: field_item_def)
  ultimately show "fd_selection (fw_scopes w' i) = v" "fd_markup (fw_scopes w' i) = fd_markup (fw_scopes w i)"
    "fw_asked w' = fw_asked w"
    "field_item w' = fold (\<lambda>(nm, v) o'. oset o' (nm @ ''__sel'') v) sel (field_item w)"
    using at step item by (simp_all add: w'_def)
qed

text \<open>
  When the form loads choices again, every field that follows them takes the new ones, whatever
  else the answer brings and in whatever order the fields are told; its markup and the item's values
  stay as they are, and nothing is asked of the server.
\<close>

theorem reloaded_choices_offered:
  assumes "i < length (fw_fields w)" and "fw_shown w = Some x" and "fw_seen w = Some x"
    and "is_text_field (fw_fields w ! i) \<or> is_ref_field (fw_fields w ! i) \<and> \<not> ff_paginated (fw_fields w ! i)"
    and "wf_obj sel" and "(ff_property (fw_fields w ! i), v) \<in> set sel"
    and "\<not> nullish v" and "v \<noteq> fd_seen (fw_scopes w i)"
  shows "\<exists>w'. field_step required (Choices_Arrive sel) w = w' \<and> fd_selection (fw_scopes w' i) = v \<and>
    fd_markup (fw_scopes w' i) = fd_markup (fw_scopes w i) \<and> fw_asked w' = fw_asked w \<and>
    (\<forall>k. (\<forall>p. k \<noteq> p @ ''__sel'') \<longrightarrow> oget (field_item w') k = oget (field_item w) k)"
proof (intro exI conjI allI impI)
  fix k assume "\<forall>p. k \<noteq> p @ ''__sel''"
  then show "oget (field_item (field_step required (Choices_Arrive sel) w)) k = oget (field_item w) k"
    unfolding choices_reach_field(4) [OF assms] by (intro fold_oset_other) auto
qed (rule refl choices_reach_field [OF assms])+

definition fields_shown :: fields_world where
  "fields_shown = (init_fields [sample_field ''city'' ''TEXT'' [], sample_field ''name'' ''TEXT'' []]
     (\<lambda>_. mk_item ''A'' ''1'' [(''city'', JStr ''1'')]))\<lparr>fw_shown := Some 0, fw_seen := Some 0\<rparr>"

lemma reloaded_choices_offered_witness:
  "\<exists>w'. field_step (\<lambda>_. False) (Choices_Arrive [(''name'', JBool False), (''city'', JObj [(''7'', JStr ''Omsk'')])]) fields_shown = w' \<and>
    fd_selection (fw_scopes w' 0) = JObj [(''7'', JStr ''Omsk'')] \<and>
    fd_markup (fw_scopes w' 0) = fd_markup (fw_scopes fields_shown 0) \<and> fw_asked w' = fw_asked fields_shown \<and>
    (\<forall>k. (\<forall>p. k \<noteq> p @ ''__sel'') \<longrightarrow> oget (field_item w') k = oget (field_item fields_shown) k)"
  by (rule reloaded_choices_offered)
    (simp_all add: fields_shown_def init_fields_def sample_field_def is_text_field_def wf_obj_def link_field_def)

text \<open>
  The property of a field that says it is read-only is \<open>readonly\<close>; the link that a read-only
  reference should be is never drawn.
\<close>

lemma readonly_reference_drawn_as_input:
  "fd_markup (link_field (f\<lparr>ff_readonly := True\<rparr>)) = fd_markup (link_field (f\<lparr>ff_readonly := False\<rparr>))"
  by (simp add: link_field_def is_ref_field_def allowCreate_def)

end
