(* ===== verification/List_Interface.thy ===== *)
theory List_Interface
  imports Js_Prelude
begin

text \<open>
  The contract of deleting from a list by keys, on which the list controller's actions rest: an
  element goes exactly when its key is among the given ones; the others keep their order.
  Reading a key may throw.
\<close>

locale list_deletion =
  fixes del :: "'a list \<Rightarrow> 'k list \<Rightarrow> 'a list res"
    and key :: "'a \<Rightarrow> 'k res"
  assumes del_Nil: "del [] ks = Inr []"
    and del_Cons: "del (x # xs) ks =
      rbind (key x) (\<lambda>k. rbind (del xs ks) (\<lambda>ys. Inr (if k \<in> set ks then ys else x # ys)))"
begin

lemma del_filter:
  "(\<And>x. x \<in> set xs \<Longrightarrow> key x = Inr (f x)) \<Longrightarrow> del xs ks = Inr (filter (\<lambda>x. f x \<notin> set ks) xs)"
  by (induction xs) (auto simp: del_Nil del_Cons)

lemma del_fails_iff: "(\<exists>e. del xs ks = Inl e) \<longleftrightarrow> (\<exists>x \<in> set xs. \<exists>e. key x = Inl e)"
proof (induction xs)
  case Nil
  then show ?case by (simp add: del_Nil)
next
  case (Cons x xs)
  then show ?case by (cases "key x"; cases "del xs ks") (auto simp: del_Cons)
qed

lemma del_result: "del xs ks = Inr ys \<Longrightarrow>
  ys = filter (\<lambda>x. projr (key x) \<notin> set ks) xs \<and> (\<forall>x \<in> set xs. \<exists>k. key x = Inr k)"
proof (induction xs arbitrary: ys)
  case Nil
  then show ?case by (simp add: del_Nil)
next
  case (Cons x xs)
  then show ?case by (cases "key x"; cases "del xs ks") (auto simp: del_Cons split: if_splits)
qed

lemma del_subset: "del xs ks = Inr ys \<Longrightarrow> set ys \<subseteq> set xs \<and> length ys \<le> length xs"
  using del_result by (metis filter_is_subset length_filter_le)

lemma del_gone: "del xs ks = Inr ys \<Longrightarrow> y \<in> set ys \<Longrightarrow> key y = Inr k \<Longrightarrow> k \<notin> set ks"
  using del_result by fastforce

lemma del_twice: "del xs ks = Inr ys \<Longrightarrow> del ys ks = Inr ys"
proof -
  assume d: "del xs ks = Inr ys"
  from del_result [OF d] have ys: "ys = filter (\<lambda>x. projr (key x) \<notin> set ks) xs"
    and k: "\<And>x. x \<in> set ys \<Longrightarrow> key x = Inr (projr (key x))" by auto
  have "del ys ks = Inr (filter (\<lambda>x. projr (key x) \<notin> set ks) ys)"
    using k by (rule del_filter)
  then show ?thesis by (simp add: ys)
qed

end

text \<open>The loop: \<open>jQuery.grep\<close> with a key that may throw.\<close>

fun grep_keys :: "('a \<Rightarrow> 'k res) \<Rightarrow> 'k list \<Rightarrow> 'a list \<Rightarrow> 'a list res" where
  "grep_keys key ks [] = Inr []"
| "grep_keys key ks (x # xs) =
     rbind (key x) (\<lambda>k. rbind (grep_keys key ks xs) (\<lambda>ys.
       Inr (if k \<in> set ks then ys else x # ys)))"

text \<open>Writing past the end of an array extends it with undefined elements.\<close>

definition array_set :: "jsval list \<Rightarrow> nat \<Rightarrow> jsval \<Rightarrow> jsval list" where
  "array_set xs i v =
     (if i < length xs then xs[i := v] else xs @ replicate (i - length xs) JUndef @ [v])"

lemma length_array_set: "length (array_set xs i v) = max (length xs) (i + 1)"
  by (simp add: array_set_def max_def)

lemma array_set_at: "array_set xs i v ! i = v"
  by (simp add: array_set_def nth_append)

lemma array_set_end: "array_set xs (length xs) v = xs @ [v]"
  by (simp add: array_set_def)

end
