(* ===== verification/List_Controller.thy ===== *)
theory List_Controller
  imports Actions List_Interface
begin

text \<open>
  The list and collection controllers (\<open>listController\<close> of \<open>ion-ng-list.js\<close>), their settings,
  and the details controller's watcher.  The shared objects \<open>ionCurrent\<close> and \<open>mtplInfo\<close> are
  written by the operations and copied into the scope by a digest, so both are in the state.
\<close>

section \<open>Settings\<close>

record list_settings =
  ls_listUrl :: string
  ls_vmUrl :: string
  ls_listInfoUrl :: string
  ls_locationPathPrefix :: string
  ls_createLocationPrefix :: string
  ls_actionUrl :: string
  ls_defActions :: string
  ls_deleteUrl :: "string option"

datatype list_kind = Plain_List | Collection_List

text \<open>The key \<open>deleteUrl\<close> that \<open>removeFunc\<close> reads is in neither object.\<close>

primrec getSettings :: "list_kind \<Rightarrow> list_settings" where
  "getSettings Plain_List =
     \<lparr>ls_listUrl = ''spa/list'', ls_vmUrl = ''spa/list/vm'', ls_listInfoUrl = ''spa/listinfo'',
      ls_locationPathPrefix = ''/list'', ls_createLocationPrefix = [],
      ls_actionUrl = ''spa/listAction'', ls_defActions = ''CREATE EDIT'', ls_deleteUrl = None\<rparr>"
| "getSettings Collection_List =
     \<lparr>ls_listUrl = ''spa/collection'', ls_vmUrl = ''spa/collection/vm'',
      ls_listInfoUrl = ''spa/collection/info'',
      ls_locationPathPrefix = ''/collection'', ls_createLocationPrefix = ''/collection'',
      ls_actionUrl = ''spa/listAction'', ls_defActions = ''ADD CREATE EDIT REMOVE'', ls_deleteUrl = None\<rparr>"

section \<open>State\<close>

text \<open>
  \<open>ionCurrent.item\<close> is null, an empty object after a refresh, or an item; a list is null or an
  array, whose elements an update may leave undefined.
\<close>

record list_scope =
  lc_node :: jsval
  lc_container :: jsval
  lc_collection :: jsval
  lc_pageSize :: jsval
  lc_page :: jsval
  lc_pagesCount :: jsval
  lc_classCaption :: jsval
  lc_breadcrumbs :: jsval
  lc_list :: "jsval list option"
  lc_detailItem :: jsval
  lc_itemsToDelete :: jsobj
  lc_filterString :: jsval
  lc_sortProperty :: jsval
  lc_sortDesc :: bool
  lc_sortEncoded :: jsval
  lc_selectAll :: bool
  lc_deldlg :: bool

record list_world =
  lw_scope :: list_scope
  lw_item :: jsval
  lw_list :: "jsval list option"
  lw_mtpl :: mtpl_info
  lw_path :: string
  lw_search :: jsobj
  lw_url :: string

definition init_list_scope :: "mtpl_info \<Rightarrow> jsval \<Rightarrow> jsval list option \<Rightarrow> list_scope" where
  "init_list_scope mi item list =
     \<lparr>lc_node = JStr (mi_node mi), lc_container = JNull, lc_collection = JNull, lc_pageSize = JUndef,
      lc_page = JNum 1, lc_pagesCount = JNum 1, lc_classCaption = JStr [], lc_breadcrumbs = JArr [],
      lc_list = list, lc_detailItem = item, lc_itemsToDelete = [], lc_filterString = JNull,
      lc_sortProperty = JNull, lc_sortDesc = False, lc_sortEncoded = JNull, lc_selectAll = False,
      lc_deldlg = False\<rparr>"

text \<open>The two watchers that a digest runs.\<close>

definition digest :: "list_world \<Rightarrow> list_world" where
  "digest w = w\<lparr>lw_scope := (lw_scope w)\<lparr>lc_detailItem := lw_item w, lc_list := lw_list w\<rparr>\<rparr>"

text \<open>\<open>itemInfo[0]+'@'+itemInfo[1]\<close> of an element of the list.\<close>

fun at_key :: "jsval \<Rightarrow> string res" where
  "at_key (JObj it) = item_key ''@'' it"
| "at_key _ = Inl TypeError"

section \<open>Checked items and deletion\<close>

definition checked_names :: "jsobj \<Rightarrow> string list" where
  "checked_names itemsToDelete = map fst (filter (\<lambda>(nm, v). v = JBool True) itemsToDelete)"

definition getCheckedIds :: "list_scope \<Rightarrow> string list res" where
  "getCheckedIds s =
     (let ids = checked_names (lc_itemsToDelete s)
      in if ids = [] \<and> truthy (lc_detailItem s)
         then rbind (at_key (lc_detailItem s)) (\<lambda>k. Inr [k]) else Inr ids)"

definition deleteFromList :: "jsval list \<Rightarrow> string list \<Rightarrow> jsval list res" where
  "deleteFromList array data = grep_keys at_key data array"

interpretation list_del: list_deletion deleteFromList at_key
  by unfold_locales (simp_all add: deleteFromList_def)

definition selectAll_change :: "list_world \<Rightarrow> list_world res" where
  "selectAll_change w =
     rbind (case lc_list (lw_scope w) of None \<Rightarrow> Inl TypeError | Some xs \<Rightarrow> rmap at_key xs) (\<lambda>ks.
       Inr (w\<lparr>lw_scope := (lw_scope w)\<lparr>lc_itemsToDelete :=
              foldl (\<lambda>d k. oset d k (JBool (lc_selectAll (lw_scope w)))) (lc_itemsToDelete (lw_scope w)) ks\<rparr>\<rparr>))"

definition openIsDisabled :: "list_scope \<Rightarrow> bool" where
  "openIsDisabled s \<longleftrightarrow> \<not> truthy (lc_detailItem s)"

definition deleteIsDisabled :: "list_scope \<Rightarrow> bool" where
  "deleteIsDisabled s \<longleftrightarrow> \<not> truthy (lc_detailItem s) \<and> checked_names (lc_itemsToDelete s) = []"

text \<open>The request that asks for the items that move up onto the page.\<close>

definition itemslist_request :: "list_scope \<Rightarrow> nat \<Rightarrow> string \<times> jsobj" where
  "itemslist_request s count =
     (''spa/itemslist'',
      [(''__node'', lc_node s), (''__container'', lc_container s), (''__collection'', lc_collection s),
       (''__pagesize'', lc_pageSize s), (''__page'', lc_page s), (''__count'', JNum (int count))])"

definition itemslist_reply :: "jsval list option \<Rightarrow> list_world \<Rightarrow> list_world res" where
  "itemslist_reply data w =
     (case data of
        None \<Rightarrow> Inr w
      | Some ys \<Rightarrow>
          (case lw_list w of None \<Rightarrow> Inl TypeError | Some xs \<Rightarrow> Inr (w\<lparr>lw_list := Some (xs @ ys)\<rparr>)))"

text \<open>\<open>removeFunc\<close>; the address of its request is \<open>None\<close>, the undefined key of the settings.\<close>

definition removeFunc :: "list_settings \<Rightarrow> list_world \<Rightarrow> (string option \<times> jsobj) option res" where
  "removeFunc settings w =
     (let s = lw_scope w; checked = checked_names (lc_itemsToDelete s)
      in if \<not> lc_deldlg s then Inl TypeError
         else
           rbind (if checked = [] \<and> lc_detailItem s \<noteq> JNull
                  then rbind (at_key (lw_item w)) (\<lambda>k. Inr [k]) else Inr checked) (\<lambda>ids.
             if ids \<noteq> []
             then Inr (Some (ls_deleteUrl settings,
                    [(''__node'', lc_node s), (''__container'', lc_container s),
                     (''__collection'', lc_collection s), (''ids'', JArr (map JStr ids))]))
             else Inr None))"

definition remove_reply :: "string list \<Rightarrow> list_world \<Rightarrow> ((string \<times> jsobj) \<times> list_world) res" where
  "remove_reply deleted w =
     rbind (case lw_list w of None \<Rightarrow> Inl TypeError | Some xs \<Rightarrow> deleteFromList xs deleted) (\<lambda>ys.
     case lc_list (lw_scope w) of
       None \<Rightarrow> Inl TypeError
     | Some shown \<Rightarrow> Inr (itemslist_request (lw_scope w) (length shown), w\<lparr>lw_list := Some ys\<rparr>))"

section \<open>Actions\<close>

datatype builtin = Put | Add | Edit | Remove

definition builtin_action :: "string \<Rightarrow> builtin option" where
  "builtin_action i =
     (if i = ''ADD'' then Some Put else if i = ''CREATE'' then Some Add
      else if i = ''EDIT'' then Some Edit else if i = ''REMOVE'' then Some Remove else None)"

datatype list_step =
    Run_Builtin builtin
  | Bulk_Request string jsobj
  | Plain_Request string jsobj
  | No_Step

text \<open>The choice \<open>execAction\<close> makes; a default action is looked for as a part of a text.\<close>

definition isEmptyObject :: "jsval \<Rightarrow> bool" where
  "isEmptyObject v \<longleftrightarrow> (case v of JObj o' \<Rightarrow> o' = [] | JArr vs \<Rightarrow> vs = [] | JStr s \<Rightarrow> s = [] | _ \<Rightarrow> True)"

definition list_execAction ::
  "list_settings \<Rightarrow> string \<Rightarrow> bool \<Rightarrow> bool \<Rightarrow> jsobj \<Rightarrow> list_world \<Rightarrow> list_step res" where
  "list_execAction settings actionId isBulk needSelectedItem routeParams w =
     (if contains actionId (ls_defActions settings) then
        (case builtin_action actionId of None \<Rightarrow> Inl TypeError | Some b \<Rightarrow> Inr (Run_Builtin b))
      else if isBulk then
        rbind (getCheckedIds (lw_scope w)) (\<lambda>ids.
          if ids \<noteq> [] then
            rbind (action_params (JStr actionId) [(''ids'', JArr (map JStr ids))] routeParams) (\<lambda>rq.
              Inr (Bulk_Request (ls_actionUrl settings) rq))
          else Inr No_Step)
      else
        rbind (action_params (JStr actionId)
                 (case lw_item w of
                    JObj it \<Rightarrow> if needSelectedItem \<and> it \<noteq> [] then it else lw_search w
                  | _ \<Rightarrow> lw_search w) routeParams) (\<lambda>rq.
          Inr (Plain_Request (ls_actionUrl settings) rq)))"

text \<open>
  The answer to a bulk action: the deleted items go, the items whose name occurs in the joined
  names are requested again.  Each request's callback writes at the index variable of the
  loop, which has its last value by then.
\<close>

record bulk_response =
  br_deleteList :: "string list option"
  br_refreshList :: "string list"
  br_redirect :: jsval

definition refresh_requests :: "list_scope \<Rightarrow> string list \<Rightarrow> jsval list \<Rightarrow> (string \<times> jsobj) list res" where
  "refresh_requests s refreshList xs =
     (let names = join '' '' refreshList
      in rbind (rmap (\<lambda>v. rbind (vget v ''itemToString'') (\<lambda>t.
           if contains (to_str t) names
           then (case v of
                   JObj it \<Rightarrow> rbind (item_key '':'' it) (\<lambda>k. Inr [(''spa/item'', [(''__node'', lc_node s), (''__id'', JStr k)])])
                 | _ \<Rightarrow> Inl TypeError)
           else Inr [])) xs) (\<lambda>rs. Inr (concat rs)))"

definition follow_redirect :: "jsval \<Rightarrow> list_world \<Rightarrow> list_world" where
  "follow_redirect redirect w = (if truthy redirect then w\<lparr>lw_url := to_str redirect\<rparr> else w)"

definition bulk_reply ::
  "bulk_response \<Rightarrow> list_world \<Rightarrow> ((string \<times> jsobj) list \<times> nat \<times> list_world) res" where
  "bulk_reply r w =
     (let w0 = w\<lparr>lw_scope := (lw_scope w)\<lparr>lc_itemsToDelete := []\<rparr>\<rparr>
      in rbind (case br_deleteList r of
                  None \<Rightarrow> Inr ([], w0)
                | Some ks \<Rightarrow>
                    rbind (case lw_list w0 of None \<Rightarrow> Inl TypeError | Some xs \<Rightarrow> deleteFromList xs ks) (\<lambda>ys.
                      Inr ([itemslist_request (lw_scope w0) (length ys)], w0\<lparr>lw_list := Some ys\<rparr>))) (\<lambda>(rqs, w1).
         if br_refreshList r = [] then Inr (rqs, 0, follow_redirect (br_redirect r) w1)
         else (case lw_list w1 of
                 None \<Rightarrow> Inl TypeError
               | Some xs \<Rightarrow>
                   rbind (refresh_requests (lw_scope w1) (br_refreshList r) xs) (\<lambda>rs.
                     Inr (rqs @ rs, length xs, follow_redirect (br_redirect r) w1)))))"

definition refresh_reply :: "nat \<Rightarrow> jsval \<Rightarrow> list_world \<Rightarrow> list_world res" where
  "refresh_reply i data w =
     (if truthy data
      then (case lw_list w of None \<Rightarrow> Inl TypeError
                            | Some xs \<Rightarrow> Inr (w\<lparr>lw_list := Some (array_set xs i data)\<rparr>))
      else Inr w)"

section \<open>Refreshing\<close>

text \<open>
  The sorting travels in the location as \<open>btoa(JSON.stringify([option]))\<close>; \<open>enc\<close> and \<open>dec\<close> are
  the two directions.
\<close>

definition set_default :: "string \<Rightarrow> jsval \<Rightarrow> jsobj \<Rightarrow> jsobj" where
  "set_default nm v params =
     (if \<not> truthy (oget params nm) \<and> truthy v then oset params nm v else params)"

definition list_getRequestObject :: "list_scope \<Rightarrow> jsobj \<Rightarrow> jsobj" where
  "list_getRequestObject s params =
     set_default ''__collection'' (lc_collection s)
       (set_default ''__container'' (lc_container s)
         (set_default ''__page'' (lc_page s)
           (if \<not> truthy (oget params ''__node'') then oset params ''__node'' (lc_node s) else params)))"

text \<open>
  \<open>newVal\<close> is the object of \<open>$location.search()\<close> itself, and \<open>getRequestObject\<close> writes into it: afterwards
  the location has the page's number, and the container and collection, without having been set.
\<close>

definition refreshList ::
  "(jsval \<Rightarrow> (jsval \<times> bool) res) \<Rightarrow> list_settings \<Rightarrow> jsobj \<Rightarrow> list_world \<Rightarrow>
   (string \<times> jsobj) list res \<times> list_world" where
  "refreshList dec settings newVal w =
     (let s = (lw_scope w)\<lparr>lc_detailItem := JNull, lc_node := JStr (to_str (oget newVal ''__node'')),
                lc_container := oget newVal ''__container'', lc_collection := oget newVal ''__collection'',
                lc_page := (if truthy (oget newVal ''__page'') then oget newVal ''__page'' else JNum 1)\<rparr>;
          w1 = w\<lparr>lw_item := JObj [], lw_list := None,
                 lw_mtpl := (lw_mtpl w)\<lparr>mi_showSlave := False, mi_node := to_str (oget newVal ''__node'')\<rparr>\<rparr>;
          sorting = oget newVal ''__sorting'';
          rq = (\<lambda>s. list_getRequestObject s newVal);
          sends = (\<lambda>s. [(ls_listUrl settings, cleanParams (rq s)), (ls_vmUrl settings, cleanParams (rq s)),
                       (ls_listInfoUrl settings, rq s)])
      in if truthy sorting \<and> \<not> loose_eq sorting (lc_sortEncoded s) then
           (let s1 = s\<lparr>lc_sortEncoded := sorting\<rparr>
            in case dec sorting of
                 Inl e \<Rightarrow> (Inl e, w1\<lparr>lw_scope := s1\<rparr>)
               | Inr (p, d) \<Rightarrow>
                   (let s2 = s1\<lparr>lc_sortProperty := p, lc_sortDesc := d\<rparr>
                    in (Inr (sends s2), w1\<lparr>lw_scope := s2, lw_search := rq s2\<rparr>)))
         else (Inr (sends s), w1\<lparr>lw_scope := s, lw_search := rq s\<rparr>))"

definition sent_by :: "(string \<times> jsobj) list res \<Rightarrow> (string \<times> jsobj) list" where
  "sent_by r = (case r of Inl _ \<Rightarrow> [] | Inr rqs \<Rightarrow> rqs)"

definition list_watch ::
  "(jsval \<Rightarrow> (jsval \<times> bool) res) \<Rightarrow> list_settings \<Rightarrow> list_world \<Rightarrow> (string \<times> jsobj) list res \<times> list_world" where
  "list_watch dec settings w =
     (if lw_path w = ls_locationPathPrefix settings \<and> oget (lw_search w) ''__node'' \<noteq> JUndef
      then refreshList dec settings (lw_search w) w else (Inr [], w))"

text \<open>
  The watcher over a digest: it runs again when the parameters differ from those it saw last, its own
  writes included; the second run writes nothing (\<open>second_watch_settles\<close>).
\<close>

definition location_watch ::
  "(jsval \<Rightarrow> (jsval \<times> bool) res) \<Rightarrow> list_settings \<Rightarrow> jsobj \<Rightarrow> list_world \<Rightarrow> (string \<times> jsobj) list \<times> list_world" where
  "location_watch dec settings seen w =
     (if lw_search w = seen then ([], w)
      else
        (let (r1, w1) = list_watch dec settings w
         in if lw_search w1 = lw_search w then (sent_by r1, w1)
            else
              (let (r2, w2) = list_watch dec settings w1
               in (sent_by r1 @ sent_by r2, w2))))"

definition list_arrives :: "jsval list option \<Rightarrow> list_world \<Rightarrow> list_world" where
  "list_arrives list w = w\<lparr>lw_list := list\<rparr>"

definition list_vm_arrives :: "jsval \<Rightarrow> list_world \<Rightarrow> list_world" where
  "list_vm_arrives pageSize w = w\<lparr>lw_scope := (lw_scope w)\<lparr>lc_pageSize := pageSize\<rparr>\<rparr>"

definition listinfo_arrives :: "jsobj option \<Rightarrow> list_world \<Rightarrow> list_world" where
  "listinfo_arrives info w =
     w\<lparr>lw_scope :=
        (case info of
           None \<Rightarrow> (lw_scope w)\<lparr>lc_classCaption := JNull, lc_pagesCount := JNull, lc_breadcrumbs := JNull\<rparr>
         | Some i \<Rightarrow> (lw_scope w)\<lparr>lc_classCaption := oget i ''classCaption'',
                       lc_pagesCount := oget i ''pagesCount'', lc_breadcrumbs := oget i ''breadcrumbs''\<rparr>)\<rparr>"

text \<open>The answer to an action that is neither built in nor bulk.\<close>

definition plain_reply ::
  "(jsval \<Rightarrow> (jsval \<times> bool) res) \<Rightarrow> list_settings \<Rightarrow> jsval \<Rightarrow> jsval \<Rightarrow> list_world \<Rightarrow>
   (string \<times> jsobj) list res \<times> list_world" where
  "plain_reply dec settings item redirect w =
     (let (r, w1) = (if truthy item then list_watch dec settings w else (Inr [], w))
      in case r of Inl e \<Rightarrow> (Inl e, w1) | Inr rqs \<Rightarrow> (Inr rqs, follow_redirect redirect w1))"

definition changeSorting ::
  "(jsval \<times> bool \<Rightarrow> string) \<Rightarrow> bool \<Rightarrow> jsval \<Rightarrow> list_world \<Rightarrow> list_world" where
  "changeSorting enc sortable property w =
     (if sortable then
        (let s = lw_scope w;
             s1 = (if loose_eq (lc_sortProperty s) property
                   then s\<lparr>lc_sortDesc := \<not> lc_sortDesc s\<rparr>
                   else s\<lparr>lc_sortProperty := property, lc_sortDesc := False\<rparr>);
             e = JStr (enc (lc_sortProperty s1, lc_sortDesc s1))
         in w\<lparr>lw_scope := s1\<lparr>lc_sortEncoded := e\<rparr>, lw_search := oset (lw_search w) ''__sorting'' e\<rparr>)
      else w)"

section \<open>Details, creation, editing\<close>

definition showDetails :: "nat \<Rightarrow> bool \<Rightarrow> list_world \<Rightarrow> list_world res" where
  "showDetails index onEditable w =
     (if onEditable then Inr w
      else case lc_list (lw_scope w) of
             None \<Rightarrow> Inl TypeError
           | Some xs \<Rightarrow>
               (let item = arr_at xs index
                in if item = lc_detailItem (lw_scope w)
                   then Inr (w\<lparr>lw_mtpl := (lw_mtpl w)\<lparr>mi_showSlave := False\<rparr>, lw_item := JNull\<rparr>)
                   else Inr (w\<lparr>lw_mtpl := (lw_mtpl w)\<lparr>mi_showSlave := True\<rparr>, lw_item := item\<rparr>)))"

definition addFunc :: "list_world \<Rightarrow> (string \<times> jsobj) \<times> list_world" where
  "addFunc w =
     (let rq = list_getRequestObject (lw_scope w) (lw_search w)
      in ((''spa/creationclasses'', rq), w\<lparr>lw_search := rq\<rparr>))"

definition create_url :: "list_settings \<Rightarrow> list_scope \<Rightarrow> string \<Rightarrow> string" where
  "create_url settings s cls =
     ls_createLocationPrefix settings @ ''/create?__node='' @ to_str (lc_node s) @ ''&__class='' @ cls
     @ (if truthy (lc_container s)
        then ''&__container='' @ to_str (lc_container s) @ ''&__collection='' @ to_str (lc_collection s)
        else [])"

datatype add_result = Choose_Class | Goto string | No_Rights

definition add_reply :: "list_settings \<Rightarrow> jsval list \<Rightarrow> list_world \<Rightarrow> (add_result \<times> list_world) res" where
  "add_reply settings classes w =
     (let w1 = w\<lparr>lw_mtpl := (lw_mtpl w)\<lparr>mi_creationClasses := JArr classes\<rparr>\<rparr>
      in case classes of
           [] \<Rightarrow> Inr (No_Rights, w1\<lparr>lw_mtpl := Alert ''error'' (Ru No_Creation_Rights) (lw_mtpl w1)\<rparr>)
         | [c] \<Rightarrow>
             rbind (vget c ''name'') (\<lambda>n.
               let url = create_url settings (lw_scope w) (to_str n)
               in Inr (Goto url, w1\<lparr>lw_url := url\<rparr>))
         | _ \<Rightarrow> Inr (Choose_Class, w1))"

definition editFunc :: "list_world \<Rightarrow> list_world res" where
  "editFunc w =
     (case lw_item w of
        JObj it \<Rightarrow>
          if it = [] then Inr w
          else rbind (item_key '':'' it) (\<lambda>k.
                 Inr (w\<lparr>lw_url := ''/item?__node='' @ to_str (lc_node (lw_scope w)) @ ''&__id='' @ k\<rparr>))
      | _ \<Rightarrow> Inr w)"

text \<open>
  \<open>putFunc\<close> opens the selection dialog for the container; when it closes with a result the
  items are appended and the list is refreshed.
\<close>

definition putFunc :: "list_scope \<Rightarrow> (jsval \<times> jsval) res" where
  "putFunc s =
     (case lc_container s of
        JStr c \<Rightarrow> Inr (JStr c, lc_collection s)
      | _ \<Rightarrow> Inl TypeError)"

definition put_closed :: "list_scope \<Rightarrow> jsval \<Rightarrow> (string \<times> jsobj) option" where
  "put_closed s result =
     (if truthy result
      then Some (''spa/colappend'',
             [(''__id'', lc_container s), (''__collection'', lc_collection s), (''__node'', lc_node s),
              (''__items'', result)])
      else None)"

definition put_reply ::
  "(jsval \<Rightarrow> (jsval \<times> bool) res) \<Rightarrow> list_settings \<Rightarrow> list_world \<Rightarrow> (string \<times> jsobj) list res \<times> list_world" where
  "put_reply dec settings w = refreshList dec settings (lw_search w) w"

section \<open>Search and reports\<close>

definition cancelSearchFunc :: "jsobj \<Rightarrow> list_world \<Rightarrow> jsobj \<times> list_world" where
  "cancelSearchFunc filters w =
     (oset filters (to_str (lc_node (lw_scope w))) JNull,
      w\<lparr>lw_scope := (lw_scope w)\<lparr>lc_filterString := JNull\<rparr>,
        lw_search := filter (\<lambda>(nm, v). \<not> nullish v)
          (if truthy (oget (lw_search w) ''__filter'') then oset (lw_search w) ''__filter'' JNull else lw_search w)\<rparr>)"

definition replace_first :: "string \<Rightarrow> string \<Rightarrow> string \<Rightarrow> string" where
  "replace_first p r s =
     (case index_of p s of None \<Rightarrow> s | Some i \<Rightarrow> take i s @ r @ drop (i + length p) s)"

definition printUrl :: string where "printUrl = ''/print''"

definition excelUrl :: string where "excelUrl = ''/excel''"

definition report_url :: "string \<Rightarrow> string \<Rightarrow> list_scope \<Rightarrow> string \<Rightarrow> string" where
  "report_url absUrl url s kind =
     (if truthy (lc_container s)
      then replace_first (CHR ''#'' # url)
             (to_str (lc_node s) @ ''/'' @ to_str (lc_container s) @ ''/'' @ to_str (lc_collection s) @ kind) absUrl
      else replace_first (CHR ''#'' # url) (to_str (lc_node s) @ printUrl) absUrl)"

definition report_fields :: "jsobj \<Rightarrow> (string \<times> string) list" where
  "report_fields search =
     map (\<lambda>(nm, v). (nm, to_str v))
       (filter (\<lambda>(nm, v). nm \<noteq> ''__node'' \<and> nm \<noteq> ''__container'' \<and> nm \<noteq> ''__collection'') search)"

definition list_report :: "string \<Rightarrow> string \<Rightarrow> string \<Rightarrow> list_world \<Rightarrow> string \<times> (string \<times> string) list" where
  "list_report kind absUrl url w = (report_url absUrl url (lw_scope w) kind, report_fields (lw_search w))"

definition printFunc :: "string \<Rightarrow> string \<Rightarrow> list_world \<Rightarrow> string \<times> (string \<times> string) list" where
  "printFunc = list_report printUrl"

definition excelFunc :: "string \<Rightarrow> string \<Rightarrow> list_world \<Rightarrow> string \<times> (string \<times> string) list" where
  "excelFunc = list_report excelUrl"

section \<open>The details controller\<close>

record details_scope =
  dc_item :: jsval
  dc_model :: "vm_tab list option"
  dc_currentTab :: "nat option"

definition collapseTab :: "nat \<Rightarrow> details_scope \<Rightarrow> details_scope" where
  "collapseTab index s =
     s\<lparr>dc_currentTab := (if dc_currentTab s = Some index then None else Some index)\<rparr>"

definition details_watch :: "mtpl_info \<Rightarrow> jsval \<Rightarrow> details_scope \<Rightarrow> (string \<times> jsobj) option res \<times> details_scope" where
  "details_watch mi newItem s =
     (let s1 = s\<lparr>dc_item := newItem, dc_model := None\<rparr>
      in case newItem of
           JObj it \<Rightarrow>
             if it = [] then (Inr None, s1)
             else (rbind (item_key '':'' it) (\<lambda>k. Inr (Some (''spa/details'',
                     cleanParams [(''__type'', JStr ''detail''), (''__node'', JStr (mi_node mi)), (''__id'', JStr k)]))), s1)
         | _ \<Rightarrow> (Inr None, s1))"

definition details_reply :: "vm_tab list option \<Rightarrow> details_scope \<Rightarrow> details_scope" where
  "details_reply vm s = s\<lparr>dc_model := map_option process_short_tabs vm\<rparr>"

section \<open>Lemmas\<close>

definition shown_items :: "list_world \<Rightarrow> jsval list" where
  "shown_items w = (case lw_list w of None \<Rightarrow> [] | Some xs \<Rightarrow> xs)"

lemma checked_names_set:
  "wf_obj d \<Longrightarrow> set (checked_names d) = {k. oget d k = JBool True}"
proof (induction d)
  case Nil
  then show ?case by (simp add: checked_names_def)
next
  case (Cons p d)
  obtain k v where p: "p = (k, v)" by (cases p)
  with Cons.prems have "k \<notin> set (onames d)" "wf_obj d" by (auto simp: wf_obj_def)
  then have "oget d k = JUndef" by (simp add: oget_absent)
  with Cons.IH [OF \<open>wf_obj d\<close>] p show ?case by (auto simp: checked_names_def)
qed

lemma foldl_oset_get:
  "oget (foldl (\<lambda>d k. oset d k v) d ks) k = (if k \<in> set ks then v else oget d k)"
  by (induction ks arbitrary: d) auto

lemma foldl_oset_wf: "wf_obj d \<Longrightarrow> wf_obj (foldl (\<lambda>d k. oset d k v) d ks)"
  by (induction ks arbitrary: d) auto

lemma rmap_result: "rmap f xs = Inr ys \<Longrightarrow> map f xs = map Inr ys"
proof (induction xs arbitrary: ys)
  case (Cons x xs)
  then show ?case by (cases "f x"; cases "rmap f xs") auto
qed simp

lemma bulk_delete:
  assumes "lw_list w = Some xs" "\<And>x. x \<in> set xs \<Longrightarrow> at_key x = Inr (f x)"
    and "br_deleteList r = Some ks" "br_refreshList r = []"
  shows "\<exists>w'. bulk_reply r w =
        Inr ([itemslist_request (lw_scope w') (length (filter (\<lambda>x. f x \<notin> set ks) xs))], 0, w') \<and>
      lw_list w' = Some (filter (\<lambda>x. f x \<notin> set ks) xs) \<and>
      lc_itemsToDelete (lw_scope w') = [] \<and> lc_detailItem (lw_scope w') = lc_detailItem (lw_scope w) \<and>
      lc_page (lw_scope w') = lc_page (lw_scope w) \<and> lc_pageSize (lw_scope w') = lc_pageSize (lw_scope w)"
  using list_del.del_filter [of xs f ks] assms
  by (auto simp: bulk_reply_def follow_redirect_def itemslist_request_def Let_def)

lemma oset_same: "oget o' n = v \<Longrightarrow> v \<noteq> JUndef \<Longrightarrow> oset o' n v = o'"
  by (induction o') (auto split: if_splits)

lemma truthy_loose_eq: "truthy v \<Longrightarrow> loose_eq v v"
  by (cases v) (simp_all add: num_eq_def)

text \<open>What a refresh writes into the location, which a second one finds complete.\<close>

definition filled :: "jsobj \<Rightarrow> jsobj" where
  "filled v =
     set_default ''__page'' (if truthy (oget v ''__page'') then oget v ''__page'' else JNum 1)
       (if truthy (oget v ''__node'') then v else oset v ''__node'' (JStr (to_str (oget v ''__node''))))"

lemma refresh_scope:
  assumes "refreshList dec settings v w = (Inr rqs, w1)"
  shows "lc_node (lw_scope w1) = JStr (to_str (oget v ''__node'')) \<and> lc_container (lw_scope w1) = oget v ''__container'' \<and>
    lc_collection (lw_scope w1) = oget v ''__collection'' \<and>
    lc_page (lw_scope w1) = (if truthy (oget v ''__page'') then oget v ''__page'' else JNum 1) \<and>
    rqs = [(ls_listUrl settings, cleanParams (lw_search w1)), (ls_vmUrl settings, cleanParams (lw_search w1)),
      (ls_listInfoUrl settings, lw_search w1)] \<and>
    lw_search w1 = list_getRequestObject (lw_scope w1) v \<and> lw_path w1 = lw_path w \<and>
    (truthy (oget v ''__sorting'') \<longrightarrow> loose_eq (oget v ''__sorting'') (lc_sortEncoded (lw_scope w1)))"
proof (cases "truthy (oget v ''__sorting'') \<and> \<not> loose_eq (oget v ''__sorting'') (lc_sortEncoded (lw_scope w))")
  case True
  then have t: "truthy (oget v ''__sorting'')" "\<not> loose_eq (oget v ''__sorting'') (lc_sortEncoded (lw_scope w))" by simp_all
  with assms obtain p d where d: "dec (oget v ''__sorting'') = Inr (p, d)"
    by (cases "dec (oget v ''__sorting'')") (simp_all add: refreshList_def Let_def split_paired_all)
  from t d assms truthy_loose_eq [OF t(1)] show ?thesis
    unfolding refreshList_def Let_def by (simp del: truthy.simps) (auto simp del: truthy.simps)
next
  case False
  then have f: "truthy (oget v ''__sorting'') \<longrightarrow> loose_eq (oget v ''__sorting'') (lc_sortEncoded (lw_scope w))" by simp
  show ?thesis
  proof (cases "truthy (oget v ''__sorting'')")
    case True
    with f assms show ?thesis unfolding refreshList_def Let_def by auto
  next
    case False
    with assms show ?thesis unfolding refreshList_def Let_def by auto
  qed
qed

lemma refresh_fills:
  assumes "refreshList dec settings v w = (Inr rqs, w1)"
  shows "lw_search w1 = filled v"
proof -
  note r = refresh_scope [OF assms]
  then have "lw_search w1 = list_getRequestObject (lw_scope w1) v" by blast
  also have "\<dots> = filled v"
    using r by (auto simp: list_getRequestObject_def filled_def set_default_def)
  finally show ?thesis .
qed

lemma refresh_without_decoding:
  assumes "truthy (oget v ''__sorting'') \<Longrightarrow> loose_eq (oget v ''__sorting'') (lc_sortEncoded (lw_scope w))"
  shows "\<exists>rqs w1. refreshList dec settings v w = (Inr rqs, w1)"
proof (cases "truthy (oget v ''__sorting'')")
  case True
  with assms have "loose_eq (oget v ''__sorting'') (lc_sortEncoded (lw_scope w))" by blast
  then show ?thesis by (simp add: refreshList_def Let_def)
qed (simp add: refreshList_def Let_def)

lemma filled_twice: "oget v ''__node'' \<noteq> JUndef \<Longrightarrow> filled (filled v) = filled v"
  by (auto simp: filled_def set_default_def oset_same)

lemma filled_get: "n \<notin> {''__page'', ''__node''} \<Longrightarrow> oget (filled v) n = oget v n"
  by (simp add: filled_def set_default_def)

lemma second_watch_settles:
  assumes "list_watch dec settings w = (Inr rqs, w1)" "rqs \<noteq> []"
  shows "\<exists>w2. list_watch dec settings w1 = (Inr rqs, w2) \<and> lw_search w2 = lw_search w1"
proof -
  from assms have g: "lw_path w = ls_locationPathPrefix settings" "oget (lw_search w) ''__node'' \<noteq> JUndef"
    and r: "refreshList dec settings (lw_search w) w = (Inr rqs, w1)"
    by (auto simp: list_watch_def split: if_splits)
  note f = refresh_fills [OF r] and sc = refresh_scope [OF r]
  have n: "oget (lw_search w1) ''__node'' \<noteq> JUndef"
    using g(2) by (auto simp: f filled_def set_default_def)
  have "oget (lw_search w1) ''__sorting'' = oget (lw_search w) ''__sorting''" unfolding f by (rule filled_get) simp
  with sc have "truthy (oget (lw_search w1) ''__sorting'') \<Longrightarrow>
      loose_eq (oget (lw_search w1) ''__sorting'') (lc_sortEncoded (lw_scope w1))" by simp
  from refresh_without_decoding [of "lw_search w1" w1 dec settings, OF this] obtain rqs2 w2
    where r2: "refreshList dec settings (lw_search w1) w1 = (Inr rqs2, w2)" by blast
  have s2: "lw_search w2 = lw_search w1" using refresh_fills [OF r2] filled_twice [OF g(2)] f by simp
  moreover have "rqs2 = rqs" using refresh_scope [OF r2] sc s2 by simp
  moreover have "lw_path w1 = lw_path w" using sc by blast
  ultimately show ?thesis using r2 n g(1) by (simp add: list_watch_def)
qed

text \<open>
  A list opened without the number of a page is requested twice: the first run of the watcher writes
  the number 1 into the location, and its next run takes this for a change.
\<close>

lemma list_requested_twice:
  assumes "list_watch dec settings w = (Inr rqs, w1)" "rqs \<noteq> []" "lw_search w \<noteq> seen"
    and "\<not> truthy (oget (lw_search w) ''__page'')"
  shows "fst (location_watch dec settings seen w) = rqs @ rqs"
proof -
  from assms(1,2) have "refreshList dec settings (lw_search w) w = (Inr rqs, w1)"
    by (auto simp: list_watch_def split: if_splits)
  from refresh_fills [OF this] have "oget (lw_search w1) ''__page'' = JNum 1"
    using assms(4) by (simp add: filled_def set_default_def)
  with assms(4) have "lw_search w1 \<noteq> lw_search w" by auto
  with assms(1,3) second_watch_settles [OF assms(1,2)] show ?thesis
    by (auto simp: location_watch_def sent_by_def)
qed

section \<open>Properties\<close>

text \<open>
  C24: after a bulk action the items that the server deleted are gone from the list, the others
  keep their order, and the request for the items that move up counts exactly the items that
  are left; their answer is appended.
\<close>

theorem bulk_delete_tops_up:
  assumes "lw_list w = Some xs" "\<And>x. x \<in> set xs \<Longrightarrow> at_key x = Inr (f x)"
    and "br_deleteList r = Some ks" "br_refreshList r = []"
  shows "\<exists>w'. bulk_reply r w =
        Inr ([itemslist_request (lw_scope w') (length (filter (\<lambda>x. f x \<notin> set ks) xs))], 0, w') \<and>
      lw_list w' = Some (filter (\<lambda>x. f x \<notin> set ks) xs) \<and> getCheckedIds (lw_scope w') =
        (if truthy (lc_detailItem (lw_scope w))
         then rbind (at_key (lc_detailItem (lw_scope w))) (\<lambda>k. Inr [k]) else Inr []) \<and>
      map_option shown_items (case itemslist_reply (Some ys) w' of Inr w'' \<Rightarrow> Some w'' | Inl _ \<Rightarrow> None) =
        Some (filter (\<lambda>x. f x \<notin> set ks) xs @ ys)"
proof -
  obtain w' where "bulk_reply r w =
        Inr ([itemslist_request (lw_scope w') (length (filter (\<lambda>x. f x \<notin> set ks) xs))], 0, w')"
    "lw_list w' = Some (filter (\<lambda>x. f x \<notin> set ks) xs)"
    "lc_itemsToDelete (lw_scope w') = []" "lc_detailItem (lw_scope w') = lc_detailItem (lw_scope w)"
    using bulk_delete [of w xs f r ks] assms by blast
  then show ?thesis
    by (intro exI [of _ w']) (simp add: itemslist_reply_def shown_items_def getCheckedIds_def checked_names_def)
qed

definition sample_list :: "jsval list \<Rightarrow> list_world" where
  "sample_list xs =
     \<lparr>lw_scope = (init_list_scope (mtplInfoFactory None None 0 0 0) JNull (Some xs))\<lparr>lc_deldlg := True\<rparr>,
      lw_item = JNull, lw_list = Some xs, lw_mtpl = mtplInfoFactory None None 0 0 0,
      lw_path = ''/list'', lw_search = [(''__node'', JStr ''n'')], lw_url = []\<rparr>"

theorem bulk_delete_tops_up_witness:
  "\<exists>rqs w'. bulk_reply \<lparr>br_deleteList = Some [''A@1''], br_refreshList = [], br_redirect = JUndef\<rparr>
       (sample_list [JObj (mk_item ''A'' ''1'' []), JObj (mk_item ''A'' ''2'' [])]) = Inr (rqs, 0, w') \<and>
     lw_list w' = Some [JObj (mk_item ''A'' ''2'' [])]"
proof -
  let ?xs = "[JObj (mk_item ''A'' ''1'' []), JObj (mk_item ''A'' ''2'' [])]"
  have "\<And>x. x \<in> set ?xs \<Longrightarrow> at_key x = Inr (projr (at_key x))" by auto
  from bulk_delete_tops_up [where w = "sample_list ?xs" and ks = "[''A@1'']" and ys = "[]"
      and r = "\<lparr>br_deleteList = Some [''A@1''], br_refreshList = [], br_redirect = JUndef\<rparr>", OF _ this]
  show ?thesis by (auto simp: sample_list_def)
qed

text \<open>
  removing from a collection never refills the page: the request it makes goes to an
  undefined address, and the request after it counts the items shown before the removal, so of
  a page the server has it asks only for what lies behind them.
\<close>

theorem remove_does_not_refill:
  assumes "lw_list w = Some xs" "lc_list (lw_scope w) = Some xs"
    and "\<And>x. x \<in> set xs \<Longrightarrow> at_key x = Inr (f x)"
  shows "(\<exists>w'. remove_reply ks w = Inr (itemslist_request (lw_scope w) (length xs), w') \<and>
      lw_list w' = Some (filter (\<lambda>x. f x \<notin> set ks) xs) \<and>
      (\<forall>page. length page = length xs \<longrightarrow>
         itemslist_reply (Some (drop (length xs) page)) w' = Inr w')) \<and>
    (\<forall>url rq. removeFunc (getSettings kind) w = Inr (Some (url, rq)) \<longrightarrow> url = None)"
proof (rule conjI)
  show "\<exists>w'. remove_reply ks w = Inr (itemslist_request (lw_scope w) (length xs), w') \<and>
      lw_list w' = Some (filter (\<lambda>x. f x \<notin> set ks) xs) \<and>
      (\<forall>page. length page = length xs \<longrightarrow>
         itemslist_reply (Some (drop (length xs) page)) w' = Inr w')"
    using list_del.del_filter [of xs f ks] assms
    by (simp add: remove_reply_def itemslist_reply_def)
  show "\<forall>url rq. removeFunc (getSettings kind) w = Inr (Some (url, rq)) \<longrightarrow> url = None"
    by (cases kind)
      (auto simp: removeFunc_def rbind_def Let_def split: sum.splits if_splits)
qed

theorem remove_does_not_refill_witness:
  "\<exists>w'. remove_reply [''A@1''] (sample_list [JObj (mk_item ''A'' ''1'' []), JObj (mk_item ''A'' ''2'' [])]) =
     Inr (itemslist_request (lw_scope (sample_list [JObj (mk_item ''A'' ''1'' []), JObj (mk_item ''A'' ''2'' [])])) 2, w')"
proof -
  let ?xs = "[JObj (mk_item ''A'' ''1'' []), JObj (mk_item ''A'' ''2'' [])]"
  have "\<And>x. x \<in> set ?xs \<Longrightarrow> at_key x = Inr (projr (at_key x))" by auto
  from remove_does_not_refill [where w = "sample_list ?xs" and ks = "[''A@1'']" and kind = Collection_List, OF _ _ this]
  show ?thesis by (auto simp: sample_list_def init_list_scope_def numeral_2_eq_2)
qed

text \<open>
  once a list is refreshed its details object is empty but not null, and an empty object
  counts as a selection: with nothing checked the buttons to open and to delete are enabled,
  and a bulk action, like the removal, fails with a type error.
\<close>

theorem refreshed_list_has_phantom_selection:
  assumes "refreshList dec settings newVal w = (Inr rqs, w1)"
    and "checked_names (lc_itemsToDelete (lw_scope w)) = []" "lc_deldlg (lw_scope w)"
  shows "\<not> openIsDisabled (lw_scope (digest w1)) \<and> \<not> deleteIsDisabled (lw_scope (digest w1)) \<and>
    getCheckedIds (lw_scope (digest w1)) = Inl TypeError \<and>
    removeFunc settings (digest w1) = Inl TypeError"
proof -
  have "lw_item w1 = JObj [] \<and> lc_itemsToDelete (lw_scope w1) = lc_itemsToDelete (lw_scope w) \<and>
      lc_deldlg (lw_scope w1) = lc_deldlg (lw_scope w)"
    using assms(1) by (auto simp: refreshList_def Let_def split: if_splits sum.splits)
  moreover have "at_key (JObj []) = Inl TypeError" by (simp add: item_key_fails has_info_def)
  ultimately show ?thesis
    using assms(2,3)
    by (simp add: digest_def openIsDisabled_def deleteIsDisabled_def getCheckedIds_def removeFunc_def
        del: at_key.simps)
qed

theorem refreshed_list_has_phantom_selection_witness:
  "\<exists>w1. getCheckedIds (lw_scope (digest w1)) = Inl TypeError"
proof -
  let ?w = "sample_list []"
  obtain rqs w1 where "refreshList (\<lambda>_. Inl TypeError) (getSettings Plain_List) (lw_search ?w) ?w = (Inr rqs, w1)"
    by (simp add: refreshList_def sample_list_def Let_def)
  from refreshed_list_has_phantom_selection [OF this] show ?thesis
    by (auto simp: sample_list_def init_list_scope_def checked_names_def)
qed

text \<open>
  an item refreshed after a bulk action is not replaced: the answers are written behind
  the end of the list, so the list keeps the stale item and ends with the refreshed one.
\<close>

theorem bulk_refresh_appends:
  assumes "bulk_reply r w = Inr (rqs, i, w')" "lw_list w' = Some xs" "br_refreshList r \<noteq> []"
    and "truthy data"
  shows "\<exists>w''. refresh_reply i data w' = Inr w'' \<and> lw_list w'' = Some (xs @ [data])"
proof -
  have "i = length xs"
  proof (cases "br_deleteList r")
    case None
    with assms(1-3) show ?thesis
      by (cases "lw_list w"; cases "refresh_requests ((lw_scope w)\<lparr>lc_itemsToDelete := []\<rparr>)
            (br_refreshList r) (the (lw_list w))")
        (auto simp: bulk_reply_def follow_redirect_def Let_def split: if_splits)
  next
    case (Some ks)
    show ?thesis
    proof (cases "lw_list w")
      case None
      with assms(1) Some show ?thesis by (simp add: bulk_reply_def)
    next
      case (Some ys)
      show ?thesis
      proof (cases "deleteFromList ys ks")
        case (Inl e)
        with Some assms(1) \<open>br_deleteList r = Some ks\<close> show ?thesis by (simp add: bulk_reply_def)
      next
        case (Inr zs)
        with Some assms(1-3) \<open>br_deleteList r = Some ks\<close> show ?thesis
          by (cases "refresh_requests ((lw_scope w)\<lparr>lc_itemsToDelete := []\<rparr>) (br_refreshList r) zs")
            (auto simp: bulk_reply_def follow_redirect_def Let_def split: if_splits)
      qed
    qed
  qed
  with assms(2,4) show ?thesis by (simp add: refresh_reply_def array_set_end)
qed

theorem bulk_refresh_appends_witness:
  "\<exists>rqs i w' w''. bulk_reply \<lparr>br_deleteList = None, br_refreshList = [''One''], br_redirect = JUndef\<rparr>
       (sample_list [JObj (mk_item ''A'' ''1'' [(''itemToString'', JStr ''One'')])]) = Inr (rqs, i, w') \<and>
     refresh_reply i (JObj (mk_item ''A'' ''1'' [])) w' = Inr w'' \<and> length (the (lw_list w'')) = 2"
proof -
  let ?it = "JObj (mk_item ''A'' ''1'' [(''itemToString'', JStr ''One'')])"
  let ?r = "\<lparr>br_deleteList = None, br_refreshList = [''One''], br_redirect = JUndef\<rparr>"
  obtain rqs i w' where b: "bulk_reply ?r (sample_list [?it]) = Inr (rqs, i, w')" "lw_list w' = Some [?it]"
    by (simp add: bulk_reply_def sample_list_def refresh_requests_def mk_item_def contains_def
        item_key_def item_info_def arr_at_def follow_redirect_def)
  from bulk_refresh_appends [OF b, of "JObj (mk_item ''A'' ''1'' [])"] b show ?thesis by fastforce
qed

text \<open>
  sorting by a column and following the location that results keeps the sorting; sorting by
  the same column again reverses it; and another page that follows that location decodes the
  same sorting, for any coding of the sorting that can be decoded.
\<close>

theorem sorting_roundtrip:
  assumes "\<And>q d. dec (JStr (enc (JStr q, d))) = Inr (JStr q, d)" "\<And>x. enc x \<noteq> []"
    and "w1 = changeSorting enc True (JStr p) w"
    and "refreshList dec settings (lw_search w1) w1 = (r1, w2)"
    and "refreshList dec settings (lw_search w1) w0 = (r0, w0')"
    and "lc_sortEncoded (lw_scope w0) = JNull"
    and "lc_sortProperty (lw_scope w) = JNull \<or> (\<exists>q. lc_sortProperty (lw_scope w) = JStr q)"
  shows "lc_sortProperty (lw_scope w2) = JStr p \<and> lc_sortDesc (lw_scope w2) = lc_sortDesc (lw_scope w1) \<and>
    lc_sortDesc (lw_scope (changeSorting enc True (JStr p) w2)) = (\<not> lc_sortDesc (lw_scope w2)) \<and>
    lc_sortProperty (lw_scope w0') = JStr p \<and> lc_sortDesc (lw_scope w0') = lc_sortDesc (lw_scope w2)"
proof -
  have s1: "lc_sortProperty (lw_scope w1) = JStr p"
      "lc_sortEncoded (lw_scope w1) = JStr (enc (lc_sortProperty (lw_scope w1), lc_sortDesc (lw_scope w1)))"
      "oget (lw_search w1) ''__sorting'' = lc_sortEncoded (lw_scope w1)"
    unfolding assms(3) using assms(7) by (auto simp: changeSorting_def Let_def)
  then have s2: "lc_sortProperty (lw_scope w2) = JStr p"
      "lc_sortDesc (lw_scope w2) = lc_sortDesc (lw_scope w1)"
    using assms(4) by (auto simp: refreshList_def Let_def)
  have "lc_sortProperty (lw_scope w0') = JStr p" "lc_sortDesc (lw_scope w0') = lc_sortDesc (lw_scope w1)"
    using assms(1,2,5,6) s1 by (auto simp: refreshList_def Let_def)
  with s2 show ?thesis by (simp add: changeSorting_def Let_def)
qed

theorem sorting_roundtrip_witness:
  "\<exists>enc dec w2. lc_sortProperty (lw_scope w2) = JStr ''name'' \<and>
     w2 = snd (refreshList dec (getSettings Plain_List)
       (lw_search (changeSorting enc True (JStr ''name'') (sample_list []))) (changeSorting enc True (JStr ''name'') (sample_list [])))"
proof -
  let ?enc = "\<lambda>(p, d). (if d then CHR ''d'' else CHR ''a'') # to_str p"
  let ?dec = "\<lambda>v. case v of JStr (c # q) \<Rightarrow> Inr (JStr q, c = CHR ''d'') | _ \<Rightarrow> Inl TypeError"
  let ?w1 = "changeSorting ?enc True (JStr ''name'') (sample_list [])"
  obtain r1 w2 where 1: "refreshList ?dec (getSettings Plain_List) (lw_search ?w1) ?w1 = (r1, w2)" by force
  obtain r0 w0 where 0: "refreshList ?dec (getSettings Plain_List) (lw_search ?w1) (sample_list []) = (r0, w0)" by force
  have "lc_sortProperty (lw_scope w2) = JStr ''name''"
    by (rule conjunct1 [OF sorting_roundtrip [OF _ _ refl 1 0]])
      (auto simp: sample_list_def init_list_scope_def)
  with 1 show ?thesis by (metis snd_conv)
qed

text \<open>
  after "select all" the checked items are exactly the items shown, besides those checked
  before; after deselecting all, none of the items shown is checked.
\<close>

theorem selectAll_checks_shown:
  assumes "lc_list (lw_scope w) = Some xs" "\<And>x. x \<in> set xs \<Longrightarrow> at_key x = Inr (f x)"
    and "wf_obj (lc_itemsToDelete (lw_scope w))"
  shows "\<exists>w'. selectAll_change w = Inr w' \<and>
    set (checked_names (lc_itemsToDelete (lw_scope w'))) =
      (if lc_selectAll (lw_scope w)
       then set (checked_names (lc_itemsToDelete (lw_scope w))) \<union> f ` set xs
       else set (checked_names (lc_itemsToDelete (lw_scope w))) - f ` set xs)"
proof -
  have "rmap at_key xs = Inr (map f xs)" using assms(2) by (rule rmap_Inr)
  with assms(1,3) show ?thesis
    by (auto simp: selectAll_change_def checked_names_set foldl_oset_wf foldl_oset_get)
qed

theorem selectAll_checks_shown_witness:
  "\<exists>w'. selectAll_change (sample_list [JObj (mk_item ''A'' ''1'' [])]) = Inr w'"
proof -
  have "\<And>x. x \<in> set [JObj (mk_item ''A'' ''1'' [])] \<Longrightarrow> at_key x = Inr (projr (at_key x))" by auto
  from selectAll_checks_shown [where w = "sample_list [JObj (mk_item ''A'' ''1'' [])]", OF _ this]
  show ?thesis by (auto simp: sample_list_def init_list_scope_def)
qed

text \<open>
  in a list the report for Excel is sent to the address of the printed report; only in a
  collection does the address depend on the report asked for.
\<close>

theorem excel_report_prints:
  "(excelFunc absUrl url w = printFunc absUrl url w) =
     (truthy (lc_container (lw_scope w)) = False \<or> contains (CHR ''#'' # url) absUrl = False)"
  by (auto simp: excelFunc_def printFunc_def list_report_def report_url_def replace_first_def
      printUrl_def excelUrl_def contains_def split: option.splits)

end
