(* ===== verification/Form_Collection.thy ===== *)
theory Form_Collection
  imports Form_Fields List_Controller
begin

text \<open>
  The collection of an item as a field of its form (\<open>ionFormCollectionDirective\<close> of
  \<open>ion-ng-formfield.js\<close>).  Its elements are compared by reference (\<open>indexOf(scope.chosenItem)\<close>), so
  they live in a store; an array may have holes.  The field reads the item from its own scope, which
  inherits the form's until the field assigns one to itself.
\<close>

section \<open>Markup\<close>

definition required_list :: html where
  "required_list = El ''input'' [(''type'', ''hidden''), (''ng-required'', ''isRequired(field)''), (''ng-model'', ''list'')] []"

definition prepareCollectionDirective :: "string \<Rightarrow> html list" where
  "prepareCollectionDirective mode =
     (if mode = ''LIST'' then
        [required_list,
         El ''div'' [(''ng-repeat'', ''item in item[field.property] track by $index'')]
           [El ''div'' [(''class'', ''field''), (''ng-repeat'', ''col in field.columns'')]
              [El ''div'' [(''ion-detail-field'', []), (''ion-columns'', ''field.columns'')] []]]]
      else if mode = ''TABLE'' then
        [El ''div'' [(''ng-include'', [CHR 0x27] @ ''theme/partials/collectionTable.html'' @ [CHR 0x27])] []]
      else if mode = ''LINKS'' then
        [required_list,
         El ''a'' [(''ng-repeat'', ''item in item[field.property] track by $index''),
                   (''href'', ''{{getRefUrl(item.itemInfo[0],item.itemInfo[1])}}'')] [Tx ''{{item.itemToString}}'']]
      else if mode = ''LINK'' then
        [link_to ''{{getColUrl(item.itemInfo[0],item.itemInfo[1],field.property)}}''
          [Tx (map char_of [0xD0, 0x9E, 0xD1, 0x82, 0xD0, 0xBA, 0xD1, 0x80, 0xD1, 0x8B, 0xD1, 0x82, 0xD1, 0x8C::nat])]]
      else [])"

section \<open>State\<close>

record held_item =
  ki_item :: jsobj
  ki_elems :: "nat option list option"

datatype coll_ask = Ask_Append | Ask_Create | Ask_Edit | Ask_Refresh nat

record coll_request =
  kq_ask :: coll_ask
  kq_url :: string
  kq_data :: jsobj

record coll_world =
  kw_property :: string
  kw_node :: jsval
  kw_items :: "nat \<Rightarrow> held_item"
  kw_form :: "nat option"
  kw_own :: "nat option"
  kw_elems :: "nat \<Rightarrow> jsobj"
  kw_next :: nat
  kw_chosen :: "nat option"
  kw_checked :: jsobj
  kw_showNewItem :: bool
  kw_classes :: jsval
  kw_mtpl :: mtpl_info
  kw_url :: string
  kw_asked :: "coll_request list"

text \<open>\<open>scope.item\<close> and \<open>scope.list\<close>.\<close>

definition coll_shown :: "coll_world \<Rightarrow> nat option" where
  "coll_shown w = (case kw_own w of Some x \<Rightarrow> Some x | None \<Rightarrow> kw_form w)"

definition coll_item :: "coll_world \<Rightarrow> jsobj" where
  "coll_item w = (case coll_shown w of None \<Rightarrow> [] | Some x \<Rightarrow> ki_item (kw_items w x))"

definition coll_list :: "coll_world \<Rightarrow> nat option list option" where
  "coll_list w = (case coll_shown w of None \<Rightarrow> None | Some x \<Rightarrow> ki_elems (kw_items w x))"

definition set_list :: "nat option list \<Rightarrow> coll_world \<Rightarrow> coll_world" where
  "set_list xs w =
     (case coll_shown w of
        None \<Rightarrow> w
      | Some x \<Rightarrow> w\<lparr>kw_items := (kw_items w)(x := (kw_items w x)\<lparr>ki_elems := Some xs\<rparr>)\<rparr>)"

definition new_elem :: "jsobj \<Rightarrow> coll_world \<Rightarrow> nat \<times> coll_world" where
  "new_elem it w = (kw_next w, w\<lparr>kw_elems := (kw_elems w)(kw_next w := it), kw_next := kw_next w + 1\<rparr>)"

definition elem_value :: "coll_world \<Rightarrow> nat option \<Rightarrow> jsval" where
  "elem_value w e = (case e of None \<Rightarrow> JUndef | Some r \<Rightarrow> JObj (kw_elems w r))"

definition coll_asks :: "coll_ask \<Rightarrow> string \<Rightarrow> jsobj \<Rightarrow> coll_world \<Rightarrow> coll_world" where
  "coll_asks a url data w =
     w\<lparr>kw_asked := kw_asked w @ [\<lparr>kq_ask = a, kq_url = url, kq_data = data\<rparr>]\<rparr>"

text \<open>The watcher of the item: a new item that has the collection starts the field anew.\<close>

definition collection_watch :: "coll_world \<Rightarrow> coll_world" where
  "collection_watch w =
     (if coll_list w = None then w
      else w\<lparr>kw_chosen := None, kw_showNewItem := False, kw_checked := []\<rparr>)"

definition form_item_arrives :: "nat \<Rightarrow> coll_world \<Rightarrow> coll_world" where
  "form_item_arrives x w =
     (if kw_own w = None then collection_watch (w\<lparr>kw_form := Some x\<rparr>) else w\<lparr>kw_form := Some x\<rparr>)"

section \<open>Choosing and opening\<close>

definition chooseItem :: "nat \<Rightarrow> bool \<Rightarrow> coll_world \<Rightarrow> coll_world res" where
  "chooseItem index onEditable w =
     (if onEditable then Inr w
      else case coll_list w of
             None \<Rightarrow> Inl TypeError
           | Some xs \<Rightarrow> Inr (w\<lparr>kw_chosen := (if index < length xs then xs ! index else None)\<rparr>))"

definition openChosenItem :: "coll_world \<Rightarrow> (string \<times> jsobj) option res" where
  "openChosenItem w =
     (case kw_chosen w of
        None \<Rightarrow> Inl TypeError
      | Some r \<Rightarrow>
          rbind (item_info (kw_elems w r) 0) (\<lambda>c. rbind (item_info (kw_elems w r) 1) (\<lambda>i.
            if truthy c \<and> truthy i
            then Inr (Some (''spa/create/vm'',
                   [(''__type'', JStr ''create''), (''__node'', kw_node w), (''__class'', c),
                    (''__id'', JStr (to_str c @ '':'' @ to_str i))]))
            else Inr None)))"

text \<open>The container of a new element: the item's key, where a missing id is the empty string.\<close>

definition container_key :: "coll_world \<Rightarrow> string res" where
  "container_key w = item_key_or_empty (coll_item w)"

definition create_classes_request :: "coll_world \<Rightarrow> (string \<times> jsobj) res" where
  "create_classes_request w =
     rbind (container_key w) (\<lambda>k.
       Inr (''spa/creationclasses'',
            [(''__node'', kw_node w), (''__container'', JStr k), (''__collection'', JStr (kw_property w))]))"

definition create_classes_reply :: "jsval \<Rightarrow> coll_world \<Rightarrow> ref_creation res \<times> coll_world" where
  "create_classes_reply data w =
     (let w1 = w\<lparr>kw_classes := data\<rparr>
      in case data of
           JUndef \<Rightarrow> (Inr No_Classes, w1)
         | JNull \<Rightarrow> (Inl TypeError, w1)
         | JArr [c] \<Rightarrow> (rbind (vget c ''name'') (\<lambda>n. Inr (New_Item n)), w1)
         | JArr (c # d # cs) \<Rightarrow> (Inr Pick_Class, w1)
         | _ \<Rightarrow> (Inr Class_Refused, w1\<lparr>kw_mtpl := Alert ''error'' (Ru Access_Denied) (kw_mtpl w1)\<rparr>))"

definition coll_dummy_reply :: "jsval \<Rightarrow> jsobj \<Rightarrow> (string \<times> jsobj) res" where
  "coll_dummy_reply node dummy =
     rbind (item_key '':'' dummy) (\<lambda>k. rbind (item_info dummy 0) (\<lambda>c.
       Inr (''spa/create/vm'', [(''__type'', JStr ''create''), (''__node'', node), (''__class'', c), (''__id'', JStr k)])))"

section \<open>Adding, creating, editing\<close>

text \<open>
  The dialog gives the keys of the elements to add; the answer is the item with its collection, which
  becomes the item of this field.
\<close>

definition add_closed :: "jsval \<Rightarrow> coll_world \<Rightarrow> coll_world res" where
  "add_closed result w =
     (if truthy result
      then rbind (container_key w) (\<lambda>k.
             Inr (coll_asks Ask_Append ''spa/colappend''
               [(''__id'', JStr k), (''__collection'', JStr (kw_property w)), (''__node'', kw_node w), (''__items'', result)] w))
      else Inr w)"

definition append_reply :: "nat \<Rightarrow> coll_world \<Rightarrow> coll_world" where
  "append_reply x w = collection_watch (w\<lparr>kw_own := Some x\<rparr>)"

definition saveColEl :: "jsobj \<Rightarrow> coll_world \<Rightarrow> coll_world res" where
  "saveColEl item w =
     rbind (container_key w) (\<lambda>k. rbind (item_info item 0) (\<lambda>c.
       Inr (coll_asks Ask_Create ''spa/colcreate''
         (oset (oset (oset item ''__container'' (JStr k)) ''__collection'' (JStr (kw_property w))) ''__cc'' c) w)))"

definition create_reply :: "jsval \<Rightarrow> jsobj \<Rightarrow> coll_world \<Rightarrow> coll_world res" where
  "create_reply message data w =
     (if nullish message then
        (case coll_list w of
           None \<Rightarrow> Inl TypeError
         | Some xs \<Rightarrow>
             (let (r, w1) = new_elem data (w\<lparr>kw_showNewItem := False\<rparr>) in Inr (set_list (xs @ [Some r]) w1)))
      else Inr w)"

definition editColEl :: "jsobj \<Rightarrow> coll_world \<Rightarrow> coll_world" where
  "editColEl item w =
     coll_asks Ask_Edit ''spa/edit'' (oset (oset item ''__node'' (kw_node w)) ''__action'' (JStr ''SAVE'')) w"

text \<open>The answer takes the place of the element that is chosen when it comes; \<open>-1\<close> is no place.\<close>

definition edited_reply :: "jsval \<Rightarrow> jsobj option \<Rightarrow> coll_world \<Rightarrow> coll_world res" where
  "edited_reply message item w =
     (if nullish message then
        (case coll_list w of
           None \<Rightarrow> Inl TypeError
         | Some xs \<Rightarrow>
             (let (r, w1) = (case item of None \<Rightarrow> (None, w) | Some it \<Rightarrow> map_prod Some id (new_elem it w));
                  ind = (if kw_chosen w = None then length xs else length (takeWhile (\<lambda>e. e \<noteq> kw_chosen w) xs))
              in Inr (set_list (xs[ind := r]) (w1\<lparr>kw_showNewItem := False\<rparr>))))
      else Inr w)"

section \<open>Actions\<close>

definition coll_deleteFromList :: "coll_world \<Rightarrow> nat option list \<Rightarrow> string list \<Rightarrow> nat option list res" where
  "coll_deleteFromList w array data = grep_keys (\<lambda>e. at_key (elem_value w e)) data array"

interpretation coll_del: list_deletion "coll_deleteFromList w" "\<lambda>e. at_key (elem_value w e)"
  by unfold_locales (simp_all add: coll_deleteFromList_def)

record coll_action =
  ka_id :: string
  ka_bulk :: bool
  ka_needs :: bool

datatype coll_deed =
    Ask_Classes "string \<times> jsobj"
  | Open_Add_Dialog
  | Open_Element "(string \<times> jsobj) option"
  | Run_Bulk jsobj
  | Run_Other jsval
  | Nothing_To_Do

text \<open>The names of the built-in actions are looked for in one string.\<close>

definition execColAction :: "coll_action \<Rightarrow> jsobj \<Rightarrow> coll_world \<Rightarrow> coll_deed res" where
  "execColAction a search w =
     (if contains (ka_id a) ''CREATE ADD EDIT'' then
        (if ka_id a = ''CREATE'' then rbind (create_classes_request w) (\<lambda>rq. Inr (Ask_Classes rq))
         else if ka_id a = ''ADD'' then Inr Open_Add_Dialog
         else if ka_id a = ''EDIT'' then rbind (openChosenItem w) (\<lambda>rq. Inr (Open_Element rq))
         else Inl TypeError)
      else if ka_bulk a then
        (let ids = checked_names (kw_checked w)
         in if ids = [] then Inr Nothing_To_Do
            else rbind (item_key '':'' (coll_item w)) (\<lambda>k.
                   Inr (Run_Bulk [(''__container'', JStr k), (''__collection'', JStr (kw_property w)),
                                  (''ids'', JArr (map JStr ids))])))
      else
        Inr (Run_Other (case (ka_needs a, kw_chosen w) of
                          (True, Some r) \<Rightarrow> JObj (kw_elems w r) | _ \<Rightarrow> JObj search)))"

text \<open>
  The answer to a bulk action.  The loop variable of the refresh is the number of elements when the
  answers come.
\<close>

fun coll_refresh_requests :: "jsval \<Rightarrow> string list \<Rightarrow> nat \<Rightarrow> jsval list \<Rightarrow> coll_request list res" where
  "coll_refresh_requests node ids n [] = Inr []"
| "coll_refresh_requests node ids n (v # vs) =
     rbind (at_key v) (\<lambda>k. rbind (case v of JObj it \<Rightarrow> item_key '':'' it | _ \<Rightarrow> Inl TypeError) (\<lambda>i.
     rbind (coll_refresh_requests node ids n vs) (\<lambda>rqs.
       Inr (if k \<in> set ids
            then \<lparr>kq_ask = Ask_Refresh n, kq_url = ''spa/item'', kq_data = [(''__node'', node), (''__id'', JStr i)]\<rparr> # rqs
            else rqs))))"

definition coll_bulk_reply :: "string list option \<Rightarrow> string list \<Rightarrow> jsval \<Rightarrow> coll_world \<Rightarrow> coll_world res" where
  "coll_bulk_reply delList toRefresh redirect w =
     (let w0 = w\<lparr>kw_checked := []\<rparr>
      in rbind (case delList of
                  None \<Rightarrow> Inr w0
                | Some ks \<Rightarrow>
                    (case coll_list w0 of
                       None \<Rightarrow> Inl TypeError
                     | Some xs \<Rightarrow> rbind (coll_deleteFromList w0 xs ks) (\<lambda>ys. Inr (set_list ys w0)))) (\<lambda>w1.
         rbind (if toRefresh = [] then Inr []
                else case coll_list w1 of
                       None \<Rightarrow> Inl TypeError
                     | Some xs \<Rightarrow>
                         coll_refresh_requests (kw_node w1) toRefresh (length xs) (map (elem_value w1) xs)) (\<lambda>rqs.
         Inr (w1\<lparr>kw_asked := kw_asked w1 @ rqs,
                 kw_url := (if truthy redirect then to_str redirect else kw_url w1)\<rparr>))))"

definition coll_refresh_reply :: "nat \<Rightarrow> jsobj option \<Rightarrow> coll_world \<Rightarrow> coll_world res" where
  "coll_refresh_reply i data w =
     (case (data, coll_list w) of
        (None, _) \<Rightarrow> Inr w
      | (Some it, None) \<Rightarrow> Inl TypeError
      | (Some it, Some xs) \<Rightarrow>
          (let (r, w1) = new_elem it w
           in Inr (set_list (if i < length xs then xs[i := Some r]
                             else xs @ replicate (i - length xs) None @ [Some r]) w1)))"

section \<open>The list that is shown\<close>

lemma set_list_simps [simp]:
  "coll_shown (set_list ys w) = coll_shown w"
  "kw_elems (set_list ys w) = kw_elems w" "kw_next (set_list ys w) = kw_next w"
  "kw_chosen (set_list ys w) = kw_chosen w" "kw_checked (set_list ys w) = kw_checked w"
  "kw_asked (set_list ys w) = kw_asked w" "kw_url (set_list ys w) = kw_url w"
  "kw_own (set_list ys w) = kw_own w" "kw_form (set_list ys w) = kw_form w"
  by (auto simp: set_list_def coll_shown_def split: option.splits)

lemma coll_list_set: "coll_list w = Some xs \<Longrightarrow> coll_list (set_list ys w) = Some ys"
  by (auto simp: coll_list_def set_list_def coll_shown_def split: option.splits)

lemma coll_list_cong:
  "kw_own w' = kw_own w \<Longrightarrow> kw_form w' = kw_form w \<Longrightarrow> kw_items w' = kw_items w \<Longrightarrow> coll_list w' = coll_list w"
  by (simp add: coll_list_def coll_shown_def split: option.splits)

lemma coll_list_updates [simp]:
  "coll_list (w\<lparr>kw_showNewItem := b\<rparr>) = coll_list w" "coll_list (w\<lparr>kw_checked := d\<rparr>) = coll_list w"
  "coll_list (w\<lparr>kw_asked := a\<rparr>) = coll_list w" "coll_list (w\<lparr>kw_url := u\<rparr>) = coll_list w"
  "coll_list (w\<lparr>kw_elems := e\<rparr>) = coll_list w" "coll_list (w\<lparr>kw_next := n\<rparr>) = coll_list w"
  "coll_list (w\<lparr>kw_asked := a, kw_url := u\<rparr>) = coll_list w"
  by (auto intro: coll_list_cong)

lemma elem_value_cong: "kw_elems w' = kw_elems w \<Longrightarrow> elem_value w' = elem_value w"
  by (simp add: elem_value_def fun_eq_iff split: option.splits)

lemma elem_value_updates [simp]:
  "elem_value (set_list ys w) = elem_value w" "elem_value (w\<lparr>kw_checked := d\<rparr>) = elem_value w"
  "elem_value (w\<lparr>kw_asked := a, kw_url := u\<rparr>) = elem_value w" "elem_value (w\<lparr>kw_url := u\<rparr>) = elem_value w"
  by (auto intro: elem_value_cong)

lemma coll_delete_cong: "kw_elems w' = kw_elems w \<Longrightarrow> coll_deleteFromList w' = coll_deleteFromList w"
  by (simp add: coll_deleteFromList_def fun_eq_iff elem_value_cong [of w' w])

section \<open>Deleting and refreshing\<close>

lemma deletes_alike:
  "deleteFromList (map (elem_value w) xs) ks =
     (case coll_deleteFromList w xs ks of Inl e \<Rightarrow> Inl e | Inr ys \<Rightarrow> Inr (map (elem_value w) ys))"
proof (induction xs)
  case Nil
  then show ?case by (simp add: list_del.del_Nil coll_del.del_Nil)
next
  case (Cons x xs)
  then show ?case
    by (cases "at_key (elem_value w x)"; cases "coll_deleteFromList w xs ks")
      (simp_all add: list_del.del_Cons coll_del.del_Cons)
qed

text \<open>
  C19: The form's copy of bulk deletion and the one of the list do the same to the same elements:
  either both throw, with the same error, or both leave the same elements in the same order, with
  nothing ticked; but the list asks the server for the elements that move up, and the form asks for
  nothing.
\<close>

theorem form_deletes_like_list:
  assumes "coll_list w = Some xs" and "lw_list v = Some (map (elem_value w) xs)"
  shows "case (coll_bulk_reply (Some ks) [] redirect w,
               bulk_reply \<lparr>br_deleteList = Some ks, br_refreshList = [], br_redirect = redirect\<rparr> v) of
      (Inl e, Inl e') \<Rightarrow> e = e'
    | (Inr w', Inr (rqs, n, v')) \<Rightarrow>
        (\<exists>ys. coll_list w' = Some ys \<and> lw_list v' = Some (map (elem_value w') ys) \<and>
          rqs = [itemslist_request (lc_itemsToDelete_update (\<lambda>_. []) (lw_scope v)) (length ys)]) \<and>
        kw_asked w' = kw_asked w \<and> kw_checked w' = [] \<and> lc_itemsToDelete (lw_scope v') = []
    | _ \<Rightarrow> False"
proof (cases "coll_deleteFromList w xs ks")
  case (Inl e)
  then show ?thesis
    using assms coll_delete_cong [of "w\<lparr>kw_checked := []\<rparr>" w]
    by (simp add: coll_bulk_reply_def bulk_reply_def deletes_alike Let_def)
next
  case (Inr ys)
  have l: "coll_list (set_list ys (w\<lparr>kw_checked := []\<rparr>)) = Some ys"
    using assms(1) by (simp add: coll_list_set)
  show ?thesis
    using assms Inr l coll_delete_cong [of "w\<lparr>kw_checked := []\<rparr>" w]
    by (auto simp: coll_bulk_reply_def bulk_reply_def deletes_alike Let_def follow_redirect_def)
qed

definition sample_collection :: coll_world where
  "sample_collection =
     \<lparr>kw_property = ''parts'', kw_node = JStr ''n'',
      kw_items = (\<lambda>_. \<lparr>ki_item = mk_item ''doc'' ''1'' [], ki_elems = Some [Some 0, Some 1]\<rparr>),
      kw_form = Some 0, kw_own = None,
      kw_elems = (\<lambda>r. mk_item ''part'' (if r = 0 then ''a'' else ''b'') []), kw_next = 2, kw_chosen = Some 0,
      kw_checked = [(''part@a'', JBool True)], kw_showNewItem = False, kw_classes = JUndef,
      kw_mtpl = mtplInfoFactory None None 0 0 0, kw_url = [], kw_asked = []\<rparr>"

lemma sample_collection_list [simp]: "coll_list sample_collection = Some [Some 0, Some 1]"
  by (simp add: sample_collection_def coll_list_def coll_shown_def)

lemma form_deletes_like_list_witness:
  "case (coll_bulk_reply (Some [''part@a'']) [] JUndef sample_collection,
         bulk_reply \<lparr>br_deleteList = Some [''part@a''], br_refreshList = [], br_redirect = JUndef\<rparr>
           (sample_list (map (elem_value sample_collection) [Some 0, Some 1]))) of
      (Inl e, Inl e') \<Rightarrow> e = e'
    | (Inr w', Inr (rqs, n, v')) \<Rightarrow>
        (\<exists>ys. coll_list w' = Some ys \<and> lw_list v' = Some (map (elem_value w') ys) \<and>
          rqs = [itemslist_request (lc_itemsToDelete_update (\<lambda>_. [])
            (lw_scope (sample_list (map (elem_value sample_collection) [Some 0, Some 1])))) (length ys)]) \<and>
        kw_asked w' = kw_asked sample_collection \<and> kw_checked w' = [] \<and> lc_itemsToDelete (lw_scope v') = []
    | _ \<Rightarrow> False"
  by (rule form_deletes_like_list [where xs = "[Some 0, Some 1]"]) (simp_all add: sample_list_def)

lemma refresh_written:
  assumes "coll_list w = Some (xs @ ys)" "length ys \<le> 1"
  shows "\<exists>w'. coll_refresh_reply (length xs) (Some d) w = Inr w' \<and>
    coll_list w' = Some (xs @ [Some (kw_next w)]) \<and> kw_elems w' = (kw_elems w)(kw_next w := d) \<and>
    kw_next w' = kw_next w + 1"
  using assms
  by (cases ys) (auto simp: coll_refresh_reply_def new_elem_def coll_list_set)

text \<open>
  The elements that a bulk action asks to refresh are not replaced: every answer is written at
  the place behind the collection as it was when the action was answered.  So whatever the number of
  elements and the order of the answers, the collection keeps all its old elements and has, behind
  them, the one whose answer came last.
\<close>

theorem refreshed_elements_overwrite:
  assumes "coll_list w = Some xs" and "coll_bulk_reply None toRefresh redirect w = Inr w1" and "answers \<noteq> []"
  shows "(\<forall>rq \<in> set (drop (length (kw_asked w)) (kw_asked w1)). kq_ask rq = Ask_Refresh (length xs)) \<and>
    (\<exists>w2 r. foldl (\<lambda>s d. rbind s (coll_refresh_reply (length xs) (Some d))) (Inr w1) answers = Inr w2 \<and>
      coll_list w2 = Some (xs @ [Some r]) \<and> kw_elems w2 r = last answers \<and>
      (\<forall>q < kw_next w. kw_elems w2 q = kw_elems w q))"
proof -
  have n: "\<forall>rq \<in> set rqs. kq_ask rq = Ask_Refresh k"
    if "coll_refresh_requests node ids k vs = Inr rqs" for node ids k vs rqs
    using that
  proof (induction vs arbitrary: rqs)
    case (Cons v vs)
    then show ?case
      by (cases "coll_refresh_requests node ids k vs") (auto simp: rbind_def split: sum.splits if_splits)
  qed simp
  have w1: "coll_list w1 = Some xs" "kw_elems w1 = kw_elems w" "kw_next w1 = kw_next w"
    and a: "\<forall>rq \<in> set (drop (length (kw_asked w)) (kw_asked w1)). kq_ask rq = Ask_Refresh (length xs)"
    using assms(1,2) n
    by (auto simp: coll_bulk_reply_def Let_def rbind_def split: sum.splits if_splits)
  let ?run = "\<lambda>ds. foldl (\<lambda>s d. rbind s (coll_refresh_reply (length xs) (Some d))) (Inr w1) ds"
  have "\<exists>w2 r. ?run ds = Inr w2 \<and> coll_list w2 = Some (xs @ [Some r]) \<and> kw_elems w2 r = last ds \<and>
      kw_next w \<le> kw_next w2 \<and> (\<forall>q < kw_next w. kw_elems w2 q = kw_elems w q)" if "ds \<noteq> []" for ds
    using that
  proof (induction ds rule: rev_induct)
    case (snoc d ds)
    show ?case
    proof (cases "ds = []")
      case True
      then show ?thesis using refresh_written [of w1 xs "[]" d] w1 by auto
    next
      case False
      with snoc obtain w2 r where w2: "?run ds = Inr w2" "coll_list w2 = Some (xs @ [Some r])"
        "kw_next w \<le> kw_next w2" "\<forall>q < kw_next w. kw_elems w2 q = kw_elems w q" by blast
      then show ?thesis using refresh_written [of w2 xs "[Some r]" d] by auto
    qed
  qed simp
  with assms(3) a show ?thesis by blast
qed

lemma refreshed_elements_overwrite_witness:
  "\<exists>w1. coll_bulk_reply None [''part@a'', ''part@b''] JUndef sample_collection = Inr w1 \<and>
    length (kw_asked w1) = 2 \<and>
    (\<exists>w2 r. foldl (\<lambda>s d. rbind s (coll_refresh_reply 2 (Some d))) (Inr w1)
        [mk_item ''part'' ''b'' [], mk_item ''part'' ''a'' []] = Inr w2 \<and>
      coll_list w2 = Some [Some 0, Some 1, Some r] \<and> kw_elems w2 r = mk_item ''part'' ''a'' [])"
proof -
  obtain w1 where w1: "coll_bulk_reply None [''part@a'', ''part@b''] JUndef sample_collection = Inr w1"
    "length (kw_asked w1) = 2"
    by (simp add: coll_bulk_reply_def Let_def elem_value_def sample_collection_def coll_list_def coll_shown_def)
  from refreshed_elements_overwrite [OF sample_collection_list w1(1),
      of "[mk_item ''part'' ''b'' [], mk_item ''part'' ''a'' []]"] w1
  show ?thesis by (auto simp: numeral_2_eq_2)
qed

section \<open>Editing\<close>

text \<open>
  An edited element takes the place of the chosen one, and the others stay.  But the chosen
  element remains chosen, and it is no longer in the collection: a second edit, although the server
  stores it, is not shown.
\<close>

theorem second_edit_not_shown:
  assumes "coll_list w = Some xs" and "kw_chosen w = Some c" and "i < length xs" and "xs ! i = Some c"
    and "distinct xs" and "\<forall>r. Some r \<in> set xs \<longrightarrow> r < kw_next w"
  shows "\<exists>w1 r. edited_reply JNull (Some it) w = Inr w1 \<and> coll_list w1 = Some (xs[i := Some r]) \<and>
    kw_elems w1 r = it \<and> (\<forall>q < kw_next w. kw_elems w1 q = kw_elems w q) \<and>
    (\<forall>it'. \<exists>w2. edited_reply JNull (Some it') w1 = Inr w2 \<and> coll_list w2 = coll_list w1 \<and>
      (\<forall>q < kw_next w1. kw_elems w2 q = kw_elems w1 q))"
proof -
  have "xs ! j \<noteq> Some c" if "j < i" for j
    using that assms(3,4) nth_eq_iff_index_eq [OF assms(5), of j i] by simp
  then have "takeWhile (\<lambda>e. e \<noteq> Some c) xs = take i xs"
    using assms(4) by (intro takeWhile_eq_take_P_nth) auto
  with assms(3) have at: "length (takeWhile (\<lambda>e. e \<noteq> Some c) xs) = i" by simp
  let ?w1 = "set_list (xs[i := Some (kw_next w)])
    (w\<lparr>kw_elems := (kw_elems w)(kw_next w := it), kw_next := kw_next w + 1, kw_showNewItem := False\<rparr>)"
  have e: "edited_reply JNull (Some it) w = Inr ?w1"
    using assms(1,2) at by (simp add: edited_reply_def new_elem_def Let_def)
  have l: "coll_list ?w1 = Some (xs[i := Some (kw_next w)])"
    by (rule coll_list_set, rule trans [OF coll_list_cong [of _ w] assms(1)]) simp_all
  have "Some c \<notin> set (xs[i := Some (kw_next w)])"
  proof
    assume "Some c \<in> set (xs[i := Some (kw_next w)])"
    then obtain j where "j < length xs" "(xs[i := Some (kw_next w)]) ! j = Some c"
      by (auto simp: in_set_conv_nth)
    moreover have "Some c \<in> set xs" using assms(3,4) nth_mem by metis
    ultimately show False
      using assms(3,4,6) nth_eq_iff_index_eq [OF assms(5), of j i] by (cases "j = i") auto
  qed
  then have "length (takeWhile (\<lambda>e. e \<noteq> Some c) (xs[i := Some (kw_next w)])) = length xs"
    by (metis (mono_tags, lifting) takeWhile_eq_all_conv length_list_update)
  then have "\<exists>w2. edited_reply JNull (Some it') ?w1 = Inr w2 \<and> coll_list w2 = coll_list ?w1 \<and>
      (\<forall>q < kw_next ?w1. kw_elems w2 q = kw_elems ?w1 q)" for it'
    using l assms(2) by (auto simp: edited_reply_def new_elem_def Let_def coll_list_set list_update_beyond)
  with e l show ?thesis by auto
qed

lemma second_edit_not_shown_witness:
  "\<exists>w1 r. edited_reply JNull (Some (mk_item ''part'' ''a'' [(''n'', JStr ''1'')])) sample_collection = Inr w1 \<and>
    coll_list w1 = Some ([Some 0, Some 1][0 := Some r]) \<and> kw_elems w1 r = mk_item ''part'' ''a'' [(''n'', JStr ''1'')] \<and>
    (\<forall>q < kw_next sample_collection. kw_elems w1 q = kw_elems sample_collection q) \<and>
    (\<forall>it'. \<exists>w2. edited_reply JNull (Some it') w1 = Inr w2 \<and> coll_list w2 = coll_list w1 \<and>
      (\<forall>q < kw_next w1. kw_elems w2 q = kw_elems w1 q))"
  by (rule second_edit_not_shown [where c = 0]) (simp_all add: sample_collection_def coll_list_def coll_shown_def less_Suc_eq)

section \<open>The item of the field\<close>

text \<open>
  After elements have been added the field no longer follows its form: whatever items the form
  shows later, the field keeps the item of that answer, and creates and adds elements in it.
\<close>

theorem appended_field_keeps_item:
  "let w' = fold form_item_arrives later (append_reply x w)
   in coll_list w' = ki_elems (kw_items w x) \<and> container_key w' = item_key_or_empty (ki_item (kw_items w x)) \<and>
     kw_form w' = (if later = [] then kw_form w else Some (last later))"
proof -
  let ?w = "fold form_item_arrives later (append_reply x w)"
  have step: "form_item_arrives y v = v\<lparr>kw_form := Some y\<rparr>" if "kw_own v = Some x" for y v
    using that by (simp add: form_item_arrives_def)
  have later: "fold form_item_arrives ys v =
      v\<lparr>kw_form := (if ys = [] then kw_form v else Some (last ys))\<rparr>" if "kw_own v = Some x" for ys v
    using that by (induction ys arbitrary: v) (simp_all add: step)
  have v: "kw_own (append_reply x w) = Some x" "kw_items (append_reply x w) = kw_items w"
    "kw_form (append_reply x w) = kw_form w"
    by (simp_all add: append_reply_def collection_watch_def)
  then have "kw_own ?w = Some x" "kw_items ?w = kw_items w"
    "kw_form ?w = (if later = [] then kw_form w else Some (last later))"
    by (simp_all add: later)
  then show ?thesis
    by (simp add: coll_list_def coll_shown_def container_key_def coll_item_def Let_def)
qed

section \<open>Actions by name\<close>

text \<open>Editing with nothing chosen throws; so does an action whose name is a part of the built-in names.\<close>

lemma edit_without_choice_throws:
  "kw_chosen w = None \<Longrightarrow> execColAction \<lparr>ka_id = ''EDIT'', ka_bulk = b, ka_needs = n\<rparr> search w = Inl TypeError"
  by (simp add: execColAction_def openChosenItem_def contains_def)

lemma action_name_inside_others_throws:
  "execColAction \<lparr>ka_id = ''CREATE ADD'', ka_bulk = b, ka_needs = n\<rparr> search w = Inl TypeError"
  "execColAction \<lparr>ka_id = ''EDIT'', ka_bulk = True, ka_needs = n\<rparr> search w =
    rbind (openChosenItem w) (\<lambda>rq. Inr (Open_Element rq))"
  by (simp_all add: execColAction_def contains_def)

end
