(* ===== verification/Col_Field.thy ===== *)
theory Col_Field
  imports Cell_Templates Run_Interface
begin

text \<open>
  The fields of the row in which a new element of a collection is entered
  (\<open>ion-ng-collectionfield.js\<close>).  The row's element is \<open>newItem\<close>; its formatted text is in
  \<open>Popup_Editors\<close>.
\<close>

section \<open>Markup\<close>

definition new_value :: string where
  "new_value = ''newItem[col.property]''"

definition new_choices :: "(string \<times> string) list" where
  "new_choices = [(''ng-model'', new_value), (''ng-options'', ''v as n for (v,n) in newItem[col.property+'__sel']'')]"

definition col_text_markup :: "bool \<Rightarrow> bool \<Rightarrow> html" where
  "col_text_markup selection nullable =
     (if \<not> selection then
        sp ''editable'' [El ''input'' [(''type'', ''text''), (''ng-model'', new_value), (''class'', ''text editable-input'')] []]
      else
        sp ''editable''
          [El ''select'' (new_choices @ [(''class'', ''editable-input'')])
             (if nullable then [El ''option'' [(''value'', [])] [Tx [CHR 0xD0, CHR 0xBD, CHR 0xD0, CHR 0xB5, CHR 0xD1, CHR 0x82]]]
              else [])])"

definition col_wysiwyg_template :: html where
  "col_wysiwyg_template =
     El ''span'' []
       [El ''span'' [(''class'', ''editable-field inactive value''), (''ng-click'', ''setEditable($event)'')]
          [El ''div'' [(''class'', ''editable-input''), (''ng-bind-html'', new_value)] []]]"

definition col_file_template :: html where
  "col_file_template = El ''span'' [] [El ''input'' [(''type'', ''file''), (''class'', ''open-file''), (''name'', [])] []]"

definition col_number_markup :: "string \<Rightarrow> html" where
  "col_number_markup step =
     El ''span'' []
       [El ''input'' [(''type'', ''number''), (''step'', step), (''class'', ''text editable-input''), (''ng-model'', new_value)] []]"

definition col_date_template :: html where
  "col_date_template =
     El ''span'' []
       [El ''input'' [(''ui-date'', ''dateOptions''), (''ui-date-format'', ''{{dateFormat}}''), (''type'', ''text''),
                      (''class'', ''text editable-input''), (''ng-model'', new_value)] []]"

definition col_checkbox_template :: html where
  "col_checkbox_template =
     El ''span'' [] [El ''input'' [(''type'', ''checkbox''), (''class'', ''bool-input''), (''ng-model'', new_value)] []]"

definition col_reference_template :: html where
  "col_reference_template = El ''span'' [] [El ''select'' (new_choices @ [(''class'', ''input-field'')]) []]"

definition new_ref :: string where
  "new_ref = ''newItem[col.property+'__ref']''"

definition col_paginated_template :: html where
  "col_paginated_template =
     El ''span'' []
       [sp ''ref-value'' [link_to (''{{getRefUrl('' @ new_ref @ ''[0],'' @ new_ref @ ''[1])}}'') [Tx (''{{'' @ new_ref @ ''[2]}}'')]],
        El ''button'' [(''type'', ''button''), (''class'', ''icon-button''), (''ng-click'', ''selectRefItem()'')] [Tx ''...'']]"

text \<open>The link ends with the word for \<^emph>\<open>elements\<close>.\<close>

definition col_collection_template :: html where
  "col_collection_template =
     El ''span'' []
       [link_to ''#/{{node}}/collection/{{newItem.itemInfo[0]}}:{{newItem.itemInfo[1]}}/{{col.property}}''
          [Tx ('' {{newItem[col.property].length}} '' @ map char_of
             [0xD1, 0x8D, 0xD0, 0xBB, 0xD0, 0xB5, 0xD0, 0xBC, 0xD0, 0xB5, 0xD0, 0xBD, 0xD1, 0x82, 0xD0, 0xBE, 0xD0, 0xB2::nat])]]"

text \<open>
  \<open>ionColFieldDirective\<close>: the directive for the type of the column.  The text directive looks for the
  choices once, in the row's element as it is when the row is drawn.
\<close>

definition col_field_directive :: "column \<Rightarrow> string \<times> string option" where
  "col_field_directive col =
     (if co_type col = ''WYSIWYG'' then (''ion-col-wysiwyg'', None)
      else if co_type col = ''FILE'' then (''ion-col-file'', None)
      else if co_type col = ''IMAGE'' then (''ion-col-file'', None)
      else if co_type col = ''NUMBER_PICKER'' then (''ion-col-number'', Some ''1'')
      else if co_type col = ''DECIMAL_EDITOR'' then (''ion-col-number'', Some ''0.1'')
      else if co_type col = ''DATETIME_PICKER'' then (''ion-col-date'', None)
      else if co_type col = ''CHECKBOX'' then (''ion-col-checkbox'', None)
      else if co_type col = ''REFERENCE'' then
        (if co_paginated col then (''ion-col-reference-paginated'', None) else (''ion-col-reference'', None))
      else if co_type col = ''COLLECTION'' then (''ion-col-collection'', None)
      else (''ion-col-text'', None))"

definition col_text_drawn :: "column \<Rightarrow> jsobj \<Rightarrow> html" where
  "col_text_drawn col newItem =
     col_text_markup (oget newItem (co_property col @ ''__sel'') \<noteq> JUndef) (\<not> co_required col)"

definition col_field_drawn :: "column \<Rightarrow> jsobj \<Rightarrow> html" where
  "col_field_drawn col newItem =
     (case col_field_directive col of (d, st) \<Rightarrow>
        if d = ''ion-col-wysiwyg'' then col_wysiwyg_template
        else if d = ''ion-col-file'' then col_file_template
        else if d = ''ion-col-number'' then col_number_markup (case st of Some s \<Rightarrow> s | None \<Rightarrow> ''undefined'')
        else if d = ''ion-col-date'' then col_date_template
        else if d = ''ion-col-checkbox'' then col_checkbox_template
        else if d = ''ion-col-reference-paginated'' then col_paginated_template
        else if d = ''ion-col-reference'' then col_reference_template
        else if d = ''ion-col-collection'' then col_collection_template
        else col_text_drawn col newItem)"

text \<open>The keys of the inputs: Enter and Escape are announced while the row is shown.\<close>

definition col_keydown :: "bool \<Rightarrow> int \<Rightarrow> string option" where
  "col_keydown showNewItem keyCode =
     (if showNewItem then
        (if keyCode = 13 then Some ''enterDown'' else if keyCode = 27 then Some ''escDown'' else None)
      else None)"

section \<open>Choosing a reference\<close>

text \<open>
  \<open>selectRefItem\<close> hangs a handler for the next close on the dialog that all fields share, and opens
  it; opening clears the dialog's result.  On its close the handlers run in turn, each once; one that
  throws keeps the later ones from running.
\<close>

record new_row =
  nr_newItem :: jsobj
  nr_waiting :: "string list"
  nr_result :: jsval
  nr_asked :: "string option"

definition selectRefItem :: "string \<Rightarrow> new_row \<Rightarrow> new_row" where
  "selectRefItem property w =
     w\<lparr>nr_asked := Some property, nr_waiting := nr_waiting w @ [property], nr_result := JNull\<rparr>"

definition assign_new_ref :: "jsval \<Rightarrow> string \<Rightarrow> jsobj \<Rightarrow> jsobj res" where
  "assign_new_ref result property newItem =
     (if truthy result then
        rbind (vget result ''itemInfo'') (\<lambda>info. rbind (vidx info 1) (\<lambda>i. rbind (vidx info 0) (\<lambda>c.
        rbind (vget result ''itemToString'') (\<lambda>t.
          Inr (oset (oset newItem property i) (property @ ''__ref'') (JArr [c, i, t]))))))
      else Inr newItem)"

fun ref_handlers :: "jsval \<Rightarrow> string list \<Rightarrow> jsobj \<Rightarrow> jsobj \<times> string list" where
  "ref_handlers result [] newItem = (newItem, [])"
| "ref_handlers result (p # ps) newItem =
     (case assign_new_ref result p newItem of
        Inl e \<Rightarrow> (newItem, ps)
      | Inr it \<Rightarrow> ref_handlers result ps it)"

definition ref_dialog_closed :: "new_row \<Rightarrow> new_row" where
  "ref_dialog_closed w =
     (case ref_handlers (nr_result w) (nr_waiting w) (nr_newItem w) of
        (it, rest) \<Rightarrow> w\<lparr>nr_newItem := it, nr_waiting := rest\<rparr>)"

datatype row_event = Select_Ref string | Ref_Chosen jsval | Ref_Cancelled | Row_Input string jsval

definition row_step :: "row_event \<Rightarrow> new_row \<Rightarrow> new_row" where
  "row_step e w =
     (case e of
        Select_Ref p \<Rightarrow> selectRefItem p w
      | Ref_Chosen v \<Rightarrow> ref_dialog_closed (w\<lparr>nr_result := v\<rparr>)
      | Ref_Cancelled \<Rightarrow> ref_dialog_closed w
      | Row_Input p v \<Rightarrow> w\<lparr>nr_newItem := oset (nr_newItem w) p v\<rparr>)"

definition row_run :: "row_event list \<Rightarrow> new_row" where
  "row_run es = fold row_step es \<lparr>nr_newItem = [], nr_waiting = [], nr_result = JNull, nr_asked = None\<rparr>"

section \<open>A new element is consistent\<close>

text \<open>
  The column's value is the id in its reference.  The references that the dialog chooses are the names in
  \<open>R\<close>; none is another's with the suffix, and only other names take input by hand.
\<close>

definition ref_agrees :: "jsobj \<Rightarrow> string \<Rightarrow> bool" where
  "ref_agrees it p \<longleftrightarrow> oget it (p @ ''__ref'') = JUndef \<and> oget it p = JUndef \<or>
     (\<exists>c i t. oget it (p @ ''__ref'') = JArr [c, i, t] \<and> oget it p = i)"

definition refs_agree :: "string set \<Rightarrow> new_row \<Rightarrow> bool" where
  "refs_agree R w \<longleftrightarrow> set (nr_waiting w) \<subseteq> R \<and> (\<forall>p\<in>R. ref_agrees (nr_newItem w) p)"

definition ref_event_ok :: "string set \<Rightarrow> row_event \<Rightarrow> bool" where
  "ref_event_ok R e \<longleftrightarrow>
     (case e of
        Select_Ref p \<Rightarrow> p \<in> R
      | Row_Input p v \<Rightarrow> p \<notin> R \<and> (\<forall>q\<in>R. p \<noteq> q @ ''__ref'')
      | _ \<Rightarrow> True)"

definition refs_apart :: "string set \<Rightarrow> bool" where
  "refs_apart R \<longleftrightarrow> (\<forall>p\<in>R. p @ ''__ref'' \<notin> R)"

lemma assign_new_ref_result:
  "assign_new_ref result p it = Inr it' \<Longrightarrow>
    it' = it \<or> (\<exists>c i t. it' = oset (oset it p i) (p @ ''__ref'') (JArr [c, i, t]))"
  by (auto simp: assign_new_ref_def rbind_def split: if_splits sum.splits)

lemma ref_agrees_set:
  "refs_apart R \<Longrightarrow> p \<in> R \<Longrightarrow> q \<in> R \<Longrightarrow> ref_agrees it q \<Longrightarrow>
    ref_agrees (oset (oset it p i) (p @ ''__ref'') (JArr [c, i, t])) q"
  by (cases "q = p") (auto simp: ref_agrees_def refs_apart_def)

lemma ref_handlers_agree:
  assumes "refs_apart R"
  shows "set ps \<subseteq> R \<Longrightarrow> \<forall>q\<in>R. ref_agrees it q \<Longrightarrow>
    (\<forall>q\<in>R. ref_agrees (fst (ref_handlers result ps it)) q) \<and> set (snd (ref_handlers result ps it)) \<subseteq> R"
proof (induction ps arbitrary: it)
  case (Cons p ps)
  show ?case
  proof (cases "assign_new_ref result p it")
    case (Inr it1)
    have "\<forall>q\<in>R. ref_agrees it1 q"
      using assign_new_ref_result [OF Inr] Cons.prems ref_agrees_set [OF assms, of p] by auto
    with Cons Inr show ?thesis by simp
  qed (use Cons.prems in simp)
qed simp

lemma dialog_closed_agree: "refs_apart R \<Longrightarrow> refs_agree R w \<Longrightarrow> refs_agree R (ref_dialog_closed w)"
  using ref_handlers_agree [of R "nr_waiting w" "nr_newItem w" "nr_result w"]
  by (cases "ref_handlers (nr_result w) (nr_waiting w) (nr_newItem w)")
    (simp add: refs_agree_def ref_dialog_closed_def)

lemma row_step_agree:
  "refs_apart R \<Longrightarrow> refs_agree R w \<Longrightarrow> ref_event_ok R e \<Longrightarrow> refs_agree R (row_step e w)"
  using dialog_closed_agree [of R w] dialog_closed_agree [of R "nr_result_update (\<lambda>_. v) w" for v]
  by (cases e) (auto simp: row_step_def selectRefItem_def refs_agree_def ref_event_ok_def ref_agrees_def)

interpretation row: event_run row_step "\<lambda>w. refs_apart R \<longrightarrow> refs_agree R w" "ref_event_ok R"
  by unfold_locales (auto intro: row_step_agree)

lemma empty_row_agrees:
  "refs_agree R \<lparr>nr_newItem = [], nr_waiting = [], nr_result = JNull, nr_asked = None\<rparr>"
  by (simp add: refs_agree_def ref_agrees_def)

text \<open>
  The events of a row with these columns: the button of a paginated reference opens the dialog, every other
  column may have an input, also a reference that is not paginated, which is a plain list of choices and
  has no label.
\<close>

definition by_dialog :: "column \<Rightarrow> bool" where
  "by_dialog c \<longleftrightarrow> fst (col_field_directive c) = ''ion-col-reference-paginated''"

definition row_event_ok :: "column list \<Rightarrow> row_event \<Rightarrow> bool" where
  "row_event_ok cols e \<longleftrightarrow>
     (case e of
        Select_Ref p \<Rightarrow> list_ex (\<lambda>c. co_property c = p \<and> by_dialog c) cols
      | Row_Input p v \<Rightarrow> list_ex (\<lambda>c. co_property c = p \<and> \<not> by_dialog c) cols
      | _ \<Rightarrow> True)"

definition names_apart :: "column list \<Rightarrow> bool" where
  "names_apart cols \<longleftrightarrow> distinct (map co_property cols) \<and>
     list_all (\<lambda>c. list_all (\<lambda>d. co_property c \<noteq> co_property d @ ''__ref'') cols) cols"

definition dialog_refs :: "column list \<Rightarrow> string set" where
  "dialog_refs cols = co_property ` {c \<in> set cols. by_dialog c}"

lemma row_events_fit:
  assumes "names_apart cols"
  shows "refs_apart (dialog_refs cols)" "row_event_ok cols e \<Longrightarrow> ref_event_ok (dialog_refs cols) e"
proof -
  have d: "c = c'" if "c \<in> set cols" "c' \<in> set cols" "co_property c = co_property c'" for c c'
    using assms that by (auto simp: names_apart_def distinct_map dest: inj_onD)
  have a: "co_property c \<noteq> co_property c' @ ''__ref''" if "c \<in> set cols" "c' \<in> set cols" for c c'
    using assms that by (auto simp: names_apart_def list_all_iff)
  show "refs_apart (dialog_refs cols)" using a by (auto simp: refs_apart_def dialog_refs_def) metis
  show "row_event_ok cols e \<Longrightarrow> ref_event_ok (dialog_refs cols) e"
    using a d by (cases e) (auto simp: row_event_ok_def ref_event_ok_def dialog_refs_def list_ex_iff)
qed

text \<open>
  C29: In the row of a new element every reference that is chosen in the selection dialog (a paginated
  one) agrees with its label: after any sequence of choices, cancellations, failing answers and inputs into
  the row's other columns (references that are plain lists of choices among them), such a column is empty together
  with its label, or holds the id that the label names, as long as the columns have distinct names and none is
  named like another's label.
\<close>

theorem new_references_agree:
  assumes "names_apart cols" and "\<And>e. e \<in> set es \<Longrightarrow> row_event_ok cols e"
    and "c \<in> set cols" and "co_type c = ''REFERENCE''" and "co_paginated c" and "p = co_property c"
  shows "oget (nr_newItem (row_run es)) (p @ ''__ref'') = JUndef \<and> oget (nr_newItem (row_run es)) p = JUndef \<or>
    (\<exists>cl i t. oget (nr_newItem (row_run es)) (p @ ''__ref'') = JArr [cl, i, t] \<and> oget (nr_newItem (row_run es)) p = i)"
proof -
  have "refs_agree (dialog_refs cols) (row_run es)"
    unfolding row_run_def
    by (rule row.run_gives [where R = "dialog_refs cols"])
      (use assms(1,2) row_events_fit [OF assms(1)] in \<open>simp_all add: empty_row_agrees list_all_iff\<close>)
  moreover have "p \<in> dialog_refs cols"
    using assms(3-6) by (auto simp: dialog_refs_def by_dialog_def col_field_directive_def)
  ultimately show ?thesis by (simp add: refs_agree_def ref_agrees_def)
qed

definition chosen_part :: jsval where
  "chosen_part = JObj (mk_item ''part'' ''7'' [(''itemToString'', JStr ''Seven'')])"

definition part_columns :: "column list" where
  "part_columns =
     [\<lparr>co_property = ''owner'', co_type = ''REFERENCE'', co_readonly = False, co_required = False, co_mode = [], co_paginated = True\<rparr>,
      \<lparr>co_property = ''kind'', co_type = ''REFERENCE'', co_readonly = False, co_required = False, co_mode = [], co_paginated = False\<rparr>]"

lemma new_references_agree_witness:
  "oget (nr_newItem (row_run [Row_Input ''kind'' (JStr ''3''), Select_Ref ''owner'', Ref_Chosen chosen_part])) (''owner'' @ ''__ref'')
      = JArr [JStr ''part'', JStr ''7'', JStr ''Seven''] \<and>
   oget (nr_newItem (row_run [Row_Input ''kind'' (JStr ''3''), Select_Ref ''owner'', Ref_Chosen chosen_part])) ''owner'' = JStr ''7''"
proof -
  let ?w = "row_run [Row_Input ''kind'' (JStr ''3''), Select_Ref ''owner'', Ref_Chosen chosen_part]"
  have r: "oget (nr_newItem ?w) (''owner'' @ ''__ref'') = JArr [JStr ''part'', JStr ''7'', JStr ''Seven'']"
    by (simp add: row_run_def row_step_def selectRefItem_def ref_dialog_closed_def assign_new_ref_def
        chosen_part_def mk_item_def arr_at_def)
  have "oget (nr_newItem ?w) (''owner'' @ ''__ref'') = JUndef \<and> oget (nr_newItem ?w) ''owner'' = JUndef \<or>
    (\<exists>c i t. oget (nr_newItem ?w) (''owner'' @ ''__ref'') = JArr [c, i, t] \<and> oget (nr_newItem ?w) ''owner'' = i)"
    by (rule new_references_agree [where cols = part_columns and c = "hd part_columns"])
      (auto simp: part_columns_def names_apart_def row_event_ok_def by_dialog_def col_field_directive_def)
  with r show ?thesis by auto
qed

text \<open>The row starts with an empty element, so a text column never offers its choices.\<close>

lemma new_row_offers_no_choices: "col_text_drawn col [] = col_text_markup False nullable"
  by (simp add: col_text_drawn_def col_text_markup_def)

text \<open>A new element's formatted text has no model to enter it, and no column of files has one.\<close>

lemma new_row_without_model:
  "models_of (col_field_drawn (col\<lparr>co_type := ''WYSIWYG''\<rparr>) it) = []"
  "models_of (col_field_drawn (col\<lparr>co_type := ''FILE''\<rparr>) it) = []"
  "models_of (col_field_drawn (col\<lparr>co_type := ''IMAGE''\<rparr>) it) = []"
  by (simp_all add: col_field_drawn_def col_field_directive_def col_wysiwyg_template_def
      col_file_template_def models_of_def)

end
