(* ===== verification/Dialog_Widgets.thy ===== *)
theory Dialog_Widgets
  imports Col_Field Dialogs List_Controller
begin

text \<open>
  The markup of the dialogs (\<open>ion-ng-modals.js\<close>, \<open>ion-ng-list.js\<close>) and of the small directives
  (\<open>ion-ng.js\<close>, \<open>ion-ng-mtpl.js\<close>), the list's way to its search dialog, and a choice followed from
  the dialog into the field that asked for it.  The texts are Russian; they are kept as UTF-8 bytes.  The
  attribute \<open>for\<close> of the search dialog's labels ends at the first of the apostrophes inside it.
\<close>

section \<open>Markup\<close>

definition bytes :: "nat list \<Rightarrow> string" where
  "bytes ns = map char_of ns"

text \<open>\<^emph>\<open>Add\<close>, \<^emph>\<open>Delete completely\<close>, \<^emph>\<open>Remove from the list\<close>, \<^emph>\<open>Search\<close>.\<close>

definition ru_add :: string where
  "ru_add = bytes [208, 148, 208, 190, 208, 177, 208, 176, 208, 178, 208, 184, 209, 130, 209, 140]"

definition ru_delete :: string where
  "ru_delete = bytes [208, 163, 208, 180, 208, 176, 208, 187, 208, 184, 209, 130, 209, 140, 32, 208, 191, 208, 190, 208, 187,
     208, 189, 208, 190, 209, 129, 209, 130, 209, 140, 209, 142]"

definition ru_remove :: string where
  "ru_remove = bytes [208, 163, 208, 177, 209, 128, 208, 176, 209, 130, 209, 140, 32, 208, 184, 208, 183, 32, 209, 129, 208,
     191, 208, 184, 209, 129, 208, 186, 208, 176]"

definition ru_search :: string where
  "ru_search = bytes [208, 159, 208, 190, 208, 184, 209, 129, 208, 186]"

definition half_button :: "string \<Rightarrow> string \<Rightarrow> html" where
  "half_button click t = El ''button'' [(''class'', ''btn half show''), (''ng-click'', click)] [Tx t]"

text \<open>\<open>question\<close> is the text of the dialog.\<close>

definition startDelete_markup :: "string \<Rightarrow> html" where
  "startDelete_markup question =
     El ''div'' [(''class'', ''col-del-dialog''), (''style'', ''display:none;'')]
       [El ''p'' [] [Tx question],
        El ''p'' [] [half_button ''actions.del()'' ru_delete, half_button ''actions.rem()'' ru_remove]]"

definition ionCreateDialog_template :: html where
  "ionCreateDialog_template =
     El ''div'' [(''id'', ''cc-dlg''), (''class'', ''modal-dialog''), (''style'', ''display:none;'')]
       [El ''p'' [] [El ''select'' [(''class'', ''ionSelect''), (''name'', ''cc''), (''ng-model'', ''modalDialog.id''),
           (''style'', ''width:350px;''), (''ng-options'', ''class.name as class.caption for class in creationClasses'')] []],
        El ''p'' [] [half_button ''modalClick()'' ru_add]]"

definition getModalClass :: "modal_kind \<Rightarrow> string" where
  "getModalClass k = (case k of Collection_Modal \<Rightarrow> ''.col-select-modal'' | Reference_Modal \<Rightarrow> ''.ref-select-modal'')"

definition select_all_box :: html where
  "select_all_box = El ''input'' [(''type'', ''checkbox''), (''class'', ''select-all row-selector''),
     (''ng-model'', ''selectAll.status''), (''ng-change'', ''selectAll.change()'')] []"

definition choose_box :: html where
  "choose_box = El ''input'' [(''type'', ''checkbox''), (''class'', ''row-selector''),
     (''ng-model'', ''itemsToChoose[(item.itemInfo[0]+'@'+item.itemInfo[1])]'')] []"

definition selection_markup :: "modal_kind \<Rightarrow> html" where
  "selection_markup k =
     (let col = (k = Collection_Modal) in
      El ''div'' [(''class'', tl (getModalClass k))]
        [El ''table'' [(''id'', ''main-list''), (''class'', ''table zebra''), (''ng-show'', ''list!==null'')]
           [El ''thead'' [] [El ''tr'' []
              [El ''th'' [] (if col then [select_all_box] else []),
               El ''th'' [(''class'', ''sortable''), (''title'', ''{{col.caption}}''), (''ng-repeat'', ''col in refVm.columns''),
                          (''ng-click'', ''changeSorting(col)''),
                          (''ng-class'', ''{active:col.property === sort.column,desc:(col.property === sort.column && sort.descending === true)}'')]
                 [El ''span'' [] [Tx ''{{col.caption}}'']]]],
            El ''tbody'' [] [El ''tr''
              [(''ng-repeat'', ''item in refList track by $index |orderBy:sort.column:sort.descending''),
               (''ng-click'', ''clickOnItem($index,$event)''), (''ng-class'', ''{focused:$index === clickedItem}'')]
              [El ''td'' [] (if col then [choose_box] else []),
               El ''td'' [(''ng-repeat'', ''col in refVm.columns''), (''ng-init'', ''index = $parent.$index'')]
                 [El ''div'' [(''ion-list-field'', [])] []]]]]])"

definition search_markup :: html where
  "search_markup =
     El ''div'' [(''class'', ''search-modal'')]
       [El ''div'' [(''ng-repeat'', ''field in searchVm''), (''class'', ''field''),
                    (''style'', ''display: block; white-space: nowrap; margin-bottom:5px;'')]
          [El ''label'' [(''class'', ''label''), (''for'', ''{{(field.property).replace(''), (''style'', ''margin: 0 1em;'')] [Tx ''{{field.caption}}''],
           El ''select'' [(''ng-options'', ''v as n for (v,n) in options''),
                          (''ng-model'', ''searchItem[field.property+\"__search\"]''), (''style'', ''margin: 0 1em;'')] [],
           El ''div'' [(''ion-search-form-field'', []), (''field'', ''field''), (''style'', ''display: inline-block; margin: 0 1em;'')] []],
        El ''br'' [] [],
        El ''button'' [(''class'', ''add-trigger btn''), (''title'', ru_search), (''ng-click'', ''search()'')]
          [sp ''icon icon-small iconfont-search'' [], sp ''btn-text'' [Tx ru_search]]]"

definition ionBreadcrumbs_template :: html where
  "ionBreadcrumbs_template =
     El ''div'' [(''class'', ''breadcrumbs'')]
       [El ''a'' [(''ng-repeat'', ''bc in breadcrumbs''), (''href'', ''#/{{bc.id}}'')] [Tx ''{{bc.caption}}'']]"

definition ionTable_template :: html where
  "ionTable_template = El ''div'' [(''class'', ''table-wrapper'')] [El ''div'' [(''ng-transclude'', [])] []]"

definition ionLoader_template :: html where
  "ionLoader_template =
     El ''div'' [(''class'', ''spinner'')] (map (\<lambda>c. El ''div'' [(''class'', c)] []) [''bounce1'', ''bounce2'', ''bounce3''])"

text \<open>
  What the markup calls is not always there: the scope of a selection dialog is its own and has
  \<open>clickOnItem\<close> and \<open>pageClick\<close> only, the actions of a list are not in its scope.
\<close>

lemma selection_clicks: "clicks_of (selection_markup k) = [''changeSorting(col)'', ''clickOnItem($index,$event)'']"
  by (simp add: selection_markup_def clicks_of_def select_all_box_def choose_box_def Let_def)

lemma startDelete_clicks: "clicks_of (startDelete_markup q) = [''actions.del()'', ''actions.rem()'']"
  by (simp add: startDelete_markup_def half_button_def clicks_of_def)

text \<open>The markup gives each dialog the class by which the others find it.\<close>

lemma selection_found_by_class:
  "\<exists>hs. selection_markup k = El ''div'' [(''class'', cls)] hs \<and> getModalClass k = CHR ''.'' # cls" if "cls = tl (getModalClass k)"
  using that by (cases k) (simp_all add: selection_markup_def getModalClass_def Let_def)

section \<open>From a list to its search dialog\<close>

text \<open>Three steps: the view model, an empty item, the dialog; the parameters are shared with it.\<close>

record search_params =
  sq_item :: "jsobj option"
  sq_vm :: jsval

definition searchFunc :: "jsval \<Rightarrow> data_state \<Rightarrow> jsval fetch" where
  "searchFunc node s = getVm ''spa/list/search/vm'' [(''__type'', JStr ''search''), (''__node'', node)] s"

definition search_vm_reply :: "jsval \<Rightarrow> jsval \<Rightarrow> data_state \<Rightarrow> search_params \<Rightarrow> jsobj fetch \<times> search_params" where
  "search_vm_reply node vm s p = (getItem ''spa/dummy'' [(''__node'', node)] s, p\<lparr>sq_vm := vm\<rparr>)"

definition search_item_reply ::
  "(jsval \<Rightarrow> search_cond list res) \<Rightarrow> jsobj \<Rightarrow> jsobj \<Rightarrow> search_params \<Rightarrow> jsobj res \<times> search_params" where
  "search_item_reply dec search item p = (open_search dec item search, p\<lparr>sq_item := Some item\<rparr>)"

text \<open>The list's own copy of the test of a condition.\<close>

definition list_checkSearchCondition :: "string \<Rightarrow> jsval \<Rightarrow> bool" where
  "list_checkSearchCondition type value =
     (if contains type ''NOT_EMPTY'' then True
      else if contains type ''NOT_EQUAL LIKE LESS_OR_EQUAL MORE_OR_EQUAL IN'' then
        (if truthy value \<and> \<not> loose_eq value (JStr []) then True else False)
      else False)"

lemma checkSearchCondition_copies: "list_checkSearchCondition = checkSearchCondition"
  by (simp add: list_checkSearchCondition_def checkSearchCondition_def fun_eq_iff)

section \<open>A choice, from the dialog to the field\<close>

text \<open>
  C28: The row that is clicked in the reference dialog is the one that the field gets: after a page of
  items has arrived, a click on its i-th row and the choice close the dialog, and its result puts the id
  of the i-th item into the column of the new element, its class, id and name into the column's
  label, and nothing else changes.
\<close>

theorem chosen_row_is_stored:
  assumes "i < length xs" and "xs ! i = JObj it" and "oget it ''itemInfo'' = JArr (c # k # vs)"
    and "nr_waiting w = []"
  shows "\<exists>p' w'. choose_handler Reference_Modal (clickOnItem i (fst (page_arrives page (Some xs) s))) p = Inr (p', True) \<and>
    row_step (Ref_Chosen (sp_result p')) (selectRefItem property w) = w' \<and>
    oget (nr_newItem w') property = k \<and>
    oget (nr_newItem w') (property @ ''__ref'') = JArr [c, k, oget it ''itemToString''] \<and>
    (\<forall>q. q \<noteq> property \<and> q \<noteq> property @ ''__ref'' \<longrightarrow> oget (nr_newItem w') q = oget (nr_newItem w) q) \<and>
    nr_waiting w' = []"
proof -
  let ?p = "p\<lparr>sp_result := JObj it\<rparr>"
  have "choose_handler Reference_Modal (clickOnItem i (fst (page_arrives page (Some xs) s))) p = Inr (?p, True)"
    using assms(1,2) by (simp add: choose_handler_def clickOnItem_def page_arrives_def arr_at_def)
  moreover have "assign_new_ref (JObj it) property (nr_newItem w) =
      Inr (oset (oset (nr_newItem w) property k) (property @ ''__ref'') (JArr [c, k, oget it ''itemToString'']))"
    using assms(3) by (simp add: assign_new_ref_def arr_at_def)
  ultimately show ?thesis
    using assms(4) by (auto simp: row_step_def selectRefItem_def ref_dialog_closed_def)
qed

definition empty_row :: new_row where
  "empty_row = \<lparr>nr_newItem = [], nr_waiting = [], nr_result = JNull, nr_asked = None\<rparr>"

definition empty_selection :: select_scope where
  "empty_selection = \<lparr>se_refList = None, se_page = 1, se_pagesCount = None, se_clickedItem = None,
     se_itemsToChoose = [], se_caption = JNull\<rparr>"

lemma chosen_row_is_stored_witness:
  "\<exists>p' w'. choose_handler Reference_Modal
      (clickOnItem 1 (fst (page_arrives 1 (Some [JNull, chosen_part]) empty_selection)))
      \<lparr>sp_item = None, sp_container = JNull, sp_property = JStr ''owner'', sp_result = JNull\<rparr> = Inr (p', True) \<and>
    row_step (Ref_Chosen (sp_result p')) (selectRefItem ''owner'' empty_row) = w' \<and>
    oget (nr_newItem w') ''owner'' = JStr ''7''"
  using chosen_row_is_stored [of 1 "[JNull, chosen_part]" "mk_item ''part'' ''7'' [(''itemToString'', JStr ''Seven'')]"
      "JStr ''part''" "JStr ''7''" "[]" empty_row 1 empty_selection
      "\<lparr>sp_item = None, sp_container = JNull, sp_property = JStr ''owner'', sp_result = JNull\<rparr>" "''owner''"]
  by (auto simp: chosen_part_def mk_item_def empty_row_def)

end
