(* ===== verification/List_Session.thy ===== *)
theory List_Session
  imports List_Controller Run_Interface
begin

text \<open>
  The list controller over a session: the user's clicks and the server's answers in any order,
  each followed by the digest: the watcher of the location, which refreshes the list when the location's
  parameters have changed, and the watchers that copy \<open>ionCurrent\<close> into the scope.  An operation that throws
  leaves what it had written before, which is nothing but the emptied ticks of a bulk action.
\<close>

section \<open>Sessions\<close>

datatype list_event =
    Follow_Location string jsobj
  | Page_Arrives "jsval list option"
  | Page_Vm_Arrives jsval
  | Page_Info_Arrives "jsobj option"
  | Row_Click nat bool
  | Tick_Row string bool
  | Tick_All bool
  | Sort_Click bool jsval
  | Bulk_Answer bulk_response
  | Refill_Answer "jsval list option"
  | Refresh_Answer nat jsval
  | Action_Answer jsval jsval

definition tick_row :: "string \<Rightarrow> bool \<Rightarrow> list_world \<Rightarrow> list_world" where
  "tick_row k b w = w\<lparr>lw_scope := (lw_scope w)\<lparr>lc_itemsToDelete := oset (lc_itemsToDelete (lw_scope w)) k (JBool b)\<rparr>\<rparr>"

definition unless_thrown :: "list_world \<Rightarrow> list_world res \<Rightarrow> list_world" where
  "unless_thrown w r = (case r of Inl _ \<Rightarrow> w | Inr w' \<Rightarrow> w')"

definition list_act ::
  "(jsval \<Rightarrow> (jsval \<times> bool) res) \<Rightarrow> (jsval \<times> bool \<Rightarrow> string) \<Rightarrow> list_settings \<Rightarrow> list_event \<Rightarrow>
   list_world \<Rightarrow> list_world" where
  "list_act dec enc settings e w =
     (case e of
        Follow_Location path search \<Rightarrow>
          snd (list_watch dec settings (w\<lparr>lw_path := path, lw_search := search\<rparr>))
      | Page_Arrives list \<Rightarrow> list_arrives list w
      | Page_Vm_Arrives n \<Rightarrow> list_vm_arrives n w
      | Page_Info_Arrives info \<Rightarrow> listinfo_arrives info w
      | Row_Click i onEditable \<Rightarrow>
          (case lc_list (lw_scope w) of
             None \<Rightarrow> w
           | Some xs \<Rightarrow> if i < length xs then unless_thrown w (showDetails i onEditable w) else w)
      | Tick_Row k b \<Rightarrow> tick_row k b w
      | Tick_All b \<Rightarrow>
          (let w1 = w\<lparr>lw_scope := (lw_scope w)\<lparr>lc_selectAll := b\<rparr>\<rparr> in unless_thrown w1 (selectAll_change w1))
      | Sort_Click sortable property \<Rightarrow> changeSorting enc sortable property w
      | Bulk_Answer r \<Rightarrow>
          (case bulk_reply r w of
             Inl _ \<Rightarrow> w\<lparr>lw_scope := (lw_scope w)\<lparr>lc_itemsToDelete := []\<rparr>\<rparr>
           | Inr (_, _, w') \<Rightarrow> w')
      | Refill_Answer ys \<Rightarrow> unless_thrown w (itemslist_reply ys w)
      | Refresh_Answer i v \<Rightarrow> unless_thrown w (refresh_reply i v w)
      | Action_Answer item redirect \<Rightarrow> snd (plain_reply dec settings item redirect w))"

text \<open>The parameters that the watcher of the location saw last.\<close>

definition last_seen :: "list_event \<Rightarrow> list_world \<Rightarrow> jsobj" where
  "last_seen e w = (case e of Follow_Location path search \<Rightarrow> search | _ \<Rightarrow> lw_search w)"

definition list_session_step ::
  "(jsval \<Rightarrow> (jsval \<times> bool) res) \<Rightarrow> (jsval \<times> bool \<Rightarrow> string) \<Rightarrow> list_settings \<Rightarrow> list_event \<Rightarrow>
   list_world \<Rightarrow> list_world" where
  "list_session_step dec enc settings e w =
     digest (snd (location_watch dec settings (last_seen e w) (list_act dec enc settings e w)))"

definition list_session ::
  "(jsval \<Rightarrow> (jsval \<times> bool) res) \<Rightarrow> (jsval \<times> bool \<Rightarrow> string) \<Rightarrow> list_settings \<Rightarrow> list_event list \<Rightarrow>
   list_world \<Rightarrow> list_world" where
  "list_session dec enc settings es w = fold (list_session_step dec enc settings) es w"

section \<open>The page and its details\<close>

definition is_row :: "jsval \<Rightarrow> bool" where
  "is_row v \<longleftrightarrow> (case v of JObj it \<Rightarrow> has_info it | _ \<Rightarrow> False)"

definition rows_ok :: "jsval list option \<Rightarrow> bool" where
  "rows_ok l \<longleftrightarrow> (case l of None \<Rightarrow> True | Some xs \<Rightarrow> list_all is_row xs)"

text \<open>
  The server's answers are rows.  The answer that refreshes a row of a bulk action is written at the index
  the loop over the list ended with, the list's length by then: it goes onto the end of the list, or over the row
  that has come there since.  Only when the list has become shorter meanwhile does it leave holes, and
  that is left out.
\<close>

definition list_event_ok :: "list_event \<Rightarrow> list_world \<Rightarrow> bool" where
  "list_event_ok e w \<longleftrightarrow>
     (case e of
        Page_Arrives l \<Rightarrow> rows_ok l
      | Refill_Answer l \<Rightarrow> rows_ok l
      | Refresh_Answer i v \<Rightarrow>
          truthy v \<longrightarrow> is_row v \<and> (case lw_list w of None \<Rightarrow> True | Some xs \<Rightarrow> i \<le> length xs)
      | _ \<Rightarrow> True)"

fun list_events_ok ::
  "(jsval \<Rightarrow> (jsval \<times> bool) res) \<Rightarrow> (jsval \<times> bool \<Rightarrow> string) \<Rightarrow> list_settings \<Rightarrow> list_event list \<Rightarrow>
   list_world \<Rightarrow> bool" where
  "list_events_ok dec enc settings [] w = True"
| "list_events_ok dec enc settings (e # es) w =
     (list_event_ok e w \<and> list_events_ok dec enc settings es (list_session_step dec enc settings e w))"

text \<open>
  The details are open exactly when \<open>ionCurrent.item\<close> is a row; otherwise it is null, or the empty
  object of a refresh.
\<close>

definition details_agree :: "list_world \<Rightarrow> bool" where
  "details_agree w \<longleftrightarrow>
     (if mi_showSlave (lw_mtpl w) then is_row (lw_item w) else lw_item w = JNull \<or> lw_item w = JObj [])"

definition list_settled :: "list_world \<Rightarrow> bool" where
  "list_settled w \<longleftrightarrow>
     details_agree w \<and> lc_detailItem (lw_scope w) = lw_item w \<and> lc_list (lw_scope w) = lw_list w \<and>
     rows_ok (lw_list w)"

text \<open>What of the world the invariant depends on.\<close>

definition list_core :: "list_world \<Rightarrow> jsval \<times> bool \<times> jsval list option" where
  "list_core w = (lw_item w, mi_showSlave (lw_mtpl w), lw_list w)"

lemma is_row_no_null [simp]: "\<not> is_row JNull" "\<not> is_row (JObj [])" "\<not> is_row JUndef"
  by (simp_all add: is_row_def has_info_def)

lemma list_settled_digest:
  "details_agree w \<Longrightarrow> rows_ok (lw_list w) \<Longrightarrow> list_settled (digest w)"
  by (simp add: list_settled_def digest_def details_agree_def)

lemma settled_core: "list_settled w \<Longrightarrow> list_core w' = list_core w \<Longrightarrow> list_settled (digest w')"
  by (rule list_settled_digest) (auto simp: list_settled_def details_agree_def list_core_def)

lemma settled_rows: "list_settled w \<Longrightarrow> lw_list w = Some xs \<Longrightarrow> list_all is_row xs"
  by (simp add: list_settled_def rows_ok_def)

lemma core_frame [simp]:
  "list_core (w\<lparr>lw_scope := s\<rparr>) = list_core w" "list_core (w\<lparr>lw_path := p\<rparr>) = list_core w"
  "list_core (w\<lparr>lw_search := q\<rparr>) = list_core w" "list_core (w\<lparr>lw_url := u\<rparr>) = list_core w"
  by (simp_all add: list_core_def)

lemma core_of [simp]:
  "list_core (tick_row k b w) = list_core w" "list_core (list_vm_arrives n w) = list_core w"
  "list_core (listinfo_arrives info w) = list_core w" "list_core (follow_redirect r w) = list_core w"
  "list_core (changeSorting enc b p w) = list_core w"
  by (simp_all add: tick_row_def list_vm_arrives_def listinfo_arrives_def follow_redirect_def
      changeSorting_def Let_def)

lemma core_selectAll: "selectAll_change w = Inr w' \<Longrightarrow> list_core w' = list_core w"
  by (auto simp: selectAll_change_def rbind_def split: sum.splits option.splits)

lemma refresh_settles:
  "lw_item (snd (refreshList dec settings v w)) = JObj []"
  "\<not> mi_showSlave (lw_mtpl (snd (refreshList dec settings v w)))"
  "lw_list (snd (refreshList dec settings v w)) = None"
  by (auto simp: refreshList_def Let_def split: sum.splits)

lemma settled_refresh: "list_settled (digest (snd (refreshList dec settings v w)))"
  by (rule list_settled_digest) (simp_all add: details_agree_def refresh_settles rows_ok_def)

lemma settled_watch: "list_settled w \<Longrightarrow> list_core w' = list_core w \<Longrightarrow>
    list_settled (digest (snd (list_watch dec settings w')))"
  by (simp add: list_watch_def settled_refresh settled_core)

lemma redirect_settled: "list_settled (digest w) \<Longrightarrow> list_settled (digest (follow_redirect r w))"
  by (auto simp: list_settled_def digest_def details_agree_def follow_redirect_def)

lemma settled_plain: "list_settled w \<Longrightarrow> list_settled (digest (snd (plain_reply dec settings item redirect w)))"
proof -
  assume w: "list_settled w"
  then have "list_settled (digest (snd (list_watch dec settings w)))" by (rule settled_watch) simp
  then show ?thesis
    using settled_core [OF w, of w] by (auto simp: plain_reply_def redirect_settled split: prod.split sum.split)
qed

lemma settled_list:
  "list_settled w \<Longrightarrow> rows_ok l \<Longrightarrow> list_core w' = (lw_item w, mi_showSlave (lw_mtpl w), l) \<Longrightarrow>
   list_settled (digest w')"
  by (rule list_settled_digest) (auto simp: list_settled_def details_agree_def list_core_def)

text \<open>The name of a row, as the deletion compares it.\<close>

definition row_name :: "jsval \<Rightarrow> string" where
  "row_name x = projr (at_key x)"

lemma at_key_row: "is_row x \<Longrightarrow> at_key x = Inr (row_name x)"
  using item_key_ok [of _ "''@''"] by (cases x) (auto simp: is_row_def row_name_def, metis sum.sel(2))

lemma deleted_rows:
  "list_all is_row xs \<Longrightarrow> deleteFromList xs ks = Inr (filter (\<lambda>x. row_name x \<notin> set ks) xs)"
  by (rule list_del.del_filter) (simp add: list_all_iff at_key_row)

lemma rows_filter: "list_all is_row xs \<Longrightarrow> list_all is_row (filter P xs)"
  by (auto simp: list_all_iff)

lemma bulk_core:
  assumes "bulk_reply r w = Inr (rqs, n, w')" "rows_ok (lw_list w)"
  shows "\<exists>l. rows_ok l \<and> list_core w' = (lw_item w, mi_showSlave (lw_mtpl w), l)"
proof -
  have "\<exists>l. rows_ok l \<and> (lw_item w', mi_showSlave (lw_mtpl w'), lw_list w') = (lw_item w, mi_showSlave (lw_mtpl w), l)"
    using assms deleted_rows
    by (auto simp: bulk_reply_def rbind_def Let_def follow_redirect_def rows_ok_def rows_filter
        split: option.splits sum.splits if_splits)
  then show ?thesis by (simp add: list_core_def)
qed

lemma click_list [simp]: "lw_list (unless_thrown w (showDetails i b w)) = lw_list w"
  by (cases "lc_list (lw_scope w)") (simp_all add: showDetails_def unless_thrown_def Let_def)

lemma click_details:
  assumes "lc_list (lw_scope w) = Some xs" "is_row (arr_at xs i)" "details_agree w"
  shows "details_agree (unless_thrown w (showDetails i b w))"
proof -
  consider "showDetails i b w = Inr w"
    | "showDetails i b w = Inr (w\<lparr>lw_mtpl := (lw_mtpl w)\<lparr>mi_showSlave := False\<rparr>, lw_item := JNull\<rparr>)"
    | "showDetails i b w = Inr (w\<lparr>lw_mtpl := (lw_mtpl w)\<lparr>mi_showSlave := True\<rparr>, lw_item := arr_at xs i\<rparr>)"
    unfolding showDetails_def Let_def assms(1) option.case
    by (cases b; cases "arr_at xs i = lc_detailItem (lw_scope w)") simp_all
  then show ?thesis
    using assms(2,3) by cases (simp_all add: unless_thrown_def details_agree_def)
qed

lemma settledD:
  assumes "list_settled w"
  shows "details_agree w" "lc_detailItem (lw_scope w) = lw_item w" "lc_list (lw_scope w) = lw_list w"
    "rows_ok (lw_list w)"
  using assms unfolding list_settled_def by blast+

lemma click_settled:
  assumes "list_settled w" "lc_list (lw_scope w) = Some xs" "i < length xs"
  shows "list_settled (digest (unless_thrown w (showDetails i b w)))"
proof (rule list_settled_digest)
  have "list_all is_row xs" using settledD(3) [OF assms(1)] assms(2) settled_rows [OF assms(1)] by simp
  with assms(3) have "is_row (arr_at xs i)" by (simp add: arr_at_def list_all_length)
  from click_details [OF assms(2) this settledD(1) [OF assms(1)]]
  show "details_agree (unless_thrown w (showDetails i b w))" .
  show "rows_ok (lw_list (unless_thrown w (showDetails i b w)))"
    unfolding click_list by (rule settledD(4) [OF assms(1)])
qed

lemma act_settled:
  assumes "list_settled w" "list_event_ok e w"
  shows "list_settled (digest (list_act dec enc settings e w))"
proof (cases e)
  case (Follow_Location path search)
  then show ?thesis using settled_watch [OF assms(1)] by (simp add: list_act_def)
next
  case (Page_Arrives l)
  then show ?thesis
    using assms by (auto simp: list_act_def list_arrives_def list_core_def list_event_ok_def
        intro!: settled_list [of w l])
next
  case (Row_Click i b)
  then show ?thesis
    using assms click_settled settled_core [OF assms(1), of w]
    by (auto simp: list_act_def split: option.split)
next
  case (Tick_All b)
  then show ?thesis
    using settled_core [OF assms(1)]
    by (simp add: list_act_def unless_thrown_def Let_def core_selectAll split: sum.split)
next
  case (Bulk_Answer r)
  show ?thesis
  proof (cases "bulk_reply r w")
    case (Inl e)
    with Bulk_Answer assms(1) show ?thesis by (simp add: list_act_def settled_core)
  next
    case (Inr x)
    with bulk_core [of r w] assms(1) obtain l
      where "rows_ok l" "list_core (snd (snd x)) = (lw_item w, mi_showSlave (lw_mtpl w), l)"
      by (cases x) (auto simp: list_settled_def)
    with Bulk_Answer Inr assms(1) settled_list show ?thesis
      by (cases x) (auto simp: list_act_def)
  qed
next
  case (Refill_Answer l)
  have "\<exists>l'. rows_ok l' \<and> list_core (unless_thrown w (itemslist_reply l w)) = (lw_item w, mi_showSlave (lw_mtpl w), l')"
    using assms Refill_Answer
    by (cases l; cases "lw_list w")
      (auto simp: itemslist_reply_def unless_thrown_def list_event_ok_def rows_ok_def list_core_def list_settled_def)
  then obtain l' where "rows_ok l'"
    "list_core (unless_thrown w (itemslist_reply l w)) = (lw_item w, mi_showSlave (lw_mtpl w), l')" by blast
  from settled_list [OF assms(1) this] Refill_Answer show ?thesis
    by (simp add: list_act_def)
next
  case (Refresh_Answer i v)
  show ?thesis
  proof (cases "truthy v \<and> lw_list w \<noteq> None")
    case False
    then have "list_act dec enc settings e w = w"
      by (auto simp: Refresh_Answer list_act_def refresh_reply_def unless_thrown_def)
    then show ?thesis using settled_core [OF assms(1), of w] by simp
  next
    case True
    then obtain xs where xs: "lw_list w = Some xs" by blast
    with True assms(2) Refresh_Answer have v: "is_row v" "i \<le> length xs" by (simp_all add: list_event_ok_def)
    have "list_all is_row (array_set xs i v)"
      using settled_rows [OF assms(1) xs] v by (auto simp: array_set_def list_all_iff dest!: set_update_subset_insert [THEN subsetD])
    with xs True show ?thesis
      by (intro settled_list [OF assms(1), of "Some (array_set xs i v)"])
        (auto simp: Refresh_Answer list_act_def refresh_reply_def unless_thrown_def list_core_def rows_ok_def)
  qed
next
  case (Action_Answer item redirect)
  have "list_settled (digest (snd (plain_reply dec settings item redirect w)))"
    by (rule settled_plain [OF assms(1)])
  with Action_Answer show ?thesis by (simp add: list_act_def)
qed (use assms in \<open>simp_all add: list_act_def settled_core\<close>)

lemma location_watch_settled:
  assumes "list_settled (digest w)"
  shows "list_settled (digest (snd (location_watch dec settings seen w)))"
proof -
  have "list_settled (digest (snd (list_watch dec settings v)))" if "list_settled (digest v)" for v
    using that settled_refresh by (simp add: list_watch_def)
  with assms show ?thesis
    by (auto simp: location_watch_def split: prod.split) (metis snd_conv)+
qed

lemma step_settled: "list_settled w \<Longrightarrow> list_event_ok e w \<Longrightarrow> list_settled (list_session_step dec enc settings e w)"
  unfolding list_session_step_def by (intro location_watch_settled act_settled)

text \<open>A session in which each event is checked against the page it meets, as a run over both.\<close>

definition guarded_step ::
  "(jsval \<Rightarrow> (jsval \<times> bool) res) \<Rightarrow> (jsval \<times> bool \<Rightarrow> string) \<Rightarrow> list_settings \<Rightarrow> list_event \<Rightarrow>
   bool \<times> list_world \<Rightarrow> bool \<times> list_world" where
  "guarded_step dec enc settings e = (\<lambda>(b, w). (b \<and> list_event_ok e w, list_session_step dec enc settings e w))"

interpretation list_run: event_run "guarded_step dec enc settings" "\<lambda>(b, w). b \<longrightarrow> list_settled w" "\<lambda>_. True"
  for dec enc settings
  by unfold_locales (auto simp: guarded_step_def step_settled)

lemma guarded_session:
  "fold (guarded_step dec enc settings) es (b, w) =
     (b \<and> list_events_ok dec enc settings es w, list_session dec enc settings es w)"
  by (induction es arbitrary: b w) (simp_all add: guarded_step_def list_session_def)

lemma session_settled:
  assumes "list_settled w" "list_events_ok dec enc settings es w"
  shows "list_settled (list_session dec enc settings es w)"
  using list_run.run_inv [of "(True, w)" es dec enc settings] assms
  by (simp add: guarded_session list_all_iff)

section \<open>The server's pages\<close>

text \<open>
  The server's side of the two requests for items: a page of the list, and the page without its
  first \<open>count\<close> items, as \<open>getAjaxItemsList\<close> of \<open>AjaxListController.java\<close> cuts it.  The number of
  the page and the count are read from the request; the size of a page, \<open>n\<close>, is that of the node's view model.
\<close>

definition page_of :: "nat \<Rightarrow> nat \<Rightarrow> jsval list \<Rightarrow> jsval list" where
  "page_of n p items = take n (drop ((p - 1) * n) items)"

definition getAjaxItemsList :: "nat option \<Rightarrow> jsval list \<Rightarrow> jsval list" where
  "getAjaxItemsList count page =
     (let c = (case count of None \<Rightarrow> 0 | Some c \<Rightarrow> c) in if length page > c then drop c page else [])"

definition itemslist_answer :: "nat \<Rightarrow> jsval list \<Rightarrow> jsobj \<Rightarrow> jsval list" where
  "itemslist_answer n items rq =
     getAjaxItemsList (map_option nat (to_num (oget rq ''__count'')))
       (page_of n (case to_num (oget rq ''__page'') of None \<Rightarrow> 1 | Some p \<Rightarrow> nat p) items)"

lemma getAjaxItemsList_drop: "getAjaxItemsList (Some c) page = drop c page"
  by (simp add: getAjaxItemsList_def)

text \<open>What is left of a page is the beginning of the page of what is left.\<close>

lemma page_refilled:
  assumes "\<And>x. x \<in> set (take ((p - 1) * n) items) \<Longrightarrow> P x"
  shows "filter P (page_of n p items) @ drop (length (filter P (page_of n p items))) (page_of n p (filter P items))
    = page_of n p (filter P items)"
proof -
  let ?A = "take ((p - 1) * n) items" and ?R = "drop ((p - 1) * n) items"
  have A: "filter P ?A = ?A" using assms by (intro filter_True) blast
  have split: "filter P items = ?A @ filter P (take n ?R) @ filter P (drop n ?R)"
    by (subst append_take_drop_id [of "(p - 1) * n" items, symmetric], subst append_take_drop_id [of n ?R, symmetric])
      (simp only: filter_append A)
  have "page_of n p (filter P items) = take n (filter P (take n ?R) @ filter P (drop n ?R))"
  proof (cases "(p - 1) * n \<le> length items")
    case True
    then show ?thesis by (simp add: page_of_def split)
  next
    case False
    then have "page_of n p (filter P items) = []"
      unfolding page_of_def using le_trans [OF length_filter_le, of items "(p - 1) * n" P] by simp
    with False show ?thesis by simp
  qed
  moreover have "length (filter P (take n ?R)) \<le> n"
    using length_filter_le [of P "take n ?R"] by simp
  ultimately show ?thesis by (simp add: page_of_def)
qed

section \<open>Properties\<close>

text \<open>
  C4: A bulk action keeps the list in step with the server: when the list shows a page in the server's own
  order (neither sorted nor filtered by the user, for the request that follows names neither) and the server
  deletes items from this page on and refreshes no row, then after the two answers, the one to the action and the one to the
  request that follows it, the list shows exactly the server's page of the items that are left, in
  its order, no item left out and none shown again.  The second answer is computed from what that request says: its page, which is
  the one the list shows, and its count, the rows that are left on it.
\<close>

theorem refilled_page_is_servers_page:
  assumes "list_all is_row items" "to_num (lc_page (lw_scope w)) = Some (int p)" "lw_list w = Some (page_of n p items)"
    and "br_deleteList r = Some ks" "br_refreshList r = []"
    and "\<And>x. x \<in> set (take ((p - 1) * n) items) \<Longrightarrow> row_name x \<notin> set ks"
  shows "\<exists>rq w'. bulk_reply r w = Inr ([(''spa/itemslist'', rq)], 0, w') \<and>
    oget rq ''__page'' = lc_page (lw_scope w) \<and> oget rq ''__pagesize'' = lc_pageSize (lw_scope w) \<and>
    (let left = filter (\<lambda>x. row_name x \<notin> set ks) items
     in shown_items w' = filter (\<lambda>x. row_name x \<notin> set ks) (page_of n p items) \<and>
        oget rq ''__count'' = JNum (int (length (shown_items w'))) \<and>
        map_option shown_items (case itemslist_reply (Some (itemslist_answer n left rq)) w' of
          Inr w'' \<Rightarrow> Some w'' | Inl _ \<Rightarrow> None) = Some (page_of n p left))"
proof -
  let ?P = "\<lambda>x. row_name x \<notin> set ks"
  have rows: "list_all is_row (page_of n p items)"
    using assms(1) by (auto simp: page_of_def list_all_iff dest!: in_set_takeD in_set_dropD)
  have "\<And>x. x \<in> set (page_of n p items) \<Longrightarrow> at_key x = Inr (row_name x)"
    using rows at_key_row by (simp add: list_all_iff)
  from bulk_delete [OF assms(3) this assms(4,5)] obtain w'
    where w': "bulk_reply r w = Inr ([itemslist_request (lw_scope w') (length (filter ?P (page_of n p items)))], 0, w')"
      "lw_list w' = Some (filter ?P (page_of n p items))" "lc_page (lw_scope w') = lc_page (lw_scope w)"
      "lc_pageSize (lw_scope w') = lc_pageSize (lw_scope w)" by blast
  with assms(2) page_refilled [of p n items ?P, OF assms(6)] show ?thesis
    by (simp add: itemslist_request_def itemslist_reply_def itemslist_answer_def getAjaxItemsList_drop
        shown_items_def Let_def)
qed

definition sample_rows :: "nat \<Rightarrow> jsval list" where
  "sample_rows k = map (\<lambda>i. JObj (mk_item ''A'' (show_nat i) [])) [1..<k + 1]"

definition sample_page2 :: "jsval list \<Rightarrow> list_world" where
  "sample_page2 xs = (sample_list xs)\<lparr>lw_scope := (lw_scope (sample_list xs))\<lparr>lc_page := JNum 2\<rparr>\<rparr>"

lemma refilled_page_is_servers_page_witness:
  "\<exists>rq w'. bulk_reply \<lparr>br_deleteList = Some [''A@3''], br_refreshList = [], br_redirect = JUndef\<rparr>
       (sample_page2 (page_of 2 2 (sample_rows 5))) = Inr ([(''spa/itemslist'', rq)], 0, w') \<and>
    oget rq ''__page'' = lc_page (lw_scope (sample_page2 (page_of 2 2 (sample_rows 5)))) \<and>
    oget rq ''__pagesize'' = lc_pageSize (lw_scope (sample_page2 (page_of 2 2 (sample_rows 5)))) \<and>
    (let left = filter (\<lambda>x. row_name x \<notin> set [''A@3'']) (sample_rows 5)
     in shown_items w' = filter (\<lambda>x. row_name x \<notin> set [''A@3'']) (page_of 2 2 (sample_rows 5)) \<and>
        oget rq ''__count'' = JNum (int (length (shown_items w'))) \<and>
        map_option shown_items (case itemslist_reply (Some (itemslist_answer 2 left rq)) w' of
          Inr w'' \<Rightarrow> Some w'' | Inl _ \<Rightarrow> None) = Some (page_of 2 2 left))"
proof (rule refilled_page_is_servers_page)
  show "list_all is_row (sample_rows 5)"
    by (simp add: sample_rows_def list_all_iff is_row_def has_info_def mk_item_def)
  have "take ((2 - 1) * 2) (sample_rows 5) = [JObj (mk_item ''A'' ''1'' []), JObj (mk_item ''A'' ''2'' [])]"
    by code_simp
  then show "row_name x \<notin> set [''A@3'']" if "x \<in> set (take ((2 - 1) * 2) (sample_rows 5))" for x
    using that by (auto simp: row_name_def)
qed (simp_all add: sample_page2_def sample_list_def)



text \<open>
  The request for the items that move up names neither the sorting nor the filter of the list, so
  the server answers with items of the page in its own order: an item can come twice and another be
  missing.
\<close>

lemma refill_ignores_sorting:
  "onames (snd (itemslist_request s c)) =
     [''__node'', ''__container'', ''__collection'', ''__pagesize'', ''__page'', ''__count'']"
  by (simp add: itemslist_request_def)

lemma sorted_page_refilled_wrong:
  "\<exists>w'. bulk_reply \<lparr>br_deleteList = Some [''A@3''], br_refreshList = [], br_redirect = JUndef\<rparr>
       (sample_list (page_of 2 1 (rev (sample_rows 3)))) = Inr ([itemslist_request (lw_scope w') 1], 0, w') \<and>
     map_option shown_items (case itemslist_reply (Some (getAjaxItemsList (Some 1) (page_of 2 1 (sample_rows 2)))) w' of
          Inr w'' \<Rightarrow> Some w'' | Inl _ \<Rightarrow> None)
       = Some [JObj (mk_item ''A'' ''2'' []), JObj (mk_item ''A'' ''2'' [])]"
proof -
  have p: "page_of 2 1 (rev (sample_rows 3)) = [JObj (mk_item ''A'' ''3'' []), JObj (mk_item ''A'' ''2'' [])]"
    "getAjaxItemsList (Some 1) (page_of 2 1 (sample_rows 2)) = [JObj (mk_item ''A'' ''2'' [])]"
    by code_simp+
  have "deleteFromList [JObj (mk_item ''A'' ''3'' []), JObj (mk_item ''A'' ''2'' [])] [''A@3''] = Inr [JObj (mk_item ''A'' ''2'' [])]"
    using deleted_rows [of "[JObj (mk_item ''A'' ''3'' []), JObj (mk_item ''A'' ''2'' [])]" "[''A@3'']"]
    by (simp add: is_row_def has_info_def mk_item_def row_name_def item_key_def item_info_def arr_at_def)
  then show ?thesis
    unfolding p
    by (simp add: bulk_reply_def sample_list_def follow_redirect_def itemslist_reply_def shown_items_def Let_def)
qed

end
