(* ===== verification/Form_Session.thy ===== *)
theory Form_Session
  imports Form_Reload Cache_Sessions Actions
begin

text \<open>
  A form over a session: the locations it follows, what the user types, the actions, and the answers
  of the server in any order, each followed by the watcher of the item.  What a request was sent for
  is kept with the request until its answer; the promise of an action is one of them.
\<close>

section \<open>Sessions\<close>

datatype form_asked =
    Asked_Form form_request
  | Asked_Choices jsobj
  | Asked_Action
  | Asked_Vm jsobj

datatype form_answer =
    Form_Reply "form_response option"
  | Choices_Reply jsobj
  | Action_Reply action_response
  | Vm_Reply "vm_tab list option"
  | No_Reply

record form_session =
  fn_world :: form_world
  fn_path :: string
  fn_search :: jsobj
  fn_seen :: "jsobj option"
  fn_asked :: "form_asked list"

datatype form_event =
    Follow string jsobj
  | Type_In string jsval
  | Click_Action
  | Answer_Form nat form_answer

definition shown_item :: "form_session \<Rightarrow> jsobj option" where
  "shown_item s = fs_item (fw_scope (fn_world s))"

definition trigger_list :: "jsobj \<Rightarrow> (string \<times> jsval list) list" where
  "trigger_list it =
     (case oget it ''__selection_triggers'' of
        JObj t \<Rightarrow> map (\<lambda>(nm, v). (nm, case v of JArr ts \<Rightarrow> ts | _ \<Rightarrow> [])) t
      | _ \<Rightarrow> [])"

definition watch_item :: "form_session \<Rightarrow> form_session" where
  "watch_item s =
     (let asked = (case shown_item s of
                     None \<Rightarrow> []
                   | Some it \<Rightarrow>
                       (case item_watch (trigger_list it) (Some it) (fn_seen s) of
                          Inr (Some (url, rq)) \<Rightarrow> [Asked_Choices rq]
                        | _ \<Rightarrow> []))
      in s\<lparr>fn_asked := fn_asked s @ asked, fn_seen := shown_item s\<rparr>)"

definition follow :: "form_kind \<Rightarrow> string \<Rightarrow> jsobj \<Rightarrow> form_session \<Rightarrow> form_session" where
  "follow kind path search s =
     (let (r, w) = location_changed kind path search (fn_world s)
      in s\<lparr>fn_world := w, fn_path := path, fn_search := search,
           fn_asked := fn_asked s @ (case r of Inr (Some q) \<Rightarrow> [Asked_Form q] | _ \<Rightarrow> [])\<rparr>)"

definition type_in :: "string \<Rightarrow> jsval \<Rightarrow> form_session \<Rightarrow> form_session" where
  "type_in nm v s =
     (case shown_item s of
        None \<Rightarrow> s
      | Some it \<Rightarrow> s\<lparr>fn_world := item_becomes it (oset it nm v) (fn_world s)\<rparr>)"

definition drop_nth :: "nat \<Rightarrow> 'a list \<Rightarrow> 'a list" where
  "drop_nth n xs = take n xs @ drop (Suc n) xs"

text \<open>An answer of another kind than the request, or none at all, is an error, which only the view model notices.\<close>

definition answer_form :: "form_kind \<Rightarrow> form_asked \<Rightarrow> form_answer \<Rightarrow> form_session \<Rightarrow> form_session" where
  "answer_form kind a r s =
     (case (a, r) of
        (Asked_Form q, Form_Reply resp) \<Rightarrow> s\<lparr>fn_world := fst (form_reply kind q resp (fn_world s))\<rparr>
      | (Asked_Choices rq, Choices_Reply sel) \<Rightarrow> s\<lparr>fn_world := selections_arrive sel (fn_world s)\<rparr>
      | (Asked_Action, Action_Reply resp) \<Rightarrow>
          (let (e, w) = form_action_reply kind resp (fn_world s)
           in s\<lparr>fn_world := w,
                fn_asked := fn_asked s @ (case e of Inr (Some (url, params)) \<Rightarrow> [Asked_Vm params] | _ \<Rightarrow> [])\<rparr>)
      | (Asked_Vm params, Vm_Reply vm) \<Rightarrow> s\<lparr>fn_world := form_vm_reply params vm (fn_world s)\<rparr>
      | (Asked_Vm params, _) \<Rightarrow> s\<lparr>fn_world := form_vm_reply params None (fn_world s)\<rparr>
      | _ \<Rightarrow> s)"

definition form_act :: "form_kind \<Rightarrow> form_event \<Rightarrow> form_session \<Rightarrow> form_session" where
  "form_act kind e s =
     (case e of
        Follow path search \<Rightarrow> follow kind path search s
      | Type_In nm v \<Rightarrow> type_in nm v s
      | Click_Action \<Rightarrow> if shown_item s = None then s else s\<lparr>fn_asked := fn_asked s @ [Asked_Action]\<rparr>
      | Answer_Form n r \<Rightarrow>
          if n < length (fn_asked s)
          then answer_form kind (fn_asked s ! n) r (s\<lparr>fn_asked := drop_nth n (fn_asked s)\<rparr>)
          else s)"

definition form_step :: "form_kind \<Rightarrow> form_event \<Rightarrow> form_session \<Rightarrow> form_session" where
  "form_step kind e s = watch_item (form_act kind e s)"

definition new_form :: "(string \<Rightarrow> jsobj option) \<Rightarrow> form_world \<Rightarrow> form_session" where
  "new_form items w =
     \<lparr>fn_world = w\<lparr>fw_scope := init_form_scope, fw_items := items\<rparr>, fn_path = [], fn_search = [],
      fn_seen = None, fn_asked = []\<rparr>"

section \<open>Orderly sessions\<close>

text \<open>
  The item that the location names.  A session is orderly when the form follows a location only
  after every request has been answered, and the server answers with the item that was asked for,
  with its view model when it was asked for, and after an action with the same item.
\<close>

definition located :: "form_session \<Rightarrow> string res" where
  "located s = rbind (form_target (getRequestObject (fn_search s))) (\<lambda>(vmc, i). Inr i)"

definition answer_ok :: "string res \<Rightarrow> form_asked \<Rightarrow> form_answer \<Rightarrow> bool" where
  "answer_ok loc a r \<longleftrightarrow>
     (case (a, r) of
        (Asked_Form q, Form_Reply (Some resp)) \<Rightarrow>
          (case fr_item resp of
             None \<Rightarrow> True
           | Some it \<Rightarrow> map_option Inr (itemsCache_key it) = Some loc \<and> (rp_vm (fq_params q) \<longrightarrow> fr_vm resp \<noteq> None))
      | (Asked_Choices rq, Choices_Reply sel) \<Rightarrow> True
      | (Asked_Action, Action_Reply resp) \<Rightarrow>
          (case ar_item resp of None \<Rightarrow> True | Some it \<Rightarrow> map_option Inr (itemsCache_key it) = Some loc)
      | _ \<Rightarrow> True)"

definition orderly :: "form_kind \<Rightarrow> form_event \<Rightarrow> form_session \<Rightarrow> bool" where
  "orderly kind e s \<longleftrightarrow>
     (case e of
        Follow path search \<Rightarrow>
          fn_asked s = [] \<and> contains (form_path kind) path \<and> oget search ''__node'' \<noteq> JUndef \<and>
          (\<exists>t. form_target (getRequestObject search) = Inr t)
      | Type_In nm v \<Rightarrow> nm \<noteq> ''itemInfo''
      | Click_Action \<Rightarrow> True
      | Answer_Form n r \<Rightarrow> n < length (fn_asked s) \<longrightarrow> answer_ok (located s) (fn_asked s ! n) r)"

inductive form_reach :: "form_kind \<Rightarrow> form_session \<Rightarrow> bool" for kind where
  reach_new: "items_typed items \<Longrightarrow> form_reach kind (new_form items w)"
| reach_step: "form_reach kind s \<Longrightarrow> orderly kind e s \<Longrightarrow> form_reach kind (form_step kind e s)"

section \<open>The item shown, the item named and the item acted on\<close>

definition form_pending :: "form_session \<Rightarrow> bool" where
  "form_pending s \<longleftrightarrow>
     (\<forall>q. Asked_Form q \<in> set (fn_asked s) \<and> rp_item (fq_params q) \<longrightarrow>
       fn_asked s = [Asked_Form q] \<and> shown_item s = None \<and>
       (rp_vm (fq_params q) \<or> fs_vm (fw_scope (fn_world s)) \<noteq> None))"

definition item_agrees :: "form_session \<Rightarrow> bool" where
  "item_agrees s \<longleftrightarrow>
     (\<forall>it. shown_item s = Some it \<longrightarrow>
       fw_acted (fn_world s) \<and> fw_actions_item (fn_world s) = Some it \<and> map_option Inr (itemsCache_key it) = Some (located s))"

definition form_inv :: "form_session \<Rightarrow> bool" where
  "form_inv s \<longleftrightarrow> items_typed (fw_items (fn_world s)) \<and> item_agrees s \<and> form_pending s"

lemma key_cong: "oget it' ''itemInfo'' = oget it ''itemInfo'' \<Longrightarrow> itemsCache_key it' = itemsCache_key it"
  by (simp add: itemsCache_key_def item_key_def item_info_def)

lemma sel_no_info: "''itemInfo'' \<noteq> p @ ''__sel''"
  using arg_cong [where f = "\<lambda>s. hd (rev s)", of "''itemInfo''" "p @ ''__sel''"] by auto

lemma item_watch_frame [simp]:
  "fn_world (watch_item s) = fn_world s" "shown_item (watch_item s) = shown_item s"
  "located (watch_item s) = located s"
  by (simp_all add: watch_item_def shown_item_def located_def Let_def)

lemma asked_world: "s\<lparr>fn_asked := a, fn_world := w\<rparr> = s\<lparr>fn_world := w, fn_asked := a\<rparr>"
  by simp

lemma watch_inv: "form_inv s \<Longrightarrow> form_inv (watch_item s)"
proof -
  assume i: "form_inv s"
  have "Asked_Form q \<in> set (fn_asked (watch_item s)) \<Longrightarrow> Asked_Form q \<in> set (fn_asked s)" for q
    by (auto simp: watch_item_def Let_def split: option.splits sum.splits)
  moreover have "shown_item s = None \<Longrightarrow> fn_asked (watch_item s) = fn_asked s"
    by (simp add: watch_item_def)
  ultimately show ?thesis using i
    unfolding form_inv_def item_agrees_def form_pending_def item_watch_frame by metis
qed

lemma becomes_inv:
  assumes "form_inv s" "shown_item s = Some it" "oget it' ''itemInfo'' = oget it ''itemInfo''"
  shows "form_inv (s\<lparr>fn_world := item_becomes it it' (fn_world s)\<rparr>)"
proof -
  have k: "itemsCache_key it' = itemsCache_key it" using assms(3) by (rule key_cong)
  with assms show ?thesis
    by (auto simp: form_inv_def item_agrees_def form_pending_def item_becomes_def items_typed_def
        shown_item_def located_def)
qed

lemma follow_inv:
  assumes "form_inv s" "orderly kind (Follow path search) s"
  shows "form_inv (follow kind path search s)"
proof -
  from assms(2) obtain vmc i where o: "fn_asked s = []" "contains (form_path kind) path"
      "oget search ''__node'' \<noteq> JUndef" and t: "form_target (getRequestObject search) = Inr (vmc, i)"
    by (auto simp: orderly_def)
  have "located (follow kind path search s) = Inr i"
    using t by (simp add: located_def follow_def split: prod.split)
  then show ?thesis
    using assms(1) o t
    by (auto simp: form_inv_def item_agrees_def form_pending_def items_typed_def shown_item_def follow_def
        location_changed_def RequestParams_def Let_def)
qed

lemma has_info_key: "map_option f (itemsCache_key it) = Some x \<Longrightarrow> has_info it"
  by (auto intro: has_info_of_key)

lemma shown_after_texts [simp]: "fs_item (fw_scope (take_texts p r w)) = fs_item (fw_scope w)"
  "fs_vm (fw_scope (take_texts p r w)) = fs_vm (fw_scope w)" "fw_items (take_texts p r w) = fw_items w"
  "fw_actions_item (take_texts p r w) = fw_actions_item w" "fw_acted (take_texts p r w) = fw_acted w"
  by (simp_all add: take_texts_def)

lemma shown_after_vm [simp]: "fs_item (fw_scope (take_vm kind vmc p r w)) = fs_item (fw_scope w)"
  "fw_items (take_vm kind vmc p r w) = fw_items w" "fw_actions_item (take_vm kind vmc p r w) = fw_actions_item w"
  "fw_acted (take_vm kind vmc p r w) = fw_acted w"
  by (simp_all add: take_vm_def split: option.split)

lemma show_item_keeps [simp]: "fs_item (fw_scope (fst (show_item w))) = fs_item (fw_scope w)"
  "fw_items (fst (show_item w)) = fw_items w"
  "fw_cached (fst (show_item w)) = fw_cached w" "fw_cached (take_vm kind vmc p r w) = fw_cached w"
  "fw_cached (take_texts p r w) = fw_cached w"
  by (auto simp: show_item_def Let_def take_vm_def take_texts_def split: option.split sum.split)

lemma show_item_acts: "fw_actions_item (fst (show_item w)) = fw_actions_item w \<or>
    fw_actions_item (fst (show_item w)) = fs_item (fw_scope w)"
  "fw_acted w \<Longrightarrow> fw_acted (fst (show_item w))"
  by (auto simp: show_item_def Let_def split: option.split sum.split)

lemma show_item_vm [simp]: "fs_vm (fw_scope (fst (show_item w))) = fs_vm (fw_scope w)"
  by (auto simp: show_item_def Let_def split: option.split sum.split)

lemma take_vm_kept: "fs_vm (fw_scope w) \<noteq> None \<Longrightarrow> fs_vm (fw_scope (take_vm kind vmc p r w)) \<noteq> None"
  by (simp add: take_vm_def split: option.split)

lemma take_vm_given: "rp_vm p \<Longrightarrow> fr_vm r \<noteq> None \<Longrightarrow> fs_vm (fw_scope (take_vm kind vmc p r w)) \<noteq> None"
  by (auto simp: take_vm_def)

lemma inv_cong:
  assumes "form_inv s" "fw_items (fn_world s') = fw_items (fn_world s)" "shown_item s' = shown_item s"
    and "fw_actions_item (fn_world s') = fw_actions_item (fn_world s) \<or> fw_actions_item (fn_world s') = shown_item s"
    and "fs_vm (fw_scope (fn_world s)) \<noteq> None \<Longrightarrow> fs_vm (fw_scope (fn_world s')) \<noteq> None"
    and "fw_acted (fn_world s) \<Longrightarrow> fw_acted (fn_world s')"
    and "located s' = located s" "fn_asked s' = fn_asked s"
  shows "form_inv s'"
  using assms unfolding form_inv_def item_agrees_def form_pending_def by metis

lemma form_reply_inv:
  assumes "form_inv (s\<lparr>fn_asked := asked\<rparr>)" "answer_ok (located s) (Asked_Form q) (Form_Reply resp)"
    and "rp_item (fq_params q) \<Longrightarrow> asked = [] \<and> shown_item s = None \<and>
       (rp_vm (fq_params q) \<or> fs_vm (fw_scope (fn_world s)) \<noteq> None)"
  shows "form_inv (s\<lparr>fn_world := fst (form_reply kind q resp (fn_world s)), fn_asked := asked\<rparr>)"
proof (cases resp)
  case None
  with assms(1) show ?thesis by (simp add: form_reply_def)
next
  case (Some r)
  let ?w = "fn_world s"
  let ?u = "take_item (fq_params q) r ?w"
  let ?v = "take_texts (fq_params q) r (take_vm kind (fq_vmc q) (fq_params q) r ?u)"
  have reply: "fst (form_reply kind q resp ?w) = fst (show_item ?v)" by (simp add: Some form_reply_def)
  show ?thesis
  proof (cases "rp_item (fq_params q)")
    case False
    then have u: "?u = ?w" by (simp add: take_item_def split: option.split)
    show ?thesis
      unfolding reply
    proof (rule inv_cong [OF assms(1)])
      show "fw_actions_item (fn_world (s\<lparr>fn_world := fst (show_item ?v), fn_asked := asked\<rparr>)) =
          fw_actions_item (fn_world (s\<lparr>fn_asked := asked\<rparr>)) \<or>
        fw_actions_item (fn_world (s\<lparr>fn_world := fst (show_item ?v), fn_asked := asked\<rparr>)) =
          shown_item (s\<lparr>fn_asked := asked\<rparr>)"
        using show_item_acts(1) [of ?v] u by (simp add: shown_item_def)
    qed (use take_vm_kept [of ?w] show_item_acts(2) [of ?v] u in \<open>simp_all add: shown_item_def located_def\<close>)
  next
    case True
    note t = assms(3) [OF True]
    have typed: "items_typed (fw_items ?w)" using assms(1) by (simp add: form_inv_def)
    show ?thesis
    proof (cases "fr_item r")
      case None
      then have "?u = ?w" by (simp add: take_item_def)
      with t typed show ?thesis
        unfolding reply by (simp add: form_inv_def item_agrees_def form_pending_def shown_item_def)
    next
      case (Some it)
      have ok: "map_option Inr (itemsCache_key it) = Some (located s)"
        and vm: "rp_vm (fq_params q) \<longrightarrow> fr_vm r \<noteq> None"
        using assms(2) Some \<open>resp = Some r\<close> by (simp_all add: answer_ok_def)
      have u: "fs_item (fw_scope ?u) = Some it" "fw_items ?u = itemsCache_put (fw_items ?w) it"
        "fs_vm (fw_scope ?u) = fs_vm (fw_scope ?w)"
        using Some True by (simp_all add: take_item_def)
      have "fs_vm (fw_scope ?v) \<noteq> None"
        using t vm take_vm_given take_vm_kept [of ?u] u(3) by (cases "rp_vm (fq_params q)") auto
      then obtain a where "fs_vm (fw_scope ?v) = Some a" by blast
      with show_item_ok [of ?v it a] u has_info_key [OF ok]
      have "fw_actions_item (fst (show_item ?v)) = Some it" "fw_acted (fst (show_item ?v))" by fastforce+
      with ok t typed u show ?thesis
        unfolding reply
        by (simp add: form_inv_def item_agrees_def form_pending_def shown_item_def located_def put_typed)
    qed
  qed
qed

text \<open>Taking a request away, and adding one that is not for a form with its item.\<close>

lemma set_drop_nth: "set (drop_nth n xs) \<subseteq> set xs"
  by (auto simp: drop_nth_def dest: in_set_takeD in_set_dropD)

lemma pendingD:
  assumes "form_inv s" "Asked_Form q \<in> set (fn_asked s)" "rp_item (fq_params q)"
  shows "fn_asked s = [Asked_Form q]" "shown_item s = None"
    "rp_vm (fq_params q) \<or> fs_vm (fw_scope (fn_world s)) \<noteq> None"
  using assms unfolding form_inv_def form_pending_def by blast+

lemma no_pending: "(\<And>q. Asked_Form q \<in> set (fn_asked s) \<Longrightarrow> \<not> rp_item (fq_params q)) \<Longrightarrow> form_pending s"
  unfolding form_pending_def by blast

lemma drop_inv: "form_inv s \<Longrightarrow> form_inv (s\<lparr>fn_asked := drop_nth n (fn_asked s)\<rparr>)"
proof -
  assume i: "form_inv s"
  have "form_pending (s\<lparr>fn_asked := drop_nth n (fn_asked s)\<rparr>)"
    unfolding form_pending_def
  proof (intro allI impI)
    fix q
    assume q: "Asked_Form q \<in> set (fn_asked (s\<lparr>fn_asked := drop_nth n (fn_asked s)\<rparr>)) \<and> rp_item (fq_params q)"
    then have m: "Asked_Form q \<in> set (drop_nth n (fn_asked s))" by simp
    then have "Asked_Form q \<in> set (fn_asked s)" by (rule subsetD [OF set_drop_nth])
    note a = pendingD [OF i this conjunct2 [OF q]]
    from m a(1) have "drop_nth n (fn_asked s) = [Asked_Form q]" by (cases n) (simp_all add: drop_nth_def)
    with a(2,3) show "fn_asked (s\<lparr>fn_asked := drop_nth n (fn_asked s)\<rparr>) = [Asked_Form q] \<and>
        shown_item (s\<lparr>fn_asked := drop_nth n (fn_asked s)\<rparr>) = None \<and>
        (rp_vm (fq_params q) \<or> fs_vm (fw_scope (fn_world (s\<lparr>fn_asked := drop_nth n (fn_asked s)\<rparr>))) \<noteq> None)"
      by (simp add: shown_item_def)
  qed
  with i show ?thesis by (simp add: form_inv_def item_agrees_def shown_item_def located_def)
qed

lemma pending_inv:
  assumes "form_inv s" "n < length (fn_asked s)" "fn_asked s ! n = Asked_Form q" "rp_item (fq_params q)"
  shows "drop_nth n (fn_asked s) = [] \<and> shown_item s = None \<and>
    (rp_vm (fq_params q) \<or> fs_vm (fw_scope (fn_world s)) \<noteq> None)"
proof -
  have "Asked_Form q \<in> set (fn_asked s)" using assms(2,3) nth_mem by metis
  note a = pendingD [OF assms(1) this assms(4)]
  from a(1) assms(2) have "drop_nth n (fn_asked s) = []" by (simp add: drop_nth_def)
  with a(2,3) show ?thesis by blast
qed

lemma add_inv:
  assumes "form_inv s" "shown_item s \<noteq> None" "\<And>q. a \<noteq> Asked_Form q"
  shows "form_inv (s\<lparr>fn_asked := fn_asked s @ [a]\<rparr>)"
  using assms unfolding form_inv_def item_agrees_def form_pending_def shown_item_def located_def by auto

lemma choices_inv: "form_inv s \<Longrightarrow> form_inv (s\<lparr>fn_world := selections_arrive sel (fn_world s)\<rparr>)"
proof (cases "shown_item s")
  case (Some it)
  assume "form_inv s"
  moreover have "oget (fold (\<lambda>(nm, v) i. oset i (nm @ ''__sel'') v) sel it) ''itemInfo'' = oget it ''itemInfo''"
    by (rule selections_other) (rule sel_no_info)
  ultimately show ?thesis
    using becomes_inv Some by (simp add: selections_arrive_def shown_item_def)
qed (simp add: selections_arrive_def shown_item_def)

lemma vm_inv:
  assumes "form_inv s" "\<And>q. Asked_Form q \<in> set (fn_asked s) \<Longrightarrow> \<not> rp_item (fq_params q)"
  shows "form_inv (s\<lparr>fn_world := form_vm_reply params vm (fn_world s)\<rparr>)"
proof -
  have "fw_items (form_vm_reply params vm w) = fw_items w" "fw_actions_item (form_vm_reply params vm w) = fw_actions_item w"
    "fs_item (fw_scope (form_vm_reply params vm w)) = fs_item (fw_scope w)" "fw_acted (form_vm_reply params vm w) = fw_acted w" for w
    by (simp_all add: form_vm_reply_def split: option.split)
  moreover have "form_pending (s\<lparr>fn_world := form_vm_reply params vm (fn_world s)\<rparr>)"
    by (rule no_pending) (use assms(2) in simp)
  ultimately show ?thesis
    using assms(1) by (simp add: form_inv_def item_agrees_def shown_item_def located_def)
qed

lemma action_inv:
  assumes "form_inv s" "answer_ok (located s) Asked_Action (Action_Reply resp)"
    and "\<And>q. Asked_Form q \<in> set (fn_asked s) \<Longrightarrow> \<not> rp_item (fq_params q)"
  shows "form_inv (answer_form kind Asked_Action (Action_Reply resp) s)"
proof (cases "truthy (ar_redirect resp) \<or> ar_item resp = None")
  case True
  then have "answer_form kind Asked_Action (Action_Reply resp) s =
      s\<lparr>fn_world := snd (form_action_reply kind resp (fn_world s))\<rparr>"
    by (auto simp: answer_form_def form_action_reply_def)
  moreover have "fw_scope (snd (form_action_reply kind resp (fn_world s))) = fw_scope (fn_world s)"
    "fw_items (snd (form_action_reply kind resp (fn_world s))) = fw_items (fn_world s)"
    "fw_actions_item (snd (form_action_reply kind resp (fn_world s))) = fw_actions_item (fn_world s)"
    "fw_acted (snd (form_action_reply kind resp (fn_world s))) = fw_acted (fn_world s)"
    using True by (auto simp: form_action_reply_def)
  ultimately show ?thesis
    using inv_cong [OF assms(1), of "answer_form kind Asked_Action (Action_Reply resp) s"]
    by (simp add: shown_item_def located_def)
next
  case False
  then obtain it where it: "ar_item resp = Some it" "\<not> truthy (ar_redirect resp)" by blast
  let ?s = "answer_form kind Asked_Action (Action_Reply resp) s"
  have "map_option Inr (itemsCache_key it) = Some (located s)" using assms(2) it by (simp add: answer_ok_def)
  moreover have f: "shown_item ?s = Some it" "fw_acted (fn_world ?s) \<and> fw_actions_item (fn_world ?s) = Some it"
    "fw_items (fn_world ?s) = fw_items (fn_world s)" "located ?s = located s"
    "\<And>q. Asked_Form q \<in> set (fn_asked ?s) \<Longrightarrow> Asked_Form q \<in> set (fn_asked s)"
    using it by (auto simp: answer_form_def form_action_reply_def shown_item_def located_def Let_def
        split: prod.splits sum.splits option.splits)
  moreover have "form_pending ?s" by (rule no_pending) (use f(5) assms(3) in blast)
  ultimately show ?thesis using assms(1) by (simp add: form_inv_def item_agrees_def)
qed

lemma others_inv:
  assumes "form_inv s" "n < length (fn_asked s)" "\<And>q. fn_asked s ! n \<noteq> Asked_Form q"
    and "Asked_Form q \<in> set (drop_nth n (fn_asked s))"
  shows "\<not> rp_item (fq_params q)"
proof
  assume "rp_item (fq_params q)"
  moreover have "Asked_Form q \<in> set (fn_asked s)" by (rule subsetD [OF set_drop_nth assms(4)])
  ultimately have "fn_asked s = [Asked_Form q]" by (rule pendingD(1) [OF assms(1), rotated])
  with assms(2) assms(3) [of q] show False by (cases n) simp_all
qed

lemma answer_inv:
  assumes "form_inv s" "n < length (fn_asked s)" "answer_ok (located s) (fn_asked s ! n) r"
  shows "form_inv (answer_form kind (fn_asked s ! n) r (s\<lparr>fn_asked := drop_nth n (fn_asked s)\<rparr>))"
proof -
  let ?s = "s\<lparr>fn_asked := drop_nth n (fn_asked s)\<rparr>"
  have i: "form_inv ?s" by (rule drop_inv [OF assms(1)])
  note other = others_inv [OF assms(1,2)]
  have ok: "located ?s = located s" by (simp add: located_def)
  show ?thesis
  proof (cases "fn_asked s ! n")
    case (Asked_Form q)
    show ?thesis
    proof (cases r)
      case (Form_Reply resp)
      have "form_inv (s\<lparr>fn_world := fst (form_reply kind q resp (fn_world s)), fn_asked := drop_nth n (fn_asked s)\<rparr>)"
      proof (rule form_reply_inv [OF i])
        show "answer_ok (located s) (form_asked.Asked_Form q) (form_answer.Form_Reply resp)"
          using assms(3) Asked_Form Form_Reply by simp
      qed (rule pending_inv [OF assms(1,2) Asked_Form])
      then have "form_inv (s\<lparr>fn_asked := drop_nth n (fn_asked s), fn_world := fst (form_reply kind q resp (fn_world s))\<rparr>)"
        by (simp only: asked_world)
      with Asked_Form Form_Reply show ?thesis by (simp add: answer_form_def)
    qed (use i Asked_Form in \<open>simp_all add: answer_form_def\<close>)
  next
    case (Asked_Choices rq)
    with i choices_inv [OF i] show ?thesis by (cases r) (simp_all add: answer_form_def)
  next
    case Asked_Action
    show ?thesis
    proof (cases r)
      case (Action_Reply resp)
      show ?thesis
        unfolding Asked_Action Action_Reply
        by (rule action_inv [OF i]) (use assms(3) ok other Asked_Action Action_Reply in auto)
    qed (use i Asked_Action in \<open>simp_all add: answer_form_def\<close>)
  next
    case (Asked_Vm params)
    have "form_inv (?s\<lparr>fn_world := form_vm_reply params vm (fn_world ?s)\<rparr>)" for vm
      by (rule vm_inv [OF i]) (use other Asked_Vm in auto)
    then show ?thesis using Asked_Vm by (cases r) (simp_all add: answer_form_def)
  qed
qed

lemma form_step_inv:
  assumes "form_inv s" "orderly kind e s"
  shows "form_inv (form_step kind e s)"
  unfolding form_step_def
proof (rule watch_inv, cases e)
  case (Follow path search)
  with assms follow_inv show "form_inv (form_act kind e s)" by (simp add: form_act_def)
next
  case (Type_In nm v)
  show "form_inv (form_act kind e s)"
  proof (cases "shown_item s")
    case (Some it)
    with becomes_inv [OF assms(1) Some, of "oset it nm v"] assms(2) Type_In show ?thesis
      by (simp add: form_act_def type_in_def orderly_def)
  qed (use assms(1) Type_In in \<open>simp add: form_act_def type_in_def\<close>)
next
  case Click_Action
  with assms(1) add_inv show "form_inv (form_act kind e s)" by (simp add: form_act_def)
next
  case (Answer_Form n r)
  with assms answer_inv show "form_inv (form_act kind e s)" by (simp add: form_act_def orderly_def)
qed

lemma form_reach_inv: "form_reach kind s \<Longrightarrow> form_inv s"
proof (induction rule: form_reach.induct)
  case (reach_new items w)
  then show ?case
    by (simp add: form_inv_def item_agrees_def form_pending_def new_form_def shown_item_def init_form_scope_def)
next
  case (reach_step s e)
  then show ?case by (rule_tac form_step_inv)
qed

section \<open>Properties\<close>

lemma action_params_id:
  assumes "wf_obj it" "oget it ''itemInfo'' = JArr info" "oget it ''itemInfo__url'' = JUndef"
    and "itemsCache_key it = Some k" "action_params a it rp = Inr rq"
  shows "oget rq ''__id'' = JStr k"
proof -
  obtain rq0 where p: "prepareReqItem it = Inr rq0"
    using assms(5) by (cases "prepareReqItem it") (auto simp: action_params_def)
  have m: "''itemInfo'' \<in> set (onames it)" using oget_absent [of "''itemInfo''" it] assms(2) by fastforce
  have n: "\<not> inner_name ''itemInfo''" by code_simp
  from request_loop_get [OF assms(1) m p [unfolded prepareReqItem_def]] obtain w
    where w: "request_value it ''itemInfo'' (oget it ''itemInfo'') = Inr w"
      "oget rq0 ''itemInfo'' = (case w of None \<Rightarrow> oget [] ''itemInfo'' | Some x \<Rightarrow> x)" by blast
  from request_value_sent [OF n _ w(1)] assms(2,3) w(2) have i: "oget rq0 ''itemInfo'' = oget it ''itemInfo''"
    by simp
  from assms(4) have "item_key '':'' it = Inr k"
    by (cases "item_key '':'' it") (simp_all add: itemsCache_key_def split: if_splits)
  with i have "item_key '':'' rq0 = Inr k" by (simp add: item_key_def item_info_def)
  with p i assms(2,5) show ?thesis by (auto simp: action_params_def default_param_get)
qed

text \<open>
  C3: The form acts on what it shows: in an orderly session, whatever is typed, chosen and answered in
  between, the item of the form is the one that the location names, the actions' rules refer to this very
  item, and the request of any action on it names it to the server; and the items cache never holds an
  item under another one's name.
\<close>

theorem form_acts_on_located_item:
  assumes "form_reach kind s" "fs_item (fw_scope (fn_world s)) = Some it"
    and "form_target (getRequestObject (fn_search s)) = Inr (vmc, i)"
  shows "itemsCache_key it = Some i \<and> fw_actions_item (fn_world s) = Some it \<and>
    (wf_obj it \<and> (\<exists>info. oget it ''itemInfo'' = JArr info) \<and> oget it ''itemInfo__url'' = JUndef \<longrightarrow>
      (\<forall>a rp rq. action_params a it rp = Inr rq \<longrightarrow> oget rq ''__id'' = JStr i)) \<and>
    (\<forall>k it'. fw_items (fn_world s) k = Some it' \<longrightarrow> itemsCache_key it' = Some k)"
proof -
  have "itemsCache_key it = Some i" "fw_actions_item (fn_world s) = Some it"
    "\<forall>k it'. fw_items (fn_world s) k = Some it' \<longrightarrow> itemsCache_key it' = Some k"
    using form_reach_inv [OF assms(1)] assms(2,3)
    by (auto simp: form_inv_def item_agrees_def shown_item_def located_def items_typed_def)
  then show ?thesis using action_params_id by blast
qed

definition form_location :: "string \<Rightarrow> jsobj" where
  "form_location k = [(''__node'', JStr ''n''), (''__id'', JStr k)]"

definition answer_with :: "jsobj \<Rightarrow> form_answer" where
  "answer_with it = Form_Reply (Some \<lparr>fr_item = Some it, fr_vm = Some [], fr_breadcrumbs = JUndef, fr_validators = JUndef\<rparr>)"

lemma form_target_location [simp]: "form_target (getRequestObject (form_location k)) = Inr (hd (split_on CHR '':'' k), k)"
  if "k \<noteq> []"
  using that by (cases k) (simp_all add: form_target_def getRequestObject_def copy_truthy_def form_location_def)

text \<open>The form opened on an item that was not cached.\<close>

definition opened :: "string \<Rightarrow> string \<Rightarrow> jsobj \<Rightarrow> form_session" where
  "opened c i fs =
     form_step Edit_Form (Answer_Form 0 (answer_with (mk_item c i fs)))
       (form_step Edit_Form (Follow ''/item'' (form_location (c @ '':'' @ i))) (new_form (\<lambda>_. None) empty_form_world))"

lemma opened_reach: "form_reach Edit_Form (opened c i fs)"
proof -
  have n: "form_reach Edit_Form (new_form (\<lambda>_. None) empty_form_world)"
    by (rule form_reach.reach_new) (simp add: items_typed_def)
  let ?f = "form_step Edit_Form (Follow ''/item'' (form_location (c @ '':'' @ i))) (new_form (\<lambda>_. None) empty_form_world)"
  have ok: "orderly Edit_Form (Follow ''/item'' (form_location (c @ '':'' @ i))) (new_form (\<lambda>_. None) empty_form_world)"
    by (simp add: orderly_def new_form_def contains_def) (simp add: form_location_def)
  then have f: "form_reach Edit_Form ?f" by (rule form_reach.reach_step [OF n])
  have "located ?f = Inr (c @ '':'' @ i)"
    by (simp add: form_step_def form_act_def) (simp add: located_def follow_def split: prod.split)
  then have "orderly Edit_Form (Answer_Form 0 (answer_with (mk_item c i fs))) ?f"
    by (simp add: orderly_def answer_ok_def answer_with_def split: form_asked.split)
  then show ?thesis unfolding opened_def by (rule form_reach.reach_step [OF f])
qed

text \<open>Following the location of an item that is not cached, and its answer.\<close>

lemma follow_uncached:
  fixes s k
  defines "s' \<equiv> form_step Edit_Form (Follow ''/item'' (form_location k)) s"
  assumes "k \<noteq> []" "fw_items (fn_world s) k = None"
  shows "fn_search s' = form_location k \<and> fn_seen s' = None \<and> fw_items (fn_world s') = fw_items (fn_world s) \<and>
    (\<exists>q. fn_asked s' = fn_asked s @ [Asked_Form q] \<and> rp_item (fq_params q))"
proof -
  have "contains (form_path Edit_Form) ''/item''" by (simp add: contains_def)
  moreover have "oget (form_location k) ''__node'' \<noteq> JUndef" by (simp add: form_location_def)
  ultimately show ?thesis
    unfolding s'_def using assms(2,3)
    by (simp add: form_step_def form_act_def follow_def location_changed_def watch_item_def shown_item_def
        RequestParams_def Let_def)
qed

lemma answer_uncached:
  fixes s c i fs
  defines "s' \<equiv> form_step Edit_Form (Answer_Form 0 (answer_with (mk_item c i fs))) s"
  assumes "fn_asked s = [Asked_Form q]" "rp_item (fq_params q)" "fn_seen s = None"
  shows "fn_search s' = fn_search s \<and> fn_asked s' = [] \<and> fn_seen s' = Some (mk_item c i fs) \<and>
    fs_item (fw_scope (fn_world s')) = Some (mk_item c i fs) \<and> fw_cached (fn_world s') \<and>
    fw_items (fn_world s') = (fw_items (fn_world s))(c @ '':'' @ i \<mapsto> mk_item c i fs)"
proof -
  let ?w = "fst (form_reply Edit_Form q (Some \<lparr>fr_item = Some (mk_item c i fs), fr_vm = Some [], fr_breadcrumbs = JUndef,
      fr_validators = JUndef\<rparr>) (fn_world s))"
  have "fs_item (fw_scope ?w) = Some (mk_item c i fs)" "fw_cached ?w"
    "fw_items ?w = (fw_items (fn_world s))(c @ '':'' @ i \<mapsto> mk_item c i fs)"
    using assms(3) by (simp_all add: form_reply_def take_item_def itemsCache_put_def)
  then show ?thesis
    unfolding s'_def using assms(2,4)
    by (simp add: form_step_def form_act_def answer_with_def answer_form_def drop_nth_def watch_item_def
        shown_item_def item_watch_def)
qed

lemma opened_state:
  "fs_item (fw_scope (fn_world (opened c i fs))) = Some (mk_item c i fs) \<and>
   fw_cached (fn_world (opened c i fs)) \<and> fw_items (fn_world (opened c i fs)) = [c @ '':'' @ i \<mapsto> mk_item c i fs] \<and>
   fn_search (opened c i fs) = form_location (c @ '':'' @ i) \<and> fn_asked (opened c i fs) = [] \<and>
   fn_seen (opened c i fs) = Some (mk_item c i fs)"
proof -
  let ?n = "new_form (\<lambda>_. None) empty_form_world" and ?k = "c @ '':'' @ i"
  let ?f = "form_step Edit_Form (Follow ''/item'' (form_location ?k)) ?n"
  have n: "?k \<noteq> []" "fw_items (fn_world ?n) ?k = None" "fn_asked ?n = []" "fw_items (fn_world ?n) = (\<lambda>_. None)"
    by (simp_all add: new_form_def)
  from follow_uncached [OF n(1,2)] n obtain q
    where f: "fn_asked ?f = [Asked_Form q]" "rp_item (fq_params q)" "fn_seen ?f = None"
      "fn_search ?f = form_location ?k" "fw_items (fn_world ?f) = (\<lambda>_. None)" by auto
  from answer_uncached [OF f(1,2,3), of c i fs] f(4,5) show ?thesis
    unfolding opened_def by simp
qed

lemma form_acts_on_located_item_witness:
  "itemsCache_key (mk_item ''A'' ''1'' []) = Some ''A:1'' \<and>
    fw_actions_item (fn_world (opened ''A'' ''1'' [])) = Some (mk_item ''A'' ''1'' [])"
  using form_acts_on_located_item [OF opened_reach opened_state [of "''A''" "''1''" "[]", THEN conjunct1], of "''A''" "''A:1''"]
  by (simp add: opened_state)

section \<open>Leaving and coming back\<close>

text \<open>A part of a session in which the form stays away from one item.\<close>

fun stays_away :: "form_kind \<Rightarrow> string \<Rightarrow> form_event list \<Rightarrow> form_session \<Rightarrow> bool" where
  "stays_away kind k [] s \<longleftrightarrow> True"
| "stays_away kind k (e # es) s \<longleftrightarrow>
     orderly kind e s \<and> located (form_step kind e s) \<noteq> Inr k \<and> stays_away kind k es (form_step kind e s)"

lemma becomes_other:
  "fw_items w k \<noteq> Some it \<Longrightarrow> fw_items (item_becomes it it' w) k = fw_items w k"
  by (simp add: item_becomes_def)

lemma form_reply_items:
  assumes "answer_ok loc (Asked_Form q) (Form_Reply resp)" "loc \<noteq> Inr k"
  shows "fw_items (fst (form_reply kind q resp w)) k = fw_items w k"
proof (cases resp)
  case (Some r)
  have "fw_items (take_item (fq_params q) r w) k = fw_items w k"
    using assms Some by (auto simp: take_item_def answer_ok_def itemsCache_put_def split: option.split)
  with Some show ?thesis by (simp add: form_reply_def)
qed (simp add: form_reply_def)

lemma selections_other_item:
  assumes "form_inv s" "located s \<noteq> Inr k" "shown_item s = Some it"
  shows "fw_items (fn_world s) k \<noteq> Some it"
proof
  assume "fw_items (fn_world s) k = Some it"
  with assms(1) have "itemsCache_key it = Some k" by (auto simp: form_inv_def items_typed_def)
  with assms show False by (auto simp: form_inv_def item_agrees_def)
qed

lemma answer_kept:
  assumes "form_inv s" "located s \<noteq> Inr k" "answer_ok (located s) a r"
  shows "fw_items (fn_world (answer_form kind a r s)) k = fw_items (fn_world s) k"
proof -
  have v: "fw_items (form_vm_reply params vm w) = fw_items w" for params vm w
    by (simp add: form_vm_reply_def split: option.split)
  show ?thesis
  proof (cases a)
    case (Asked_Form q)
    with assms(2,3) form_reply_items [of "located s" q _ k kind "fn_world s"] show ?thesis
      by (cases r) (auto simp: answer_form_def)
  next
    case (Asked_Choices rq)
    with selections_other_item [OF assms(1,2)] show ?thesis
      by (cases r) (auto simp: answer_form_def selections_arrive_def becomes_other shown_item_def split: option.split)
  next
    case Asked_Action
    then show ?thesis
      by (cases r) (auto simp: answer_form_def form_action_reply_def Let_def split: prod.split option.split)
  next
    case (Asked_Vm params)
    then show ?thesis by (cases r) (simp_all add: answer_form_def v)
  qed
qed

lemma drop_located [simp]: "located (s\<lparr>fn_asked := a\<rparr>) = located s" "shown_item (s\<lparr>fn_asked := a\<rparr>) = shown_item s"
  by (simp_all add: located_def shown_item_def)

lemma act_located: "(\<And>path search. e \<noteq> Follow path search) \<Longrightarrow> located (form_act kind e s) = located s"
  by (cases e) (auto simp: form_act_def type_in_def answer_form_def located_def split: option.split
      form_asked.split form_answer.split prod.split)

lemma away_kept:
  assumes "form_inv s" "orderly kind e s" "located (form_step kind e s) \<noteq> Inr k"
  shows "fw_items (fn_world (form_step kind e s)) k = fw_items (fn_world s) k"
proof (cases e)
  case (Follow path search)
  have "fw_items (snd (location_changed kind path search w)) = fw_items w" for w
    by (auto simp: location_changed_def Let_def split: sum.split)
  then show ?thesis by (simp add: Follow form_step_def form_act_def follow_def case_prod_beta)
next
  case (Type_In nm v)
  then have l: "located s \<noteq> Inr k" using assms(3) act_located [of e kind s] by (simp add: form_step_def)
  show ?thesis
    using Type_In selections_other_item [OF assms(1) l]
    by (auto simp: form_step_def form_act_def type_in_def becomes_other split: option.split)
next
  case Click_Action
  then show ?thesis by (simp add: form_step_def form_act_def)
next
  case (Answer_Form n r)
  then have l: "located s \<noteq> Inr k" using assms(3) act_located [of e kind s] by (simp add: form_step_def)
  show ?thesis
  proof (cases "n < length (fn_asked s)")
    case True
    have "answer_ok (located s) (fn_asked s ! n) r" using assms(2) Answer_Form True by (simp add: orderly_def)
    with answer_kept [OF drop_inv [OF assms(1)], where k = k and a = "fn_asked s ! n" and r = r and kind = kind] l True Answer_Form
    show ?thesis by (simp add: form_step_def form_act_def)
  qed (use Answer_Form in \<open>simp add: form_step_def form_act_def\<close>)
qed

lemma stays_away_kept:
  "form_inv s \<Longrightarrow> stays_away kind k es s \<Longrightarrow>
    fw_items (fn_world (fold (form_step kind) es s)) k = fw_items (fn_world s) k"
proof (induction es arbitrary: s)
  case (Cons e es)
  from Cons.prems have "fw_items (fn_world (form_step kind e s)) k = fw_items (fn_world s) k"
    by (intro away_kept) simp_all
  with Cons.IH [OF form_step_inv] Cons.prems show ?case by simp
qed simp

lemma follow_cached:
  assumes "orderly kind (Follow path search) s" "form_target (getRequestObject search) = Inr (vmc, k)"
    and "fw_items (fn_world s) k = Some it"
  shows "shown_item (form_step kind (Follow path search) s) = Some it \<and>
    (\<exists>q. Asked_Form q \<in> set (fn_asked (form_step kind (Follow path search) s)) \<and> \<not> rp_item (fq_params q))"
  using assms
  by (simp add: orderly_def form_step_def form_act_def follow_def location_changed_def watch_item_def shown_item_def
      RequestParams_def Let_def)

text \<open>
  C14: Unsaved changes are kept from form to form: what was typed into an item that came with the form or from
  the cache is there again when the form comes back to it, at once and without asking the server for the item,
  and the item's other properties are as they were.  In between the form may have been at any other items, in
  an orderly session of the form; a list that is visited meanwhile and shows the item is no part of that, for
  it puts its own object of the item into the cache.
\<close>

theorem unsaved_changes_come_back:
  assumes "form_reach kind s" "fs_item (fw_scope (fn_world s)) = Some it" "fw_items (fn_world s) k = Some it"
    and "fw_cached (fn_world s)" "nm \<noteq> ''itemInfo''" "s1 = form_step kind (Type_In nm v) s" "stays_away kind k es s1"
    and "s2 = fold (form_step kind) es s1" "orderly kind (Follow path search) s2"
    and "form_target (getRequestObject search) = Inr (vmc, k)"
  shows "\<exists>it' q. fs_item (fw_scope (fn_world (form_step kind (Follow path search) s2))) = Some it' \<and>
    (\<forall>p. oget it' p = (if p = nm then v else oget it p)) \<and>
    Asked_Form q \<in> set (fn_asked (form_step kind (Follow path search) s2)) \<and> \<not> rp_item (fq_params q)"
proof -
  have o: "orderly kind (Type_In nm v) s" using assms(5) by (simp add: orderly_def)
  have "fw_items (fn_world s1) k = Some (oset it nm v)"
    using assms(2,3,4,6) by (simp add: form_step_def form_act_def type_in_def shown_item_def item_becomes_def)
  with stays_away_kept [OF form_step_inv [OF form_reach_inv [OF assms(1)] o]] assms(6-8)
  have "fw_items (fn_world s2) k = Some (oset it nm v)" by metis
  from follow_cached [OF assms(9,10) this] show ?thesis by (auto simp: shown_item_def)
qed

text \<open>
  A visit to a list that shows the item loses the changes: the list puts every row into the cache that the
  form reads, so when the form comes back it shows the row, without what was typed.
\<close>

lemma list_visit_loses_changes:
  assumes "vget data ''data'' = Inr (JArr (map JObj its))" "row \<in> set its" "itemsCache_key row = Some k"
    and "\<And>x. x \<in> set its \<Longrightarrow> itemsCache_key x = Some k \<Longrightarrow> x = row"
    and "fw_items (fn_world s) = itemsCache (snd (getList_reply data d))"
    and "orderly kind (Follow path search) s" "form_target (getRequestObject search) = Inr (vmc, k)"
  shows "fs_item (fw_scope (fn_world (form_step kind (Follow path search) s))) = Some row"
proof -
  have "data \<noteq> JUndef" using assms(1) by auto
  then have "itemsCache (snd (getList_reply data d)) = foldl itemsCache_put (itemsCache d) its"
    using assms(1) by (simp add: getList_reply_def put_values_objects)
  with items_store.get_put_list_mem [OF assms(2,3,4), of "itemsCache d"] have "fw_items (fn_world s) k = Some row"
    using assms(5) by (simp add: itemsCache_get_def)
  from follow_cached [OF assms(6,7) this] show ?thesis by (simp add: shown_item_def)
qed

text \<open>
  The answer to a saving action is shown but not cached: when the form comes back to the item, it
  shows the object from before the save, without what the server has made of it and without what the
  user has typed since.
\<close>

lemma saved_item_forgotten:
  assumes "form_reach kind s" "fw_items (fn_world s) k = Some it" "ar_item resp = Some saved" "\<not> truthy (ar_redirect resp)"
    and "n < length (fn_asked s)" "fn_asked s ! n = Asked_Action" "orderly kind (Answer_Form n (Action_Reply resp)) s"
    and "s0 = form_step kind (Answer_Form n (Action_Reply resp)) s" "nm \<noteq> ''itemInfo''"
    and "s1 = form_step kind (Type_In nm v) s0" "stays_away kind k es s1"
    and "s2 = fold (form_step kind) es s1" "orderly kind (Follow path search) s2"
    and "form_target (getRequestObject search) = Inr (vmc, k)"
  shows "fs_item (fw_scope (fn_world s1)) = Some (oset saved nm v) \<and>
    fs_item (fw_scope (fn_world (form_step kind (Follow path search) s2))) = Some it"
proof -
  have s0: "shown_item s0 = Some saved" "\<not> fw_cached (fn_world s0)" "fw_items (fn_world s0) = fw_items (fn_world s)"
    using assms(3-6,8)
    by (auto simp: form_step_def form_act_def answer_form_def form_action_reply_def shown_item_def Let_def split: prod.split)
  then have shown: "shown_item s1 = Some (oset saved nm v)" and "fw_items (fn_world s1) = fw_items (fn_world s)"
    unfolding assms(10) by (auto simp: form_step_def form_act_def type_in_def shown_item_def item_becomes_def fun_eq_iff)
  moreover have "form_inv s1"
    unfolding assms(10,8)
    using form_step_inv form_reach_inv [OF assms(1)] assms(7,9) by (simp add: orderly_def)
  ultimately have "fw_items (fn_world s2) k = Some it"
    using stays_away_kept assms(2,11,12) by metis
  from follow_cached [OF assms(13,14) this] shown show ?thesis by (simp add: shown_item_def)
qed

text \<open>A session at two items: the first is changed, the second opened, the first opened again.\<close>

lemma located_opened: "located (opened c i fs) = Inr (c @ '':'' @ i)"
  using opened_state [of c i fs] by (simp add: located_def)

lemma follow_orderly: "k \<noteq> [] \<Longrightarrow> fn_asked s = [] \<Longrightarrow> orderly Edit_Form (Follow ''/item'' (form_location k)) s"
  by (simp add: orderly_def contains_def) (simp add: form_location_def)

lemma follow_located: "k \<noteq> [] \<Longrightarrow> located (form_step Edit_Form (Follow ''/item'' (form_location k)) s) = Inr k"
  by (simp add: form_step_def form_act_def) (simp add: located_def follow_def case_prod_beta)

definition typed :: "string \<Rightarrow> jsval \<Rightarrow> form_session" where
  "typed nm v = form_step Edit_Form (Type_In nm v) (opened ''A'' ''1'' [])"

lemma typed_state:
  assumes "nm = ''name''"
  shows "fn_asked (typed nm v) = [] \<and> fw_items (fn_world (typed nm v)) ''A:2'' = None"
  using opened_state [of "''A''" "''1''" "[]"] assms
  by (simp add: typed_def form_step_def form_act_def type_in_def shown_item_def item_becomes_def watch_item_def
      trigger_list_def item_watch_def mk_item_def)

lemma unsaved_changes_come_back_witness:
  "\<exists>it'. fs_item (fw_scope (fn_world (form_step Edit_Form (Follow ''/item'' (form_location ''A:1''))
      (form_step Edit_Form (Answer_Form 0 (answer_with (mk_item ''A'' ''2'' [])))
        (form_step Edit_Form (Follow ''/item'' (form_location ''A:2'')) (typed ''name'' (JStr ''x''))))))) = Some it' \<and>
    oget it' ''name'' = JStr ''x''"
proof -
  let ?t = "typed ''name'' (JStr ''x'')"
  let ?f = "form_step Edit_Form (Follow ''/item'' (form_location ''A:2'')) ?t"
  let ?a = "form_step Edit_Form (Answer_Form 0 (answer_with (mk_item ''A'' ''2'' []))) ?f"
  have ts: "fn_asked ?t = []" "fw_items (fn_world ?t) ''A:2'' = None" using typed_state by simp_all
  from follow_uncached [of "''A:2''" ?t] ts obtain q
    where q: "fn_asked ?f = [Asked_Form q]" "rp_item (fq_params q)" "fn_seen ?f = None" by auto
  from answer_uncached [OF q, of "''A''" "''2''" "[]"] have a: "fn_asked ?a = []" "located ?a = located ?f"
    by (simp_all add: located_def)
  have lf: "located ?f = Inr ''A:2''" by (simp add: follow_located)
  have "orderly Edit_Form (Answer_Form 0 (answer_with (mk_item ''A'' ''2'' []))) ?f"
    using lf q(1) by (simp add: orderly_def answer_ok_def answer_with_def)
  then have "stays_away Edit_Form ''A:1''
      [Follow ''/item'' (form_location ''A:2''), Answer_Form 0 (answer_with (mk_item ''A'' ''2'' []))] ?t"
    using a(2) lf follow_orderly [of "''A:2''" ?t] ts by simp
  note stay = this
  have "fs_item (fw_scope (fn_world (opened ''A'' ''1'' []))) = Some (mk_item ''A'' ''1'' [])"
    "fw_items (fn_world (opened ''A'' ''1'' [])) ''A:1'' = Some (mk_item ''A'' ''1'' [])"
    "fw_cached (fn_world (opened ''A'' ''1'' []))" "''name'' \<noteq> ''itemInfo''"
    using opened_state [of "''A''" "''1''" "[]"] by simp_all
  from unsaved_changes_come_back [OF opened_reach this typed_def stay refl, of "''/item''" "form_location ''A:1''" "''A''"]
    follow_orderly [of "''A:1''" ?a] a(1)
  show ?thesis by auto
qed

text \<open>
  Without the order a late answer wins: the form at the location of one item shows the item of the
  location before it, when that one's answer comes last.
\<close>

lemma late_form_answer_wins:
  "let s = fold (form_step Edit_Form)
       [Follow ''/item'' (form_location ''A:1''), Follow ''/item'' (form_location ''A:2''),
        Answer_Form 1 (answer_with (mk_item ''A'' ''2'' [])), Answer_Form 0 (answer_with (mk_item ''A'' ''1'' []))]
       (new_form (\<lambda>_. None) empty_form_world)
   in fn_search s = form_location ''A:2'' \<and> shown_item s = Some (mk_item ''A'' ''1'' []) \<and>
     fw_actions_item (fn_world s) = Some (mk_item ''A'' ''1'' [])"
  by code_simp

end
