(* ===== verification/Form_Page.thy ===== *)
theory Form_Page
  imports Form_Session Form_Fields
begin

text \<open>
  A form together with its fields: the controller of \<open>Form_Session\<close>, which asks for new choices when
  an item's trigger changes, and the fields of \<open>Form_Fields\<close>, which offer them.  Both work on the same
  object; here each has a copy, and every event of the page is an event of both.
\<close>

section \<open>The page\<close>

record form_page =
  pg_form :: form_session
  pg_fields :: fields_world

datatype page_input =
    Page_Types nat jsval
  | Page_Choices nat jsobj

definition page_input_step :: "form_kind \<Rightarrow> (form_field \<Rightarrow> bool) \<Rightarrow> page_input \<Rightarrow> form_page \<Rightarrow> form_page" where
  "page_input_step kind required e p =
     (case e of
        Page_Types j v \<Rightarrow>
          \<lparr>pg_form = form_step kind (Type_In (ff_property (fw_fields (pg_fields p) ! j)) v) (pg_form p),
           pg_fields = field_step required (Edit_Value j v) (pg_fields p)\<rparr>
      | Page_Choices n sel \<Rightarrow>
          \<lparr>pg_form = form_step kind (Answer_Form n (Choices_Reply sel)) (pg_form p),
           pg_fields = field_step required (Choices_Arrive sel) (pg_fields p)\<rparr>)"

text \<open>The page is at rest: the two copies are equal, every watcher has seen the item, and nothing is awaited.\<close>

definition page_at_rest :: "form_page \<Rightarrow> bool" where
  "page_at_rest p \<longleftrightarrow>
     fw_shown (pg_fields p) \<noteq> None \<and> fw_seen (pg_fields p) = fw_shown (pg_fields p) \<and>
     shown_item (pg_form p) = Some (field_item (pg_fields p)) \<and>
     fn_seen (pg_form p) = shown_item (pg_form p) \<and> fn_asked (pg_form p) = []"

section \<open>Lemmas\<close>

lemma type_in_shown:
  "shown_item s = Some it \<Longrightarrow> shown_item (form_step kind (Type_In nm v) s) = Some (oset it nm v)"
  by (simp add: form_step_def form_act_def type_in_def item_becomes_def) (simp add: shown_item_def item_becomes_def)

lemma edit_shown:
  assumes "fw_shown w = Some x" "fw_seen w = Some x"
  shows "field_item (field_step required (Edit_Value j v) w) = oset (field_item w) (ff_property (fw_fields w ! j)) v"
    and "fw_shown (field_step required (Edit_Value j v) w) = Some x"
    and "fw_seen (field_step required (Edit_Value j v) w) = Some x"
    and "fw_fields (field_step required (Edit_Value j v) w) = fw_fields w"
  using assms by (simp_all add: field_step_def quiet_field_digest field_item_def item_put_objects)

lemma markup_edit:
  assumes "fw_shown w = Some x" "fw_seen w = Some x"
  shows "fd_markup (fw_scopes (field_step required (Edit_Value j v) w) i) = fd_markup (fw_scopes w i)"
proof -
  have "fd_markup (fw_scopes (fold selection_watch is u) i) = fd_markup (fw_scopes u i)" for "is" u
    by (induction "is" arbitrary: u) simp_all
  with assms show ?thesis by (simp add: field_step_def quiet_field_digest)
qed

lemma trigger_list_cong:
  "oget it' ''__selection_triggers'' = oget it ''__selection_triggers'' \<Longrightarrow> trigger_list it' = trigger_list it"
  by (simp add: trigger_list_def)

lemma watch_sends:
  assumes "(nm, ts) \<in> set triggers" "t \<in> set ts" "trigger_fires it old nm" "item_key_or_empty it = Inr k"
    and "nm \<noteq> ''__id''" "nm \<noteq> ''__reload''"
  shows "\<exists>rq reload. item_watch triggers (Some it) (Some old) = Inr (Some (''spa/selections'', rq)) \<and>
    oget rq ''__reload'' = JArr reload \<and> t \<in> set reload \<and> oget rq nm = oget it nm"
proof -
  obtain nv reload where l: "trigger_loop triggers it old [] [] = (nv, reload)" by force
  from trigger_loop_reload [OF _ l] have "set reload = (\<Union>(nm, ts) \<in> {(nm, ts) \<in> set triggers. trigger_fires it old nm}. set ts)"
    by simp
  with assms(1-3) have t: "t \<in> set reload" by blast
  have "nm \<in> fst ` set triggers" using assms(1) by force
  with trigger_loop_keeps [OF l] assms(3) have "oget nv nm = oget it nm" by (simp add: trigger_fires_def)
  moreover have "reload \<noteq> []" using t by auto
  ultimately show ?thesis using l t assms(4-6) by (simp add: item_watch_def)
qed

lemma type_in_asks:
  assumes "shown_item s = Some it" "fn_seen s = Some it"
    and "item_watch (trigger_list (oset it nm v)) (Some (oset it nm v)) (Some it) = Inr (Some (url, rq))"
  shows "fn_asked (form_step kind (Type_In nm v) s) = fn_asked s @ [Asked_Choices rq]"
    and "fn_seen (form_step kind (Type_In nm v) s) = Some (oset it nm v)"
proof -
  let ?s = "form_act kind (Type_In nm v) s"
  have "shown_item ?s = Some (oset it nm v)" using type_in_shown [OF assms(1)] by (simp add: form_step_def)
  moreover have "fn_seen ?s = fn_seen s" "fn_asked ?s = fn_asked s"
    by (simp_all add: form_act_def type_in_def split: option.split)
  ultimately show "fn_asked (form_step kind (Type_In nm v) s) = fn_asked s @ [Asked_Choices rq]"
    "fn_seen (form_step kind (Type_In nm v) s) = Some (oset it nm v)"
    using assms(2,3) by (simp_all add: form_step_def watch_item_def)
qed

lemma watch_asks_none:
  "shown_item s = Some it \<Longrightarrow> item_watch (trigger_list it) (Some it) (fn_seen s) = Inr None \<Longrightarrow>
   fn_asked (watch_item s) = fn_asked s"
  by (simp add: watch_item_def)

lemma choices_answered:
  assumes "shown_item s = Some it" "fn_asked s = [Asked_Choices rq]" "fn_seen s = Some it"
    and "\<And>nm. nm \<in> fst ` set (trigger_list it) \<Longrightarrow> loose_eq (oget it nm) (oget it nm)"
    and "reload_names (trigger_list it)"
  shows "shown_item (form_step kind (Answer_Form 0 (Choices_Reply sel)) s) =
      Some (fold (\<lambda>(nm, v) i. oset i (nm @ ''__sel'') v) sel it)"
    and "fn_asked (form_step kind (Answer_Form 0 (Choices_Reply sel)) s) = []"
    and "fn_seen (form_step kind (Answer_Form 0 (Choices_Reply sel)) s) =
      Some (fold (\<lambda>(nm, v) i. oset i (nm @ ''__sel'') v) sel it)"
proof -
  let ?it' = "fold (\<lambda>(nm, v) i. oset i (nm @ ''__sel'') v) sel it"
  let ?s = "s\<lparr>fn_asked := [], fn_world := selections_arrive sel (fn_world s)\<rparr>"
  have shown: "shown_item ?s = Some ?it'"
    using assms(1) by (simp add: shown_item_def selections_arrive_def item_becomes_def)
  have "''__selection_triggers'' \<noteq> p @ ''__sel''" for p
    using arg_cong [where f = "\<lambda>s. hd (rev s)", of "''__selection_triggers''" "p @ ''__sel''"] by auto
  then have "trigger_list ?it' = trigger_list it" by (intro trigger_list_cong selections_other)
  moreover have "item_watch (trigger_list it) (Some ?it') (Some it) = Inr None"
  proof (rule watch_unchanged)
    fix nm assume nm: "nm \<in> fst ` set (trigger_list it)"
    with assms(5) have "oget ?it' nm = oget it nm" by (intro selections_other) (auto simp: reload_names_def)
    with assms(4) [OF nm] show "loose_eq (oget ?it' nm) (oget it nm)" by simp
  qed
  moreover have "form_step kind (Answer_Form 0 (Choices_Reply sel)) s = watch_item ?s"
    using assms(2) by (simp add: form_step_def form_act_def answer_form_def drop_nth_def)
  moreover have "fn_seen ?s = Some it" "fn_asked ?s = []" using assms(3) by simp_all
  moreover have "fn_seen (watch_item ?s) = shown_item ?s" by (simp add: watch_item_def)
  ultimately show "shown_item (form_step kind (Answer_Form 0 (Choices_Reply sel)) s) = Some ?it'"
    "fn_asked (form_step kind (Answer_Form 0 (Choices_Reply sel)) s) = []"
    "fn_seen (form_step kind (Answer_Form 0 (Choices_Reply sel)) s) = Some ?it'"
    using shown watch_asks_none [of ?s ?it'] by simp_all
qed

section \<open>Properties\<close>


definition region_props :: jsobj where
  "region_props = [(''__selection_triggers'', JObj [(''region'', JArr [JStr ''city''])]), (''region'', JNum 1)]"

definition region_page :: form_page where
  "region_page =
     \<lparr>pg_form = opened ''A'' ''1'' region_props,
      pg_fields = (init_fields [sample_field ''region'' ''TEXT'' [], sample_field ''city'' ''TEXT'' []]
        (\<lambda>_. mk_item ''A'' ''1'' region_props))\<lparr>fw_shown := Some 0, fw_seen := Some 0\<rparr>\<rparr>"

lemma region_facts:
  "page_at_rest region_page"
  "field_item (pg_fields region_page) = mk_item ''A'' ''1'' region_props"
  "trigger_list (mk_item ''A'' ''1'' region_props) = [(''region'', [JStr ''city''])]"
  "ff_property (fw_fields (pg_fields region_page) ! 0) = ''region''"
  "ff_property (fw_fields (pg_fields region_page) ! 1) = ''city''"
  using opened_state [of "''A''" "''1''" region_props]
  by (simp_all add: page_at_rest_def region_page_def init_fields_def field_item_def shown_item_def sample_field_def
      trigger_list_def region_props_def mk_item_def)


end
