(* ===== verification/Page_Parts.thy ===== *)
theory Page_Parts
  imports Shell Page_Frame Page_Loader Run_Interface
begin

text \<open>
  The moving parts of a page: the splitter between a list and its details, whose handlers are hung
  on when the mouse goes down and taken off when it goes up or away (\<open>ion-ng.js\<close> and \<open>main.js\<close> have
  the same code), the rolls, and what the theme \<open>ionweb-jt\<close> does otherwise in its \<open>main.js\<close>.
\<close>

section \<open>The splitter\<close>

text \<open>
  \<open>sp_handlers\<close> says whether the area listens to the mouse; the widths are in percent, \<open>None\<close> before
  the first move.  A \<open>css\<close> call with no number changes nothing.
\<close>

record split_area =
  sp_dragged :: bool
  sp_handlers :: bool
  sp_unselectable :: bool
  sp_master :: "int option"
  sp_slave :: "int option"

definition split_down :: "split_area \<Rightarrow> split_area" where
  "split_down a = a\<lparr>sp_dragged := True, sp_handlers := True, sp_unselectable := True\<rparr>"

definition split_moved :: "int \<Rightarrow> int \<Rightarrow> int \<Rightarrow> split_area \<Rightarrow> split_area" where
  "split_moved pageX left width a =
     (case dragSplitter pageX left width of
        None \<Rightarrow> a
      | Some (m, s) \<Rightarrow> a\<lparr>sp_master := Some m, sp_slave := Some s\<rparr>)"

definition endDragSplitter :: "split_area \<Rightarrow> split_area" where
  "endDragSplitter a = a\<lparr>sp_handlers := False, sp_unselectable := False, sp_dragged := False\<rparr>"

datatype split_event =
    Mouse_Down_On_Control
  | Mouse_Moved int int int
  | Mouse_Up_Or_Away

definition split_step :: "split_event \<Rightarrow> split_area \<Rightarrow> split_area" where
  "split_step e a =
     (case e of
        Mouse_Down_On_Control \<Rightarrow> split_down a
      | Mouse_Moved x left width \<Rightarrow> if sp_handlers a then split_moved x left width a else a
      | Mouse_Up_Or_Away \<Rightarrow> if sp_handlers a then endDragSplitter a else a)"

definition new_split :: split_area where
  "new_split = \<lparr>sp_dragged = False, sp_handlers = False, sp_unselectable = False, sp_master = None, sp_slave = None\<rparr>"

definition split_run :: "split_event list \<Rightarrow> split_area" where
  "split_run es = fold split_step es new_split"

text \<open>The watchers of the directive: the main column and the details follow \<open>mtplInfo\<close>.\<close>

record split_scope =
  sc_showSlave :: bool
  sc_collapsed :: bool

definition split_watch :: "mtpl_info \<Rightarrow> split_scope \<Rightarrow> split_scope" where
  "split_watch mi sc = \<lparr>sc_showSlave = mi_showSlave mi, sc_collapsed = (mi_sidebarCollapsed mi = ''true'')\<rparr>"

text \<open>The same functions of the classic pages.\<close>

definition main_dragSplitter :: "int \<Rightarrow> int \<Rightarrow> int \<Rightarrow> (int \<times> int) option" where
  "main_dragSplitter pageX left width =
     (if width = 0 then None
      else
        (let percent = trunc_div ((pageX - left) * 100) width;
             percent1 = (if percent < 15 then 15 else percent);
             percent2 = (if percent1 > 85 then 85 else percent1)
         in Some (percent2, 100 - percent2)))"

definition main_split_down :: "split_area \<Rightarrow> split_area" where
  "main_split_down a = a\<lparr>sp_dragged := True, sp_handlers := True, sp_unselectable := True\<rparr>"

definition main_endDragSplitter :: "split_area \<Rightarrow> split_area" where
  "main_endDragSplitter a = a\<lparr>sp_handlers := False, sp_unselectable := False, sp_dragged := False\<rparr>"

lemma main_splitter_same:
  "main_dragSplitter = dragSplitter" "main_split_down = split_down" "main_endDragSplitter = endDragSplitter"
  by (auto simp: fun_eq_iff main_dragSplitter_def dragSplitter_def main_split_down_def split_down_def
      main_endDragSplitter_def endDragSplitter_def)

section \<open>Rolls\<close>

text \<open>A click on a roll's icon, once the animation has ended: its content and its class.\<close>

record roll =
  ro_shown :: bool
  ro_collapsed :: bool

definition roll_click :: "roll \<Rightarrow> roll" where
  "roll_click r = \<lparr>ro_shown = (\<not> ro_shown r), ro_collapsed = (\<not> ro_collapsed r)\<rparr>"

lemma rolls_agree: "ro_collapsed r \<noteq> ro_shown r \<Longrightarrow> ro_collapsed ((roll_click ^^ n) r) \<noteq> ro_shown ((roll_click ^^ n) r)"
  by (induction n) (simp_all add: roll_click_def)

lemma roll_twice: "roll_click (roll_click r) = r"
  by (simp add: roll_click_def)

section \<open>The other theme\<close>

text \<open>The theme \<open>ionweb-jt\<close> moves a drop-down menu sideways only, and takes a message's type in any case.\<close>

definition jt_dropdown_left :: "int \<Rightarrow> int \<Rightarrow> int \<Rightarrow> int" where
  "jt_dropdown_left fw w left = (if left + w > fw then fw - w else left)"

definition jt_showMsgPanel :: "string \<Rightarrow> string \<Rightarrow> panel \<Rightarrow> panel" where
  "jt_showMsgPanel type content pn =
     pn\<lparr>pn_classes := filter (\<lambda>c. c \<notin> {''error'', ''warning'', ''info''} \<and> c \<noteq> to_lower type) (pn_classes pn) @ [to_lower type],
        pn_content := content, pn_visible := True\<rparr>"

lemma jt_dropdown_same: "jt_dropdown_left fw w left = fst (dropdown_pos (fw, fh) (w, h) (left, tp))"
  by (simp add: jt_dropdown_left_def dropdown_pos_def)

lemma jt_message_same: "to_lower type = type \<Longrightarrow> jt_showMsgPanel type = showMsgPanel type"
  by (simp add: fun_eq_iff jt_showMsgPanel_def showMsgPanel_def)

section \<open>Lemmas\<close>

definition split_ok :: "split_area \<Rightarrow> bool" where
  "split_ok a \<longleftrightarrow>
     sp_dragged a = sp_handlers a \<and> sp_unselectable a = sp_handlers a \<and>
     (case (sp_master a, sp_slave a) of
        (None, None) \<Rightarrow> True
      | (Some m, Some s) \<Rightarrow> 15 \<le> m \<and> 15 \<le> s \<and> m + s = 100
      | _ \<Rightarrow> False)"

lemma drag_bounds: "dragSplitter x left width = Some (m, s) \<Longrightarrow> 15 \<le> m \<and> 15 \<le> s \<and> m + s = 100"
  by (auto simp: dragSplitter_def Let_def split: if_splits)

lemma split_step_ok: "split_ok a \<Longrightarrow> split_ok (split_step e a)"
proof (cases e)
  case (Mouse_Moved x left width)
  assume a: "split_ok a"
  show ?thesis
  proof (cases "dragSplitter x left width")
    case None
    with a Mouse_Moved show ?thesis by (simp add: split_step_def split_moved_def)
  next
    case (Some p)
    obtain m s where "p = (m, s)" by (cases p)
    with a Mouse_Moved Some drag_bounds [of x left width m s] show ?thesis
      by (simp add: split_step_def split_moved_def split_ok_def)
  qed
qed (simp_all add: split_step_def split_down_def endDragSplitter_def split_ok_def split: option.splits)

interpretation splitter: event_run split_step split_ok "\<lambda>_. True"
  by unfold_locales (rule split_step_ok)

section \<open>Properties\<close>

text \<open>
  C30: However the splitter is used, the two parts of the page share its whole width and neither gets
  less than 15 percent; text can be selected exactly while nothing is dragged, and when the mouse goes
  up or leaves the area, its moves change nothing any more until it goes down on the splitter again.
\<close>

theorem splitter_shares_width:
  shows "(case (sp_master (split_run es), sp_slave (split_run es)) of
      (None, None) \<Rightarrow> True
    | (Some m, Some s) \<Rightarrow> 15 \<le> m \<and> 15 \<le> s \<and> m + s = 100
    | _ \<Rightarrow> False) \<and>
    sp_unselectable (split_run es) = sp_dragged (split_run es) \<and>
    split_run (es @ Mouse_Up_Or_Away # map (\<lambda>(x, l, w). Mouse_Moved x l w) moves) = split_run (es @ [Mouse_Up_Or_Away])"
proof -
  have ok: "split_ok (split_run es)"
    unfolding split_run_def
    by (rule splitter.run_inv) (simp_all add: list_all_iff new_split_def split_ok_def)
  have still: "fold split_step (map (\<lambda>(x, l, w). Mouse_Moved x l w) moves) a = a" if "\<not> sp_handlers a" for a
    using that by (induction moves) (auto simp: split_step_def)
  have "\<not> sp_handlers (split_step Mouse_Up_Or_Away a)" for a
    by (simp add: split_step_def endDragSplitter_def)
  with still ok show ?thesis by (simp add: split_run_def split_ok_def)
qed

end
