(* ===== verification/Selection_Session.thy ===== *)
theory Selection_Session
  imports Dialog_Widgets Form_Fields Run_Interface
begin

text \<open>
  Choosing the object a form field refers to, as a session: \<open>selectRefItem\<close> of \<open>ion-ng-formfield.js\<close>
  opens the reference dialog of \<open>ion-ng-modals.js\<close>, which asks for its rows, its view model and the
  number of its pages; answers, clicks and buttons come in any order, and the close event hands the
  choice to the field.  The server is a parameter: the rows, the view model and the caption with the
  number of pages that it has for the data of a request.
\<close>

section \<open>State\<close>

record sel_server =
  sv_rows :: "jsobj \<Rightarrow> jsval list"
  sv_vm :: "jsobj \<Rightarrow> jsval"
  sv_info :: "jsobj \<Rightarrow> jsval \<times> int"

datatype sel_wait = Wait_List | Wait_Vm | Wait_Info | Wait_Page int

text \<open>\<open>sd_handlers\<close> holds the fields whose one-time handlers wait for the close event.\<close>

record sel_dialog =
  sd_params :: select_params
  sd_scope :: select_scope
  sd_vm :: jsval
  sd_open :: bool
  sd_buttons :: "button list"
  sd_handlers :: "nat list"
  sd_pending :: "(nat \<times> sel_wait \<times> string \<times> jsobj) list"
  sd_next :: nat

record choosing =
  ch_dialog :: sel_dialog
  ch_fields :: fields_world

section \<open>Opening\<close>

definition send :: "sel_wait \<Rightarrow> string \<times> jsobj \<Rightarrow> sel_dialog \<Rightarrow> sel_dialog" where
  "send t rq d = d\<lparr>sd_pending := sd_pending d @ [(sd_next d, t, rq)], sd_next := Suc (sd_next d)\<rparr>"

text \<open>
  The open event; when the id of the item cannot be formed, the callback ends there.  A dialog that
  is open already fires no event.
\<close>

definition open_dialog :: "sel_dialog \<Rightarrow> sel_dialog" where
  "open_dialog d =
     (if sd_open d then d
      else
        (let (res, p, s) = open_selection Reference_Modal (sd_params d) (sd_scope d);
             d' = d\<lparr>sd_open := True, sd_params := p, sd_scope := s\<rparr>
         in case res of
              Inl e \<Rightarrow> d'
            | Inr rqs \<Rightarrow> fold (\<lambda>(t, rq). send t rq) (zip [Wait_List, Wait_Vm, Wait_Info] rqs) d'))"

definition selectRefField :: "nat \<Rightarrow> choosing \<Rightarrow> choosing" where
  "selectRefField i w =
     (let d = ch_dialog w; f = fw_fields (ch_fields w) ! i
      in w\<lparr>ch_dialog := open_dialog
             (d\<lparr>sd_params := (sd_params d)\<lparr>sp_item := Some (field_item (ch_fields w)),
                                           sp_property := JStr (ff_property f)\<rparr>,
                sd_handlers := sd_handlers d @ [i]\<rparr>)\<rparr>)"

section \<open>Closing\<close>

text \<open>The handler of the field \<open>i\<close>: only a choice is assigned, and then the page is digested.\<close>

definition ref_closed :: "(form_field \<Rightarrow> bool) \<Rightarrow> jsval \<Rightarrow> nat \<Rightarrow> fields_world \<Rightarrow> fields_world" where
  "ref_closed required result i w =
     (if truthy result then field_digest required (assignRefToField i result w) else w)"

definition close_selection :: "(form_field \<Rightarrow> bool) \<Rightarrow> choosing \<Rightarrow> choosing" where
  "close_selection required w =
     (let d = ch_dialog w
      in if sd_open d
         then \<lparr>ch_dialog = d\<lparr>sd_open := False, sd_handlers := []\<rparr>,
               ch_fields = fold (ref_closed required (sp_result (sd_params d))) (sd_handlers d) (ch_fields w)\<rparr>
         else w)"

section \<open>Answers\<close>

text \<open>The answer to a request, \<open>None\<close> when it is refused.\<close>

definition new_buttons :: "select_scope \<times> button list option \<Rightarrow> sel_dialog \<Rightarrow> sel_dialog" where
  "new_buttons = (\<lambda>(s, bs) d. d\<lparr>sd_scope := s, sd_buttons := (case bs of None \<Rightarrow> sd_buttons d | Some b \<Rightarrow> b)\<rparr>)"

definition rows_arrive :: "jsval list option \<Rightarrow> sel_dialog \<Rightarrow> sel_dialog" where
  "rows_arrive rows d = d\<lparr>sd_scope := (sd_scope d)\<lparr>se_refList := rows\<rparr>\<rparr>"

definition vm_arrives :: "jsval option \<Rightarrow> sel_dialog \<Rightarrow> sel_dialog" where
  "vm_arrives vm d = d\<lparr>sd_vm := (case vm of None \<Rightarrow> JNull | Some v \<Rightarrow> v)\<rparr>"

definition answer_selection :: "sel_server \<Rightarrow> bool \<Rightarrow> sel_wait \<Rightarrow> jsobj \<Rightarrow> sel_dialog \<Rightarrow> sel_dialog" where
  "answer_selection srv ok t data d =
     (case t of
        Wait_List \<Rightarrow> rows_arrive (if ok then Some (sv_rows srv data) else None) d
      | Wait_Vm \<Rightarrow> vm_arrives (if ok then Some (sv_vm srv data) else None) d
      | Wait_Info \<Rightarrow> new_buttons (selection_info_arrives (if ok then Some (sv_info srv data) else None) (sd_scope d)) d
      | Wait_Page p \<Rightarrow> new_buttons (page_arrives p (if ok then Some (sv_rows srv data) else None) (sd_scope d)) d)"

section \<open>Steps\<close>

datatype sel_event =
    Select_Ref nat
  | Answered nat bool
  | Row_Click nat
  | Press button
  | Cross

definition page_pressed :: "int \<Rightarrow> sel_dialog \<Rightarrow> sel_dialog" where
  "page_pressed q d = (case pageClick (sd_params d) q of Inl e \<Rightarrow> d | Inr rq \<Rightarrow> send (Wait_Page q) rq d)"

definition choose_pressed :: "(form_field \<Rightarrow> bool) \<Rightarrow> choosing \<Rightarrow> choosing" where
  "choose_pressed required w =
     (let d = ch_dialog w
      in case choose_handler Reference_Modal (sd_scope d) (sd_params d) of
           Inl e \<Rightarrow> w
         | Inr (p, closes) \<Rightarrow>
             (let w' = w\<lparr>ch_dialog := d\<lparr>sd_params := p\<rparr>\<rparr>
              in if closes then close_selection required w' else w'))"

definition sel_step :: "sel_server \<Rightarrow> (form_field \<Rightarrow> bool) \<Rightarrow> sel_event \<Rightarrow> choosing \<Rightarrow> choosing" where
  "sel_step srv required e w =
     (let d = ch_dialog w
      in case e of
           Select_Ref i \<Rightarrow> selectRefField i w
         | Answered n ok \<Rightarrow>
             (case map_of (sd_pending d) n of
                None \<Rightarrow> w
              | Some (t, url, data) \<Rightarrow>
                  w\<lparr>ch_dialog := answer_selection srv ok t data
                      (d\<lparr>sd_pending := filter (\<lambda>(k, _). k \<noteq> n) (sd_pending d)\<rparr>)\<rparr>)
         | Row_Click k \<Rightarrow>
             (if sd_open d \<and> (case se_refList (sd_scope d) of None \<Rightarrow> False | Some xs \<Rightarrow> k < length xs)
              then w\<lparr>ch_dialog := d\<lparr>sd_scope := clickOnItem k (sd_scope d)\<rparr>\<rparr> else w)
         | Press b \<Rightarrow>
             (if sd_open d \<and> b \<in> set (sd_buttons d)
              then (case b of
                      Choose \<Rightarrow> choose_pressed required w
                    | Here q \<Rightarrow> w
                    | Prev q \<Rightarrow> w\<lparr>ch_dialog := page_pressed q d\<rparr>
                    | Page q \<Rightarrow> w\<lparr>ch_dialog := page_pressed q d\<rparr>
                    | Next q \<Rightarrow> w\<lparr>ch_dialog := page_pressed q d\<rparr>)
              else w)
         | Cross \<Rightarrow> close_selection required w)"

definition new_selection :: "fields_world \<Rightarrow> choosing" where
  "new_selection fs =
     \<lparr>ch_dialog = \<lparr>sd_params = \<lparr>sp_item = None, sp_container = JNull, sp_property = JNull, sp_result = JNull\<rparr>,
        sd_scope = empty_selection, sd_vm = JNull, sd_open = False, sd_buttons = [], sd_handlers = [],
        sd_pending = [], sd_next = 0\<rparr>, ch_fields = fs\<rparr>"

definition sel_run :: "sel_server \<Rightarrow> (form_field \<Rightarrow> bool) \<Rightarrow> sel_event list \<Rightarrow> choosing \<Rightarrow> choosing" where
  "sel_run srv required es w = fold (sel_step srv required) es w"

section \<open>Lemmas\<close>

text \<open>A request is for the object and the property of the dialog's parameters.\<close>

definition asks_for :: "select_params \<Rightarrow> jsobj \<Rightarrow> bool" where
  "asks_for p data \<longleftrightarrow> selection_id p = Inr (oget data ''__id'') \<and> oget data ''__property'' = sp_property p"

definition offered :: "sel_server \<Rightarrow> select_params \<Rightarrow> jsval \<Rightarrow> bool" where
  "offered srv p row \<longleftrightarrow> (\<exists>data. asks_for p data \<and> row \<in> set (sv_rows srv data))"

lemma selection_id_result [simp]: "selection_id (p\<lparr>sp_result := r\<rparr>) = selection_id p"
  by (simp add: selection_id_def split: option.split)

lemma asks_for_result [simp]: "asks_for (p\<lparr>sp_result := r\<rparr>) = asks_for p"
  by (simp add: asks_for_def fun_eq_iff)

lemma offered_result [simp]: "offered srv (p\<lparr>sp_result := r\<rparr>) = offered srv p"
  by (simp add: offered_def fun_eq_iff)

lemma open_selection_asks:
  assumes "open_selection kind p s = (res, p1, s1)"
  shows "p1 = p\<lparr>sp_result := JNull\<rparr>" "se_refList s1 = None"
    "res = Inr rqs \<Longrightarrow> (u, data) \<in> set rqs \<Longrightarrow> asks_for p data"
proof -
  show "p1 = p\<lparr>sp_result := JNull\<rparr>" "se_refList s1 = None"
    using assms by (auto simp: open_selection_def Let_def)
  show "asks_for p data" if r: "res = Inr rqs" "(u, data) \<in> set rqs"
  proof -
    have ne: "sp_item p \<noteq> None \<or> truthy (sp_container p)" "truthy (sp_property p)"
      using assms r by (auto simp: open_selection_def Let_def split: if_splits)
    then obtain k where k: "selection_id p = Inr k"
      using assms r by (cases "selection_id p") (auto simp: open_selection_def Let_def split: if_splits)
    then have rqs: "data \<in> {cleanParams [(''__id'', k), (''__property'', sp_property p)],
        cleanParams [(''__id'', k), (''__property'', sp_property p), (''__type'', JStr ''modal'')],
        [(''__id'', k), (''__property'', sp_property p)]}"
      using assms r ne by (auto simp: open_selection_def Let_def)
    have "wf_obj [(''__id'', k), (''__property'', sp_property p)]"
      "wf_obj [(''__id'', k), (''__property'', sp_property p), (''__type'', JStr ''modal'')]"
      by (simp_all add: wf_obj_def)
    with rqs k show ?thesis by (auto simp: asks_for_def cleanParams_get)
  qed
qed

lemma send_frame [simp]:
  "sd_params (send t rq d) = sd_params d" "sd_scope (send t rq d) = sd_scope d"
  "sd_open (send t rq d) = sd_open d" "sd_handlers (send t rq d) = sd_handlers d"
  "sd_buttons (send t rq d) = sd_buttons d"
  "sd_pending (send t rq d) = sd_pending d @ [(sd_next d, t, rq)]"
  by (simp_all add: send_def)

lemma sends_frame [simp]:
  "sd_params (fold (\<lambda>(t, rq). send t rq) ts d) = sd_params d"
  "sd_scope (fold (\<lambda>(t, rq). send t rq) ts d) = sd_scope d"
  "sd_open (fold (\<lambda>(t, rq). send t rq) ts d) = sd_open d"
  "sd_handlers (fold (\<lambda>(t, rq). send t rq) ts d) = sd_handlers d"
  by (induction ts arbitrary: d) auto

lemma sends_pending:
  "(n, t, rq) \<in> set (sd_pending (fold (\<lambda>(t, rq). send t rq) ts d)) \<Longrightarrow>
     (n, t, rq) \<in> set (sd_pending d) \<or> rq \<in> snd ` set ts"
  by (induction ts arbitrary: d) force+

lemma pageClick_asks: "pageClick p q = Inr (u, data) \<Longrightarrow> asks_for p data"
  by (cases "selection_id p") (auto simp: pageClick_def asks_for_def)

subsection \<open>One opening\<close>

text \<open>
  While the dialog serves the field \<open>i\<close>, the requests under way and the rows shown are for it, and the
  fields have changed only when an offered row was chosen.
\<close>

definition chosen :: "sel_server \<Rightarrow> (form_field \<Rightarrow> bool) \<Rightarrow> nat \<Rightarrow> fields_world \<Rightarrow> choosing \<Rightarrow> bool" where
  "chosen srv required i fs w \<longleftrightarrow>
     (\<exists>row. offered srv (sd_params (ch_dialog w)) row
        \<and> ch_fields w = field_digest required (assignRefToField i row fs))"

definition sel_inv :: "sel_server \<Rightarrow> (form_field \<Rightarrow> bool) \<Rightarrow> nat \<Rightarrow> fields_world \<Rightarrow> choosing \<Rightarrow> bool" where
  "sel_inv srv required i fs w \<longleftrightarrow>
     (let d = ch_dialog w
      in sp_item (sd_params d) = Some (field_item fs)
       \<and> sp_property (sd_params d) = JStr (ff_property (fw_fields fs ! i))
       \<and> (\<forall>(n, t, u, data) \<in> set (sd_pending d). asks_for (sd_params d) data)
       \<and> (\<forall>xs. se_refList (sd_scope d) = Some xs \<longrightarrow> (\<exists>data. asks_for (sd_params d) data \<and> xs = sv_rows srv data))
       \<and> (if sd_open d then sd_handlers d = [i] \<and> ch_fields w = fs \<and> sp_result (sd_params d) = JNull
          else sd_handlers d = [] \<and> (ch_fields w = fs \<or> chosen srv required i fs w)))"

lemma sel_inv_open:
  assumes "\<not> sd_open (ch_dialog w)" "sd_pending (ch_dialog w) = []" "sd_handlers (ch_dialog w) = []"
  shows "sel_inv srv required i (ch_fields w) (selectRefField i w)"
proof -
  define d where "d = (ch_dialog w)\<lparr>sd_params := (sd_params (ch_dialog w))\<lparr>sp_item := Some (field_item (ch_fields w)),
      sp_property := JStr (ff_property (fw_fields (ch_fields w) ! i))\<rparr>, sd_handlers := [i]\<rparr>"
  obtain res p s where o': "open_selection Reference_Modal (sd_params d) (sd_scope d) = (res, p, s)"
    by (rule prod_cases3)
  note asks = open_selection_asks [OF o']
  define d' where "d' = d\<lparr>sd_open := True, sd_params := p, sd_scope := s\<rparr>"
  have r: "selectRefField i w = w\<lparr>ch_dialog :=
      (case res of Inl e \<Rightarrow> d' | Inr rqs \<Rightarrow> fold (\<lambda>(t, rq). send t rq) (zip [Wait_List, Wait_Vm, Wait_Info] rqs) d')\<rparr>"
    using assms o' by (cases res) (simp_all add: selectRefField_def Let_def open_dialog_def d_def d'_def)
  have d': "sd_pending d' = []" "se_refList (sd_scope d') = None" "sd_open d'" "sd_handlers d' = [i]"
    "sp_result (sd_params d') = JNull" "asks_for (sd_params d') = asks_for (sd_params d)"
    "sp_item (sd_params d') = Some (field_item (ch_fields w))"
    "sp_property (sd_params d') = JStr (ff_property (fw_fields (ch_fields w) ! i))"
    using assms asks(1,2) by (simp_all add: d'_def d_def)
  show ?thesis
  proof (cases res)
    case (Inl e)
    with d' show ?thesis by (simp add: r sel_inv_def)
  next
    case (Inr rqs)
    have "asks_for (sd_params d) data"
      if "(n, t, u, data) \<in> set (sd_pending (fold (\<lambda>(t, rq). send t rq) (zip [Wait_List, Wait_Vm, Wait_Info] rqs) d'))"
      for n t u data
      using sends_pending [OF that] d'(1) asks(3) [OF Inr] by (auto dest: set_zip_rightD)
    with Inr d' show ?thesis by (auto simp: r sel_inv_def)
  qed
qed

definition is_select :: "sel_event \<Rightarrow> bool" where
  "is_select e = (case e of Select_Ref i \<Rightarrow> True | _ \<Rightarrow> False)"

lemma answer_frame [simp]:
  "sd_params (answer_selection srv ok t data d) = sd_params d"
  "sd_open (answer_selection srv ok t data d) = sd_open d"
  "sd_handlers (answer_selection srv ok t data d) = sd_handlers d"
  "sd_pending (answer_selection srv ok t data d) = sd_pending d"
  by (cases t; simp add: answer_selection_def rows_arrive_def vm_arrives_def new_buttons_def split: prod.split)+

lemma answer_rows:
  "se_refList (sd_scope (answer_selection srv ok t data d)) = Some xs \<Longrightarrow>
     se_refList (sd_scope d) = Some xs \<or> xs = sv_rows srv data"
  by (cases t)
    (auto simp: answer_selection_def rows_arrive_def vm_arrives_def new_buttons_def page_arrives_def
      selection_info_arrives_def split: if_splits prod.splits)

lemma sel_inv_answered:
  assumes "sel_inv srv required i fs w"
  shows "sel_inv srv required i fs (sel_step srv required (Answered n ok) w)"
proof (cases "map_of (sd_pending (ch_dialog w)) n")
  case None
  with assms show ?thesis by (simp add: sel_step_def Let_def)
next
  case (Some a)
  obtain t u data where a: "a = (t, u, data)" by (rule prod_cases3)
  with Some have "(n, t, u, data) \<in> set (sd_pending (ch_dialog w))" by (auto dest: map_of_SomeD)
  with assms have "asks_for (sd_params (ch_dialog w)) data" by (auto simp: sel_inv_def Let_def)
  with assms Some a show ?thesis
    by (auto simp: sel_inv_def sel_step_def Let_def chosen_def dest!: answer_rows)
qed

lemma sel_inv_close:
  assumes "sel_inv srv required i fs w" and "sd_open (ch_dialog w)"
    and "truthy r \<Longrightarrow> offered srv (sd_params (ch_dialog w)) r"
  shows "sel_inv srv required i fs
    (close_selection required (w\<lparr>ch_dialog := (ch_dialog w)\<lparr>sd_params := (sd_params (ch_dialog w))\<lparr>sp_result := r\<rparr>\<rparr>\<rparr>))"
  using assms
  by (auto simp: sel_inv_def Let_def close_selection_def ref_closed_def chosen_def)

lemma result_same: "sp_result p = r \<Longrightarrow> p\<lparr>sp_result := r\<rparr> = p"
  by (cases p) simp

lemma sel_inv_cross:
  assumes "sel_inv srv required i fs w"
  shows "sel_inv srv required i fs (close_selection required w)"
proof (cases "sd_open (ch_dialog w)")
  case True
  then have "sp_result (sd_params (ch_dialog w)) = JNull" using assms by (simp add: sel_inv_def Let_def)
  with sel_inv_close [OF assms True, of JNull] show ?thesis by (simp add: result_same)
next
  case False
  with assms show ?thesis by (simp add: close_selection_def Let_def)
qed

lemma sel_inv_choose:
  assumes "sel_inv srv required i fs w" and "sd_open (ch_dialog w)"
  shows "sel_inv srv required i fs (choose_pressed required w)"
proof -
  have "offered srv (sd_params (ch_dialog w)) (arr_at xs k)"
    if "se_refList (sd_scope (ch_dialog w)) = Some xs" "truthy (arr_at xs k)" for xs k
    using assms(1) that by (auto simp: sel_inv_def Let_def offered_def arr_at_def split: if_splits)
  then show ?thesis
    using assms sel_inv_close [OF assms]
    by (auto simp: choose_pressed_def choose_handler_def Let_def split: option.splits)
qed

lemma sel_inv_page:
  assumes "sel_inv srv required i fs w"
  shows "sel_inv srv required i fs (w\<lparr>ch_dialog := page_pressed q (ch_dialog w)\<rparr>)"
  using assms
  by (auto simp: sel_inv_def page_pressed_def Let_def chosen_def dest: pageClick_asks split: sum.splits)

lemma sel_inv_step:
  assumes "sel_inv srv required i fs w" and "\<not> is_select e"
  shows "sel_inv srv required i fs (sel_step srv required e w)"
proof (cases e)
  case (Answered n ok)
  with sel_inv_answered [OF assms(1)] show ?thesis by simp
next
  case (Row_Click k)
  with assms(1) show ?thesis by (auto simp: sel_step_def sel_inv_def Let_def clickOnItem_def chosen_def)
next
  case (Press b)
  with assms(1) sel_inv_choose [OF assms(1)] sel_inv_page [OF assms(1)] show ?thesis
    by (cases b) (auto simp: sel_step_def Let_def)
next
  case Cross
  with sel_inv_cross [OF assms(1)] show ?thesis by (simp add: sel_step_def Let_def)
qed (use assms(2) in \<open>simp add: is_select_def\<close>)

interpretation one_opening: event_run "sel_step srv required" "sel_inv srv required i fs" "\<lambda>e. \<not> is_select e"
  for srv required i fs
  by unfold_locales (rule sel_inv_step)

section \<open>Properties\<close>

text \<open>
  C27: What a field of a form is given by the selection dialog is one of the objects the server
  offers for it, when no list that was asked for at an earlier opening is still awaited (such a list would be
  shown as this field's) and the dialog is closed, with no callback left from then.  From the moment it is opened for
  a field until it is opened again, whatever answers arrive in whatever
  order, and whatever is clicked, turned over or pressed, the fields of the form are either as they
  were, or the field refers to a row of a page that the server returned for the form's object and
  this field's property.
\<close>

theorem chosen_row_was_offered:
  assumes "\<not> sd_open (ch_dialog w)" "sd_pending (ch_dialog w) = []" "sd_handlers (ch_dialog w) = []"
    and "list_all (\<lambda>e. \<not> is_select e) es"
    and "ch_fields (sel_run srv required (Select_Ref i # es) w) \<noteq> ch_fields w"
  shows "\<exists>k data row. item_key_or_empty (field_item (ch_fields w)) = Inr k \<and> oget data ''__id'' = JStr k
    \<and> oget data ''__property'' = JStr (ff_property (fw_fields (ch_fields w) ! i))
    \<and> row \<in> set (sv_rows srv data)
    \<and> ch_fields (sel_run srv required (Select_Ref i # es) w)
        = field_digest required (assignRefToField i row (ch_fields w))"
proof -
  let ?w = "sel_run srv required (Select_Ref i # es) w"
  have "sel_inv srv required i (ch_fields w) (sel_step srv required (Select_Ref i) w)"
    using sel_inv_open [OF assms(1-3)] by (simp add: sel_step_def Let_def)
  then have inv: "sel_inv srv required i (ch_fields w) ?w"
    using one_opening.run_inv [OF _ assms(4)] by (simp add: sel_run_def)
  then have "chosen srv required i (ch_fields w) ?w"
    using assms(5) by (auto simp: sel_inv_def Let_def split: if_splits)
  then obtain row data where o': "asks_for (sd_params (ch_dialog ?w)) data" "row \<in> set (sv_rows srv data)"
    "ch_fields ?w = field_digest required (assignRefToField i row (ch_fields w))"
    unfolding chosen_def offered_def by blast
  have p: "sp_item (sd_params (ch_dialog ?w)) = Some (field_item (ch_fields w))"
    "sp_property (sd_params (ch_dialog ?w)) = JStr (ff_property (fw_fields (ch_fields w) ! i))"
    using inv by (simp_all add: sel_inv_def Let_def)
  have "\<exists>k. item_key_or_empty (field_item (ch_fields w)) = Inr k \<and> oget data ''__id'' = JStr k"
    using o'(1) p(1) by (cases "item_key_or_empty (field_item (ch_fields w))")
      (auto simp: asks_for_def selection_id_def)
  with o' p(2) show ?thesis by (auto simp: asks_for_def)
qed

text \<open>A form with two references to choose, and a server whose rows tell which of them they are for.\<close>

definition ref_fields :: fields_world where
  "ref_fields = (init_fields [(sample_field ''owner'' ''REFERENCE'' [])\<lparr>ff_paginated := True\<rparr>,
       (sample_field ''city'' ''REFERENCE'' [])\<lparr>ff_paginated := True\<rparr>] (\<lambda>_. mk_item ''A'' ''1'' []))
     \<lparr>fw_shown := Some 0, fw_seen := Some 0\<rparr>"

definition row_for :: "jsobj \<Rightarrow> string \<Rightarrow> jsval" where
  "row_for data k = JObj (mk_item (to_str (oget data ''__property'')) k [])"

definition two_rows :: sel_server where
  "two_rows = \<lparr>sv_rows = (\<lambda>data. [row_for data ''7'', row_for data ''8'']), sv_vm = (\<lambda>_. JNull),
     sv_info = (\<lambda>_. (JNull, 1))\<rparr>"

lemma chosen_row_was_offered_witness:
  "\<exists>data row. oget data ''__id'' = JStr ''A:1'' \<and> oget data ''__property'' = JStr ''owner''
    \<and> row \<in> set (sv_rows two_rows data)
    \<and> ch_fields (sel_run two_rows (\<lambda>_. False)
        [Select_Ref 0, Answered 2 True, Answered 0 True, Row_Click 1, Press Choose] (new_selection ref_fields))
      = field_digest (\<lambda>_. False) (assignRefToField 0 row ref_fields)"
proof -
  let ?es = "[Answered 2 True, Answered 0 True, Row_Click 1, Press Choose]"
  let ?w = "new_selection ref_fields"
  have "oget (field_item (ch_fields (sel_run two_rows (\<lambda>_. False) (Select_Ref 0 # ?es) ?w))) ''owner''
      \<noteq> oget (field_item (ch_fields ?w)) ''owner''"
    by code_simp
  then have ne: "ch_fields (sel_run two_rows (\<lambda>_. False) (Select_Ref 0 # ?es) ?w) \<noteq> ch_fields ?w"
    by (rule contrapos_nn) (erule arg_cong)
  have c: "\<not> sd_open (ch_dialog ?w)" "sd_pending (ch_dialog ?w) = []" "sd_handlers (ch_dialog ?w) = []"
    "list_all (\<lambda>e. \<not> is_select e) ?es" "ch_fields ?w = ref_fields"
    by (simp_all add: new_selection_def is_select_def)
  have k: "item_key_or_empty (field_item ref_fields) = Inr ''A:1''" "ff_property (fw_fields ref_fields ! 0) = ''owner''"
    by code_simp+
  from chosen_row_was_offered [OF c(1-4) ne] show ?thesis unfolding c(5) k by auto
qed

text \<open>
  The choice arrives: with the rows and the buttons there, a click on a row and the button give the
  row's object to the field and close the dialog.
\<close>

lemma opened_requests:
  assumes "\<not> sd_open (ch_dialog w)" "sd_pending (ch_dialog w) = []" "sd_handlers (ch_dialog w) = []"
    and "sd_next (ch_dialog w) = 0"
    and "item_key_or_empty (field_item (ch_fields w)) = Inr key" "ff_property (fw_fields (ch_fields w) ! i) = p" "p \<noteq> []"
  defines "rq \<equiv> [(''__id'', JStr key), (''__property'', JStr p)]"
  shows "sd_open (ch_dialog (selectRefField i w))" "sd_handlers (ch_dialog (selectRefField i w)) = [i]"
    and "sd_pending (ch_dialog (selectRefField i w)) = [(0, Wait_List, ''spa/selectionItems'', cleanParams rq),
        (1, Wait_Vm, ''spa/selection/vm'', cleanParams (rq @ [(''__type'', JStr ''modal'')])),
        (2, Wait_Info, ''spa/selection/listinfo'', rq)]"
    and "ch_fields (selectRefField i w) = ch_fields w"
  using assms
  by (simp_all add: selectRefField_def open_dialog_def open_selection_def Let_def selection_id_def send_def)

text \<open>The two answers, the click and the button, on a dialog that has just been opened.\<close>

lemma chosen_from_list:
  assumes "sd_open d" "sd_handlers d = [i]"
    and "sd_pending d = [(0, Wait_List, u, data), (1, t, a, b), (2, Wait_Info, v, info)]"
    and "sv_rows srv data = rows" "k < length rows" "truthy (rows ! k)"
    and "w' = sel_run srv required [Answered 0 True, Answered 2 True, Row_Click k, Press Choose]
      \<lparr>ch_dialog = d, ch_fields = fs\<rparr>"
  shows "ch_fields w' = field_digest required (assignRefToField i (rows ! k) fs) \<and> \<not> sd_open (ch_dialog w')"
  using assms
  by (cases "sv_info srv info") (simp add: sel_run_def sel_step_def Let_def answer_selection_def rows_arrive_def
      new_buttons_def selection_info_arrives_def generateDialogButtons_def choose_pressed_def choose_handler_def
      clickOnItem_def close_selection_def ref_closed_def arr_at_def)

theorem choice_reaches_field:
  assumes "\<not> sd_open (ch_dialog w)" "sd_pending (ch_dialog w) = []" "sd_handlers (ch_dialog w) = []"
    and "sd_next (ch_dialog w) = 0"
    and "item_key_or_empty (field_item (ch_fields w)) = Inr key" "ff_property (fw_fields (ch_fields w) ! i) = p" "p \<noteq> []"
    and "sv_rows srv (cleanParams [(''__id'', JStr key), (''__property'', JStr p)]) = rows" "k < length rows" "truthy (rows ! k)"
  shows "let w' = sel_run srv required [Select_Ref i, Answered 0 True, Answered 2 True, Row_Click k, Press Choose] w
    in ch_fields w' = field_digest required (assignRefToField i (rows ! k) (ch_fields w)) \<and> \<not> sd_open (ch_dialog w')"
proof -
  let ?o = "selectRefField i w"
  have r: "sel_run srv required [Select_Ref i, Answered 0 True, Answered 2 True, Row_Click k, Press Choose] w =
      sel_run srv required [Answered 0 True, Answered 2 True, Row_Click k, Press Choose]
        \<lparr>ch_dialog = ch_dialog ?o, ch_fields = ch_fields w\<rparr>"
    using opened_requests(4) [OF assms(1-7)] by (cases ?o) (simp add: sel_run_def sel_step_def)
  from chosen_from_list [OF opened_requests(1-3) [OF assms(1-7)] assms(8-10) r]
  show ?thesis by (simp add: Let_def)
qed

text \<open>
  The row chosen for one field stays chosen when the dialog is opened for the next: the button,
  pressed without a click, gives that field the row at the same place of its own list.
\<close>

theorem row_chosen_without_click:
  "oget (field_item (ch_fields (sel_run two_rows (\<lambda>_. False)
      [Select_Ref 0, Answered 0 True, Answered 2 True, Row_Click 1, Press Choose,
       Select_Ref 1, Answered 3 True, Press Choose] (new_selection ref_fields)))) ''city'' = JStr ''8''"
  by code_simp

text \<open>
  A list that arrives late is shown for the field the dialog serves by then: the rows asked for the
  first field come after those of the second, and the second is given one of them.
\<close>

theorem late_rows_offered_to_next_field:
  "oget (field_item (ch_fields (sel_run two_rows (\<lambda>_. False)
      [Select_Ref 0, Answered 2 True, Cross, Select_Ref 1, Answered 3 True, Answered 0 True,
       Row_Click 0, Press Choose] (new_selection ref_fields)))) (''city'' @ ''__ref'')
    = JArr [JStr ''owner'', JStr ''7'', JUndef]"
  by code_simp

end
