(* ===== verification/Info_References.thy ===== *)
theory Info_References
  imports Cell_Templates
begin

text \<open>
  References in mode INFO in the details of an item (\<open>ion-ng-listfield.js\<close>, \<open>ionReferenceDirective\<close>).
  The variable \<open>mode\<close> of the directive is declared nowhere, so there is one for the page: each
  reference that is linked overwrites it, and the watchers of all of them read it.  The template of
  mode INFO is assigned to another such variable and not returned.
\<close>

record info_cell =
  ic_column :: column
  ic_watching :: bool
  ic_html :: "html list"

record info_page =
  ip_mode :: string
  ip_cells :: "info_cell list"

definition drawn :: "html option \<Rightarrow> html list \<Rightarrow> html list" where
  "drawn x old = (case x of None \<Rightarrow> old | Some h \<Rightarrow> [h])"

definition link_reference :: "string \<Rightarrow> column \<Rightarrow> info_page \<Rightarrow> info_page" where
  "link_reference place c p =
     (let mode = (if place = ''detail'' then co_mode c else ''LINK'')
      in p\<lparr>ip_mode := mode,
           ip_cells := ip_cells p @
             [\<lparr>ic_column = c, ic_watching = (mode = ''INFO''),
               ic_html = drawn (reference_template (co_readonly c) mode (co_paginated c)) []\<rparr>]\<rparr>)"

text \<open>
  The group watcher: it passes the mode of the column for its being read only and that for the
  mark of a paginated selection.  Setting the content of an element to \<open>undefined\<close> leaves it.
\<close>

definition info_redraw :: "string \<Rightarrow> info_cell \<Rightarrow> info_cell" where
  "info_redraw mode r =
     (if ic_watching r
      then r\<lparr>ic_html := drawn (reference_template (co_mode (ic_column r) \<noteq> []) mode (co_readonly (ic_column r))) (ic_html r)\<rparr>
      else r)"

definition info_digest :: "info_page \<Rightarrow> info_page" where
  "info_digest p = p\<lparr>ip_cells := map (info_redraw (ip_mode p)) (ip_cells p)\<rparr>"

definition link_references :: "(string \<times> column) list \<Rightarrow> info_page" where
  "link_references pcs = fold (\<lambda>(place, c). link_reference place c) pcs \<lparr>ip_mode = [], ip_cells = []\<rparr>"

section \<open>Lemmas\<close>

lemma links_cells:
  "map ic_column (ip_cells (fold (\<lambda>(place, c). link_reference place c) pcs p)) =
     map ic_column (ip_cells p) @ map snd pcs"
  by (induction pcs arbitrary: p) (auto simp: link_reference_def Let_def)

lemma links_watching:
  "\<forall>r \<in> set (ip_cells p). ic_watching r \<longrightarrow> co_mode (ic_column r) = ''INFO'' \<and> ic_html r = [] \<Longrightarrow>
   r \<in> set (ip_cells (fold (\<lambda>(place, c). link_reference place c) pcs p)) \<Longrightarrow> ic_watching r \<Longrightarrow>
   co_mode (ic_column r) = ''INFO'' \<and> ic_html r = []"
proof (induction pcs arbitrary: p)
  case (Cons pc pcs)
  obtain place c where pc: "pc = (place, c)" by (cases pc)
  have "\<forall>r \<in> set (ip_cells (link_reference place c p)). ic_watching r \<longrightarrow> co_mode (ic_column r) = ''INFO'' \<and> ic_html r = []"
    using Cons.prems(1) by (auto simp: link_reference_def Let_def reference_template_def drawn_def split: if_splits)
  from Cons.IH [OF this] Cons.prems(2,3) show ?case by (simp add: pc)
qed simp

lemma links_mode:
  "ip_mode (link_references (pcs @ [(place, c)])) = (if place = ''detail'' then co_mode c else ''LINK'')"
  by (simp add: link_references_def link_reference_def Let_def)

section \<open>Properties\<close>

text \<open>
  Whether a reference in mode INFO shows anything depends on the reference that was linked last,
  whichever that is: when that one is in mode INFO too, every such reference stays empty; otherwise all
  of them show a link, which is the markup of a reference that is read only.
\<close>

theorem info_follows_last_linked:
  assumes "r \<in> set (ip_cells (link_references (pcs @ [(place, c)])))" and "ic_watching r"
  shows "ic_html (info_redraw (ip_mode (link_references (pcs @ [(place, c)]))) r) =
    (if place = ''detail'' \<and> co_mode c = ''INFO'' then [] else [sp ''ref-value'' [ref_link]])"
proof -
  have "co_mode (ic_column r) = ''INFO'' \<and> ic_html r = []"
    using links_watching [of "\<lparr>ip_mode = [], ip_cells = []\<rparr>" r "pcs @ [(place, c)]"] assms
    by (simp add: link_references_def)
  then show ?thesis
    using assms(2) unfolding links_mode
    by (simp add: info_redraw_def drawn_def reference_template_def)
qed

text \<open>The same two columns in the two orders: the INFO reference shows its link only when it comes first.\<close>

definition info_column :: "string \<Rightarrow> column" where
  "info_column mode = \<lparr>co_property = ''r'', co_type = ''REFERENCE'', co_readonly = False, co_required = False,
     co_mode = mode, co_paginated = False\<rparr>"

theorem info_order_decides:
  "ic_html (hd (ip_cells (info_digest (link_references
      [(''detail'', info_column ''INFO''), (''detail'', info_column ''LINK'')])))) = [sp ''ref-value'' [ref_link]]
   \<and> ic_html (last (ip_cells (info_digest (link_references
      [(''detail'', info_column ''LINK''), (''detail'', info_column ''INFO'')])))) = []"
  by (simp add: link_references_def link_reference_def info_digest_def info_redraw_def info_column_def
      reference_template_def drawn_def Let_def)

end
