(* ===== verification/Frame_Watch.thy ===== *)
theory Frame_Watch
  imports Navigation Page_Parts Form
begin

text \<open>
  The scope of the page frame (\<open>ion-ng-mtpl.js\<close>, controller \<open>mtpl\<close>) and its watchers: the message panel,
  the menu and the classes for creation are copies of what \<open>mtplInfo\<close> holds, made when a watched
  value changes.
\<close>

section \<open>The watchers\<close>

text \<open>\<open>mc_seen\<close> is what the watchers saw last: nothing before the first digest.\<close>

record mtpl_scope =
  mc_content :: message
  mc_type :: string
  mc_shown :: bool
  mc_menu :: jsval
  mc_classes :: jsval
  mc_seen :: "mtpl_info option"

definition mtpl_scope_init :: mtpl_scope where
  "mtpl_scope_init = \<lparr>mc_content = Text JUndef, mc_type = [], mc_shown = False, mc_menu = JObj [],
     mc_classes = JObj [], mc_seen = None\<rparr>"

definition changed :: "(mtpl_info \<Rightarrow> 'a) \<Rightarrow> mtpl_info \<Rightarrow> mtpl_scope \<Rightarrow> bool" where
  "changed f mi sc = (case mc_seen sc of None \<Rightarrow> True | Some old \<Rightarrow> f old \<noteq> f mi)"

definition message_watch :: "mtpl_info \<Rightarrow> mtpl_scope \<Rightarrow> mtpl_scope" where
  "message_watch mi sc =
     (if changed (\<lambda>m. (mi_showMessage m, mi_messageContent m)) mi sc
      then sc\<lparr>mc_content := mi_messageContent mi, mc_type := mi_messageType mi, mc_shown := mi_showMessage mi\<rparr>
      else sc)"

text \<open>A menu that could not be fetched is \<open>null\<close>: reading its nodes fails and the scope keeps its menu.\<close>

definition navigation_watch :: "mtpl_info \<Rightarrow> mtpl_scope \<Rightarrow> mtpl_scope" where
  "navigation_watch mi sc =
     (if changed mi_navigation mi sc
      then (case vget (mi_navigation mi) ''nodes'' of Inl e \<Rightarrow> sc | Inr nodes \<Rightarrow> sc\<lparr>mc_menu := nodes\<rparr>)
      else sc)"

definition classes_watch :: "mtpl_info \<Rightarrow> mtpl_scope \<Rightarrow> mtpl_scope" where
  "classes_watch mi sc =
     (if changed mi_creationClasses mi sc then sc\<lparr>mc_classes := mi_creationClasses mi\<rparr> else sc)"

definition mtpl_digest :: "mtpl_info \<Rightarrow> mtpl_scope \<Rightarrow> mtpl_scope" where
  "mtpl_digest mi sc =
     (classes_watch mi (navigation_watch mi (message_watch mi sc)))\<lparr>mc_seen := Some mi\<rparr>"

text \<open>The directive of the menu appends to its element at every change of the menu.\<close>

definition nav_menu_watch :: "menu_node list \<Rightarrow> string \<Rightarrow> string" where
  "nav_menu_watch menu shown = shown @ nav_menu menu"

text \<open>A form's controller (\<open>ion-ng-form.js\<close>) starts with an empty scope and opens the part for the details.\<close>

definition form_opens :: "mtpl_info \<Rightarrow> form_scope \<times> mtpl_info" where
  "form_opens mi = (init_form_scope, mi\<lparr>mi_showSlave := True\<rparr>)"

section \<open>Steps\<close>

datatype mtpl_event =
    Alerted string message
  | Hide_Message
  | Menu_Answer "jsval option"
  | Sidebar_Answer "jsval option"
  | Classes_Answer jsval

definition mtpl_change :: "mtpl_event \<Rightarrow> mtpl_info \<Rightarrow> mtpl_info" where
  "mtpl_change e mi =
     (case e of
        Alerted type msg \<Rightarrow> Alert type msg mi
      | Hide_Message \<Rightarrow> hideMessage mi
      | Menu_Answer data \<Rightarrow> menu_arrives data mi
      | Sidebar_Answer data \<Rightarrow> sidebar_arrives data mi
      | Classes_Answer cs \<Rightarrow> mi\<lparr>mi_creationClasses := cs\<rparr>)"

definition mtpl_step :: "mtpl_event \<Rightarrow> mtpl_info \<times> mtpl_scope \<Rightarrow> mtpl_info \<times> mtpl_scope" where
  "mtpl_step e = (\<lambda>(mi, sc). let mi' = mtpl_change e mi in (mi', mtpl_digest mi' sc))"

definition mtpl_run :: "mtpl_event list \<Rightarrow> mtpl_info \<Rightarrow> mtpl_info \<times> mtpl_scope" where
  "mtpl_run es mi = fold mtpl_step es (mi, mtpl_digest mi mtpl_scope_init)"

section \<open>Lemmas\<close>

definition mtpl_synced :: "mtpl_info \<times> mtpl_scope \<Rightarrow> bool" where
  "mtpl_synced = (\<lambda>(mi, sc). mc_seen sc = Some mi \<and> mc_content sc = mi_messageContent mi
     \<and> mc_shown sc = mi_showMessage mi \<and> mc_classes sc = mi_creationClasses mi)"

lemma mtpl_watch_seen [simp]:
  "mc_seen (message_watch mi sc) = mc_seen sc" "mc_seen (navigation_watch mi sc) = mc_seen sc"
  by (simp_all add: message_watch_def navigation_watch_def split: sum.split)

lemma mtpl_watch_frame [simp]:
  "mc_content (navigation_watch mi sc) = mc_content sc" "mc_shown (navigation_watch mi sc) = mc_shown sc"
  "mc_type (navigation_watch mi sc) = mc_type sc" "mc_classes (navigation_watch mi sc) = mc_classes sc"
  "mc_classes (message_watch mi sc) = mc_classes sc" "mc_menu (message_watch mi sc) = mc_menu sc"
  "mc_content (classes_watch mi sc) = mc_content sc" "mc_shown (classes_watch mi sc) = mc_shown sc"
  "mc_type (classes_watch mi sc) = mc_type sc" "mc_menu (classes_watch mi sc) = mc_menu sc"
  by (simp_all add: message_watch_def navigation_watch_def classes_watch_def split: sum.split)

lemma synced_first: "mtpl_synced (mi, mtpl_digest mi mtpl_scope_init)"
  by (simp add: mtpl_synced_def mtpl_digest_def mtpl_scope_init_def classes_watch_def message_watch_def changed_def)

lemma changed_frame [simp]:
  "changed f mi (message_watch mi' sc) = changed f mi sc" "changed f mi (navigation_watch mi' sc) = changed f mi sc"
  by (simp_all add: changed_def)

lemma synced_step: "mtpl_synced s \<Longrightarrow> mtpl_synced (mtpl_step e s)"
  by (cases s) (auto simp: mtpl_synced_def mtpl_step_def mtpl_digest_def classes_watch_def message_watch_def
      changed_def Let_def)

lemma synced_run: "mtpl_synced (mtpl_run es mi)"
proof -
  have "mtpl_synced s \<Longrightarrow> mtpl_synced (fold mtpl_step es s)" for s
    by (induction es arbitrary: s) (simp_all add: synced_step)
  with synced_first show ?thesis by (simp add: mtpl_run_def)
qed

section \<open>Properties\<close>

text \<open>
  The panel shows the last message: whatever happened on the page, after a message with another text,
  or one that comes while none is shown, the panel is open with its text and its type; hiding it
  closes the panel, and the classes offered for creation are always those of \<open>mtplInfo\<close>.
\<close>

theorem panel_shows_last_message:
  assumes "mtpl_run es mi = (mi', sc)" and "\<not> mi_showMessage mi' \<or> mi_messageContent mi' \<noteq> msg"
  shows "let sc' = snd (mtpl_step (Alerted type msg) (mi', sc))
    in mc_shown sc' \<and> mc_content sc' = msg \<and> mc_type sc' = type \<and> mc_classes sc' = mi_creationClasses mi'
     \<and> \<not> mc_shown (snd (mtpl_step Hide_Message (mtpl_step (Alerted type msg) (mi', sc))))"
proof -
  have s: "mtpl_synced (mi', sc)" using synced_run [of es mi] assms(1) by simp
  with assms(2) show ?thesis
    by (auto simp: mtpl_synced_def mtpl_step_def mtpl_change_def mtpl_digest_def message_watch_def
        classes_watch_def changed_def Let_def Alert_def hideMessage_def)
qed

lemma panel_shows_last_message_witness:
  "mc_type (snd (mtpl_step (Alerted ''info'' (Ru Action_Signed))
      (mtpl_run [Alerted ''error'' (Ru Access_Denied)] (mtplInfoFactory None None 0 0 0)))) = ''info''"
proof -
  obtain mi' sc where r: "mtpl_run [Alerted ''error'' (Ru Access_Denied)] (mtplInfoFactory None None 0 0 0) = (mi', sc)"
    by (cases "mtpl_run [Alerted ''error'' (Ru Access_Denied)] (mtplInfoFactory None None 0 0 0)")
  then have "mi' = Alert ''error'' (Ru Access_Denied) (mtplInfoFactory None None 0 0 0)"
    by (simp add: mtpl_run_def mtpl_step_def mtpl_change_def Let_def)
  then have "mi_messageContent mi' \<noteq> Ru Action_Signed" by simp
  with panel_shows_last_message [OF r, of "Ru Action_Signed" "''info''"] show ?thesis
    by (simp add: r Let_def)
qed

text \<open>
  The type is not watched: a message with the text that is on show and another type leaves the panel
  in the colours of the first.
\<close>

theorem same_text_keeps_type:
  "let (mi', sc') = mtpl_run [Alerted t1 msg, Alerted t2 msg] mi in mi_messageType mi' = t2 \<and> mc_type sc' = (if mi_showMessage mi \<and> mi_messageContent mi = msg then mi_messageType mi else t1)"
  by (simp add: mtpl_run_def mtpl_step_def mtpl_change_def mtpl_digest_def message_watch_def classes_watch_def
      navigation_watch_def mtpl_scope_init_def changed_def Let_def Alert_def split: sum.split)

text \<open>When the menu cannot be fetched the frame goes on with the menu it had.\<close>

theorem refused_menu_keeps_menu:
  "mc_menu (snd (mtpl_step (Menu_Answer None) s)) = mc_menu (snd s)"
  by (cases s) (simp add: mtpl_step_def mtpl_change_def menu_arrives_def mtpl_digest_def Let_def navigation_watch_def)

text \<open>Opening a form opens the details of the page and leaves the panel, the menu and the classes alone.\<close>

theorem form_opens_details:
  assumes "mtpl_run es mi = (mi', sc)"
  shows "sc_showSlave (split_watch (snd (form_opens mi')) old)
    \<and> mtpl_digest (snd (form_opens mi')) sc = sc\<lparr>mc_seen := Some (snd (form_opens mi'))\<rparr>"
proof -
  have "mtpl_synced (mi', sc)" using synced_run [of es mi] assms by simp
  then show ?thesis
    by (simp add: mtpl_synced_def form_opens_def split_watch_def mtpl_digest_def message_watch_def
        navigation_watch_def classes_watch_def changed_def)
qed

text \<open>The menus that a page shows one after the other are all there.\<close>

theorem menus_accumulate: "fold nav_menu_watch menus [] = nav_menu (concat menus)"
proof -
  have "fold nav_menu_watch menus shown = shown @ nav_menu (concat menus)" for shown
    by (induction menus arbitrary: shown) (simp_all add: nav_menu_watch_def nav_menu_def)
  then show ?thesis by simp
qed

end
