(* ===== verification/Action_Session.thy ===== *)
theory Action_Session
  imports Actions Run_Interface "HOL-Library.Multiset"
begin

text \<open>
  Actions with digital signatures over a whole session: the user runs actions on items, edits the items,
  moves to other pages, chooses a certificate or sends the dialog away, and the answers of the server
  come when they come.  Whether digital signatures are enabled (\<open>ionGlobals.digiSignEnabled\<close>) is the
  parameter \<open>dig\<close> of the session.  The buttons of a form run an action by \<open>performSignedAction\<close>; those of
  lists and collections call \<open>execAction\<close>, which signs nothing.  The steps are those of \<open>Actions\<close> and \<open>Digital_Sign\<close>; an item is an object that
  the callbacks of an action read again when they run, so items live in a store.  The log of what is sent and
  answered is traced back from an action to the signature that was accepted for it, and signatures are counted.
\<close>

section \<open>State\<close>

text \<open>
  Whose callbacks the signing task has that was started last and not refused; the forms' actions sent that
  wait for an answer; all that were sent, each with the place of its request in the log; and the places of
  the requests that lists and collections sent.
\<close>

datatype sign_owner = Before ion_action nat string | After

record act_session =
  an_sign :: digital_sign
  an_mtpl :: mtpl_info
  an_pristine :: bool
  an_items :: "nat \<Rightarrow> jsobj"
  an_route :: jsobj
  an_owner :: "sign_owner option"
  an_replies :: "(ion_action \<times> nat) list"
  an_sent :: "(ion_action \<times> nat \<times> nat) list"
  an_listed :: "nat list"
  an_log :: "act_event list"

definition act_of :: "act_session \<Rightarrow> act_state" where
  "act_of j = \<lparr>as_sign = an_sign j, as_mtpl = an_mtpl j, as_pristine = an_pristine j, as_wait = None\<rparr>"

text \<open>What an operation on the item \<open>x\<close> leaves: its events, and what it waits for.\<close>

definition absorb :: "nat \<Rightarrow> act_state \<times> act_event list \<Rightarrow> act_session \<Rightarrow> act_session" where
  "absorb x = (\<lambda>(s, evs) j.
     (let j' = j\<lparr>an_sign := as_sign s, an_mtpl := as_mtpl s, an_pristine := as_pristine s, an_log := an_log j @ evs\<rparr>
      in case as_wait s of
           None \<Rightarrow> j'
         | Some (Wait_Signature a it url) \<Rightarrow> j'\<lparr>an_owner := Some (Before a x url)\<rparr>
         | Some (Wait_Reply a it) \<Rightarrow> j'\<lparr>an_replies := an_replies j @ [(a, x)], 
             an_sent := an_sent j @ [(a, x, length (an_log j))]\<rparr>
         | Some Wait_Signed_After \<Rightarrow> j'\<lparr>an_owner := Some After\<rparr>))"

text \<open>What an action run by a list or collection leaves; its answer is the list's.\<close>

definition absorb_list :: "act_state \<times> act_event list \<Rightarrow> act_session \<Rightarrow> act_session" where
  "absorb_list = (\<lambda>(s, evs) j.
     j\<lparr>an_log := an_log j @ evs,
       an_listed := an_listed j @ (if as_wait s = None then [] else [length (an_log j)])\<rparr>)"

section \<open>Steps\<close>

text \<open>The callbacks of the signing task.\<close>

definition react :: "(fail_text \<Rightarrow> jsval) \<Rightarrow> event \<Rightarrow> act_session \<Rightarrow> act_session" where
  "react text e j =
     (let j1 = j\<lparr>an_log := an_log j @ [Sign_Event e]\<rparr>
      in case e of
           Call_Fail t \<Rightarrow> j1\<lparr>an_mtpl := as_mtpl (sign_failed (text t) (act_of j1))\<rparr>
         | Call_Success \<Rightarrow>
             (case an_owner j of
                Some (Before a x url) \<Rightarrow>
                  absorb x (signed_before a (an_items j x) url (an_route j) (act_of j1)) (j1\<lparr>an_owner := None\<rparr>)
              | Some After \<Rightarrow> j1\<lparr>an_mtpl := as_mtpl (signed_after (act_of j1)), an_owner := None\<rparr>
              | None \<Rightarrow> j1)
         | _ \<Rightarrow> j1)"

definition signing :: "(fail_text \<Rightarrow> jsval) \<Rightarrow> digital_sign \<times> event list \<Rightarrow> act_session \<Rightarrow> act_session" where
  "signing text = (\<lambda>(ds, evs) j. fold (react text) evs (j\<lparr>an_sign := ds\<rparr>))"

datatype act_input =
    Run_Action ion_action nat string
  | List_Action ion_action jsobj string
  | Reply nat "jsval option"
  | Edit_Item nat string jsval
  | Navigate jsobj
  | Data_In int jsval string
  | Certificate_Chosen cert_dialog
  | Certificate_Dismissed
  | Receipt_In jsval string

definition act_session_step ::
  "(fail_text \<Rightarrow> jsval) \<Rightarrow> bool \<Rightarrow> plugin \<Rightarrow> bool \<Rightarrow> act_input \<Rightarrow> act_session \<Rightarrow> act_session" where
  "act_session_step text dig pl hasForm e j =
     (case e of
        Run_Action a x url \<Rightarrow>
          absorb x (performSignedAction text dig a (an_items j x) url (an_route j) (act_of j)) j
      | List_Action a rq url \<Rightarrow> absorb_list (execAction a rq url (an_route j) (act_of j)) j
      | Reply n ans \<Rightarrow>
          if n < length (an_replies j)
          then (let (a, x) = an_replies j ! n;
                    j1 = j\<lparr>an_replies := take n (an_replies j) @ drop (Suc n) (an_replies j)\<rparr>
                in absorb x (case ans of
                       None \<Rightarrow> handleReject (act_of j1)
                     | Some response \<Rightarrow> handleResolve text dig hasForm a response (act_of j1)) j1)
          else j
      | Edit_Item x nm v \<Rightarrow> j\<lparr>an_items := (an_items j)(x := oset (an_items j x) nm v)\<rparr>
      | Navigate rp \<Rightarrow> j\<lparr>an_route := rp\<rparr>
      | Data_In now d st \<Rightarrow>
          (case cp_waits (ds_crypto (an_sign j)) of
             Wait_Data jb # _ \<Rightarrow> signing text (data_arrives pl now jb d st (an_sign j)) j
           | _ \<Rightarrow> j)
      | Certificate_Chosen dlg \<Rightarrow>
          if ds_dialog (an_sign j) then signing text (certSelect pl dlg (an_sign j)) j else j
      | Certificate_Dismissed \<Rightarrow> j\<lparr>an_sign := dismiss_dialog (an_sign j)\<rparr>
      | Receipt_In d st \<Rightarrow>
          (case cp_waits (ds_crypto (an_sign j)) of
             Wait_Sent jb # _ \<Rightarrow> signing text (answer_arrives jb d st (an_sign j)) j
           | _ \<Rightarrow> j))"

definition new_act_session :: "mtpl_info \<Rightarrow> (nat \<Rightarrow> jsobj) \<Rightarrow> jsobj \<Rightarrow> act_session" where
  "new_act_session mi items rp =
     \<lparr>an_sign = ionDigitalSignFactory, an_mtpl = mi, an_pristine = False, an_items = items, an_route = rp,
      an_owner = None, an_replies = [], an_sent = [], an_listed = [], an_log = []\<rparr>"

definition act_run ::
  "(fail_text \<Rightarrow> jsval) \<Rightarrow> bool \<Rightarrow> plugin \<Rightarrow> bool \<Rightarrow> act_input list \<Rightarrow> act_session \<Rightarrow> act_session" where
  "act_run text dig pl hasForm es j = fold (act_session_step text dig pl hasForm) es j"

section \<open>The events of the signing task\<close>

lemma sign_parts_only_fails:
  "\<forall>e \<in> set evs. \<exists>t. e = Call_Fail t \<Longrightarrow>
   \<forall>e \<in> set (fst (sign_parts pl c ps data sigs evs)). \<exists>t. e = Call_Fail t"
proof (induction ps arbitrary: data sigs evs)
  case Nil
  then show ?case by simp
next
  case (Cons p ps)
  show ?case
  proof (cases "vget p ''mimeType''")
    case (Inl e)
    with Cons.prems show ?thesis by simp
  next
    case m: (Inr v)
    show ?thesis
    proof (cases "\<exists>t. v = JStr t")
      case False
      with m Cons.prems show ?thesis by (cases v) simp_all
    next
      case True
      then obtain t where v: "v = JStr t" by blast
      show ?thesis
      proof (cases "getSignFunc t data")
        case (Inl e)
        with m v Cons.prems show ?thesis by simp
      next
        case g: (Inr r)
        obtain f d evs' where r: "r = (f, d, evs')" by (cases r)
        with g have "\<forall>e \<in> set evs'. \<exists>t. e = Call_Fail t"
          by (cases "supported t"; cases "set_signature_type data (type_name (the (supported t)))")
            (auto simp: getSignFunc_cases)
        with Cons.prems have "\<forall>e \<in> set (evs @ evs'). \<exists>t. e = Call_Fail t" by auto
        with Cons.IH [OF this] m v g r show ?thesis
          by (cases "rbind (vget p ''contents'') (\<lambda>contents. apply_sign_func pl f contents c)") auto
      qed
    qed
  qed
qed

text \<open>Signing either stops, with nothing awaited more than before, or posts the signatures of the job.\<close>

lemma doSign_result:
  assumes "doSign pl jb d k s = (s', evs)"
  shows "(cp_waits s' = cp_waits s \<and> Call_Success \<notin> set evs) \<or>
    (cp_waits s' = Wait_Sent jb # cp_waits s \<and> Call_Success \<notin> set evs \<and>
      (\<exists>es body. evs = es @ [Post_Sign body] \<and> oget body ''id'' = j_obj jb \<and> oget body ''action'' = j_action jb))"
proof -
  have p: "sign_parts pl c ps d [] [] = (es, r) \<Longrightarrow> Call_Success \<notin> set es" for c ps es r
    using sign_parts_only_fails [of "[]" pl c ps d "[]"] by auto
  show ?thesis
    using assms
    by (auto simp: doSign_def sendSign_def split: sum.splits option.splits prod.splits if_splits dest!: p)
qed

lemma doSign_no_success: "Call_Success \<notin> set (snd (doSign pl jb d k s))"
  using doSign_result [of pl jb d k s "fst (doSign pl jb d k s)" "snd (doSign pl jb d k s)"] by auto

lemma received_no_success: "Call_Success \<notin> set (snd (received pl now jb d st s))"
  by (simp add: received_def Let_def doSign_no_success split: sum.split list.split jsval.split prod.split)

section \<open>Lemmas\<close>

lemma react_quiet:
  assumes "Call_Success \<notin> set evs"
  shows "an_sign (fold (react text) evs j) = an_sign j" "an_owner (fold (react text) evs j) = an_owner j"
    "an_items (fold (react text) evs j) = an_items j" "an_sent (fold (react text) evs j) = an_sent j"
    "an_log (fold (react text) evs j) = an_log j @ map Sign_Event evs"
proof -
  have r: "an_sign (react text e j) = an_sign j \<and> an_owner (react text e j) = an_owner j \<and>
      an_items (react text e j) = an_items j \<and> an_sent (react text e j) = an_sent j \<and>
      an_log (react text e j) = an_log j @ [Sign_Event e]" if "e \<noteq> Call_Success" for e j
    using that by (cases e) (simp_all add: react_def Let_def)
  have "an_sign (fold (react text) evs j) = an_sign j \<and> an_owner (fold (react text) evs j) = an_owner j \<and>
    an_items (fold (react text) evs j) = an_items j \<and> an_sent (fold (react text) evs j) = an_sent j \<and>
    an_log (fold (react text) evs j) = an_log j @ map Sign_Event evs"
    using assms
  proof (induction evs arbitrary: j)
    case (Cons e evs)
    then have "e \<noteq> Call_Success" "Call_Success \<notin> set evs" by auto
    with r [of e j] Cons.IH [of "react text e j"] show ?case by simp
  qed simp
  then show "an_sign (fold (react text) evs j) = an_sign j" "an_owner (fold (react text) evs j) = an_owner j"
    "an_items (fold (react text) evs j) = an_items j" "an_sent (fold (react text) evs j) = an_sent j"
    "an_log (fold (react text) evs j) = an_log j @ map Sign_Event evs"
    by blast+
qed

text \<open>What \<open>data_arrives\<close> leaves: a task that goes on is still the same job.\<close>

lemma data_arrives_result:
  assumes "ds_inv s" "cp_waits (ds_crypto s) = Wait_Data jb # ws" "data_arrives pl now jb d st s = (s', evs)"
  shows "ds_inv s' \<and> Call_Success \<notin> set evs \<and> (ds_dialog s' \<longrightarrow> (\<exists>d. ds_doSign s' = Some (jb, d))) \<and>
    (cp_waits (ds_crypto s') = [] \<or>
     cp_waits (ds_crypto s') = [Wait_Sent jb] \<and>
       (\<exists>es body. evs = es @ [Post_Sign body] \<and> oget body ''id'' = j_obj jb \<and> oget body ''action'' = j_action jb))"
proof -
  have nd: "\<not> ds_dialog s" and w: "cp_waits (ds_crypto s) = [Wait_Data jb]"
    using assms(1,2) by (auto simp: ds_inv_def split: phase.splits)
  have i: "ds_inv s'" using data_arrives_inv [OF assms(1), of jb pl now d st] assms(2,3) by simp
  have q: "Call_Success \<notin> set evs"
    using received_no_success [of pl now jb d st "ds_crypto s"] assms(3)
    by (auto simp: data_arrives_def split: prod.splits)
  define r where "r = received pl now jb d st (ds_crypto s)"
  have e: "s' = fold on_event (snd r) (s\<lparr>ds_crypto := fst r\<rparr>)" "evs = snd r"
    using assms(3) by (auto simp: data_arrives_def r_def split: prod.splits)
  show ?thesis
  proof (cases rule: received_cases [of pl now jb d st "ds_crypto s"])
    case (failed es)
    then have "fold on_event (snd r) = (\<lambda>s. s)" using on_event_quiet by (auto simp: r_def)
    with failed e w nd i q show ?thesis by (simp add: r_def)
  next
    case (uncaught ex)
    with e w nd i q show ?thesis by (simp add: r_def)
  next
    case (asked d')
    with e w i q show ?thesis by (simp add: r_def)
  next
    case (signed d' k)
    define c where "c = (ds_crypto s)\<lparr>cp_waits := [], cp_phase := Signing\<rparr>"
    have r: "r = doSign pl jb d' k c" using signed w by (simp add: r_def c_def)
    then have "fold on_event (snd r) (s\<lparr>ds_crypto := fst r\<rparr>) = s\<lparr>ds_crypto := fst r\<rparr>"
      by (intro on_event_quiet) (simp add: doSign_asks_nothing)
    with e have s': "ds_dialog s' = ds_dialog s" "ds_crypto s' = fst r" by simp_all
    have "doSign pl jb d' k c = (fst r, evs)" using r e(2) by simp
    from doSign_result [OF this] have "cp_waits (fst r) = [] \<or> cp_waits (fst r) = [Wait_Sent jb] \<and>
       (\<exists>es body. evs = es @ [Post_Sign body] \<and> oget body ''id'' = j_obj jb \<and> oget body ''action'' = j_action jb)"
      by (auto simp: c_def)
    with s' nd i q show ?thesis by simp
  qed
qed

section \<open>The invariant\<close>

definition key_of :: "act_session \<Rightarrow> nat \<Rightarrow> string res" where
  "key_of j x = item_key ''.'' (an_items j x)"

text \<open>The job under way is that of the owner of the task.\<close>

definition matches :: "act_session \<Rightarrow> job \<Rightarrow> bool" where
  "matches j jb \<longleftrightarrow> j_notify jb \<and>
     (case an_owner j of
        Some (Before a x url) \<Rightarrow> j_action jb = sa_id a \<and> (\<exists>k. key_of j x = Inr k \<and> j_obj jb = JStr k)
      | Some After \<Rightarrow> True
      | None \<Rightarrow> False)"

definition no_post :: "act_event list \<Rightarrow> bool" where
  "no_post evs \<longleftrightarrow> (\<forall>b. Sign_Event (Post_Sign b) \<notin> set evs)"

text \<open>The signatures posted last are those of the object \<open>i\<close> for the action \<open>act\<close>.\<close>

definition posted :: "jsval \<Rightarrow> jsval \<Rightarrow> act_event list \<Rightarrow> bool" where
  "posted i act log \<longleftrightarrow>
     (\<exists>l1 body l2. log = l1 @ Sign_Event (Post_Sign body) # l2 \<and> no_post l2 \<and>
        oget body ''id'' = i \<and> oget body ''action'' = act)"

definition gated :: "act_session \<Rightarrow> ion_action \<times> nat \<times> nat \<Rightarrow> bool" where
  "gated j = (\<lambda>(a, x, n). \<exists>k l1 url rq l2. key_of j x = Inr k \<and> posted (JStr k) (sa_id a) l1 \<and>
     an_log j = l1 @ Sign_Event Call_Success # Send_Action url rq # l2 \<and> n = Suc (length l1))"

text \<open>How many signatures were used, accepted and posted, and that none is used twice.\<close>

definition signed_sent :: "(ion_action \<times> nat \<times> nat) list \<Rightarrow> nat" where
  "signed_sent axs = length (filter (\<lambda>ax. sa_signBefore (fst ax)) axs)"

definition accepted :: "act_event list \<Rightarrow> nat" where
  "accepted log = length (filter (\<lambda>e. e = Sign_Event Call_Success) log)"

fun is_post :: "act_event \<Rightarrow> bool" where
  "is_post (Sign_Event (Post_Sign b)) = True"
| "is_post _ = False"

definition posts :: "act_event list \<Rightarrow> nat" where
  "posts log = length (filter is_post log)"

fun is_receipt_wait :: "wait \<Rightarrow> bool" where
  "is_receipt_wait (Wait_Sent jb) = True"
| "is_receipt_wait _ = False"

definition budget :: "act_session \<Rightarrow> bool" where
  "budget j \<longleftrightarrow> signed_sent (an_sent j) \<le> accepted (an_log j) \<and>
     accepted (an_log j) + length (filter is_receipt_wait (cp_waits (ds_crypto (an_sign j)))) \<le> posts (an_log j)"

definition an_inv :: "act_session \<Rightarrow> bool" where
  "an_inv j \<longleftrightarrow> ds_inv (an_sign j) \<and> budget j
     \<and> (\<forall>jb. Wait_Data jb \<in> set (cp_waits (ds_crypto (an_sign j))) \<longrightarrow> matches j jb)
     \<and> (\<forall>jb. Wait_Sent jb \<in> set (cp_waits (ds_crypto (an_sign j))) \<longrightarrow>
          matches j jb \<and> posted (j_obj jb) (j_action jb) (an_log j))
     \<and> (ds_dialog (an_sign j) \<longrightarrow> (\<exists>jb d. ds_doSign (an_sign j) = Some (jb, d) \<and> matches j jb))
     \<and> (\<forall>ax \<in> set (an_sent j). sa_signBefore (fst ax) \<longrightarrow> gated j ax)"

lemma count_simps [simp]:
  "signed_sent [] = 0" "signed_sent (axs @ bxs) = signed_sent axs + signed_sent bxs"
  "signed_sent (ax # axs) = (if sa_signBefore (fst ax) then 1 else 0) + signed_sent axs"
  "accepted [] = 0" "accepted (evs @ fvs) = accepted evs + accepted fvs"
  "accepted (e # evs) = (if e = Sign_Event Call_Success then 1 else 0) + accepted evs"
  "posts [] = 0" "posts (evs @ fvs) = posts evs + posts fvs"
  "posts (e # evs) = (if is_post e then 1 else 0) + posts evs"
  by (simp_all add: signed_sent_def accepted_def posts_def)

lemma accepted_none: "Call_Success \<notin> set evs \<Longrightarrow> accepted (map Sign_Event evs) = 0"
  by (induction evs) auto

lemma posted_append: "posted i a log \<Longrightarrow> no_post evs \<Longrightarrow> posted i a (log @ evs)"
proof -
  assume n: "no_post evs"
  assume "posted i a log"
  then obtain l1 body l2 where "log = l1 @ Sign_Event (Post_Sign body) # l2" "no_post l2"
    "oget body ''id'' = i" "oget body ''action'' = a"
    by (auto simp: posted_def)
  with n show ?thesis
    unfolding posted_def by (intro exI [of _ l1] exI [of _ body] exI [of _ "l2 @ evs"]) (auto simp: no_post_def)
qed

lemma posted_end:
  "oget body ''id'' = i \<Longrightarrow> oget body ''action'' = a \<Longrightarrow>
   posted i a (log @ map Sign_Event (es @ [Post_Sign body]))"
  unfolding posted_def by (rule exI [of _ "log @ map Sign_Event es"]) (auto simp: no_post_def)

lemma gated_mono:
  assumes "gated j ax" "an_log j' = an_log j @ evs" "\<And>x. key_of j' x = key_of j x"
  shows "gated j' ax"
proof -
  obtain a x n where ax: "ax = (a, x, n)" by (cases ax)
  with assms(1) obtain k l1 url rq l2 where "key_of j x = Inr k" "posted (JStr k) (sa_id a) l1"
    "an_log j = l1 @ Sign_Event Call_Success # Send_Action url rq # l2" "n = Suc (length l1)"
    by (auto simp: gated_def)
  with assms(2,3) show ?thesis
    unfolding ax gated_def prod.case
    by (intro exI [of _ k] exI [of _ l1] exI [of _ url] exI [of _ rq] exI [of _ "l2 @ evs"]) simp
qed

lemma matches_cong: "an_owner j' = an_owner j \<Longrightarrow> (\<And>x. key_of j' x = key_of j x) \<Longrightarrow> matches j' jb = matches j jb"
  by (auto simp: matches_def split: option.splits sign_owner.splits)

text \<open>What starts no task, ends none and posts nothing keeps the invariant.\<close>

lemma an_inv_quiet:
  assumes "an_inv j" "ds_inv (an_sign j')"
    and "ds_crypto (an_sign j') = ds_crypto (an_sign j) \<or> cp_waits (ds_crypto (an_sign j')) = []"
    and "ds_dialog (an_sign j') \<Longrightarrow> ds_dialog (an_sign j) \<and> ds_doSign (an_sign j') = ds_doSign (an_sign j)"
    and "an_owner j' = an_owner j \<or> cp_waits (ds_crypto (an_sign j')) = [] \<and> \<not> ds_dialog (an_sign j')"
    and "\<And>x. key_of j' x = key_of j x" "an_log j' = an_log j @ evs" "no_post evs"
    and "\<And>a x n. (a, x, n) \<in> set (an_sent j') \<Longrightarrow>
      (a, x, n) \<in> set (an_sent j) \<or> \<not> sa_signBefore a \<or> gated j' (a, x, n)"
    and "budget j'"
  shows "an_inv j'"
proof -
  have m: "cp_waits (ds_crypto (an_sign j')) = [] \<and> \<not> ds_dialog (an_sign j') \<or> (\<forall>jb. matches j' jb = matches j jb)"
    using assms(5) matches_cong [of j' j] assms(6) by blast
  have g: "sa_signBefore (fst ax) \<longrightarrow> gated j' ax" if "ax \<in> set (an_sent j')" for ax
  proof -
    obtain a x n where ax: "ax = (a, x, n)" by (cases ax)
    from assms(9) [of a x n] that ax show ?thesis
      using gated_mono [OF _ assms(7,6), of "(a, x, n)"] assms(1) by (auto simp: an_inv_def)
  qed
  have w: "\<forall>jb. Wait_Sent jb \<in> set (cp_waits (ds_crypto (an_sign j'))) \<longrightarrow>
      matches j' jb \<and> posted (j_obj jb) (j_action jb) (an_log j')"
    using assms(1,3,7,8) m by (auto simp: an_inv_def intro: posted_append)
  show ?thesis
    using assms(1-4,10) m g w by (auto simp: an_inv_def)
qed

lemma budget_of:
  "an_inv j \<Longrightarrow> signed_sent (an_sent j) \<le> accepted (an_log j) \<and>
     accepted (an_log j) + length (filter is_receipt_wait (cp_waits (ds_crypto (an_sign j)))) \<le> posts (an_log j)"
  by (simp add: an_inv_def budget_def)

lemma an_inv_new: "an_inv (new_act_session mi items rp)"
  by (simp add: an_inv_def new_act_session_def ionDigitalSignFactory_def CryptoPro_def ds_inv_def budget_def)

text \<open>Starting a task.\<close>

lemma an_inv_start:
  assumes "an_inv j" "cp_phase (ds_crypto (an_sign j)) = Ready"
    and "ds_crypto (an_sign j') = fst (makeSign jb (ds_crypto (an_sign j)))"
    and "ds_dialog (an_sign j') = ds_dialog (an_sign j)" "matches j' jb"
    and "\<And>x. key_of j' x = key_of j x" "an_log j' = an_log j @ evs" "an_sent j' = an_sent j"
    and "budget j'"
  shows "an_inv j'"
proof -
  have "cp_waits (ds_crypto (an_sign j)) = []" "\<not> ds_dialog (an_sign j)"
    using assms(1,2) by (simp_all add: an_inv_def ds_inv_def)
  then have c: "ds_crypto (an_sign j') = (ds_crypto (an_sign j))\<lparr>cp_phase := Receiving, cp_waits := [Wait_Data jb]\<rparr>"
    "\<not> ds_dialog (an_sign j')"
    using assms(2-4) by (simp_all add: makeSign_def)
  have "gated j' ax" if "ax \<in> set (an_sent j)" "sa_signBefore (fst ax)" for ax
    using gated_mono [OF _ assms(7,6)] that assms(1) by (auto simp: an_inv_def)
  with c assms(5,8,9) show ?thesis by (auto simp: an_inv_def ds_inv_def)
qed

lemma ds_inv_start [simp]: "ds_inv s \<Longrightarrow> ds_inv (setSignedId i s)" "ds_inv s \<Longrightarrow> ds_inv (fst (StartSign b s))"
  by (auto intro: ds_step_inv ds_step.intros)

lemma act_of_simps [simp]:
  "as_sign (act_of j) = an_sign j" "as_mtpl (act_of j) = an_mtpl j" "as_wait (act_of j) = None"
  by (simp_all add: act_of_def)

text \<open>\<open>execAction\<close> in a session: it is sent, or its parameters throw.\<close>

lemma execAction_cases:
  obtains (sent) rq where "execAction a item url rp s = (s\<lparr>as_wait := Some (Wait_Reply a item)\<rparr>, [Send_Action url rq])"
    | (thrown) e where "execAction a item url rp s = (s\<lparr>as_wait := None\<rparr>, [Act_Exception e])"
  by (cases "action_params (sa_id a) item rp") (auto simp: execAction_def)

text \<open>\<open>start_signing\<close>: a task is started, or refused.\<close>

lemma start_signing_cases:
  obtains (started) s' where "cp_phase (ds_crypto (as_sign s)) = Ready"
      "start_signing text a w s = (s', [Sign_Event (Get_Data (ds_signedId (as_sign s)) (sa_id a))])"
      "as_wait s' = Some w" "ds_dialog (as_sign s') = ds_dialog (as_sign s)"
      "ds_crypto (as_sign s') = fst (makeSign (sign_job (base_action a) (as_sign s)) (ds_crypto (as_sign s)))"
    | (refused) s' where "start_signing text a w s = (s', [Sign_Event (Call_Fail Module_Busy)])"
      "as_wait s' = None" "ds_crypto (as_sign s') = ds_crypto (as_sign s)"
      "ds_dialog (as_sign s') = ds_dialog (as_sign s)" "ds_doSign (as_sign s') = ds_doSign (as_sign s)"
proof (cases "cp_phase (ds_crypto (as_sign s)) = Ready")
  case True
  then show thesis
    by (intro started [of "fst (start_signing text a w s)"])
      (simp_all add: start_signing_def StartSign_def makeSign_def sign_job_def base_action_def Let_def)
next
  case False
  then show thesis
    by (intro refused [of "fst (start_signing text a w s)"])
      (simp_all add: start_signing_def StartSign_def makeSign_def sign_failed_def Let_def)
qed

lemma ds_inv_crypto:
  "ds_crypto s' = ds_crypto s \<Longrightarrow> ds_dialog s' = ds_dialog s \<Longrightarrow> ds_doSign s' = ds_doSign s \<Longrightarrow> ds_inv s' = ds_inv s"
  by (cases "cp_phase (ds_crypto s)") (simp_all add: ds_inv_def)

lemma setSignedId_simps [simp]:
  "ds_crypto (setSignedId i s) = ds_crypto s" "ds_dialog (setSignedId i s) = ds_dialog s"
  "ds_doSign (setSignedId i s) = ds_doSign s" "ds_signedId (setSignedId i s) = i"
  by (simp_all add: setSignedId_def)

lemma absorb_keeps [simp]:
  "an_sign (absorb x (s, evs) j) = as_sign s" "an_items (absorb x (s, evs) j) = an_items j"
  "an_log (absorb x (s, evs) j) = an_log j @ evs" "key_of (absorb x (s, evs) j) y = key_of j y"
  by (simp_all add: absorb_def key_of_def Let_def split: option.split act_wait.split)

lemma absorb_owner [simp]:
  "as_wait s = None \<Longrightarrow> an_owner (absorb x (s, evs) j) = an_owner j"
  "as_wait s = Some (Wait_Reply a it) \<Longrightarrow> an_owner (absorb x (s, evs) j) = an_owner j"
  "as_wait s = Some (Wait_Signature a it url) \<Longrightarrow> an_owner (absorb x (s, evs) j) = Some (Before a x url)"
  "as_wait s = Some Wait_Signed_After \<Longrightarrow> an_owner (absorb x (s, evs) j) = Some After"
  by (simp_all add: absorb_def Let_def)

lemma absorb_sent [simp]:
  "as_wait s = None \<Longrightarrow> an_sent (absorb x (s, evs) j) = an_sent j"
  "as_wait s = Some (Wait_Reply a it) \<Longrightarrow> an_sent (absorb x (s, evs) j) = an_sent j @ [(a, x, length (an_log j))]"
  "as_wait s = Some (Wait_Signature a it url) \<Longrightarrow> an_sent (absorb x (s, evs) j) = an_sent j"
  "as_wait s = Some Wait_Signed_After \<Longrightarrow> an_sent (absorb x (s, evs) j) = an_sent j"
  by (simp_all add: absorb_def Let_def)

lemma no_post_simps [simp]: "no_post []" "no_post (e # es) = ((\<forall>b. e \<noteq> Sign_Event (Post_Sign b)) \<and> no_post es)"
  by (auto simp: no_post_def)

lemma run_action_inv:
  assumes "an_inv j"
  shows "an_inv (absorb x (performSignedAction text True a (an_items j x) url (an_route j) (act_of j)) j)"
proof (cases "item_key ''.'' (an_items j x)")
  case (Inl e)
  with assms budget_of [OF assms] show ?thesis
    by (intro an_inv_quiet [OF assms, where evs = "[Act_Exception e]"])
      (auto simp: performSignedAction_def an_inv_def budget_def)
next
  case (Inr k)
  define s where "s = (act_of j)\<lparr>as_sign := setSignedId (JStr k) (an_sign j)\<rparr>"
  have s: "ds_inv (as_sign s)" "as_wait s = None" "ds_crypto (as_sign s) = ds_crypto (an_sign j)"
    "ds_dialog (as_sign s) = ds_dialog (an_sign j)" "ds_doSign (as_sign s) = ds_doSign (an_sign j)"
    "ds_signedId (as_sign s) = JStr k"
    using assms by (simp_all add: s_def an_inv_def)
  show ?thesis
  proof (cases "sa_signBefore a")
    case False
    then have p: "performSignedAction text True a (an_items j x) url (an_route j) (act_of j) =
        execAction a (an_items j x) url (an_route j) s"
      by (simp add: performSignedAction_def Inr s_def)
    show ?thesis
    proof (cases rule: execAction_cases [of a "an_items j x" url "an_route j" s])
      case (sent rq)
      with p s False budget_of [OF assms] show ?thesis
        by (intro an_inv_quiet [OF assms, where evs = "[Send_Action url rq]"]) (auto simp: budget_def)
    next
      case (thrown e)
      with p s budget_of [OF assms] show ?thesis
        by (intro an_inv_quiet [OF assms, where evs = "[Act_Exception e]"]) (auto simp: budget_def)
    qed
  next
    case True
    then have p: "performSignedAction text True a (an_items j x) url (an_route j) (act_of j) =
        start_signing text a (Wait_Signature a (an_items j x) url) s"
      by (simp add: performSignedAction_def Inr s_def)
    show ?thesis
    proof (cases rule: start_signing_cases [of s "text" a "Wait_Signature a (an_items j x) url"])
      case (started s')
      have "matches (absorb x (start_signing text a (Wait_Signature a (an_items j x) url) s) j)
          (sign_job (base_action a) (as_sign s))"
        using started s Inr by (simp add: matches_def sign_job_def base_action_def) (simp add: key_of_def)
      with started p s budget_of [OF assms] show ?thesis
        by (intro an_inv_start [OF assms]) (auto simp: budget_def makeSign_def)
    next
      case (refused s')
      with p s budget_of [OF assms] ds_inv_crypto [of "as_sign s'" "as_sign s"] show ?thesis
        by (intro an_inv_quiet [OF assms, where evs = "[Sign_Event (Call_Fail Module_Busy)]"]) (auto simp: budget_def)
    qed
  qed
qed

lemma handleResolve_cases:
  obtains (thrown) s' e where "handleResolve text dig hasForm a response s = (s', [Act_Exception e])"
      "as_wait s' = None" "as_sign s' = as_sign s \<or> (\<exists>i. as_sign s' = setSignedId i (as_sign s))"
    | (settled) s' where "handleResolve text dig hasForm a response s = (s', [Settled (Resolved response)])"
      "as_wait s' = None" "as_sign s' = as_sign s \<or> (\<exists>i. as_sign s' = setSignedId i (as_sign s))"
    | (signing) s1 where "as_sign s1 = as_sign s \<or> (\<exists>i. as_sign s1 = setSignedId i (as_sign s))"
      "handleResolve text dig hasForm a response s =
        (fst (start_signing text a Wait_Signed_After s1),
         snd (start_signing text a Wait_Signed_After s1) @ [Settled (Resolved response)])"
proof -
  define s0 where "s0 = s\<lparr>as_wait := None\<rparr>"
  define q where "q = rbind (vget response ''item'') (\<lambda>it.
                if truthy it
                then rbind (vget it ''itemInfo'') (\<lambda>info.
                     rbind (vidx info 0) (\<lambda>c. rbind (vidx info 1) (\<lambda>i.
                       Inr (s0\<lparr>as_sign := setSignedId (JStr (to_str c @ ''.'' @ to_str i)) (as_sign s0)\<rparr>))))
                else Inr s0)"
  have h: "handleResolve text dig hasForm a response s =
      (case q of Inl e \<Rightarrow> (s0, [Act_Exception e])
       | Inr s1 \<Rightarrow> (case after_save hasForm a s1 of
           Inl e \<Rightarrow> (s1, [Act_Exception e])
         | Inr s2 \<Rightarrow>
             if sa_signAfter a \<and> dig
             then (fst (start_signing text a Wait_Signed_After s2),
                   snd (start_signing text a Wait_Signed_After s2) @ [Settled (Resolved response)])
             else (s2, [Settled (Resolved response)])))"
    unfolding handleResolve_def q_def s0_def Let_def by (simp add: case_prod_beta cong: sum.case_cong if_cong)
  have q: "as_wait s1 = None \<and> (as_sign s1 = as_sign s \<or> (\<exists>i. as_sign s1 = setSignedId i (as_sign s)))"
    if "q = Inr s1" for s1
    using that unfolding q_def rbind_def by (auto simp: s0_def split: sum.splits if_splits)
  show thesis
  proof (cases q)
    case (Inl e)
    with h show thesis by (intro thrown) (auto simp: s0_def)
  next
    case (Inr s1)
    note q1 = q [OF Inr]
    show thesis
    proof (cases "after_save hasForm a s1")
      case (Inl e)
      with h q1 \<open>q = Inr s1\<close> show thesis by (intro thrown) auto
    next
      case s2: (Inr s2)
      then have "as_wait s2 = as_wait s1" "as_sign s2 = as_sign s1"
        by (auto simp: after_save_def split: if_splits)
      with h q1 \<open>q = Inr s1\<close> s2 show thesis
        by (cases "sa_signAfter a \<and> dig") (intro signing [of s2] settled [of s2]; simp)+
    qed
  qed
qed

lemma reply_inv:
  assumes "an_inv j"
  shows "an_inv (absorb x (handleResolve text True hasForm a response (act_of j)) j)"
proof -
  have base: "ds_inv (an_sign j)" using assms by (simp add: an_inv_def)
  show ?thesis
  proof (cases rule: handleResolve_cases [of "text" True hasForm a response "act_of j"])
    case (thrown s' e)
    with base budget_of [OF assms] show ?thesis
      by (intro an_inv_quiet [OF assms, where evs = "[Act_Exception e]"]) (auto simp: budget_def)
  next
    case (settled s')
    with base budget_of [OF assms] show ?thesis
      by (intro an_inv_quiet [OF assms, where evs = "[Settled (Resolved response)]"]) (auto simp: budget_def)
  next
    case (signing s)
    then have s: "ds_inv (as_sign s)" "ds_crypto (as_sign s) = ds_crypto (an_sign j)"
      "ds_dialog (as_sign s) = ds_dialog (an_sign j)" "ds_doSign (as_sign s) = ds_doSign (an_sign j)"
      using base by auto
    show ?thesis
    proof (cases rule: start_signing_cases [of s "text" a Wait_Signed_After])
      case (started s')
      then have "matches (absorb x (handleResolve text True hasForm a response (act_of j)) j)
          (sign_job (base_action a) (as_sign s))"
        by (simp add: matches_def sign_job_def signing)
      with started s signing budget_of [OF assms] show ?thesis
        by (intro an_inv_start [OF assms]) (auto simp: budget_def makeSign_def)
    next
      case (refused s')
      with signing s budget_of [OF assms] ds_inv_crypto [of "as_sign s'" "as_sign s"] show ?thesis
        by (intro an_inv_quiet [OF assms,
              where evs = "[Sign_Event (Call_Fail Module_Busy), Settled (Resolved response)]"]) (auto simp: budget_def)
    qed
  qed
qed

text \<open>A task that goes on: nothing is accepted yet, and what was posted is its own.\<close>

lemma signing_quiet_inv:
  assumes "an_inv j" "Call_Success \<notin> set evs" "ds_inv ds"
    and "ds_dialog ds \<Longrightarrow> \<exists>jb d. ds_doSign ds = Some (jb, d) \<and> matches j jb"
    and "cp_waits (ds_crypto ds) = [] \<or> cp_waits (ds_crypto ds) = [Wait_Sent jb] \<and> matches j jb \<and>
       (\<exists>es body. evs = es @ [Post_Sign body] \<and> oget body ''id'' = j_obj jb \<and> oget body ''action'' = j_action jb)"
  shows "an_inv (signing text (ds, evs) j)"
proof -
  note f = react_quiet [OF assms(2), of "text" "j\<lparr>an_sign := ds\<rparr>"]
  have k: "key_of (signing text (ds, evs) j) x = key_of j x" for x
    by (simp add: signing_def key_of_def f)
  have m: "matches (signing text (ds, evs) j) jb = matches j jb" for jb
    by (intro matches_cong k) (simp add: signing_def f)
  have l: "an_log (signing text (ds, evs) j) = an_log j @ map Sign_Event evs"
    by (simp add: signing_def f)
  have "gated (signing text (ds, evs) j) ax" if "ax \<in> set (an_sent j)" "sa_signBefore (fst ax)" for ax
    using gated_mono [OF _ l k] that assms(1) by (auto simp: an_inv_def)
  moreover have "posted (j_obj jb) (j_action jb) (an_log j @ map Sign_Event evs)"
    if "evs = es @ [Post_Sign body]" "oget body ''id'' = j_obj jb" "oget body ''action'' = j_action jb" for es body
    using posted_end [OF that(2,3)] that(1) by simp
  moreover have "length (filter is_receipt_wait (cp_waits (ds_crypto ds))) \<le> posts (map Sign_Event evs)"
    using assms(5) by auto
  then have "budget (signing text (ds, evs) j)"
    unfolding budget_def l using budget_of [OF assms(1)] accepted_none [OF assms(2)]
    by (simp add: signing_def f)
  ultimately show ?thesis
    using assms(3-5) m l by (auto simp: an_inv_def signing_def f)
qed

lemma data_inv:
  assumes "an_inv j" "cp_waits (ds_crypto (an_sign j)) = Wait_Data jb # ws"
  shows "an_inv (signing text (data_arrives pl now jb d st (an_sign j)) j)"
proof -
  have i: "ds_inv (an_sign j)" "matches j jb" using assms by (auto simp: an_inv_def)
  obtain ds evs where r: "data_arrives pl now jb d st (an_sign j) = (ds, evs)"
    by (cases "data_arrives pl now jb d st (an_sign j)")
  from data_arrives_result [OF i(1) assms(2) r] i(2) show ?thesis
    unfolding r by (intro signing_quiet_inv [OF assms(1), where jb = jb]) auto
qed

lemma certSelect_inv:
  assumes "an_inv j" "ds_dialog (an_sign j)"
  shows "an_inv (signing text (certSelect pl dlg (an_sign j)) j)"
proof -
  from assms obtain jb d where i: "ds_inv (an_sign j)" "ds_doSign (an_sign j) = Some (jb, d)" "matches j jb"
    by (auto simp: an_inv_def)
  then have w: "cp_waits (ds_crypto (an_sign j)) = []"
    using assms(2) by (auto simp: ds_inv_def split: phase.splits)
  obtain c evs where c: "doSign pl jb d (to_str (cd_certKey dlg)) (ds_crypto (an_sign j)) = (c, evs)"
    by (cases "doSign pl jb d (to_str (cd_certKey dlg)) (ds_crypto (an_sign j))")
  then have r: "certSelect pl dlg (an_sign j) = ((an_sign j)\<lparr>ds_dialog := False, ds_crypto := c\<rparr>, evs)"
    using i(2) by (simp add: certSelect_def signByCert_def)
  have "ds_inv ((an_sign j)\<lparr>ds_dialog := False, ds_crypto := c\<rparr>)"
    using signByCert_phase [OF i(1) assms(2), of pl "cd_certKey dlg"] r by (simp add: certSelect_def)
  with doSign_result [OF c] w i(3) show ?thesis
    unfolding r by (intro signing_quiet_inv [OF assms(1), where jb = jb]) auto
qed

lemma answer_cases:
  obtains "snd (sent jb d st s) = [Call_Success]" | "Call_Success \<notin> set (snd (sent jb d st s))"
  by (cases "Call_Success \<in> set (snd (sent jb d st s))")
    (auto simp: sent_def server_answer_def split: if_splits sum.splits)

lemma receipt_inv:
  assumes "an_inv j" "cp_waits (ds_crypto (an_sign j)) = Wait_Sent jb # ws"
  shows "an_inv (signing text (answer_arrives jb d st (an_sign j)) j)"
proof -
  have i: "ds_inv (an_sign j)" "matches j jb" "posted (j_obj jb) (j_action jb) (an_log j)"
    using assms by (auto simp: an_inv_def)
  with assms(2) have w: "cp_waits (ds_crypto (an_sign j)) = [Wait_Sent jb]" "\<not> ds_dialog (an_sign j)"
    by (auto simp: ds_inv_def split: phase.splits)
  define ds where "ds = fst (answer_arrives jb d st (an_sign j))"
  define evs where "evs = snd (sent jb d st (ds_crypto (an_sign j)))"
  have r: "answer_arrives jb d st (an_sign j) = (ds, evs)"
    by (simp add: answer_arrives_def ds_def evs_def case_prod_beta)
  have ds: "ds_inv ds" "cp_waits (ds_crypto ds) = []" "\<not> ds_dialog ds"
    using w by (simp_all add: ds_def answer_arrives_def sent_def ds_inv_def)
  show ?thesis
  proof (cases "Call_Success \<in> set evs")
    case False
    with ds i show ?thesis unfolding r by (intro signing_quiet_inv [OF assms(1), where jb = jb]) auto
  next
    case True
    then have evs: "evs = [Call_Success]"
      by (cases rule: answer_cases [of jb d st "ds_crypto (an_sign j)"]) (auto simp: evs_def)
    define j1 where "j1 = j\<lparr>an_sign := ds, an_log := an_log j @ [Sign_Event Call_Success]\<rparr>"
    have k1: "key_of j1 y = key_of j y" for y by (simp add: j1_def key_of_def)
    show ?thesis
    proof (cases "an_owner j")
      case None
      with i(2) show ?thesis by (simp add: matches_def)
    next
      case (Some ow)
      show ?thesis
      proof (cases ow)
        case After
        then have "signing text (answer_arrives jb d st (an_sign j)) j =
            j1\<lparr>an_mtpl := as_mtpl (signed_after (act_of j1)), an_owner := None\<rparr>"
          unfolding r evs signing_def by (simp add: react_def Some j1_def Let_def)
        with ds k1 w budget_of [OF assms(1)] show ?thesis
          by (intro an_inv_quiet [OF assms(1), where evs = "[Sign_Event Call_Success]"])
            (auto simp: j1_def key_of_def budget_def)
      next
        case (Before a x url)
        with i(2) Some obtain k where k: "key_of j x = Inr k" "j_obj jb = JStr k" "j_action jb = sa_id a"
          by (auto simp: matches_def)
        define s where "s = (act_of j1)\<lparr>as_mtpl := Alert ''info'' (Ru Action_Signed) (as_mtpl (act_of j1))\<rparr>"
        have f: "signing text (answer_arrives jb d st (an_sign j)) j =
            absorb x (execAction a (an_items j x) url (an_route j) s) (j1\<lparr>an_owner := None\<rparr>)"
          unfolding r evs signing_def
          by (simp add: react_def Some Before j1_def s_def signed_before_def Let_def)
        show ?thesis
        proof (cases rule: execAction_cases [of a "an_items j x" url "an_route j" s])
          case (thrown e)
          with f ds k1 w budget_of [OF assms(1)] show ?thesis
            by (intro an_inv_quiet [OF assms(1), where evs = "[Sign_Event Call_Success, Act_Exception e]"])
              (auto simp: s_def j1_def key_of_def budget_def)
        next
          case (sent rq)
          let ?j' = "signing text (answer_arrives jb d st (an_sign j)) j"
          have j': "an_sign ?j' = ds" "an_log ?j' = an_log j @ [Sign_Event Call_Success, Send_Action url rq]"
            "an_sent ?j' = an_sent j @ [(a, x, Suc (length (an_log j)))]" "\<And>y. key_of ?j' y = key_of j y"
            unfolding f sent by (simp_all add: s_def j1_def act_of_def) (simp add: key_of_def)
          then have "gated ?j' (a, x, Suc (length (an_log j)))"
            using k i(3) by (auto simp: gated_def)
          with j' ds w budget_of [OF assms(1)] show ?thesis
            by (intro an_inv_quiet [OF assms(1), where evs = "[Sign_Event Call_Success, Send_Action url rq]"])
              (auto simp: budget_def)
        qed
      qed
    qed
  qed
qed

text \<open>The class and id of an item are not edited: they say which object it is.\<close>

definition keeps_info :: "act_input \<Rightarrow> bool" where
  "keeps_info e = (case e of Edit_Item x nm v \<Rightarrow> nm \<noteq> ''itemInfo'' | _ \<Rightarrow> True)"

lemma key_of_edit:
  "nm \<noteq> ''itemInfo'' \<Longrightarrow> key_of (j\<lparr>an_items := (an_items j)(x := oset (an_items j x) nm v)\<rparr>) y = key_of j y"
  by (simp add: key_of_def item_key_def item_info_def)

lemma react_items [simp]: "an_items (react text e j) = an_items j"
  by (auto simp: react_def absorb_def Let_def case_prod_beta
      split: event.split option.split sign_owner.split act_wait.split)

lemma signing_items [simp]: "an_items (signing text r j) = an_items j"
proof -
  have "an_items (fold (react text) evs j) = an_items j" for evs j
    by (induction evs arbitrary: j) simp_all
  then show ?thesis by (simp add: signing_def case_prod_beta)
qed

lemma absorb_items: "an_items (absorb x r j) = an_items j"
  by (cases r) simp

lemma step_key: "keeps_info e \<Longrightarrow> key_of (act_session_step text dig pl hasForm e j) x = key_of j x"
proof (cases e)
  case (Edit_Item y nm v)
  assume "keeps_info e"
  with Edit_Item show ?thesis
    by (simp add: act_session_step_def keeps_info_def key_of_edit del: fun_upd_apply)
qed (auto simp: act_session_step_def key_of_def absorb_items absorb_list_def Let_def case_prod_beta
      split: list.split wait.split)

lemma act_step_inv:
  assumes "an_inv j" "keeps_info e"
  shows "an_inv (act_session_step text True pl hasForm e j)"
proof -
  have same: "an_inv j'" if "an_sign j' = an_sign j" "an_owner j' = an_owner j" "\<And>x. key_of j' x = key_of j x"
    "an_log j' = an_log j" "an_sent j' = an_sent j" for j'
    using that assms(1) by (intro an_inv_quiet [OF assms(1), where evs = "[]"]) (auto simp: an_inv_def budget_def)
  show ?thesis
  proof (cases e)
    case (Run_Action a x url)
    then show ?thesis using run_action_inv [OF assms(1)] by (simp add: act_session_step_def)
  next
    case (List_Action a it url)
    show ?thesis
    proof (cases rule: execAction_cases [of a it url "an_route j" "act_of j"])
      case (sent rq)
      with List_Action budget_of [OF assms(1)] assms(1) show ?thesis
        by (intro an_inv_quiet [OF assms(1), where evs = "[Send_Action url rq]"])
          (simp_all add: act_session_step_def absorb_list_def an_inv_def budget_def key_of_def)
    next
      case (thrown ex)
      with List_Action budget_of [OF assms(1)] assms(1) show ?thesis
        by (intro an_inv_quiet [OF assms(1), where evs = "[Act_Exception ex]"])
          (simp_all add: act_session_step_def absorb_list_def an_inv_def budget_def key_of_def)
    qed
  next
    case (Reply n ans)
    show ?thesis
    proof (cases "n < length (an_replies j)")
      case False
      with Reply assms(1) show ?thesis by (simp add: act_session_step_def)
    next
      case True
      obtain a x where ax: "an_replies j ! n = (a, x)" by (cases "an_replies j ! n")
      define j1 where "j1 = j\<lparr>an_replies := take n (an_replies j) @ drop (Suc n) (an_replies j)\<rparr>"
      have j1: "an_inv j1" by (rule same) (simp_all add: j1_def key_of_def)
      show ?thesis
      proof (cases ans)
        case None
        have "an_inv (absorb x (handleReject (act_of j1)) j1)"
          using j1 budget_of [OF j1] by (intro an_inv_quiet [OF j1, where evs = "[Settled Rejected]"]) (auto simp: handleReject_def an_inv_def budget_def)
        with Reply True ax None show ?thesis by (simp add: act_session_step_def j1_def Let_def)
      next
        case (Some response)
        with Reply True ax reply_inv [OF j1, of x "text" hasForm a response] show ?thesis
          by (simp add: act_session_step_def j1_def Let_def)
      qed
    qed
  next
    case (Edit_Item x nm v)
    with assms(2) show ?thesis
      by (intro same) (simp_all add: act_session_step_def keeps_info_def key_of_edit del: fun_upd_apply)
  next
    case (Navigate rp)
    then show ?thesis by (intro same) (simp_all add: act_session_step_def key_of_def)
  next
    case (Data_In now d st)
    with assms(1) data_inv [OF assms(1), of _ _ "text" pl now d st] show ?thesis
      by (auto simp: act_session_step_def split: list.split wait.split)
  next
    case (Certificate_Chosen dlg)
    with assms(1) certSelect_inv [OF assms(1), of "text" pl dlg] show ?thesis
      by (simp add: act_session_step_def)
  next
    case Certificate_Dismissed
    have "ds_inv (dismiss_dialog (an_sign j))"
      using assms(1) by (auto simp: an_inv_def dismiss_dialog_def ds_inv_def split: phase.splits)
    with Certificate_Dismissed budget_of [OF assms(1)] show ?thesis
      by (intro an_inv_quiet [OF assms(1), where evs = "[]"])
        (auto simp: act_session_step_def dismiss_dialog_def key_of_def budget_def)
  next
    case (Receipt_In d st)
    with assms(1) receipt_inv [OF assms(1), of _ _ "text" d st] show ?thesis
      by (auto simp: act_session_step_def split: list.split wait.split)
  qed
qed

section \<open>The log and what is sent\<close>

text \<open>The places of the requests of actions in the log.\<close>

fun is_send :: "act_event \<Rightarrow> bool" where
  "is_send (Send_Action url rq) = True"
| "is_send _ = False"

definition send_places :: "act_event list \<Rightarrow> nat list" where
  "send_places log = filter (\<lambda>n. is_send (log ! n)) [0..<length log]"

text \<open>Every request in the log is that of one action sent by a form, or of one sent by a list.\<close>

definition logged :: "act_session \<Rightarrow> bool" where
  "logged j \<longleftrightarrow>
     mset (map (snd \<circ> snd) (an_sent j) @ an_listed j) = mset (send_places (an_log j))
     \<and> (\<forall>(a, x, n) \<in> set (an_sent j). \<exists>url rq. an_log j ! n = Send_Action url rq \<and> oget rq ''__action'' = sa_id a)"

text \<open>What an operation reports: one request when it waits for an answer, else none.\<close>

definition honest :: "act_state \<times> act_event list \<Rightarrow> bool" where
  "honest = (\<lambda>(s, evs).
     (case as_wait s of
        Some (Wait_Reply a it) \<Rightarrow> (\<exists>url rq. evs = [Send_Action url rq] \<and> oget rq ''__action'' = sa_id a)
      | _ \<Rightarrow> \<forall>e \<in> set evs. \<not> is_send e))"

lemma send_places_append:
  "send_places (log @ evs) = send_places log @ map ((+) (length log)) (send_places evs)"
proof -
  have "filter (\<lambda>n. is_send ((log @ evs) ! n)) [0..<length log] = send_places log"
    by (auto simp: send_places_def nth_append intro: filter_cong)
  moreover have "filter (\<lambda>n. is_send ((log @ evs) ! n)) (map ((+) (length log)) [0..<length evs]) =
      map ((+) (length log)) (send_places evs)"
    by (simp add: filter_map send_places_def o_def)
  moreover have "[0..<length (log @ evs)] = [0..<length log] @ map ((+) (length log)) [0..<length evs]"
    using upt_add_eq_append [of 0 "length log" "length evs"] map_add_upt [of "length log" "length evs"]
    by (simp add: add.commute [of _ "length log"])
  ultimately show ?thesis by (simp add: send_places_def)
qed

lemma send_places_none: "\<forall>e \<in> set evs. \<not> is_send e \<Longrightarrow> send_places evs = []"
  by (auto simp: send_places_def filter_empty_conv)

lemma send_places_one: "send_places [Send_Action url rq] = [0]"
  by (simp add: send_places_def)

lemma logged_places: "logged j \<Longrightarrow> (a, x, n) \<in> set (an_sent j) \<Longrightarrow> n < length (an_log j)"
proof -
  assume "logged j" "(a, x, n) \<in> set (an_sent j)"
  then have "n \<in># mset (send_places (an_log j))"
    unfolding logged_def by (metis (no_types, lifting) Un_iff comp_apply image_eqI set_append set_map set_mset_mset snd_conv)
  then show ?thesis by (simp add: send_places_def)
qed

lemma logged_quiet:
  assumes "logged j" "an_sent j' = an_sent j" "an_listed j' = an_listed j"
    and "an_log j' = an_log j @ evs" "\<forall>e \<in> set evs. \<not> is_send e"
  shows "logged j'"
proof -
  have "\<exists>url rq. an_log j' ! n = Send_Action url rq \<and> oget rq ''__action'' = sa_id a"
    if "(a, x, n) \<in> set (an_sent j)" for a x n
    using that assms(1,4) logged_places [OF assms(1) that] by (fastforce simp: logged_def nth_append)
  with assms show ?thesis
    by (auto simp: logged_def send_places_append send_places_none)
qed

lemma logged_send:
  assumes "logged j" "an_listed j' = an_listed j" "an_log j' = an_log j @ [Send_Action url rq]"
    and "an_sent j' = an_sent j @ [(a, x, length (an_log j))]" "oget rq ''__action'' = sa_id a"
  shows "logged j'"
proof -
  have "\<exists>url rq. an_log j' ! n = Send_Action url rq \<and> oget rq ''__action'' = sa_id b"
    if "(b, y, n) \<in> set (an_sent j)" for b y n
    using that assms(1,3) logged_places [OF assms(1) that] by (fastforce simp: logged_def nth_append)
  with assms show ?thesis
    by (auto simp: logged_def send_places_append send_places_one)
qed

lemma count_map_mset: "count (mset (map f xs)) n = length (filter (\<lambda>x. f x = n) xs)"
  by (induction xs) auto

text \<open>A request that no list sent has one action.\<close>

lemma one_entry:
  assumes "logged j" "n < length (an_log j)" "an_log j ! n = Send_Action url rq" "n \<notin> set (an_listed j)"
  shows "\<exists>a x. filter (\<lambda>(b, y, m). m = n) (an_sent j) = [(a, x, n)]"
proof -
  have m: "mset (map (snd \<circ> snd) (an_sent j) @ an_listed j) = mset (send_places (an_log j))"
    using assms(1) by (simp add: logged_def)
  have "count (mset (send_places (an_log j))) n = 1"
    using assms(2,3) by (simp add: send_places_def distinct_count_atmost_1)
  moreover have "count (mset (an_listed j)) n = 0"
    using assms(4) by (metis count_eq_zero_iff set_mset_mset)
  moreover have "count (mset (map (snd \<circ> snd) (an_sent j))) n + count (mset (an_listed j)) n = count (mset (send_places (an_log j))) n"
    by (simp only: m [symmetric] mset_append count_union)
  ultimately have "count (mset (map (snd \<circ> snd) (an_sent j))) n = 1" by linarith
  then have "length (filter (\<lambda>(b, y, m). m = n) (an_sent j)) = 1"
    by (simp only: count_map_mset o_def split_def)
  then obtain e where e: "filter (\<lambda>(b, y, m). m = n) (an_sent j) = [e]" by (auto simp: length_Suc_conv)
  then have "e \<in> set (filter (\<lambda>(b, y, m). m = n) (an_sent j))" by simp
  then have "snd (snd e) = n" by auto
  with e show ?thesis by (cases e) auto
qed

lemma absorb_logged:
  assumes "logged j" "honest (s, evs)"
  shows "logged (absorb x (s, evs) j)"
proof (cases "\<exists>a it. as_wait s = Some (Wait_Reply a it)")
  case True
  then obtain a it where w: "as_wait s = Some (Wait_Reply a it)" by blast
  with assms(2) obtain url rq where "evs = [Send_Action url rq]" "oget rq ''__action'' = sa_id a"
    by (auto simp: honest_def)
  with w assms(1) show ?thesis
    by (intro logged_send [OF assms(1), of _ url rq a x]) (simp_all add: absorb_def)
next
  case False
  with assms(2) have "\<forall>e \<in> set evs. \<not> is_send e"
    by (auto simp: honest_def split: option.splits act_wait.splits)
  with False assms(1) show ?thesis
    by (intro logged_quiet [OF assms(1), of _ evs])
      (auto simp: absorb_def Let_def split: option.splits act_wait.splits)
qed

lemma exec_honest: "honest (execAction a item url rp s)"
proof (cases "action_params (sa_id a) item rp")
  case (Inr rq)
  then have "oget rq ''__action'' = sa_id a"
    by (rule action_params_cases) (simp add: default_param_get)
  with Inr show ?thesis by (simp add: execAction_def honest_def)
qed (simp add: execAction_def honest_def)

lemma start_honest: "as_wait s' = w \<Longrightarrow> w \<noteq> None \<Longrightarrow> \<forall>a it. w \<noteq> Some (Wait_Reply a it) \<Longrightarrow>
    \<forall>e \<in> set evs. \<not> is_send e \<Longrightarrow> honest (s', evs)"
  by (auto simp: honest_def split: option.splits act_wait.splits)

lemma start_signing_honest:
  assumes "\<forall>b it. w \<noteq> Wait_Reply b it"
  shows "honest (start_signing text a w s)"
    "honest (fst (start_signing text a w s), snd (start_signing text a w s) @ [Settled p])"
  using assms
  by (cases rule: start_signing_cases [of s "text" a w];
      auto simp: honest_def split: option.splits act_wait.splits)+

lemma honest_iff:
  "honest (s, evs) \<longleftrightarrow>
     (case as_wait s of
        Some (Wait_Reply a it) \<Rightarrow> (\<exists>url rq. evs = [Send_Action url rq] \<and> oget rq ''__action'' = sa_id a)
      | _ \<Rightarrow> \<forall>e \<in> set evs. \<not> is_send e)"
  by (simp add: honest_def)

lemma perform_honest: "as_wait s = None \<Longrightarrow> honest (performSignedAction text dig a item url rp s)"
  by (cases "item_key ''.'' item")
    (simp_all add: performSignedAction_def Let_def exec_honest start_signing_honest honest_iff)

lemma resolve_honest: "honest (handleResolve text dig hasForm a response s)"
proof (cases rule: handleResolve_cases [of "text" dig hasForm a response s])
  case (signing s1)
  have "honest (fst (start_signing text a Wait_Signed_After s1),
      snd (start_signing text a Wait_Signed_After s1) @ [Settled (Resolved response)])"
    by (rule start_signing_honest) simp
  with signing show ?thesis by simp
qed (simp_all add: honest_iff)

lemma signed_before_honest: "honest (signed_before a item url rp s)"
  by (simp add: signed_before_def exec_honest)

lemma absorb_pair: "honest r \<Longrightarrow> logged j \<Longrightarrow> logged (absorb x r j)"
  by (cases r) (simp add: absorb_logged)

lemma react_logged: "logged j \<Longrightarrow> logged (react text e j)"
proof -
  assume j: "logged j"
  define j1 where "j1 = j\<lparr>an_log := an_log j @ [Sign_Event e]\<rparr>"
  have j1: "logged (j1\<lparr>an_mtpl := mi, an_owner := ow\<rparr>)" for mi ow
    by (rule logged_quiet [OF j, of _ "[Sign_Event e]"]) (simp_all add: j1_def)
  have e: "j1 = j1\<lparr>an_mtpl := an_mtpl j1, an_owner := an_owner j1\<rparr>"
    "j1\<lparr>an_mtpl := mi\<rparr> = j1\<lparr>an_mtpl := mi, an_owner := an_owner j1\<rparr>"
    "j1\<lparr>an_owner := ow\<rparr> = j1\<lparr>an_mtpl := an_mtpl j1, an_owner := ow\<rparr>" for mi ow
    by simp_all
  have "logged j1" "\<And>mi. logged (j1\<lparr>an_mtpl := mi\<rparr>)" "\<And>ow. logged (j1\<lparr>an_owner := ow\<rparr>)"
    using j1 e by metis+
  with j1 show ?thesis
    unfolding react_def j1_def [symmetric] Let_def
    by (auto intro: absorb_pair signed_before_honest split: event.split option.split sign_owner.split)
qed

lemma signing_logged: "logged j \<Longrightarrow> logged (signing text r j)"
proof -
  have "logged (fold (react text) evs j)" if "logged j" for evs j
    using that by (induction evs arbitrary: j) (simp_all add: react_logged)
  moreover assume "logged j"
  then have "logged (j\<lparr>an_sign := ds\<rparr>)" for ds by (rule logged_quiet [where evs = "[]"]) simp_all
  ultimately show ?thesis by (simp add: signing_def case_prod_beta)
qed

lemma list_logged: "logged j \<Longrightarrow> logged (absorb_list (execAction a it url rp s) j)"
proof (cases rule: execAction_cases [of a it url rp s])
  case (sent rq)
  assume j: "logged j"
  have "\<exists>url' rq'. (an_log j @ [Send_Action url rq]) ! n = Send_Action url' rq' \<and> oget rq' ''__action'' = sa_id b"
    if "(b, y, n) \<in> set (an_sent j)" for b y n
    using that j logged_places [OF j that] by (fastforce simp: logged_def nth_append)
  with j sent show ?thesis
    by (auto simp: absorb_list_def logged_def send_places_append send_places_one)
next
  case (thrown e)
  moreover assume "logged j"
  ultimately show ?thesis
    by (auto simp: absorb_list_def intro: logged_quiet [of j _ "[Act_Exception e]"])
qed

lemma step_logged: "logged j \<Longrightarrow> logged (act_session_step text dig pl hasForm e j)"
proof (cases e)
  case (Reply n ans)
  assume j: "logged j"
  then have "logged (j\<lparr>an_replies := rs\<rparr>)" for rs by (rule logged_quiet [where evs = "[]"]) simp_all
  moreover have "honest (handleReject s)" for s by (simp add: handleReject_def honest_def)
  moreover note Reply
  ultimately show ?thesis
    by (auto simp: act_session_step_def Let_def case_prod_beta resolve_honest intro!: absorb_pair split: option.split)
      (use j in simp_all)
qed (auto simp: act_session_step_def absorb_pair perform_honest list_logged signing_logged
    intro: logged_quiet [where evs = "[]"] split: list.split wait.split)

interpretation sends: event_run "act_session_step text dig pl hasForm" logged "\<lambda>_. True"
  for "text" dig pl hasForm
  by unfold_locales (rule step_logged)

lemma act_run_logged: "logged (act_run text dig pl hasForm es (new_act_session mi items rp))"
  unfolding act_run_def
  by (rule sends.run_inv) (simp_all add: list_all_iff logged_def new_act_session_def send_places_def)

interpretation acts: event_run "act_session_step text True pl hasForm"
  "\<lambda>j. an_inv j \<and> (\<forall>x. key_of j x = item_key ''.'' (items x))" keeps_info
  for "text" pl hasForm items
  by unfold_locales (simp add: act_step_inv step_key)

lemma act_run_inv:
  assumes "list_all keeps_info es"
  shows "an_inv (act_run text True pl hasForm es (new_act_session mi items rp)) \<and>
    (\<forall>x. key_of (act_run text True pl hasForm es (new_act_session mi items rp)) x = item_key ''.'' (items x))"
  unfolding act_run_def
  by (rule acts.run_inv) (use assms in \<open>simp_all add: an_inv_new, simp add: key_of_def new_act_session_def\<close>)

section \<open>Properties\<close>

text \<open>
  C7: With digital signatures enabled, an action run from a form that demands a signature before it is only
  sent right after the server has accepted a signature, and the signatures posted last before that are for
  the object of the item it runs on and for that action.  This holds of every request of an action in the
  log of any session that was not sent by a list or collection, which sign nothing: it is the request of
  exactly one action a form has run, and if that action demands a signature the acceptance
  stands just before this very request, whatever other actions run or are
  refused meanwhile, whatever is typed into the items, wherever the page moves, whichever
  certificates are chosen, and whatever the server answers to which request.
\<close>

theorem signature_accepted_before_sending:
  assumes "list_all keeps_info es"
    and "n < length (an_log (act_run text True pl hasForm es (new_act_session mi items rp)))"
    and "an_log (act_run text True pl hasForm es (new_act_session mi items rp)) ! n = Send_Action url rq"
    and "n \<notin> set (an_listed (act_run text True pl hasForm es (new_act_session mi items rp)))"
  shows "let j = act_run text True pl hasForm es (new_act_session mi items rp)
    in \<exists>a x. filter (\<lambda>(b, y, m). m = n) (an_sent j) = [(a, x, n)] \<and> oget rq ''__action'' = sa_id a
      \<and> (sa_signBefore a \<longrightarrow>
          (\<exists>k l1 body l2 l3. item_key ''.'' (items x) = Inr k
            \<and> an_log j = l1 @ Sign_Event (Post_Sign body) # l2 @ Sign_Event Call_Success # Send_Action url rq # l3
            \<and> n = length l1 + length l2 + 2
            \<and> no_post l2 \<and> oget body ''id'' = JStr k \<and> oget body ''action'' = sa_id a))"
proof -
  let ?j = "act_run text True pl hasForm es (new_act_session mi items rp)"
  have lg: "logged ?j" by (rule act_run_logged)
  obtain a x where one: "filter (\<lambda>(b, y, m). m = n) (an_sent ?j) = [(a, x, n)]"
    using one_entry [OF lg assms(2,3,4)] by blast
  then have ax: "(a, x, n) \<in> set (an_sent ?j)" by (auto dest!: arg_cong [where f = set])
  with lg assms(3) have act: "oget rq ''__action'' = sa_id a" by (fastforce simp: logged_def)
  have "\<exists>k l1 body l2 l3. item_key ''.'' (items x) = Inr k
      \<and> an_log ?j = l1 @ Sign_Event (Post_Sign body) # l2 @ Sign_Event Call_Success # Send_Action url rq # l3
      \<and> n = length l1 + length l2 + 2
      \<and> no_post l2 \<and> oget body ''id'' = JStr k \<and> oget body ''action'' = sa_id a" if "sa_signBefore a"
  proof -
    note act_run_inv [OF assms(1), of "text" pl hasForm mi items rp]
    with ax that have "gated ?j (a, x, n)" "key_of ?j x = item_key ''.'' (items x)"
      by (auto simp: an_inv_def)
    then obtain k l1 url' rq' l2 where g: "item_key ''.'' (items x) = Inr k" "posted (JStr k) (sa_id a) l1"
      "an_log ?j = l1 @ Sign_Event Call_Success # Send_Action url' rq' # l2" "n = Suc (length l1)"
      by (auto simp: gated_def)
    then have "Send_Action url' rq' = Send_Action url rq" using assms(3) by (simp add: nth_append)
    moreover from g(2) obtain l0 body l1' where "l1 = l0 @ Sign_Event (Post_Sign body) # l1'" "no_post l1'"
      "oget body ''id'' = JStr k" "oget body ''action'' = sa_id a"
      by (auto simp: posted_def)
    ultimately show ?thesis
      using g by (intro exI [of _ k] exI [of _ l0] exI [of _ body] exI [of _ l1'] exI [of _ l2]) simp
  qed
  with one act show ?thesis unfolding Let_def by blast
qed

text \<open>A session that goes through, with a second action refused and the item edited meanwhile.\<close>

definition save_action :: ion_action where
  "save_action = \<lparr>sa_id = JStr ''SAVE'', sa_signBefore = True, sa_signAfter = False,
     act_visibility = None, act_enablement = None\<rparr>"

definition signed_save :: "act_input list" where
  "signed_save =
     [Run_Action save_action 0 ''spa/edit'', Run_Action save_action 0 ''spa/edit'',
      Data_In 0 (JObj (sample_data ''text/plain'')) ''success'', Edit_Item 0 ''name'' (JStr ''x''),
      Certificate_Chosen \<lparr>cd_certificates = [], cd_certKey = JStr ''AB''\<rparr>,
      Receipt_In (JObj []) ''success'',
      List_Action save_action [(''ids'', JArr [])] ''spa/listAction'']"

definition signed_save_run :: act_session where
  "signed_save_run = act_run (\<lambda>_. JUndef) True sample_plugin True signed_save
     (new_act_session (mtplInfoFactory None None 0 0 0) (\<lambda>_. mk_item ''A'' ''1'' []) [])"

lemma signed_save_sent: "an_sent signed_save_run = [(save_action, 0, 5)]" "an_listed signed_save_run = [6]"
    "length (an_log signed_save_run) = 7"
  by code_simp+

theorem signature_accepted_before_sending_witness:
  "\<exists>l1 body l2 url rq l3. an_log signed_save_run =
       l1 @ Sign_Event (Post_Sign body) # l2 @ Sign_Event Call_Success # Send_Action url rq # l3
     \<and> oget body ''id'' = JStr ''A.1''"
proof -
  have k: "list_all keeps_info signed_save" by (simp add: signed_save_def keeps_info_def)
  have "(save_action, 0, 5) \<in> set (an_sent signed_save_run)" by (simp add: signed_save_sent)
  with act_run_logged obtain url rq where s: "an_log signed_save_run ! 5 = Send_Action url rq"
    by (fastforce simp: logged_def signed_save_run_def)
  from signature_accepted_before_sending [OF k, of 5 "\<lambda>_. JUndef" sample_plugin True
      "mtplInfoFactory None None 0 0 0" "\<lambda>_. mk_item ''A'' ''1'' []" "[]" url rq,
      folded signed_save_run_def] s
  have "\<exists>k l1 body l2 l3. item_key ''.'' (mk_item ''A'' ''1'' []) = Inr k
      \<and> an_log signed_save_run = l1 @ Sign_Event (Post_Sign body) # l2 @ Sign_Event Call_Success # Send_Action url rq # l3
      \<and> oget body ''id'' = JStr k"
    by (fastforce simp: signed_save_sent Let_def save_action_def)
  then show ?thesis by fastforce
qed

text \<open>
  C22: A signature serves one action only: with digital signatures enabled, in any session at most as many
  of the forms' actions that demand a signature are sent as signatures have been accepted, and at most as
  many are accepted as have been posted, one less while an answer to the last is awaited.  All that were sent
  are counted: every request of an action in the log is that of one of them, or of one action of
  a list or collection, for which nothing is signed.
\<close>

theorem one_signature_per_action:
  assumes "list_all keeps_info es"
  shows "let j = act_run text True pl hasForm es (new_act_session mi items rp)
    in signed_sent (an_sent j) \<le> accepted (an_log j)
     \<and> accepted (an_log j) + (if cp_phase (ds_crypto (an_sign j)) = Sending then 1 else 0) \<le> posts (an_log j)
     \<and> mset (map (snd \<circ> snd) (an_sent j) @ an_listed j) = mset (send_places (an_log j))"
  using conjunct1 [OF act_run_inv [OF assms, of "text" pl hasForm mi items rp]]
    act_run_logged [of "text" True pl hasForm es mi items rp]
  by (auto simp: Let_def an_inv_def budget_def ds_inv_def logged_def)

theorem one_signature_per_action_witness: "1 \<le> accepted (an_log signed_save_run)"
proof -
  have "list_all keeps_info signed_save" by (simp add: signed_save_def keeps_info_def)
  from one_signature_per_action [OF this, of "\<lambda>_. JUndef" sample_plugin True
      "mtplInfoFactory None None 0 0 0" "\<lambda>_. mk_item ''A'' ''1'' []" "[]", folded signed_save_run_def]
  show ?thesis by (simp add: Let_def signed_save_sent save_action_def)
qed

end
