(* ===== verification/Jt_Session.thy ===== *)
theory Jt_Session
  imports Crypto_Jt "HOL-Library.Multiset"
begin

text \<open>
  The signing module of the theme \<open>ionweb-jt\<close> over a whole session: the page asks for signatures when it
  likes, the answers to the module's requests come when they come, and the events that the handlers are
  told are logged.  An answer can only come to a request that is under way.
\<close>

section \<open>Steps\<close>

datatype jt_wait = Await_Data | Await_Sent

record jt_session =
  jn_crypto :: jt_crypto
  jn_waits :: "jt_wait list"
  jn_log :: "jt_event list"

datatype jt_input =
    Sign_Object jsval string
  | Data_Answer string string "string option"
  | Sent_Answer jsval string

fun wait_of :: "jt_event \<Rightarrow> jt_wait list" where
  "wait_of (Request_Data i) = [Await_Data]"
| "wait_of (Send_Signature i s) = [Await_Sent]"
| "wait_of _ = []"

definition waits_of :: "jt_event list \<Rightarrow> jt_wait list" where
  "waits_of evs = concat (map wait_of evs)"

definition jt_perform :: "jt_op \<Rightarrow> jt_session \<Rightarrow> jt_session" where
  "jt_perform op j =
     (let (s, evs) = op (jn_crypto j)
      in \<lparr>jn_crypto = s, jn_waits = jn_waits j @ waits_of evs, jn_log = jn_log j @ evs\<rparr>)"

definition jt_answered :: "jt_wait \<Rightarrow> jt_op \<Rightarrow> jt_session \<Rightarrow> jt_session" where
  "jt_answered t op j =
     (if t \<in> set (jn_waits j) then jt_perform op (j\<lparr>jn_waits := remove1 t (jn_waits j)\<rparr>) else j)"

definition jt_step :: "plugin \<Rightarrow> jt_input \<Rightarrow> jt_session \<Rightarrow> jt_session" where
  "jt_step pl e =
     (case e of
        Sign_Object i k \<Rightarrow> jt_perform (jt_makeSign i k)
      | Data_Answer d st ct \<Rightarrow> jt_answered Await_Data (onReceivingComplete pl d st ct)
      | Sent_Answer d st \<Rightarrow> jt_answered Await_Sent (onSendingComplete d st))"

definition new_jt_session :: "bool \<Rightarrow> jt_session" where
  "new_jt_session stateChangeHandler =
     \<lparr>jn_crypto = jt_CryptoPro True stateChangeHandler, jn_waits = [], jn_log = []\<rparr>"

definition jt_run :: "plugin \<Rightarrow> bool \<Rightarrow> jt_input list \<Rightarrow> jt_session" where
  "jt_run pl h es = fold (jt_step pl) es (new_jt_session h)"

text \<open>The objects that the page has asked to sign.\<close>

fun asked_object :: "jt_input \<Rightarrow> jsval list" where
  "asked_object (Sign_Object i k) = [i]"
| "asked_object _ = []"

definition asked_objects :: "jt_input list \<Rightarrow> jsval list" where
  "asked_objects es = concat (map asked_object es)"

section \<open>Lemmas\<close>

lemma waits_of_simps [simp]:
  "waits_of [] = []" "waits_of (e # es) = wait_of e @ waits_of es" "waits_of (es @ fs) = waits_of es @ waits_of fs"
  by (simp_all add: waits_of_def)

lemma jt_waits [simp]:
  "waits_of (snd (jt_fail m s)) = []" "waits_of (snd (jt_done s)) = []" "waits_of (snd (setState p s)) = []"
  "waits_of (snd (jt_sendSign v s)) = [Await_Sent]"
  by (simp_all add: jt_fail_def jt_done_def jt_notify_defs jt_sendSign_def)

text \<open>
  What an operation does to the module, as far as the tasks go: it finishes the task, it goes on
  with it, or it leaves it where an exception struck.
\<close>

definition task_finished :: "jt_crypto \<Rightarrow> jt_crypto \<times> jt_event list \<Rightarrow> bool" where
  "task_finished s = (\<lambda>(s', evs). jt_phase s' = Ready \<and> jt_completeHandler s' = jt_completeHandler s
     \<and> waits_of evs = [] \<and> exceptions evs = []
     \<and> (\<exists>m. completions evs = (if jt_completeHandler s then [(jt_signedObjId s, m)] else [])))"

definition task_sends :: "jt_crypto \<Rightarrow> jt_crypto \<times> jt_event list \<Rightarrow> bool" where
  "task_sends s = (\<lambda>(s', evs). jt_phase s' = Sending \<and> jt_completeHandler s' = jt_completeHandler s
     \<and> jt_signedObjId s' = jt_signedObjId s \<and> waits_of evs = [Await_Sent] \<and> exceptions evs = [] \<and> completions evs = [])"

definition task_lost :: "jt_crypto \<Rightarrow> jt_crypto \<times> jt_event list \<Rightarrow> bool" where
  "task_lost s = (\<lambda>(s', evs). jt_phase s' = Signing \<and> jt_completeHandler s' = jt_completeHandler s
     \<and> jt_signedObjId s' = jt_signedObjId s \<and> waits_of evs = [] \<and> exceptions evs \<noteq> [] \<and> completions evs = [])"

lemma receiving_cases:
  "task_finished s (onReceivingComplete pl d st ct s) \<or> task_sends s (onReceivingComplete pl d st ct s) \<or>
   task_lost s (onReceivingComplete pl d st ct s)"
  by (auto simp: onReceivingComplete_def task_finished_def task_sends_def task_lost_def case_prod_beta
      split: option.splits sum.splits)

lemma sending_finishes: "task_finished s (onSendingComplete d st s)"
  by (auto simp: onSendingComplete_def task_finished_def case_prod_beta Let_def)

text \<open>The phase says what is awaited, and every object asked for is completed or the one in hand.\<close>

definition jt_inv :: "jsval multiset \<Rightarrow> jt_session \<Rightarrow> bool" where
  "jt_inv asked j \<longleftrightarrow>
     jt_completeHandler (jn_crypto j)
     \<and> (case jt_phase (jn_crypto j) of
          Ready \<Rightarrow> jn_waits j = [] | Receiving \<Rightarrow> jn_waits j = [Await_Data]
        | Signing \<Rightarrow> jn_waits j = [] | Sending \<Rightarrow> jn_waits j = [Await_Sent])
     \<and> (exceptions (jn_log j) \<noteq> [] \<longleftrightarrow> jt_phase (jn_crypto j) = Signing)
     \<and> mset (map fst (completions (jn_log j)))
        + (if jt_phase (jn_crypto j) = Ready then {#} else {#jt_signedObjId (jn_crypto j)#}) = asked"

lemma jt_inv_sign:
  assumes "jt_inv asked j"
  shows "jt_inv (add_mset i asked) (jt_perform (jt_makeSign i k) j)"
  using assms
  by (cases "jt_phase (jn_crypto j)")
    (auto simp: jt_inv_def jt_perform_def jt_makeSign_def case_prod_beta jt_notify_defs Let_def)

lemma jt_inv_op:
  assumes "jt_inv asked j" and "t \<in> set (jn_waits j)"
    and "task_finished (jn_crypto j) (op (jn_crypto j)) \<or> task_sends (jn_crypto j) (op (jn_crypto j))
      \<or> task_lost (jn_crypto j) (op (jn_crypto j))"
  shows "jt_inv asked (jt_perform op (j\<lparr>jn_waits := remove1 t (jn_waits j)\<rparr>))"
proof -
  obtain s evs where r: "op (jn_crypto j) = (s, evs)" by (cases "op (jn_crypto j)")
  have w: "remove1 t (jn_waits j) = []" "jt_phase (jn_crypto j) \<noteq> Ready" "exceptions (jn_log j) = []"
    "jt_completeHandler (jn_crypto j)"
    "mset (map fst (completions (jn_log j))) + {#jt_signedObjId (jn_crypto j)#} = asked"
    using assms(1,2) by (auto simp: jt_inv_def split: phase.splits if_splits)
  from assms(3) show ?thesis
  proof (elim disjE)
    assume "task_finished (jn_crypto j) (op (jn_crypto j))"
    with w r show ?thesis
      by (auto simp: jt_inv_def jt_perform_def task_finished_def)
  next
    assume "task_sends (jn_crypto j) (op (jn_crypto j))"
    with w r show ?thesis
      by (auto simp: jt_inv_def jt_perform_def task_sends_def)
  next
    assume "task_lost (jn_crypto j) (op (jn_crypto j))"
    with w r show ?thesis
      by (auto simp: jt_inv_def jt_perform_def task_lost_def)
  qed
qed

lemma jt_step_inv: "jt_inv asked j \<Longrightarrow> jt_inv (mset (asked_object e) + asked) (jt_step pl e j)"
proof (cases e)
  case (Sign_Object i k)
  assume "jt_inv asked j"
  from jt_inv_sign [OF this] Sign_Object show ?thesis by (simp add: jt_step_def)
next
  case (Data_Answer d st ct)
  assume i: "jt_inv asked j"
  show ?thesis
    using Data_Answer i jt_inv_op [OF i, of Await_Data "onReceivingComplete pl d st ct"] receiving_cases [of "jn_crypto j" pl d st ct]
    by (simp add: jt_step_def jt_answered_def)
next
  case (Sent_Answer d st)
  assume i: "jt_inv asked j"
  show ?thesis
    using Sent_Answer i jt_inv_op [OF i, of Await_Sent "onSendingComplete d st"] sending_finishes [of "jn_crypto j" d st]
    by (simp add: jt_step_def jt_answered_def)
qed

lemma jt_run_inv: "jt_inv (mset (asked_objects es)) (jt_run pl h es)"
proof -
  have "jt_inv asked j \<Longrightarrow> jt_inv (mset (asked_objects es) + asked) (fold (jt_step pl) es j)" for asked j
  proof (induction es arbitrary: asked j)
    case (Cons e es)
    from Cons.IH [OF jt_step_inv [OF Cons.prems]] show ?case
      by (simp add: asked_objects_def ac_simps)
  qed (simp add: asked_objects_def)
  from this [of "{#}" "new_jt_session h"] show ?thesis
    by (simp add: jt_run_def new_jt_session_def jt_inv_def jt_CryptoPro_def)
qed

section \<open>Properties\<close>

text \<open>
  C36: Every request for a signature is reported to the page exactly once, with its object: over any
  session of requests and answers, the objects for which the completion handler has been called,
  together with the one in hand while the module is not ready, are exactly the objects that were
  asked for, each as often.  One answer at most is awaited; none is only while the module is ready, or
  after an exception, which leaves it signing.
\<close>

theorem every_request_completes_once:
  shows "let j = jt_run pl h es; s = jn_crypto j
    in mset (map fst (completions (jn_log j))) + (if jt_phase s = Ready then {#} else {#jt_signedObjId s#})
        = mset (asked_objects es)
     \<and> length (jn_waits j) \<le> 1
     \<and> (jn_waits j = [] \<longleftrightarrow> jt_phase s \<in> {Ready, Signing})
     \<and> (exceptions (jn_log j) \<noteq> [] \<longleftrightarrow> jt_phase s = Signing)"
  using jt_run_inv [of es pl h]
  by (auto simp: jt_inv_def Let_def split: phase.splits)

end
