(* ===== verification/Sidebar_Session.thy ===== *)
theory Sidebar_Session
  imports Navigation Shell Run_Interface
begin

text \<open>
  The side bar over a whole session (\<open>ion-ng-sidebar.js\<close>): the menu comes when it comes, the user opens
  entries, chooses nodes level by level, presses the buttons, pins and collapses the bar and resizes the
  window.  The selects of an entry are bound to a variable \<open>selection_\<close> with its id, which the markup creates
  when it is linked; ids are identifiers, so each has a variable of its own.
\<close>

section \<open>The scope\<close>

text \<open>
  \<open>sn_scope\<close> is the scope of the controller with the object that \<open>sidebarSelection\<close> keeps, \<open>sn_choice\<close> the variables
  of the selects.  \<open>sn_heights\<close> are the heights given to the bar and its content.
\<close>

record sidebar_page =
  sn_mtpl :: mtpl_info
  sn_sidebar :: "menu_node list option"
  sn_scope :: sidebar_scope
  sn_choice :: "string \<Rightarrow> selection option"
  sn_collapsed :: string
  sn_float :: string
  sn_heights :: "(int \<times> int) option"
  sn_expandedMarkup :: string
  sn_collapsedMarkup :: string
  sn_asked :: bool
  sn_location :: "string res option"

text \<open>The link function of \<open>ionSidebar\<close>; otherwise the heights are those of the style sheet.\<close>

definition sidebar_link :: "mtpl_info \<Rightarrow> (int \<times> int) option" where
  "sidebar_link mi =
     (if mi_sidebarFloat mi = ''true'' then Some (mi_maincolSize mi, mi_maincolSize mi - 40 - 64) else None)"

definition sidebar_init :: "mtpl_info \<Rightarrow> sidebar_page" where
  "sidebar_init mi =
     \<lparr>sn_mtpl = mi, sn_sidebar = None, sn_scope = \<lparr>sb_currentNode = [], sb_selection = (\<lambda>_. None)\<rparr>,
      sn_choice = (\<lambda>_. None), sn_collapsed = mi_sidebarCollapsed mi, sn_float = mi_sidebarFloat mi,
      sn_heights = sidebar_link mi, sn_expandedMarkup = [], sn_collapsedMarkup = [], sn_asked = True,
      sn_location = None\<rparr>"

text \<open>\<open>ng-init\<close> of an entry: its variable refers to the entry's node, what was chosen in it stays.\<close>

definition link_entry :: "menu_node \<Rightarrow> (string \<Rightarrow> selection option) \<Rightarrow> string \<Rightarrow> selection option" where
  "link_entry m ch =
     ch(mn_id m \<mapsto> (case ch (mn_id m) of
          None \<Rightarrow> \<lparr>sel_at = (\<lambda>_. None), sel_parentNode = Some m\<rparr>
        | Some sel \<Rightarrow> sel\<lparr>sel_parentNode := Some m\<rparr>))"

text \<open>The watcher of the menu, and the directives, which draw the entries of a new menu.\<close>

definition sidebar_watch :: "menu_node list option \<Rightarrow> sidebar_page \<Rightarrow> sidebar_page" where
  "sidebar_watch nodes s =
     s\<lparr>sn_sidebar := nodes,
       sn_expandedMarkup := sidebar_expanded nodes (sn_expandedMarkup s),
       sn_collapsedMarkup := sidebar_collapsed nodes (sn_collapsedMarkup s),
       sn_choice := fold link_entry (case nodes of None \<Rightarrow> [] | Some ms \<Rightarrow> ms) (sn_choice s)\<rparr>"

section \<open>Steps\<close>

text \<open>
  The answer with the menu comes once; without it \<open>sidebarNavigation\<close> is \<open>null\<close>, and the watcher fails.
  A choice in a select is one of its options, or empties it.
\<close>

datatype sidebar_event =
    Menu_In "menu_node list option option"
  | Open_Entry nat
  | Pick nat nat "nat option"
  | Press_Show nat
  | Toggle_Collapsed
  | Toggle_Float
  | Resize_To int int int

text \<open>The select of level \<open>k\<close> of the entry \<open>m\<close>: its options are the nodes below what is chosen one level up.\<close>

definition select_options :: "menu_node \<Rightarrow> nat \<Rightarrow> selection \<Rightarrow> menu_node list" where
  "select_options m k sel =
     (if k = 0 then children m else (case sel_at sel (k - 1) of None \<Rightarrow> [] | Some p \<Rightarrow> children p))"

definition pick :: "menu_node \<Rightarrow> nat \<Rightarrow> nat option \<Rightarrow> selection \<Rightarrow> selection" where
  "pick m k choice sel =
     (if k < getNodeDepth m
      then (case choice of
              None \<Rightarrow> update_selection k (getNodeDepth m) (sel\<lparr>sel_at := (sel_at sel)(k := None)\<rparr>)
            | Some n \<Rightarrow>
                if n < length (select_options m k sel)
                then update_selection k (getNodeDepth m)
                       (sel\<lparr>sel_at := (sel_at sel)(k \<mapsto> select_options m k sel ! n)\<rparr>)
                else sel)
      else sel)"

definition entry_of :: "sidebar_page \<Rightarrow> nat \<Rightarrow> menu_node option" where
  "entry_of s i =
     (case sn_sidebar s of None \<Rightarrow> None | Some ms \<Rightarrow> if i < length ms then Some (ms ! i) else None)"

definition sidebar_session_step :: "sidebar_event \<Rightarrow> sidebar_page \<Rightarrow> sidebar_page" where
  "sidebar_session_step e s =
     (case e of
        Menu_In data \<Rightarrow>
          if sn_asked s
          then (case data of None \<Rightarrow> s\<lparr>sn_asked := False\<rparr> | Some nodes \<Rightarrow> sidebar_watch nodes (s\<lparr>sn_asked := False\<rparr>))
          else s
      | Open_Entry i \<Rightarrow>
          (case entry_of s i of None \<Rightarrow> s | Some m \<Rightarrow> s\<lparr>sn_scope := chooseNode m (sn_scope s)\<rparr>)
      | Pick i k choice \<Rightarrow>
          (case entry_of s i of
             None \<Rightarrow> s
           | Some m \<Rightarrow> s\<lparr>sn_choice := (sn_choice s)(mn_id m := map_option (pick m k choice) (sn_choice s (mn_id m)))\<rparr>)
      | Press_Show i \<Rightarrow>
          (case entry_of s i of
             None \<Rightarrow> s
           | Some m \<Rightarrow> s\<lparr>sn_location := map_option (\<lambda>sel. sidebar_list sel (getNodeDepth m)) (sn_choice s (mn_id m))\<rparr>)
      | Toggle_Collapsed \<Rightarrow>
          (let (mi, v) = changeCollapsed (sn_mtpl s) in s\<lparr>sn_mtpl := mi, sn_collapsed := v\<rparr>)
      | Toggle_Float \<Rightarrow>
          (let (mi, v, h) = changeFloat (sn_mtpl s) in s\<lparr>sn_mtpl := mi, sn_float := v, sn_heights := h\<rparr>)
      | Resize_To w h f \<Rightarrow>
          (let (mi, hs, margin) = window_resized w h f (sn_mtpl s) in s\<lparr>sn_mtpl := mi, sn_heights := hs\<rparr>))"

definition sidebar_run :: "sidebar_event list \<Rightarrow> mtpl_info \<Rightarrow> sidebar_page" where
  "sidebar_run es mi = fold sidebar_session_step es (sidebar_init mi)"

text \<open>The ids of a menu's entries differ.\<close>

definition menu_ok :: "sidebar_event \<Rightarrow> bool" where
  "menu_ok e = (case e of Menu_In (Some (Some ms)) \<Rightarrow> distinct (map mn_id ms) | _ \<Rightarrow> True)"

section \<open>The invariant\<close>

text \<open>A choice is a path from its entry down the menu.\<close>

fun path_from :: "menu_node \<Rightarrow> menu_node list \<Rightarrow> bool" where
  "path_from m [] = True"
| "path_from m (n # ns) = (n \<in> set (children m) \<and> path_from n ns)"

definition choice_is :: "menu_node \<Rightarrow> menu_node list \<Rightarrow> selection \<Rightarrow> bool" where
  "choice_is m ns sel \<longleftrightarrow> path_from m ns \<and> length ns \<le> getNodeDepth m \<and> sel_parentNode sel = Some m
     \<and> (\<forall>k. sel_at sel k = (if k < length ns then Some (ns ! k) else None))"

definition choices_ok :: "menu_node list option \<Rightarrow> bool \<Rightarrow> (string \<Rightarrow> selection option) \<Rightarrow> bool" where
  "choices_ok nodes asked ch \<longleftrightarrow>
     (case nodes of
        None \<Rightarrow> \<forall>i. ch i = None
      | Some ms \<Rightarrow> distinct (map mn_id ms) \<and> \<not> asked \<and>
          (\<forall>m \<in> set ms. \<exists>ns sel. ch (mn_id m) = Some sel \<and> choice_is m ns sel))"

definition sidebar_inv :: "sidebar_page \<Rightarrow> bool" where
  "sidebar_inv s \<longleftrightarrow> choices_ok (sn_sidebar s) (sn_asked s) (sn_choice s)
     \<and> sn_collapsed s = mi_sidebarCollapsed (sn_mtpl s) \<and> sn_float s = mi_sidebarFloat (sn_mtpl s)
     \<and> sn_heights s = sidebar_link (sn_mtpl s)"

lemma path_from_append: "path_from m (ns @ ms) = (path_from m ns \<and> path_from (last (m # ns)) ms)"
  by (induction ns arbitrary: m) auto

lemma path_from_take: "path_from m ns \<Longrightarrow> path_from m (take k ns)"
  using path_from_append [of m "take k ns" "drop k ns"] by simp

text \<open>Choosing an option puts it at the end of the path above its select; emptying cuts the path there.\<close>

lemma pick_is:
  assumes "choice_is m ns sel"
  shows "\<exists>ns'. choice_is m ns' (pick m k choice sel)"
proof -
  have c: "path_from m ns" "length ns \<le> getNodeDepth m" "sel_parentNode sel = Some m"
    "\<And>k. sel_at sel k = (if k < length ns then Some (ns ! k) else None)"
    using assms by (simp_all add: choice_is_def)
  show ?thesis
  proof (cases "k < getNodeDepth m")
    case False
    with assms show ?thesis by (auto simp: pick_def)
  next
    case k: True
    show ?thesis
    proof (cases choice)
      case None
      have "choice_is m (take k ns) (pick m k choice sel)"
        using c k None path_from_take by (auto simp: choice_is_def pick_def update_selection_def)
      then show ?thesis by blast
    next
      case (Some n)
      let ?o = "select_options m k sel"
      show ?thesis
      proof (cases "n < length ?o")
        case False
        with Some assms show ?thesis by (auto simp: pick_def)
      next
        case True
        then have "k = 0 \<or> k - 1 < length ns"
          using c(4) by (auto simp: select_options_def split: if_splits)
        then have len: "k \<le> length ns" by auto
        have "?o = children (last (m # take k ns))"
        proof (cases k)
          case (Suc j)
          with len have j: "j < length ns" by simp
          then have "last (m # take (Suc j) ns) = ns ! j" by (simp add: take_Suc_conv_app_nth)
          with j Suc show ?thesis by (simp only: select_options_def c(4)) simp
        qed (simp add: select_options_def)
        with True have "?o ! n \<in> set (children (last (m # take k ns)))" by (metis nth_mem)
        with path_from_take [OF c(1)] have p: "path_from m (take k ns @ [?o ! n])"
          by (simp add: path_from_append)
        have "choice_is m (take k ns @ [?o ! n]) (pick m k choice sel)"
          unfolding choice_is_def
        proof (intro conjI allI)
          fix i
          show "sel_at (pick m k choice sel) i =
            (if i < length (take k ns @ [?o ! n]) then Some ((take k ns @ [?o ! n]) ! i) else None)"
            using c(2,4) k True Some len by (auto simp: pick_def update_selection_def nth_append)
        qed (use p c k True Some len in \<open>simp_all add: pick_def update_selection_def\<close>)
        then show ?thesis by blast
      qed
    qed
  qed
qed

lemma link_entries:
  "distinct (map mn_id ms) \<Longrightarrow> (\<forall>m \<in> set ms. ch (mn_id m) = None) \<Longrightarrow> m \<in> set ms \<Longrightarrow>
   fold link_entry ms ch (mn_id m) = Some \<lparr>sel_at = (\<lambda>_. None), sel_parentNode = Some m\<rparr>"
proof (induction ms arbitrary: ch)
  case (Cons x xs)
  have other: "mn_id m \<notin> set (map mn_id xs) \<Longrightarrow> fold link_entry xs ch' (mn_id m) = ch' (mn_id m)" for ch'
    by (induction xs arbitrary: ch') (auto simp: link_entry_def)
  show ?case
  proof (cases "m = x")
    case True
    with Cons.prems(2) have "link_entry x ch (mn_id m) = Some \<lparr>sel_at = (\<lambda>_. None), sel_parentNode = Some m\<rparr>"
      by (simp add: link_entry_def)
    with Cons.prems(1) True other show ?thesis by simp
  next
    case False
    with Cons.prems(3) have m: "m \<in> set xs" by simp
    have "fold link_entry xs (link_entry x ch) (mn_id m) = Some \<lparr>sel_at = (\<lambda>_. None), sel_parentNode = Some m\<rparr>"
    proof (rule Cons.IH)
      have "\<forall>m \<in> set xs. mn_id m \<noteq> mn_id x"
      proof
        fix m assume "m \<in> set xs"
        then have "mn_id m \<in> mn_id ` set xs" by (rule imageI)
        with Cons.prems(1) show "mn_id m \<noteq> mn_id x" by auto
      qed
      with Cons.prems(2) show "\<forall>m \<in> set xs. link_entry x ch (mn_id m) = None" by (simp add: link_entry_def)
    qed (use Cons.prems m in simp_all)
    then show ?thesis by simp
  qed
qed simp

lemma choice_empty: "choice_is m [] \<lparr>sel_at = (\<lambda>_. None), sel_parentNode = Some m\<rparr>"
  by (simp add: choice_is_def)

lemma entry_of_Some:
  "entry_of s i = Some m \<longleftrightarrow> (\<exists>ms. sn_sidebar s = Some ms \<and> i < length ms \<and> ms ! i = m)"
  by (auto simp: entry_of_def split: option.split)

lemma distinct_ids: "distinct (map mn_id ms) \<Longrightarrow> m \<in> set ms \<Longrightarrow> m' \<in> set ms \<Longrightarrow> mn_id m = mn_id m' \<longleftrightarrow> m = m'"
  by (auto simp: distinct_map inj_on_def)

lemma sidebar_watch_inv:
  assumes "\<forall>i. sn_choice s i = None" "distinct (map mn_id ms)" "m \<in> set ms"
  shows "\<exists>ns sel. sn_choice (sidebar_watch (Some ms) s) (mn_id m) = Some sel \<and> choice_is m ns sel"
  using link_entries [OF assms(2) _ assms(3), of "sn_choice s"] assms(1) choice_empty
  by (simp add: sidebar_watch_def) blast

lemma sidebar_step_inv:
  assumes "sidebar_inv s" "menu_ok e"
  shows "sidebar_inv (sidebar_session_step e s)"
proof (cases e)
  case (Menu_In data)
  show ?thesis
  proof (cases "sn_asked s")
    case False
    with Menu_In assms(1) show ?thesis by (simp add: sidebar_session_step_def)
  next
    case True
    with assms(1) have n: "sn_sidebar s = None" "\<forall>i. sn_choice s i = None"
      by (simp_all add: sidebar_inv_def choices_ok_def split: option.splits)
    show ?thesis
    proof (cases "\<exists>ms. data = Some (Some ms)")
      case False
      with Menu_In True n assms(1) show ?thesis
        by (auto simp: sidebar_session_step_def sidebar_inv_def choices_ok_def sidebar_watch_def split: option.splits)
    next
      case d: True
      then obtain ms where ms: "data = Some (Some ms)" by blast
      have "distinct (map mn_id ms)" using assms(2) Menu_In ms by (simp add: menu_ok_def)
      moreover from this have "\<exists>ns sel. sn_choice (sidebar_watch (Some ms) (s\<lparr>sn_asked := False\<rparr>)) (mn_id m) = Some sel \<and> choice_is m ns sel"
        if "m \<in> set ms" for m
        using that n(2) by (intro sidebar_watch_inv) simp_all
      ultimately show ?thesis
        using Menu_In True ms assms(1) n(1) by (simp add: sidebar_session_step_def sidebar_inv_def choices_ok_def) (simp add: sidebar_watch_def)
    qed
  qed
next
  case (Pick i k choice)
  show ?thesis
  proof (cases "entry_of s i")
    case None
    with Pick assms(1) show ?thesis by (simp add: sidebar_session_step_def)
  next
    case (Some m)
    then obtain ms where ms: "sn_sidebar s = Some ms" "m \<in> set ms" by (auto simp: entry_of_Some)
    have "\<exists>ns sel. ((sn_choice s)(mn_id m := map_option (pick m k choice) (sn_choice s (mn_id m)))) (mn_id x) = Some sel \<and> choice_is x ns sel"
      if "x \<in> set ms" for x
    proof -
      from assms(1) ms(1) that obtain ns sel where c: "sn_choice s (mn_id x) = Some sel" "choice_is x ns sel"
        by (auto simp: sidebar_inv_def choices_ok_def)
      show ?thesis
      proof (cases "x = m")
        case True
        with c pick_is show ?thesis by fastforce
      next
        case False
        with c ms that assms(1) distinct_ids [of ms x m] show ?thesis by (auto simp: sidebar_inv_def choices_ok_def)
      qed
    qed
    with Pick Some ms assms(1) show ?thesis
      by (simp add: sidebar_session_step_def sidebar_inv_def choices_ok_def del: fun_upd_apply)
  qed
next
  case (Resize_To w h f)
  with assms(1) show ?thesis
    by (simp add: sidebar_session_step_def sidebar_inv_def window_resized_def sidebar_link_def Let_def)
next
  case Toggle_Float
  with assms(1) show ?thesis
    by (simp add: sidebar_session_step_def sidebar_inv_def changeFloat_def sidebar_link_def Let_def)
next
  case Toggle_Collapsed
  with assms(1) show ?thesis
    by (simp add: sidebar_session_step_def sidebar_inv_def changeCollapsed_def sidebar_link_def Let_def)
qed (use assms(1) in \<open>auto simp: sidebar_session_step_def sidebar_inv_def split: option.split\<close>)

interpretation bar: event_run sidebar_session_step sidebar_inv menu_ok
  by unfold_locales (rule sidebar_step_inv)

lemma sidebar_run_inv: "list_all menu_ok es \<Longrightarrow> sidebar_inv (sidebar_run es mi)"
  unfolding sidebar_run_def
  by (rule bar.run_inv) (simp_all add: sidebar_inv_def choices_ok_def sidebar_init_def)

lemma choice_is_node:
  assumes "choice_is m ns sel"
  shows "getNode sel (getNodeDepth m) = Some (last (m # ns))"
proof (cases "ns = []")
  case True
  have "last_chosen (\<lambda>_. None) d = None" for d by (induction d) simp_all
  moreover from assms True have "sel_at sel = (\<lambda>_. None)" "sel_parentNode sel = Some m"
    by (auto simp: choice_is_def)
  ultimately show ?thesis using True by (simp add: getNode_def)
next
  case False
  then have l: "length ns - 1 < length ns" by simp
  with assms have "last_chosen (sel_at sel) (getNodeDepth m) = Some (ns ! (length ns - 1))"
    by (intro last_chosen_at [of "length ns - 1"]) (simp_all add: choice_is_def)
  with False show ?thesis by (simp add: getNode_def last_conv_nth)
qed

text \<open>The menu of the scope is the one that came.\<close>

lemma step_menu:
  "sn_sidebar (sidebar_session_step e s) =
     (case e of Menu_In (Some nodes) \<Rightarrow> if sn_asked s then nodes else sn_sidebar s | _ \<Rightarrow> sn_sidebar s)"
  "sn_asked (sidebar_session_step e s) = (case e of Menu_In data \<Rightarrow> False | _ \<Rightarrow> sn_asked s)"
  by (simp_all add: sidebar_session_step_def sidebar_watch_def changeFloat_def changeCollapsed_def window_resized_def Let_def
      split: sidebar_event.split option.split)

section \<open>Properties\<close>

text \<open>
  C35: The choices in an entry of the side bar always form a path down the menu from the entry, and its buttons
  act on the node at the end of the path: whatever the user opens, chooses, changes on a higher level, empties
  or presses, and whenever the menu comes, the chosen nodes are children one of the other, nothing is
  chosen below the last, and the button leads to the list of the last.
\<close>

theorem shown_node_ends_path:
  assumes "list_all menu_ok es" "sn_sidebar (sidebar_run es mi) = Some ms" "i < length ms"
  shows "\<exists>ns sel. sn_choice (sidebar_run es mi) (mn_id (ms ! i)) = Some sel
    \<and> path_from (ms ! i) ns \<and> length ns \<le> getNodeDepth (ms ! i)
    \<and> (\<forall>k. sel_at sel k = (if k < length ns then Some (ns ! k) else None))
    \<and> sn_location (sidebar_session_step (Press_Show i) (sidebar_run es mi)) =
        Some (Inr (''/list?__node='' @ mn_id (last (ms ! i # ns))))"
proof -
  obtain ns sel where c: "sn_choice (sidebar_run es mi) (mn_id (ms ! i)) = Some sel" "choice_is (ms ! i) ns sel"
    using sidebar_run_inv [OF assms(1), of mi] assms(2,3) by (fastforce simp: sidebar_inv_def choices_ok_def)
  moreover have "sn_location (sidebar_session_step (Press_Show i) (sidebar_run es mi)) =
      Some (Inr (''/list?__node='' @ mn_id (last (ms ! i # ns))))"
    using assms(2,3) c choice_is_node [OF c(2)]
    by (simp add: sidebar_session_step_def entry_of_def sidebar_list_def)
  ultimately show ?thesis by (auto simp: choice_is_def)
qed

definition sample_menu :: "menu_node list" where
  "sample_menu =
     (let x = MenuNode ''x'' ''X'' ''CLASS'' True None; y = MenuNode ''y'' ''Y'' ''CLASS'' True None;
          a = MenuNode ''a'' ''A'' ''GROUP'' True (Some [x, y])
      in [MenuNode ''top'' ''T'' ''GROUP'' True (Some [a, y]), MenuNode ''z'' ''Z'' ''CLASS'' True None])"

definition sidebar_clicks :: "sidebar_event list" where
  "sidebar_clicks = [Open_Entry 0, Menu_In (Some (Some sample_menu)), Open_Entry 0, Pick 0 0 (Some 0),
     Pick 0 1 (Some 1), Toggle_Float, Press_Show 1, Menu_In None]"

theorem shown_node_ends_path_witness:
  "\<exists>n. sn_location (sidebar_session_step (Press_Show 0)
       (sidebar_run sidebar_clicks (mtplInfoFactory None None 0 0 0))) = Some (Inr (''/list?__node='' @ n))"
proof -
  have ok: "list_all menu_ok sidebar_clicks"
    by (simp add: sidebar_clicks_def menu_ok_def sample_menu_def Let_def)
  have s: "sn_sidebar (sidebar_run sidebar_clicks (mtplInfoFactory None None 0 0 0)) = Some sample_menu"
    by (simp add: sidebar_run_def sidebar_clicks_def step_menu) (simp add: sidebar_init_def)
  have l: "0 < length sample_menu" by (simp add: sample_menu_def Let_def)
  from shown_node_ends_path [OF ok s l] show ?thesis by blast
qed

text \<open>
  The bar is as high as the main column exactly while it is pinned, whatever is toggled and however the window
  is resized in between.
\<close>

theorem pinned_bar_fills_column:
  assumes "list_all menu_ok es"
  shows "let s = sidebar_run es mi; h = mi_maincolSize (sn_mtpl s)
    in sn_heights s = (if sn_float s = ''true'' then Some (h, h - 104) else None) \<and>
       sn_collapsed s = mi_sidebarCollapsed (sn_mtpl s)"
  using sidebar_run_inv [OF assms, of mi] by (simp add: sidebar_inv_def sidebar_link_def Let_def)

end
