(* ===== verification/List_Location.thy ===== *)
theory List_Location
  imports List_Session
begin

text \<open>
  The list and its location over a session: what the scope of the list says it shows, what its requests ask
  for, and what the location names, agree after all events.
\<close>

section \<open>Agreement\<close>

text \<open>The page a location names; without a number it is the first.\<close>

definition page_named :: "jsobj \<Rightarrow> jsval" where
  "page_named search = (if truthy (oget search ''__page'') then oget search ''__page'' else JNum 1)"

definition list_opened :: "list_settings \<Rightarrow> list_world \<Rightarrow> bool" where
  "list_opened settings w \<longleftrightarrow> lw_path w = ls_locationPathPrefix settings \<and> oget (lw_search w) ''__node'' \<noteq> JUndef"

definition scope_names :: "list_scope \<Rightarrow> jsobj \<Rightarrow> bool" where
  "scope_names s search \<longleftrightarrow>
     lc_node s = JStr (to_str (oget search ''__node'')) \<and> lc_page s = page_named search
     \<and> lc_container s = oget search ''__container'' \<and> lc_collection s = oget search ''__collection''"

definition at_location :: "list_settings \<Rightarrow> list_world \<Rightarrow> bool" where
  "at_location settings w \<longleftrightarrow> (list_opened settings w \<longrightarrow> scope_names (lw_scope w) (lw_search w))"

section \<open>Lemmas\<close>

text \<open>The part of the world that this is about; few operations change it.\<close>

definition list_place :: "list_world \<Rightarrow> (jsval \<times> jsval \<times> jsval \<times> jsval) \<times> string \<times> jsobj" where
  "list_place w =
     ((lc_node (lw_scope w), lc_page (lw_scope w), lc_container (lw_scope w), lc_collection (lw_scope w)),
      lw_path w, lw_search w)"

lemma at_place: "list_place w' = list_place w \<Longrightarrow> at_location settings w' = at_location settings w"
  by (simp add: list_place_def at_location_def list_opened_def scope_names_def)

lemma place_frame [simp]:
  "list_place (tick_row k b w) = list_place w" "list_place (list_vm_arrives n w) = list_place w"
  "list_place (listinfo_arrives info w) = list_place w" "list_place (follow_redirect r w) = list_place w"
  "list_place (list_arrives l w) = list_place w" "list_place (digest w) = list_place w"
  "list_place (w\<lparr>lw_list := l\<rparr>) = list_place w" "list_place (w\<lparr>lw_item := i\<rparr>) = list_place w"
  "list_place (w\<lparr>lw_mtpl := mi\<rparr>) = list_place w"
  "list_place (w\<lparr>lw_scope := (lw_scope w)\<lparr>lc_itemsToDelete := d\<rparr>\<rparr>) = list_place w"
  "list_place (w\<lparr>lw_scope := (lw_scope w)\<lparr>lc_selectAll := b\<rparr>\<rparr>) = list_place w"
  by (simp_all add: list_place_def tick_row_def list_vm_arrives_def listinfo_arrives_def follow_redirect_def
      list_arrives_def digest_def split: option.split)

lemma request_object [simp]:
  "oget (list_getRequestObject s params) ''__node'' =
     (if truthy (oget params ''__node'') then oget params ''__node'' else lc_node s)"
  "oget (list_getRequestObject s params) ''__page'' =
     (if \<not> truthy (oget params ''__page'') \<and> truthy (lc_page s) then lc_page s else oget params ''__page'')"
  "oget (list_getRequestObject s params) ''__container'' =
     (if \<not> truthy (oget params ''__container'') \<and> truthy (lc_container s) then lc_container s else oget params ''__container'')"
  "oget (list_getRequestObject s params) ''__collection'' =
     (if \<not> truthy (oget params ''__collection'') \<and> truthy (lc_collection s) then lc_collection s else oget params ''__collection'')"
  by (auto simp: list_getRequestObject_def set_default_def)

lemma refresh_at_location: "at_location settings (snd (refreshList dec settings (lw_search w) w))"
  by (auto simp: refreshList_def at_location_def list_opened_def scope_names_def page_named_def Let_def
      split: sum.split)

lemma watch_at_location: "at_location settings (snd (list_watch dec settings w))"
proof (cases "list_opened settings w")
  case True
  then show ?thesis using refresh_at_location by (simp add: list_watch_def list_opened_def)
next
  case False
  then show ?thesis by (auto simp: list_watch_def list_opened_def at_location_def)
qed

lemma location_watch_at: "at_location settings w \<Longrightarrow> at_location settings (snd (location_watch dec settings seen w))"
  using watch_at_location [of settings dec] by (auto simp: location_watch_def case_prod_beta Let_def)

lemma place_unless: "(\<And>w'. r = Inr w' \<Longrightarrow> list_place w' = list_place w) \<Longrightarrow> list_place (unless_thrown w r) = list_place w"
  by (cases r) (simp_all add: unless_thrown_def)

lemma place_bulk:
  assumes "bulk_reply r w = Inr (rqs, n, w')"
  shows "list_place w' = list_place w"
proof -
  define w0 where "w0 = w\<lparr>lw_scope := (lw_scope w)\<lparr>lc_itemsToDelete := []\<rparr>\<rparr>"
  define d where "d = (case br_deleteList r of
       None \<Rightarrow> Inr ([], w0)
     | Some ks \<Rightarrow>
         rbind (case lw_list w0 of None \<Rightarrow> Inl TypeError | Some xs \<Rightarrow> deleteFromList xs ks) (\<lambda>ys.
           Inr ([itemslist_request (lw_scope w0) (length ys)], w0\<lparr>lw_list := Some ys\<rparr>)))"
  have d: "list_place w1 = list_place w" if "d = Inr (rqs1, w1)" for rqs1 w1
  proof -
    have "list_place w1 = list_place w0"
      using that unfolding d_def rbind_def by (auto split: option.splits sum.splits)
    then show ?thesis by (simp add: w0_def)
  qed
  show ?thesis
  proof (cases d)
    case (Inl e)
    with assms show ?thesis
      unfolding bulk_reply_def w0_def [symmetric] Let_def d_def [symmetric] by simp
  next
    case (Inr x)
    then obtain rqs1 w1 where x: "d = Inr (rqs1, w1)" by (cases x) simp
    with assms have "w' = follow_redirect (br_redirect r) w1"
      unfolding bulk_reply_def w0_def [symmetric] Let_def d_def [symmetric]
      by (cases "lw_list w1"; cases "br_refreshList r = []") (auto simp: rbind_def split: sum.splits)
    with d [OF x] show ?thesis by simp
  qed
qed

lemma act_at_location:
  assumes "at_location settings w"
  shows "at_location settings (list_act dec enc settings e w)"
proof -
  have same: "at_location settings w'" if "list_place w' = list_place w" for w'
    using at_place [OF that, of settings] assms by (rule iffD2)
  show ?thesis
  proof (cases e)
    case (Follow_Location path search)
    then show ?thesis using watch_at_location by (simp add: list_act_def)
  next
    case (Row_Click i b)
    have "list_place (unless_thrown w (showDetails i b w)) = list_place w"
    proof (rule place_unless)
      fix w' assume "showDetails i b w = Inr w'"
      then show "list_place w' = list_place w"
        by (cases b; cases "lc_list (lw_scope w)"; cases "arr_at (the (lc_list (lw_scope w))) i = lc_detailItem (lw_scope w)")
          (auto simp: showDetails_def)
    qed
    then have "at_location settings (unless_thrown w (showDetails i b w))" by (rule same)
    with Row_Click assms show ?thesis by (simp add: list_act_def split: option.split)
  next
    case (Tick_All b)
    let ?w = "w\<lparr>lw_scope := (lw_scope w)\<lparr>lc_selectAll := b\<rparr>\<rparr>"
    have "list_place (unless_thrown ?w (selectAll_change ?w)) = list_place ?w"
      by (rule place_unless) (auto simp: selectAll_change_def rbind_def list_place_def split: sum.splits option.splits)
    then have "at_location settings (unless_thrown ?w (selectAll_change ?w))" by (intro same) simp
    with Tick_All show ?thesis by (simp add: list_act_def Let_def)
  next
    case (Sort_Click sortable property)
    with assms show ?thesis
      by (simp add: list_act_def changeSorting_def at_location_def list_opened_def scope_names_def page_named_def Let_def)
  next
    case (Bulk_Answer r)
    show ?thesis
    proof (cases "bulk_reply r w")
      case (Inl e)
      with Bulk_Answer show ?thesis by (simp add: list_act_def same)
    next
      case (Inr x)
      then obtain rqs n w' where "bulk_reply r w = Inr (rqs, n, w')" by (cases x) auto
      with Bulk_Answer same [OF place_bulk] show ?thesis by (simp add: list_act_def)
    qed
  next
    case (Refill_Answer l)
    have "list_place (unless_thrown w (itemslist_reply l w)) = list_place w"
      by (rule place_unless) (auto simp: itemslist_reply_def split: option.splits)
    with Refill_Answer show ?thesis by (simp add: list_act_def same)
  next
    case (Refresh_Answer i v)
    have "list_place (unless_thrown w (refresh_reply i v w)) = list_place w"
      by (rule place_unless) (auto simp: refresh_reply_def split: option.splits if_splits)
    with Refresh_Answer show ?thesis by (simp add: list_act_def same)
  next
    case (Action_Answer item redirect)
    obtain r w1 where w1: "(if truthy item then list_watch dec settings w else (Inr [], w)) = (r, w1)"
      by (cases "if truthy item then list_watch dec settings w else (Inr [], w)")
    then have "at_location settings w1"
      using watch_at_location [of settings dec w] assms by (auto split: if_splits)
    moreover have "at_location settings (follow_redirect redirect w1) = at_location settings w1"
      by (rule at_place) simp
    ultimately have "at_location settings (snd (plain_reply dec settings item redirect w))"
      unfolding plain_reply_def w1 by (cases r) simp_all
    with Action_Answer show ?thesis by (simp add: list_act_def)
  qed (simp_all add: list_act_def same)
qed

lemma list_step_at: "at_location settings w \<Longrightarrow> at_location settings (list_session_step dec enc settings e w)"
  unfolding list_session_step_def
  by (subst at_place [OF place_frame(6)]) (intro location_watch_at act_at_location)

interpretation list_at: event_run "list_session_step dec enc settings" "at_location settings" "\<lambda>e. True"
  for dec enc settings
  by unfold_locales (rule list_step_at)

text \<open>What the watcher of the location sends names the same page as the scope.\<close>

definition names_scope :: "list_scope \<Rightarrow> string \<times> jsobj \<Rightarrow> bool" where
  "names_scope s = (\<lambda>(url, rq). JStr (to_str (oget rq ''__node'')) = lc_node s \<and> oget rq ''__page'' = lc_page s
     \<and> oget rq ''__container'' = lc_container s \<and> oget rq ''__collection'' = lc_collection s)"

lemma request_wf [simp]: "wf_obj params \<Longrightarrow> wf_obj (list_getRequestObject s params)"
  by (simp add: list_getRequestObject_def set_default_def)

lemma refresh_names:
  assumes "wf_obj (lw_search w)" "refreshList dec settings (lw_search w) w = (Inr rqs, w')"
  shows "\<forall>rq \<in> set rqs. names_scope (lw_scope w') rq"
  using assms
  by (auto simp: refreshList_def names_scope_def cleanParams_get Let_def split: if_splits sum.splits)

lemma watch_names:
  assumes "wf_obj (lw_search w)"
  shows "\<forall>rq \<in> set (sent_by (fst (list_watch dec settings w))). names_scope (lw_scope (snd (list_watch dec settings w))) rq"
proof (cases "list_watch dec settings w")
  case (Pair r w')
  then show ?thesis
    using refresh_names [OF assms, of dec settings _ w']
    by (cases r) (auto simp: list_watch_def sent_by_def split: if_splits)
qed

section \<open>Properties\<close>

text \<open>
  C39: The list shows where the location is: whatever the user follows, sorts, ticks and deletes and whatever the
  server answers, once a list is open its scope has the node, the container, the collection and the page of the
  location, so that the items that move up after a deletion are asked for this page; and whatever location
  comes next, every request that is sent for it names the node and the page that the scope then has.
\<close>

theorem list_follows_location:
  assumes "lw_path w \<noteq> ls_locationPathPrefix settings"
    and "list_session dec enc settings es w = w'" and "list_opened settings w'" and "wf_obj search"
  shows "scope_names (lw_scope w') (lw_search w')
    \<and> oget (snd (itemslist_request (lw_scope w') n)) ''__page'' = page_named (lw_search w')
    \<and> (\<forall>rq \<in> set (sent_by (fst (list_watch dec settings (w'\<lparr>lw_path := path, lw_search := search\<rparr>)))).
         names_scope (lw_scope (snd (list_watch dec settings (w'\<lparr>lw_path := path, lw_search := search\<rparr>)))) rq)"
proof -
  have "at_location settings w" using assms(1) by (simp add: at_location_def list_opened_def)
  then have "at_location settings w'"
    using list_at.run_inv [of settings w es dec enc] assms(2) by (simp add: list_session_def list_all_iff)
  with assms(3) have s: "scope_names (lw_scope w') (lw_search w')" by (simp add: at_location_def)
  then have "oget (snd (itemslist_request (lw_scope w') n)) ''__page'' = page_named (lw_search w')"
    by (simp add: itemslist_request_def scope_names_def)
  with s watch_names [of "w'\<lparr>lw_path := path, lw_search := search\<rparr>" dec settings] assms(4) show ?thesis
    by simp
qed

theorem list_follows_location_witness:
  "lc_page (lw_scope (list_session (\<lambda>_. Inl TypeError) (\<lambda>_. []) (getSettings Plain_List)
     [Follow_Location ''/list'' [(''__node'', JStr ''n''), (''__page'', JStr ''2'')], Page_Arrives (Some [])]
     ((sample_list [])\<lparr>lw_path := ''/''\<rparr>))) = JStr ''2''"
proof -
  let ?w = "list_session (\<lambda>_. Inl TypeError) (\<lambda>_. []) (getSettings Plain_List)
     [Follow_Location ''/list'' [(''__node'', JStr ''n''), (''__page'', JStr ''2'')], Page_Arrives (Some [])]
     ((sample_list [])\<lparr>lw_path := ''/''\<rparr>)"
  have s: "lw_search ?w = [(''__node'', JStr ''n''), (''__page'', JStr ''2'')]" "lw_path ?w = ''/list''"
    by (simp_all add: list_session_def list_session_step_def list_act_def location_watch_def last_seen_def
        list_watch_def refreshList_def list_getRequestObject_def set_default_def list_arrives_def digest_def
        sample_list_def init_list_scope_def Let_def)
  have o: "list_opened (getSettings Plain_List) ?w" unfolding list_opened_def s by simp
  have "scope_names (lw_scope ?w) (lw_search ?w)"
    by (rule conjunct1 [OF list_follows_location [where search = "[]", OF _ refl o]])
      (simp_all add: sample_list_def wf_obj_def onames_def)
  then show ?thesis unfolding scope_names_def s page_named_def by simp
qed

text \<open>
  An answer with a page is shown whatever page the list is on by then: after two changes of the page whose
  answers arrive in the other order, the list shows the rows of the first under the number of the second.
\<close>

theorem late_page_answer_wins:
  assumes "w' = list_session_step dec enc settings (Follow_Location path search) w"
  shows "let w'' = list_session dec enc settings [Page_Arrives (Some second), Page_Arrives (Some first)] w'
    in shown_items w'' = first \<and> lc_page (lw_scope w'') = lc_page (lw_scope w')"
  by (simp add: list_session_def list_session_step_def list_act_def location_watch_def last_seen_def list_arrives_def
      digest_def shown_items_def Let_def)

end
