(* ===== verification/Locations.thy ===== *)
theory Locations
  imports Search_Page
begin

text \<open>
  How a location that one component writes is read by another: the setter \<open>$location.url\<close> of the
  \<open>angular.min.js\<close> that the client ships (1.3.14), which takes a url apart at its first question mark and
  its first hash sign, decodes the path, and parses the parameters.  Strings are the bytes of their UTF-8 form, so
  \<open>decodeURIComponent\<close> has to check that the escapes of a character are well formed; where they are not it throws.
\<close>

section \<open>Decoding\<close>

definition hex_char :: "char \<Rightarrow> nat option" where
  "hex_char c =
     (let n = (of_char c :: nat)
      in if 48 \<le> n \<and> n \<le> 57 then Some (n - 48)
         else if 65 \<le> n \<and> n \<le> 70 then Some (n - 55)
         else if 97 \<le> n \<and> n \<le> 102 then Some (n - 87)
         else None)"

text \<open>The bytes of \<open>k\<close> escapes in a row, and what follows them.\<close>

fun escaped_bytes :: "nat \<Rightarrow> string \<Rightarrow> (nat list \<times> string) option" where
  "escaped_bytes 0 s = Some ([], s)"
| "escaped_bytes (Suc k) (p # a # b # s) =
     (case (hex_char a, hex_char b) of
        (Some x, Some y) \<Rightarrow>
          if p = CHR ''%'' then map_option (\<lambda>(bs, r). ((16 * x + y) # bs, r)) (escaped_bytes k s) else None
      | _ \<Rightarrow> None)"
| "escaped_bytes (Suc k) _ = None"

text \<open>UTF-8: how many bytes a character has that starts with this one, and which may follow it.\<close>

definition utf8_length :: "nat \<Rightarrow> nat option" where
  "utf8_length b =
     (if b < 128 then Some 1 else if 194 \<le> b \<and> b < 224 then Some 2 else if 224 \<le> b \<and> b < 240 then Some 3
      else if 240 \<le> b \<and> b < 245 then Some 4 else None)"

definition utf8_ok :: "nat list \<Rightarrow> bool" where
  "utf8_ok bs =
     (case bs of
        b # c # _ \<Rightarrow>
          list_all (\<lambda>x. 128 \<le> x \<and> x < 192) (tl bs) \<and> (b = 224 \<longrightarrow> 160 \<le> c) \<and> (b = 237 \<longrightarrow> c < 160) \<and>
          (b = 240 \<longrightarrow> 144 \<le> c) \<and> (b = 244 \<longrightarrow> c < 144)
      | _ \<Rightarrow> True)"

definition next_escape :: "string \<Rightarrow> (string \<times> string) option" where
  "next_escape s =
     (case escaped_bytes 1 s of
        Some (b # _, _) \<Rightarrow>
          (case utf8_length b of
             None \<Rightarrow> None
           | Some k \<Rightarrow>
               (case escaped_bytes k s of
                  None \<Rightarrow> None
                | Some (bs, r) \<Rightarrow> if utf8_ok bs then Some (map char_of bs, r) else None))
      | _ \<Rightarrow> None)"

lemma escaped_bytes_length: "escaped_bytes k s = Some (bs, r) \<Longrightarrow> length s = 3 * k + length r"
  by (induction k s arbitrary: bs rule: escaped_bytes.induct) (auto split: option.splits if_splits)

lemma next_escape_shorter: "next_escape s = Some (cs, r) \<Longrightarrow> length r < length s"
  by (auto simp: next_escape_def utf8_length_def dest!: escaped_bytes_length split: option.splits list.splits if_splits)

text \<open>\<open>decodeURIComponent\<close>; \<open>None\<close> is the exception it throws.\<close>

function decode_component :: "string \<Rightarrow> string option" where
  "decode_component s =
     (case s of
        [] \<Rightarrow> Some []
      | c # s' \<Rightarrow>
          if c \<noteq> CHR ''%'' then map_option ((#) c) (decode_component s')
          else (case next_escape s of
                  None \<Rightarrow> None
                | Some (cs, r) \<Rightarrow> map_option ((@) cs) (decode_component r)))"
  by auto
termination by (relation "measure length") (auto dest: next_escape_shorter)

declare decode_component.simps [simp del]

section \<open>Parameters\<close>

text \<open>\<open>tryDecodeURIComponent\<close>: undefined where the decoder throws.\<close>

definition tryDecodeURIComponent :: "string \<Rightarrow> jsval" where
  "tryDecodeURIComponent s = (case decode_component s of None \<Rightarrow> JUndef | Some t \<Rightarrow> JStr t)"

text \<open>A name that comes again collects its values in an array.\<close>

definition add_param :: "string \<Rightarrow> jsval \<Rightarrow> jsobj \<Rightarrow> jsobj" where
  "add_param k v obj =
     (if k \<in> set (onames obj)
      then (case oget obj k of JArr vs \<Rightarrow> oset obj k (JArr (vs @ [v])) | old \<Rightarrow> oset obj k (JArr [old, v]))
      else oset obj k v)"

definition blanks :: "string \<Rightarrow> string" where
  "blanks s = concat (map (\<lambda>c. if c = CHR ''+'' then ''%20'' else [c]) s)"

text \<open>One pair: without an equality sign its value is \<open>true\<close>; after a second one it is cut off.\<close>

definition parse_pair :: "string \<Rightarrow> jsobj \<Rightarrow> jsobj" where
  "parse_pair keyValue obj =
     (if keyValue = [] then obj
      else (let key_value = split_on CHR ''='' (blanks keyValue)
            in case tryDecodeURIComponent (hd key_value) of
                 JStr key \<Rightarrow>
                   add_param key (case tl key_value of [] \<Rightarrow> JBool True | v # _ \<Rightarrow> tryDecodeURIComponent v) obj
               | _ \<Rightarrow> obj))"

definition parseKeyValue :: "string \<Rightarrow> jsobj" where
  "parseKeyValue keyValue = fold parse_pair (split_on CHR ''&'' keyValue) []"

section \<open>Locations\<close>

text \<open>The text up to the first of some characters, and the text behind it.\<close>

definition cut_at :: "char set \<Rightarrow> string \<Rightarrow> string \<times> string" where
  "cut_at cs s = (takeWhile (\<lambda>c. c \<notin> cs) s, dropWhile (\<lambda>c. c \<notin> cs) s)"

text \<open>\<open>$location.path(p)\<close> begins with a slash.\<close>

definition with_slash :: "string \<Rightarrow> string" where
  "with_slash p = (if p \<noteq> [] \<and> hd p = CHR ''/'' then p else CHR ''/'' # p)"

text \<open>
  The setter \<open>$location.url(url)\<close>: the path and the parameters that \<open>$location\<close> has then, from those it
  had; a url that begins with its parameters keeps the path, and one that is only a hash keeps both.  \<open>None\<close>: the
  decoding of the path throws.
\<close>

definition location_url :: "string \<Rightarrow> string \<times> jsobj \<Rightarrow> (string \<times> jsobj) option" where
  "location_url url old =
     (let (path, rest) = cut_at {CHR ''?'', CHR ''#''} url;
          has_search = (rest \<noteq> [] \<and> hd rest = CHR ''?'');
          search = (if has_search then fst (cut_at {CHR ''#''} (tl rest)) else []);
          new_path = (if path \<noteq> [] \<or> url = [] then map_option with_slash (decode_component path) else Some (fst old));
          new_search = (if has_search \<or> path \<noteq> [] \<or> url = [] then parseKeyValue search else snd old)
      in map_option (\<lambda>p. (p, new_search)) new_path)"

section \<open>Texts that come through\<close>

text \<open>
  The client writes ids into a location as they are.  One that has no escape, no blank in disguise, no hash
  and no separator of parameters is read back as it was.
\<close>

definition url_plain :: "string \<Rightarrow> bool" where
  "url_plain s \<longleftrightarrow> set s \<inter> {CHR ''&'', CHR ''='', CHR ''%'', CHR ''+'', CHR ''#''} = {}"

lemma url_plain_simps [simp]:
  "url_plain []"
  "url_plain (c # s) \<longleftrightarrow> c \<notin> {CHR ''&'', CHR ''='', CHR ''%'', CHR ''+'', CHR ''#''} \<and> url_plain s"
  "url_plain (s @ t) \<longleftrightarrow> url_plain s \<and> url_plain t"
  by (auto simp: url_plain_def)

lemma decode_unescaped: "CHR ''%'' \<notin> set s \<Longrightarrow> decode_component s = Some s"
  by (induction s) (auto simp: decode_component.simps)

lemma blanks_unchanged: "CHR ''+'' \<notin> set s \<Longrightarrow> blanks s = s"
  by (induction s) (auto simp: blanks_def)

lemma parse_pair_plain:
  assumes "url_plain k" "url_plain v" "k \<notin> set (onames obj)"
  shows "parse_pair (k @ CHR ''='' # v) obj = oset obj k (JStr v)"
proof -
  have "CHR ''+'' \<notin> set (k @ CHR ''='' # v)" "CHR ''='' \<notin> set k" "CHR ''='' \<notin> set v"
    "CHR ''%'' \<notin> set k" "CHR ''%'' \<notin> set v"
    using assms(1,2) by (auto simp: url_plain_def)
  then show ?thesis
    using assms(3)
    by (simp add: parse_pair_def blanks_unchanged split_on_append split_on_plain tryDecodeURIComponent_def
        decode_unescaped add_param_def Let_def)
qed

lemma plain_no_amp: "url_plain s \<Longrightarrow> CHR ''&'' \<notin> set s"
  by (auto simp: url_plain_def)

lemma location_url_search:
  assumes "set p \<inter> {CHR ''?'', CHR ''#'', CHR ''%''} = {}" "CHR ''#'' \<notin> set q"
  shows "location_url (CHR ''/'' # p @ CHR ''?'' # q) old = Some (CHR ''/'' # p, parseKeyValue q)"
proof -
  let ?P = "\<lambda>c. c \<notin> {CHR ''?'', CHR ''#''}"
  have w: "takeWhile ?P (CHR ''/'' # p @ CHR ''?'' # q) = CHR ''/'' # p"
    "dropWhile ?P (CHR ''/'' # p @ CHR ''?'' # q) = CHR ''?'' # q"
  proof -
    have "\<And>c. c \<in> set (CHR ''/'' # p) \<Longrightarrow> ?P c" using assms(1) by auto
    from this show "takeWhile ?P (CHR ''/'' # p @ CHR ''?'' # q) = CHR ''/'' # p"
      "dropWhile ?P (CHR ''/'' # p @ CHR ''?'' # q) = CHR ''?'' # q" by simp_all
  qed
  have "takeWhile (\<lambda>c. c \<noteq> CHR ''#'') q = q"
    using assms(2) by (intro takeWhile_eq_all_conv [THEN iffD2]) auto
  moreover have "decode_component (CHR ''/'' # p) = Some (CHR ''/'' # p)"
    using assms(1) by (intro decode_unescaped) auto
  ultimately show ?thesis
    unfolding location_url_def cut_at_def w by (simp add: with_slash_def del: takeWhile_eq_all_conv)
qed

lemma plain_no_hash: "url_plain s \<Longrightarrow> CHR ''#'' \<notin> set s"
  by (auto simp: url_plain_def)

lemma location_url_one:
  assumes "set p \<inter> {CHR ''?'', CHR ''#'', CHR ''%''} = {}" "url_plain k" "url_plain v"
  shows "location_url (CHR ''/'' # p @ CHR ''?'' # k @ CHR ''='' # v) old = Some (CHR ''/'' # p, [(k, JStr v)])"
proof -
  have "split_on CHR ''&'' (k @ CHR ''='' # v) = [k @ CHR ''='' # v]"
    by (rule split_on_plain) (use assms(2,3) in \<open>auto simp: url_plain_def\<close>)
  then have "parseKeyValue (k @ CHR ''='' # v) = [(k, JStr v)]"
    using parse_pair_plain [OF assms(2,3), of "[]"] by (simp add: parseKeyValue_def)
  with location_url_search [OF assms(1), of "k @ CHR ''='' # v" old] assms(2,3) plain_no_hash show ?thesis
    by auto
qed

lemma location_url_two:
  assumes "set p \<inter> {CHR ''?'', CHR ''#'', CHR ''%''} = {}" "url_plain k" "url_plain v" "url_plain k'" "url_plain v'" "k \<noteq> k'"
  shows "location_url (CHR ''/'' # p @ CHR ''?'' # k @ CHR ''='' # v @ CHR ''&'' # k' @ CHR ''='' # v') old
    = Some (CHR ''/'' # p, [(k, JStr v), (k', JStr v')])"
proof -
  have "CHR ''&'' \<notin> set (k @ CHR ''='' # v)" "CHR ''&'' \<notin> set (k' @ CHR ''='' # v')"
    using assms(2-5) by (auto simp: url_plain_def)
  then have "split_on CHR ''&'' (k @ CHR ''='' # v @ CHR ''&'' # k' @ CHR ''='' # v')
      = [k @ CHR ''='' # v, k' @ CHR ''='' # v']"
    using split_on_append [of "CHR ''&''" "k @ CHR ''='' # v"] split_on_plain [of "CHR ''&''" "k' @ CHR ''='' # v'"] by simp
  then have "parseKeyValue (k @ CHR ''='' # v @ CHR ''&'' # k' @ CHR ''='' # v') = [(k, JStr v), (k', JStr v')]"
    using parse_pair_plain [OF assms(2,3), of "[]"] parse_pair_plain [OF assms(4,5), of "[(k, JStr v)]"] assms(6)
    by (simp add: parseKeyValue_def)
  with location_url_search [OF assms(1), of "k @ CHR ''='' # v @ CHR ''&'' # k' @ CHR ''='' # v'" old] assms(2-5) plain_no_hash
  show ?thesis by auto
qed

text \<open>
  An id with one of the other characters is not read back: a plus sign becomes a blank, and what follows a hash
  sign is lost.
\<close>

lemma unescaped_ids_lost:
  "location_url ''/item?__node=n&__id=doc:C++'' old = Some (''/item'', [(''__node'', JStr ''n''), (''__id'', JStr ''doc:C  '')])"
  "location_url ''/item?__node=n&__id=doc:7#a'' old = Some (''/item'', [(''__node'', JStr ''n''), (''__id'', JStr ''doc:7'')])"
  "location_url ''/item?__node=n&__id=doc:A&B'' old =
     Some (''/item'', [(''__node'', JStr ''n''), (''__id'', JStr ''doc:A''), (''B'', JBool True)])"
  "location_url ''/item?__id=100%'' old = Some (''/item'', [(''__id'', JUndef)])"
  by (cases old; code_simp)+

end
