(* ===== verification/Spec2Isabelle.thy ===== *)
theory Spec2Isabelle
  imports Form_Reload Cache_Sessions Crypto_Jt Navigation Search_Page Shell Ajax_Api Page_Loader
    Page_Frame Editable Cell_Rows Popup_Editors Form_Collection Dialog_Widgets
    List_Session Form_Page Page_Parts Selection_Session Info_References Frame_Watch
    Action_Session Jt_Session Sidebar_Session List_Location Locations
begin

text \<open>
  The browser client of the iON framework.  The framework's web application (\<open>ion-web-app\<close>)
  serves pages of two kinds: a single-page client on AngularJS, in
  \<open>src/main/webapp/resources/ionweb-spa/js/ion-ng\<close>, and classic pages on jQuery, in \<open>ionweb-spa/js\<close>
  and \<open>ionweb-jt/js\<close>.  A page shows a menu of nodes, the list of a node, the form of an item, its
  collections and references, and lets the user run actions, which a digital signature may have to
  precede or follow.  The server, the browser, jQuery and AngularJS are outside (but for the setter of
  \<open>$location\<close>): their answers and events are the inputs of the operations below.

  The parts and their theories.

  \<^item> \<open>Js_Prelude\<close>: JavaScript values (\<open>jsval\<close>), objects as association lists in the order of their
    names, exceptions as \<open>Inl\<close> of \<open>jserr\<close>, strings as bytes, the operators and library functions the
    client uses, and items, whose \<open>itemInfo\<close> holds class and id.  Collections of simplification
    rules: \<open>js_defs\<close>, \<open>js_laws\<close>.
  \<^item> \<open>Store_Interface\<close>, \<open>Task_Interface\<close>, \<open>List_Interface\<close>: the contracts between components, as
    locales: a store and its self-keyed variant, an exclusive task, the deletion from a list by key.
    \<open>Data_Cache\<close> interprets the stores on the items cache, \<open>Crypto_Spa\<close>, \<open>Crypto_Jt\<close> and
    \<open>Page_Loader\<close> the task on their modules, \<open>List_Controller\<close> and \<open>Form_Collection\<close> the deletion;
    \<open>View_Model\<close> has a locale of its own for the field rules that the code repeats in three places.
  \<^item> \<open>Run_Interface\<close>: the contract of step functions over events, as a locale: an invariant that every
    permitted event keeps holds after any list of them.  The items cache, the page loader, the frame,
    both kinds of editors, the popups, the row of a new element, the list, the splitter, the
    selection dialog, the side bar and the actions with signatures interpret it.
  \<^item> \<open>Mtpl_Info\<close>: the shared object \<open>mtplInfo\<close> (\<open>ion-ng-mtpl.js\<close>).
  \<^item> \<open>Data_Cache\<close>: \<open>ion-ng-data.js\<close>, the request cache with expiry, the items, lists and view models
    it serves.  A request is two operations, what is sent and what its reply does; a promise is
    resolved, rejected or unsettled.  \<open>Cache_Sessions\<close> runs any list of requests, answers,
    deletions and failures: every item stays under its own key, the request cache serves the last
    answer that has not expired, and failures leave only their message.
  \<^item> \<open>View_Model\<close>, \<open>Actions\<close>, \<open>Form\<close>: \<open>ion-ng-form.js\<close>, the rules of fields, the actions with their
    parameters and signatures, the three form controllers over the location.  \<open>Form_Reload\<close>: the
    chain of reloads of selections, that it ends, and the one case in which it does not; its function
    has fuel, and two rounds are shown to be enough.  \<open>Form_Session\<close>: a form that is led from location
    to location while the user types and answers arrive in any order, with reachability \<open>form_reach\<close> and
    the invariant \<open>form_inv\<close>: what is shown, what the location names and what the actions work on are one
    item; \<open>Form_Page\<close>: the same form together with its fields.
  \<^item> \<open>Markup\<close>: the trees of elements that the field directives draw.
  \<^item> \<open>Cell_Templates\<close>, \<open>In_Place\<close>: \<open>ion-ng-listfield.js\<close>, the templates of list and detail cells, and
    the cells with their editors as a step function over events of the user, the server and the list
    controller, each followed by the digest of AngularJS.  \<open>Cell_Editing\<close>: the invariants of every run,
    and that editing refines a table without cells, editors and requests; \<open>Cell_Sessions\<close>: what an
    editor sends over a session of opening, typing, cancelling; \<open>Cell_Rows\<close>: answers to saves and the
    rows they change.  \<open>Popup_Editors\<close>: the editors that open above the page, for lists and for new
    elements, with the global variable \<open>save\<close> that all cells of a page share.
  \<^item> \<open>Form_Fields\<close>, \<open>Form_Collection\<close>: \<open>ion-ng-formfield.js\<close>, the markup of form fields, the watchers and
    callbacks of text fields with choices and of references, and the collection field with its
    actions.  \<open>Col_Field\<close>: \<open>ion-ng-collectionfield.js\<close>, the row of a new element.
  \<^item> \<open>Dialog_Widgets\<close>: the markup of the dialogs and of the small directives, the list's way to its
    search dialog, and a choice followed from the selection dialog into a new element.
    \<open>Selection_Session\<close>: the choice for a form field over any answers, clicks and buttons, with the
    server's rows as a parameter.  \<open>Info_References\<close>: references in mode INFO, whose drawing depends
    on the reference linked last.
  \<^item> \<open>List_Controller\<close>: \<open>ion-ng-list.js\<close>, the controllers of lists, collections and details.
    \<open>List_Session\<close>: a list over any events of user and server, in which the details follow the choice,
    and the page that is refilled after a deletion against the page the server has; what the server
    answers there is read off \<open>AjaxListController.java\<close>.  \<open>List_Location\<close>: over any such events the list is where
    its location is.
  \<^item> \<open>Crypto_Common\<close>, \<open>Crypto_Spa\<close>, \<open>Digital_Sign\<close>, \<open>Crypto_Jt\<close>: the two \<open>cryptopro.js\<close> and the
    certificate dialog of \<open>ion-ng.js\<close>; the signing task of the single-page client is the step
    relation \<open>ds_step\<close> with reachability \<open>ds_reach\<close> and the invariant \<open>ds_inv\<close>.  The plug-in that
    signs is the parameter \<open>plugin\<close>.  \<open>Action_Session\<close>: actions with signatures over any inputs of user
    and server, with the log of what is sent; \<open>digiSignEnabled\<close> is a parameter, and the actions of lists and
    collections, which sign nothing, are among the inputs; \<open>Jt_Session\<close>: the module of the classic client over any
    requests and answers.
  \<^item> \<open>Navigation\<close>, \<open>Dialogs\<close>, \<open>Search_Page\<close>, \<open>Shell\<close>: \<open>ion-ng-sidebar.js\<close>, \<open>ion-ng-modals.js\<close>,
    \<open>ion-ng-search.js\<close> and the frame in \<open>ion-ng.js\<close> and \<open>ion-ng-mtpl.js\<close>.  \<open>Frame_Watch\<close>: the scope of
    the frame, which follows \<open>mtplInfo\<close> by watchers.  \<open>Sidebar_Session\<close>: the side bar over any clicks, in which what
    is chosen is always a path of the menu.
  \<^item> \<open>Ajax_Api\<close>, \<open>Page_Loader\<close>, \<open>Page_Frame\<close>, \<open>Editable\<close>: the classic pages, \<open>ajax-ion-api.js\<close>,
    \<open>main.js\<close> and \<open>editable.js\<close>; the last two threads of control, loading and in-place editing, are
    step functions over an explicit list of events, with invariants over every list of them.
  \<^item> \<open>Page_Parts\<close>: the splitter and its handlers, in both clients, the rolls, and the two functions in
    which \<open>main.js\<close> of the theme \<open>ionweb-jt\<close> differs.
  \<^item> \<open>Locations\<close>: the setter \<open>$location.url\<close> of the \<open>angular.min.js\<close> the client ships, by which one component
    writes a location that another reads: the cut at question mark and hash sign, the decoding, the parameters.
  \<^item> this theory: the properties that span components, by way of the locations they exchange.

  How state corresponds.  A scope, a service object or a set of module variables is a record whose
  fields have the names of the source behind a short prefix; mutation is a returned record.  An
  object that several components share and mutate, the view model of a form, lives in a store of
  its own and is referred to by number.  A document is kept as far as the code reads it back: the
  classes, contents and markup strings of the elements it selects.  Code that is evaluated or
  decoded (\<open>eval\<close>, \<open>atob\<close>, \<open>JSON.stringify\<close>) is a parameter, with what the properties need of it
  as hypotheses.

  What the lemmas show: what every operation sends and stores, on its error paths too; invariants
  of the signing task, the loader, the forms, the lists and the editors under all interleavings of
  user and server;
  round trips of caches, searches, request bodies and side-bar blocks; that every operation returns
  (all recursion is structural or has a measure; only the chain of reloads has fuel); and, where the code does not
  do what it sets out to do, what it does instead.

  Simplifications.  Numbers are integers or NaN, because the client computes with page numbers,
  counts and pixels only; margins that are halved are given doubled.  Comparison of objects by
  reference is by content.  Lists of events are finite, and replies come in any order.

  Not modelled: effects that no code reads back (animations, widths of inputs, input masks, the
  widgets of date pickers and rich text editors), the copies of the classic scripts in other themes,
  the server in Java (but for the method named above) and the libraries (but for the setter of \<open>$location\<close>).
\<close>

section \<open>From one page to the next\<close>

text \<open>
  A location that one component writes with \<open>$location.url\<close> is read by another from \<open>$location\<close>: \<open>location_url\<close>
  of \<open>Locations\<close>, as the Angular of the client takes it apart.  \<open>old\<close> is where the page was before.
\<close>

text \<open>
  C11: Opening the chosen item of a list leads to that item: the location the list writes has a
  route whose controller is the edit form's, and read back there it makes the form request exactly
  the item's key and node, with the view model of the item's class.  This is so as long as class, id and node have
  none of the characters \<open>& = % + #\<close>, for the client does not escape them and reading them back changes or cuts
  them, the class has no colon, which separates it from the id, and the list's node is not the empty text.
\<close>

theorem opened_item_is_requested:
  assumes "lw_item w = JObj (mk_item c i fs)" and "lc_node (lw_scope w) = JStr n"
    and "url_plain c" and "url_plain i" and "url_plain n" and "n \<noteq> []" and "CHR '':'' \<notin> set c"
  shows "\<exists>w' path search q f'. editFunc w = Inr w' \<and> location_url (lw_url w') old = Some (path, search)
    \<and> map_option re_controller (route_to path) = Some (Some ''editController'')
    \<and> location_changed Edit_Form path search f = (Inr (Some q), f')
    \<and> fq_url q = ''spa/editForm'' \<and> oget (fq_object q) ''__node'' = JStr n
    \<and> oget (fq_object q) ''__id'' = JStr (c @ '':'' @ i) \<and> fq_vmc q = c"
proof -
  let ?url = "''/item?__node='' @ n @ ''&__id='' @ c @ '':'' @ i"
  have e: "editFunc w = Inr (w\<lparr>lw_url := ?url\<rparr>)"
    using assms(1,2) item_key_mk_item [of "'':''" c i fs] by (simp add: editFunc_def mk_item_def)
  have l: "location_url ?url old = Some (''/item'', [(''__node'', JStr n), (''__id'', JStr (c @ '':'' @ i))])"
    using location_url_two [of "''item''" "''__node''" n "''__id''" "c @ '':'' @ i" old] assms(3-5) by simp
  have r: "map_option re_controller (route_to ''/item'') = Some (Some ''editController'')"
    by code_simp
  have "\<exists>q f'. location_changed Edit_Form ''/item'' [(''__node'', JStr n), (''__id'', JStr (c @ '':'' @ i))] f
      = (Inr (Some q), f') \<and> fq_url q = ''spa/editForm'' \<and> oget (fq_object q) ''__node'' = JStr n
      \<and> oget (fq_object q) ''__id'' = JStr (c @ '':'' @ i) \<and> fq_vmc q = c"
    using assms(6,7)
    by (simp add: location_changed_def contains_def getRequestObject_def copy_truthy_def form_target_def
        split_on_append Let_def)
  with e l r show ?thesis by auto
qed

definition item_world :: list_world where
  "item_world = (sample_list [])\<lparr>lw_item := JObj (mk_item ''doc'' ''7'' []),
     lw_scope := (lw_scope (sample_list []))\<lparr>lc_node := JStr ''n''\<rparr>\<rparr>"

lemma opened_item_is_requested_witness:
  "\<exists>w' path search q f'. editFunc item_world = Inr w' \<and> location_url (lw_url w') (''/search'', []) = Some (path, search)
    \<and> map_option re_controller (route_to path) = Some (Some ''editController'')
    \<and> location_changed Edit_Form path search empty_form_world = (Inr (Some q), f')
    \<and> fq_url q = ''spa/editForm'' \<and> oget (fq_object q) ''__node'' = JStr ''n''
    \<and> oget (fq_object q) ''__id'' = JStr (''doc'' @ '':'' @ ''7'') \<and> fq_vmc q = ''doc''"
  by (rule opened_item_is_requested) (simp_all add: item_world_def)

text \<open>
  C34: Adding an object to the list of a node that can hold one class leads to the form of that class: the
  location the list writes has a route with the creation form's controller, and read back there it
  makes the form request a new object of the class under the list's node, as long as neither name is empty or has one of
  the characters \<open>& = % + #\<close>.
\<close>

theorem added_class_is_requested:
  assumes "lc_node (lw_scope w) = JStr n" and "\<not> truthy (lc_container (lw_scope w))"
    and "url_plain n" and "url_plain cls" and "n \<noteq> []" and "cls \<noteq> []"
  shows "\<exists>url w' path search q f'. add_reply (getSettings Plain_List) [JObj [(''name'', JStr cls)]] w = Inr (Goto url, w')
    \<and> location_url url old = Some (path, search)
    \<and> map_option re_controller (route_to path) = Some (Some ''createController'')
    \<and> location_changed Create_Form path search f = (Inr (Some q), f')
    \<and> fq_url q = ''spa/createForm'' \<and> oget (fq_object q) ''__node'' = JStr n
    \<and> oget (fq_object q) ''__class'' = JStr cls \<and> fq_vmc q = cls"
proof -
  let ?url = "''/create?__node='' @ n @ ''&__class='' @ cls"
  have a: "\<exists>w'. add_reply (getSettings Plain_List) [JObj [(''name'', JStr cls)]] w = Inr (Goto ?url, w')"
    using assms(1,2) by (simp add: add_reply_def create_url_def Let_def)
  have l: "location_url ?url old = Some (''/create'', [(''__node'', JStr n), (''__class'', JStr cls)])"
    using location_url_two [of "''create''" "''__node''" n "''__class''" cls old] assms(3,4) by simp
  have r: "map_option re_controller (route_to ''/create'') = Some (Some ''createController'')"
    by code_simp
  have "\<exists>q f'. location_changed Create_Form ''/create'' [(''__node'', JStr n), (''__class'', JStr cls)] f
      = (Inr (Some q), f') \<and> fq_url q = ''spa/createForm'' \<and> oget (fq_object q) ''__node'' = JStr n
      \<and> oget (fq_object q) ''__class'' = JStr cls \<and> fq_vmc q = cls"
    using assms(5,6)
    by (simp add: location_changed_def contains_def getRequestObject_def copy_truthy_def form_target_def
        Let_def)
  with a l r show ?thesis by blast
qed

lemma added_class_is_requested_witness:
  "\<exists>url w' path search q f'. add_reply (getSettings Plain_List) [JObj [(''name'', JStr ''doc'')]] item_world
      = Inr (Goto url, w')
    \<and> location_url url (''/search'', []) = Some (path, search)
    \<and> map_option re_controller (route_to path) = Some (Some ''createController'')
    \<and> location_changed Create_Form path search empty_form_world = (Inr (Some q), f')
    \<and> fq_url q = ''spa/createForm'' \<and> oget (fq_object q) ''__node'' = JStr ''n''
    \<and> oget (fq_object q) ''__class'' = JStr ''doc'' \<and> fq_vmc q = ''doc''"
  by (rule added_class_is_requested) (simp_all add: item_world_def sample_list_def init_list_scope_def)

text \<open>
  C33: The button of the side bar shows the list of the node that is chosen deepest: the location it
  writes is the one the list controller watches, and read back there it makes the controller ask
  for the list, its view model and its information, each for that node, as long as its id is not empty and
  has none of the characters \<open>& = % + #\<close>.
\<close>

theorem sidebar_node_is_listed:
  assumes "getNode sel depth = Some m" and "url_plain (mn_id m)" and "mn_id m \<noteq> []"
  shows "\<exists>url path search rqs. sidebar_list sel depth = Inr url \<and> location_url url old = Some (path, search)
    \<and> fst (list_watch dec (getSettings Plain_List) (w\<lparr>lw_path := path, lw_search := search\<rparr>)) = Inr rqs
    \<and> map fst rqs = [''spa/list'', ''spa/list/vm'', ''spa/listinfo'']
    \<and> (\<forall>rq\<in>set rqs. oget (snd rq) ''__node'' = JStr (mn_id m))"
proof -
  let ?search = "[(''__node'', JStr (mn_id m))]"
  have s: "sidebar_list sel depth = Inr (''/list?__node='' @ mn_id m)"
    using assms(1) by (simp add: sidebar_list_def)
  have l: "location_url (''/list?__node='' @ mn_id m) old = Some (''/list'', ?search)"
    using location_url_one [of "''list''" "''__node''" "mn_id m" old] assms(2) by simp
  have "\<exists>rqs. fst (list_watch dec (getSettings Plain_List) (w\<lparr>lw_path := ''/list'', lw_search := ?search\<rparr>)) = Inr rqs
    \<and> map fst rqs = [''spa/list'', ''spa/list/vm'', ''spa/listinfo'']
    \<and> (\<forall>rq\<in>set rqs. oget (snd rq) ''__node'' = JStr (mn_id m))"
    using assms(3)
    by (simp add: list_watch_def refreshList_def list_getRequestObject_def set_default_def cleanParams_def Let_def)
  then obtain rqs where
    "fst (list_watch dec (getSettings Plain_List) (w\<lparr>lw_path := ''/list'', lw_search := ?search\<rparr>)) = Inr rqs"
    "map fst rqs = [''spa/list'', ''spa/list/vm'', ''spa/listinfo'']"
    "\<forall>rq\<in>set rqs. oget (snd rq) ''__node'' = JStr (mn_id m)"
    by (elim exE conjE) (rule that)
  with s l show ?thesis by (intro exI conjI)
qed

lemma sidebar_node_is_listed_witness:
  "\<exists>url path search rqs. sidebar_list \<lparr>sel_at = (\<lambda>_. None), sel_parentNode = Some (MenuNode ''docs'' ''Docs'' ''CLASS'' True None)\<rparr> 0
      = Inr url \<and> location_url url (''/search'', []) = Some (path, search)
    \<and> fst (list_watch (\<lambda>_. Inl TypeError) (getSettings Plain_List) (item_world\<lparr>lw_path := path, lw_search := search\<rparr>)) = Inr rqs
    \<and> map fst rqs = [''spa/list'', ''spa/list/vm'', ''spa/listinfo'']
    \<and> (\<forall>rq\<in>set rqs. oget (snd rq) ''__node'' = JStr ''docs'')"
  using sidebar_node_is_listed [of "\<lparr>sel_at = (\<lambda>_. None), sel_parentNode = Some (MenuNode ''docs'' ''Docs'' ''CLASS'' True None)\<rparr>"
      0 "MenuNode ''docs'' ''Docs'' ''CLASS'' True None" "(''/search'', [])" "\<lambda>_. Inl TypeError" item_world]
  by (simp add: getNode_def item_world_def sample_list_def init_list_scope_def)

end
